(* ===== verification/Prelude.thy ===== *)
theory Prelude imports Complex_Main "HOL-Library.AList" "HOL-Library.List_Lexorder" "HOL-Library.Char_ord" "HOL-Library.Sublist" begin

text \<open>
  Shared vocabulary of the development.

  \<^item> A Python dict is an association list in insertion order: lookup is \<open>map_of\<close>,
    assignment \<open>d[k] = v\<close> is \<open>AList.update k v d\<close>, which keeps the position of a key that is
    present and appends a key that is new, as CPython does.
  \<^item> A \<open>datetime\<close> is an aware UTC instant, counted in microseconds.
  \<^item> A raised exception is the \<open>Inl\<close> of a sum; \<open>and_then\<close> sequences fallible calls.
  \<^item> A lifecycle is an adjacency function; \<open>walk\<close> is a run through it. The locales
    \<open>lifecycle\<close> and \<open>gated_lifecycle\<close> are the contract of a status machine that only moves forward;
    the remediation and the incident lifecycles satisfy it. The table of the RCA investigations has
    self-loops and is not such a machine.
\<close>

named_theorems dom_simps \<open>unfolding of small helper definitions\<close>

named_theorems enum_simps \<open>tables of the closed enumerations\<close>

type_synonym datetime = int
type_synonym ('k, 'v) dict = "('k \<times> 'v) list"

section \<open>Fallible calls\<close>

definition and_then :: "'e + 'a \<Rightarrow> ('a \<Rightarrow> 'e + 'b) \<Rightarrow> 'e + 'b" where
  "and_then m f = (case m of Inl e \<Rightarrow> Inl e | Inr x \<Rightarrow> f x)"

definition guard :: "bool \<Rightarrow> 'e \<Rightarrow> 'e + unit" where
  "guard b e = (if b then Inr () else Inl e)"

lemma and_then_simps [simp]:
  "and_then (Inl e) f = Inl e"
  "and_then (Inr x) f = f x"
  by (simp_all add: and_then_def)

lemma and_then_Inr [simp]:
  "and_then m f = Inr y \<longleftrightarrow> (\<exists>x. m = Inr x \<and> f x = Inr y)"
  by (cases m) auto

lemma guard_simps [simp]:
  "guard True e = Inr ()"
  "guard False e = Inl e"
  by (simp_all add: guard_def)

lemma guard_Inr [simp]: "guard b e = Inr u \<longleftrightarrow> b"
  by (simp add: guard_def)

lemma guard_Inl [simp]: "guard b e = Inl e' \<longleftrightarrow> \<not> b \<and> e' = e"
  by (auto simp: guard_def)

lemma and_then_guard: "and_then (guard b e) f = (if b then f () else Inl e)"
  by simp

lemma map_of_update_if:
  "map_of (AList.update k v d) k' = (if k' = k then Some v else map_of d k')"
  by (simp add: update_conv')

lemma fst_set_update: "fst ` set (AList.update k v d) = insert k (fst ` set d)"
  by (induction d) auto

section \<open>Insertion-ordered dicts\<close>

lemma update_new: "map_of d k = None \<Longrightarrow> AList.update k v d = d @ [(k, v)]"
  by (induction d) (auto split: if_splits)

lemma keys_update_old: "map_of d k = Some w \<Longrightarrow> map fst (AList.update k v d) = map fst d"
  by (induction d) (auto split: if_splits)

lemma distinct_keys_update:
  "distinct (map fst d) \<Longrightarrow> distinct (map fst (AList.update k v d))"
  by (rule distinct_update)

lemma values_update_old:
  "distinct (map fst d) \<Longrightarrow> map_of d k = Some w \<Longrightarrow>
   set (map snd (AList.update k v d)) \<subseteq> insert v (set (map snd d))"
  by (induction d) (auto split: if_splits)

lemma set_update_subset: "set (AList.update k v d) \<subseteq> insert (k, v) (set d)"
  by (induction d) auto

lemma set_update_distinct:
  "distinct (map fst d) \<Longrightarrow>
   set (AList.update k v d) = insert (k, v) {e \<in> set d. fst e \<noteq> k}"
  by (induction d) (auto simp: rev_image_eqI)

section \<open>Lifecycles\<close>

fun walk :: "('s \<Rightarrow> 's set) \<Rightarrow> 's \<Rightarrow> 's list \<Rightarrow> bool" where
  "walk al s [] = True"
| "walk al s (t # ts) = (t \<in> al s \<and> walk al t ts)"

definition reaches :: "('s \<Rightarrow> 's set) \<Rightarrow> 's \<Rightarrow> 's \<Rightarrow> bool" where
  "reaches al s t \<longleftrightarrow> (\<exists>ts. walk al s ts \<and> last (s # ts) = t)"

lemma walk_append:
  "walk al s (ts @ us) \<longleftrightarrow> walk al s ts \<and> walk al (last (s # ts)) us"
  by (induction ts arbitrary: s) auto

lemma reaches_refl [simp, intro]: "reaches al s s"
  unfolding reaches_def by (rule exI [of _ "[]"]) simp

lemma reaches_step: "t \<in> al s \<Longrightarrow> reaches al s t"
  unfolding reaches_def by (rule exI [of _ "[t]"]) simp

lemma reaches_trans [trans]:
  assumes "reaches al s t" and "reaches al t u"
  shows "reaches al s u"
proof -
  from assms obtain ts us where "walk al s ts" "last (s # ts) = t"
    and "walk al t us" "last (t # us) = u"
    unfolding reaches_def by auto
  then have "walk al s (ts @ us)" and "last (s # ts @ us) = u"
    by (auto simp: walk_append split: if_splits)
  then show ?thesis unfolding reaches_def by blast
qed

lemma walk_stuck: "walk al s ts \<Longrightarrow> al s = {} \<Longrightarrow> ts = []"
  by (cases ts) auto

lemma reaches_stuck: "reaches al s t \<Longrightarrow> al s = {} \<Longrightarrow> t = s"
  unfolding reaches_def by (auto dest: walk_stuck)

text \<open>
  What a status machine promises its callers: every allowed move makes progress in a rank, so no
  status is ever visited twice and every run is bounded.
\<close>

locale lifecycle =
  fixes allowed :: "'s \<Rightarrow> 's set" and rank :: "'s \<Rightarrow> nat"
  assumes progress: "t \<in> allowed s \<Longrightarrow> rank s < rank t"
begin

lemma walk_rank: "walk allowed s ts \<Longrightarrow> t \<in> set ts \<Longrightarrow> rank s < rank t"
proof (induction ts arbitrary: s)
  case (Cons u us)
  then have "rank s < rank u" and "walk allowed u us" by (auto intro: progress)
  with Cons show ?case by (auto intro: less_trans)
qed simp

lemma walk_distinct: "walk allowed s ts \<Longrightarrow> distinct (s # ts)"
proof (induction ts arbitrary: s)
  case (Cons u us)
  then show ?case using walk_rank [of s "u # us" s] by auto
qed simp

lemma walk_length: "walk allowed s ts \<Longrightarrow> length ts + rank s \<le> rank (last (s # ts))"
proof (induction ts arbitrary: s)
  case (Cons u us)
  then have "rank s < rank u" by (auto intro: progress)
  moreover from Cons have "length us + rank u \<le> rank (last (u # us))" by auto
  ultimately show ?case by auto
qed simp

lemma no_return: "walk allowed s ts \<Longrightarrow> ts \<noteq> [] \<Longrightarrow> last ts \<noteq> s"
  using walk_distinct [of s ts] by auto

lemma reaches_antisym: "reaches allowed s t \<Longrightarrow> reaches allowed t s \<Longrightarrow> s = t"
  unfolding reaches_def using walk_length by (metis add_leD2 le_antisym length_0_conv add_le_cancel_right
      last_ConsL le_zero_eq add_0)

end

text \<open>
  A lifecycle with a gate: one status can be entered from one predecessor only, so a run that
  ends behind the gate has passed the predecessor first.
\<close>

locale gated_lifecycle = lifecycle +
  fixes gate :: 's and pre :: 's
  assumes only_pre: "gate \<in> allowed s \<Longrightarrow> s = pre"
begin

lemma pre_before_gate:
  "walk allowed s ts \<Longrightarrow> gate \<in> set ts \<Longrightarrow>
   \<exists>us vs. s # ts = us @ pre # gate # vs"
proof (induction ts arbitrary: s)
  case (Cons u us)
  show ?case
  proof (cases "u = gate")
    case True
    with Cons.prems have "s = pre" by (auto intro: only_pre)
    with True show ?thesis by (metis append_Nil)
  next
    case False
    with Cons.prems have "walk allowed u us" "gate \<in> set us" by auto
    then obtain ps qs where "u # us = ps @ pre # gate # qs" using Cons.IH by blast
    then have "s # u # us = (s # ps) @ pre # gate # qs" by simp
    then show ?thesis by blast
  qed
qed simp

lemma gate_visits_pre: "walk allowed s ts \<Longrightarrow> gate \<in> set ts \<Longrightarrow> pre \<in> set (s # ts)"
  using pre_before_gate [of s ts] by (metis in_set_conv_decomp)

end

end
