(* ===== verification/PyText.thy ===== *)
theory PyText imports Prelude begin

text \<open>
  The part of Python's \<open>str\<close>, \<open>re\<close> and formatting that the program uses.

  A \<open>str\<close> is a \<open>string\<close> whose characters are read in the Windows-1252 code page, so that one
  \<open>char\<close> is one Python character and the ellipsis that the code appends is \<open>CHR 0x85\<close>.
  Regular expressions are evaluated by backtracking in Python's priority order: \<open>rx_ends\<close> lists the
  positions where a match can end, the preferred one first. A position is the character before it
  (\<open>\b\<close> looks at it) and the rest of the text. Floats are exact rationals.
\<close>

section \<open>Characters\<close>

abbreviation code :: "char \<Rightarrow> nat" where "code c \<equiv> of_char c"

definition is_digit :: "char \<Rightarrow> bool" where
  "is_digit c \<longleftrightarrow> 48 \<le> code c \<and> code c \<le> 57"

definition is_upper :: "char \<Rightarrow> bool" where
  "is_upper c \<longleftrightarrow> 65 \<le> code c \<and> code c \<le> 90"

definition is_lower :: "char \<Rightarrow> bool" where
  "is_lower c \<longleftrightarrow> 97 \<le> code c \<and> code c \<le> 122"

definition is_hex :: "char \<Rightarrow> bool" where
  "is_hex c \<longleftrightarrow> is_digit c \<or> (97 \<le> code c \<and> code c \<le> 102)"

definition is_alnum :: "char \<Rightarrow> bool" where
  "is_alnum c \<longleftrightarrow> is_digit c \<or> is_upper c \<or> is_lower c"

definition is_word :: "char \<Rightarrow> bool" where
  "is_word c \<longleftrightarrow> is_alnum c \<or> code c = 95 \<or>
     code c \<in> {0x83, 0x88, 0x8A, 0x8C, 0x8E, 0x9A, 0x9C, 0x9E, 0x9F, 0xAA, 0xB2, 0xB3, 0xB5, 0xB9, 0xBA,
              0xBC, 0xBD, 0xBE} \<or> (0xC0 \<le> code c \<and> code c \<noteq> 0xD7 \<and> code c \<noteq> 0xF7)"

definition is_space :: "char \<Rightarrow> bool" where
  "is_space c \<longleftrightarrow> (9 \<le> code c \<and> code c \<le> 13) \<or> (28 \<le> code c \<and> code c \<le> 32) \<or> code c = 0xA0"

definition one_of :: "string \<Rightarrow> char \<Rightarrow> bool" where
  "one_of cs c \<longleftrightarrow> c \<in> set cs"

definition lower_char :: "char \<Rightarrow> char" where
  "lower_char c = (if is_upper c then char_of (code c + 32) else c)"

definition ellipsis :: char where "ellipsis = CHR 0x85"

definition newline :: char where "newline = CHR 0x0A"

definition strip :: "string \<Rightarrow> string" where
  "strip s = rev (dropWhile is_space (rev (dropWhile is_space s)))"

section \<open>Regular expressions\<close>

datatype rx =
    Eps
  | Cls "char \<Rightarrow> bool"
  | Rep "char \<Rightarrow> bool" nat "nat option"
  | Cat rx rx
  | Alt rx rx
  | WordB
  | Dollar

type_synonym pos = "char option \<times> string"

fun dec :: "nat option \<Rightarrow> nat option" where
  "dec None = None"
| "dec (Some n) = Some (n - 1)"

fun run_ends :: "(char \<Rightarrow> bool) \<Rightarrow> nat \<Rightarrow> nat option \<Rightarrow> char option \<Rightarrow> string \<Rightarrow> pos list" where
  "run_ends p lo hi prev [] = (if lo = 0 then [(prev, [])] else [])"
| "run_ends p lo hi prev (c # cs) =
     (if p c \<and> hi \<noteq> Some 0 then run_ends p (lo - 1) (dec hi) (Some c) cs else []) @
     (if lo = 0 then [(prev, c # cs)] else [])"

fun word_at :: "char option \<Rightarrow> bool" where
  "word_at None = False"
| "word_at (Some c) = is_word c"

fun first_char :: "string \<Rightarrow> char option" where
  "first_char [] = None"
| "first_char (c # cs) = Some c"

primrec rx_ends :: "rx \<Rightarrow> pos \<Rightarrow> pos list" where
  "rx_ends Eps st = [st]"
| "rx_ends (Cls p) st = (case snd st of [] \<Rightarrow> [] | c # cs \<Rightarrow> if p c then [(Some c, cs)] else [])"
| "rx_ends (Rep p lo hi) st = run_ends p lo hi (fst st) (snd st)"
| "rx_ends (Cat a b) st = concat (map (rx_ends b) (rx_ends a st))"
| "rx_ends (Alt a b) st = rx_ends a st @ rx_ends b st"
| "rx_ends WordB st = (if word_at (fst st) \<noteq> word_at (first_char (snd st)) then [st] else [])"
| "rx_ends Dollar st = (if snd st = [] \<or> snd st = [newline] then [st] else [])"

primrec lit :: "string \<Rightarrow> rx" where
  "lit [] = Eps"
| "lit (c # cs) = Cat (Cls (\<lambda>d. d = c)) (lit cs)"

primrec alts :: "string list \<Rightarrow> rx \<Rightarrow> rx" where
  "alts [] r = r"
| "alts (s # ss) r = Alt (lit s) (alts ss r)"

primrec cats :: "rx list \<Rightarrow> rx" where
  "cats [] = Eps"
| "cats (r # rs) = Cat r (cats rs)"

text \<open>\<open>re.match\<close>, \<open>re.fullmatch\<close>, \<open>re.search\<close> and \<open>re.sub\<close>.\<close>

definition re_match :: "rx \<Rightarrow> string \<Rightarrow> bool" where
  "re_match r s \<longleftrightarrow> rx_ends r (None, s) \<noteq> []"

definition re_fullmatch :: "rx \<Rightarrow> string \<Rightarrow> bool" where
  "re_fullmatch r s \<longleftrightarrow> (\<exists>e \<in> set (rx_ends r (None, s)). snd e = [])"

fun search_from :: "rx \<Rightarrow> char option \<Rightarrow> string \<Rightarrow> bool" where
  "search_from r prev [] = (rx_ends r (prev, []) \<noteq> [])"
| "search_from r prev (c # cs) = (rx_ends r (prev, c # cs) \<noteq> [] \<or> search_from r (Some c) cs)"

definition re_search :: "rx \<Rightarrow> string \<Rightarrow> bool" where
  "re_search r s = search_from r None s"

text \<open>
  \<open>re.sub\<close> for expressions that never match the empty text, which is all the program substitutes:
  a match that consumes nothing is passed over.
\<close>

function sub_from :: "rx \<Rightarrow> string \<Rightarrow> char option \<Rightarrow> string \<Rightarrow> string" where
  "sub_from r rep prev [] = []"
| "sub_from r rep prev (c # cs) =
     (case rx_ends r (prev, c # cs) of
        [] \<Rightarrow> c # sub_from r rep (Some c) cs
      | e # _ \<Rightarrow> if length (snd e) \<le> length cs then rep @ sub_from r rep (fst e) (snd e)
                else c # sub_from r rep (Some c) cs)"
  by pat_completeness auto
termination
  by (relation "measure (\<lambda>(r, rep, prev, s). length s)") auto

definition re_sub :: "rx \<Rightarrow> string \<Rightarrow> string \<Rightarrow> string" where
  "re_sub r rep s = sub_from r rep None s"

section \<open>Rendering values\<close>

definition digit_char :: "nat \<Rightarrow> char" where
  "digit_char n = char_of (48 + n)"

fun nat_str :: "nat \<Rightarrow> string" where
  "nat_str n = (if n < 10 then [digit_char n] else nat_str (n div 10) @ [digit_char (n mod 10)])"

declare nat_str.simps [simp del]

definition int_str :: "int \<Rightarrow> string" where
  "int_str i = (if i < 0 then ''-'' @ nat_str (nat (- i)) else nat_str (nat i))"

definition pad :: "nat \<Rightarrow> string \<Rightarrow> string" where
  "pad n s = replicate (n - length s) (CHR ''0'') @ s"

definition bool_str :: "bool \<Rightarrow> string" where
  "bool_str b = (if b then ''True'' else ''False'')"

fun join :: "string \<Rightarrow> string list \<Rightarrow> string" where
  "join sep [] = []"
| "join sep [x] = x"
| "join sep (x # y # xs) = x @ sep @ join sep (y # xs)"

text \<open>\<open>repr\<close> of a string: single quotes unless the text holds one and no double quote.\<close>

definition hex_char :: "nat \<Rightarrow> char" where
  "hex_char n = (if n < 10 then digit_char n else char_of (87 + n))"

definition repr_char :: "char \<Rightarrow> char \<Rightarrow> string" where
  "repr_char q c =
     (if c = q \<or> c = CHR 0x5C then [CHR 0x5C, c]
      else if c = CHR 0x09 then [CHR 0x5C, CHR ''t'']
      else if c = CHR 0x0A then [CHR 0x5C, CHR ''n'']
      else if c = CHR 0x0D then [CHR 0x5C, CHR ''r'']
      else if code c < 32 \<or> code c \<in> {0x7F, 0xA0, 0xAD}
        then [CHR 0x5C, CHR ''x'', hex_char (code c div 16), hex_char (code c mod 16)]
      else [c])"

definition repr_str :: "string \<Rightarrow> string" where
  "repr_str s =
     (let q = (if CHR 0x27 \<in> set s \<and> CHR 0x22 \<notin> set s then CHR 0x22 else CHR 0x27)
      in [q] @ concat (map (repr_char q) s) @ [q])"

definition repr_str_list :: "string list \<Rightarrow> string" where
  "repr_str_list xs = ''['' @ join '', '' (map repr_str xs) @ '']''"

text \<open>\<open>f"{x:.kf}"\<close> and \<open>round(x, k)\<close>: half-even on the exact value.\<close>

definition round_even :: "rat \<Rightarrow> int" where
  "round_even x =
     (let f = \<lfloor>x\<rfloor>; d = x - of_int f
      in if d < 1 / 2 then f else if 1 / 2 < d then f + 1 else if even f then f else f + 1)"

definition fixed_str :: "nat \<Rightarrow> rat \<Rightarrow> string" where
  "fixed_str k x =
     (let n = round_even (\<bar>x\<bar> * 10 ^ k); w = nat n
      in (if x < 0 then ''-'' else '''') @ nat_str (w div 10 ^ k) @
         (if k = 0 then '''' else ''.'' @ pad k (nat_str (w mod 10 ^ k))))"

definition round_to :: "nat \<Rightarrow> rat \<Rightarrow> rat" where
  "round_to k x = of_int (round_even (x * 10 ^ k)) / 10 ^ k"

text \<open>\<open>str\<close> of a float that is a decimal of at most \<open>fuel\<close> places, in positional range.\<close>

fun float_places :: "nat \<Rightarrow> nat \<Rightarrow> rat \<Rightarrow> nat" where
  "float_places 0 k x = k"
| "float_places (Suc fuel) k x = (if of_int \<lfloor>x * 10 ^ k\<rfloor> = x * 10 ^ k then k else float_places fuel (Suc k) x)"

definition float_str :: "rat \<Rightarrow> string" where
  "float_str x = fixed_str (float_places 15 1 x) x"

text \<open>
  \<open>datetime.isoformat()\<close> of an aware UTC instant, in the proleptic Gregorian calendar. The fraction
  is printed only when it is not zero.
\<close>

definition civil :: "int \<Rightarrow> int \<times> int \<times> int" where
  "civil days =
     (let z = days + 719468; era = z div 146097; doe = z mod 146097;
          yoe = (doe - doe div 1460 + doe div 36524 - doe div 146096) div 365;
          doy = doe - (365 * yoe + yoe div 4 - yoe div 100);
          mp = (5 * doy + 2) div 153;
          m = (if mp < 10 then mp + 3 else mp - 9)
      in (yoe + era * 400 + (if m \<le> 2 then 1 else 0), m, doy - (153 * mp + 2) div 5 + 1))"

definition two :: "int \<Rightarrow> string" where
  "two i = pad 2 (int_str i)"

definition isoformat :: "datetime \<Rightarrow> string" where
  "isoformat t =
     (let us = t mod 1000000; secs = t div 1000000; day = secs div 86400; s = secs mod 86400
      in case civil day of (y, m, d) \<Rightarrow>
         pad 4 (int_str y) @ ''-'' @ two m @ ''-'' @ two d @ ''T'' @
         two (s div 3600) @ '':'' @ two (s div 60 mod 60) @ '':'' @ two (s mod 60) @
         (if us = 0 then '''' else ''.'' @ pad 6 (int_str us)) @ ''+00:00'')"

section \<open>Facts about matching\<close>

lemma run_ends_suffix: "e \<in> set (run_ends p lo hi prev s) \<Longrightarrow> suffix (snd e) s"
  by (induction p lo hi prev s rule: run_ends.induct) (auto intro: suffix_ConsI split: if_splits)

lemma rx_ends_suffix: "e \<in> set (rx_ends r st) \<Longrightarrow> suffix (snd e) (snd st)"
proof (induction r arbitrary: st e)
  case (Cls p)
  then show ?case by (cases "snd st") (auto split: if_splits intro: suffix_ConsI)
next
  case (Cat a b)
  from Cat.prems obtain m where "m \<in> set (rx_ends a st)" and "e \<in> set (rx_ends b m)" by auto
  then show ?case using Cat.IH by (meson suffix_order.trans)
qed (auto dest: run_ends_suffix split: if_splits)

lemma length_take_le: "length (take n xs) \<le> n"
  by simp

lemma nat_str_nonempty: "nat_str n \<noteq> []"
  by (subst nat_str.simps) simp

lemma length_nat_str: "n < 10 ^ k \<Longrightarrow> 0 < k \<Longrightarrow> length (nat_str n) \<le> k"
proof (induction k arbitrary: n)
  case (Suc k)
  show ?case
  proof (cases "n < 10")
    case True
    then show ?thesis by (subst nat_str.simps) simp
  next
    case False
    then have "0 < k" using Suc.prems by (cases k) auto
    moreover have "n div 10 < 10 ^ k" using Suc.prems by (simp add: less_mult_imp_div_less mult.commute)
    ultimately show ?thesis using Suc.IH [of "n div 10"] False by (subst nat_str.simps) simp
  qed
qed simp

end
