(* ===== verification/RemDomain.thy ===== *)
theory RemDomain imports PyText begin

text \<open>
  The vocabulary of the remediation controller: \<open>domain/enums.py\<close>, \<open>domain/errors.py\<close>,
  \<open>domain/models.py\<close> and \<open>domain/state_machine.py\<close>, with the errors of \<open>repository.py\<close> and
  \<open>policy/errors.py\<close>. Enum members keep their source names; the \<open>_str\<close> functions are their values.
\<close>

section \<open>Enumerations\<close>

datatype action_type = RESTART_SERVICE | SCALE_SERVICE | ROLL_BACK_DEPLOYMENT | DISABLE_FEATURE_FLAG

datatype rem_status =
    PROPOSED | POLICY_EVALUATION | PENDING_APPROVAL | APPROVED | EXECUTING | EXECUTED | VERIFYING
  | BLOCKED | REJECTED | EXPIRED | EXECUTION_FAILED | RECOVERED | RECOVERY_FAILED

datatype risk_level = RISK_LOW | RISK_MEDIUM | RISK_HIGH

datatype executor_type = LOCAL_SIMULATION

datatype execution_status = ES_STARTED | ES_SUCCEEDED | ES_FAILED

datatype target_type = SERVICE

datatype trigger = RCA_RECOMMENDATION | MANUAL

datatype approval_decision = APPROVE | REJECT

datatype approver_role = OPERATOR | INCIDENT_RESPONDER | ADMINISTRATOR

fun action_str :: "action_type \<Rightarrow> string" where
  "action_str RESTART_SERVICE = ''RESTART_SERVICE''"
| "action_str SCALE_SERVICE = ''SCALE_SERVICE''"
| "action_str ROLL_BACK_DEPLOYMENT = ''ROLL_BACK_DEPLOYMENT''"
| "action_str DISABLE_FEATURE_FLAG = ''DISABLE_FEATURE_FLAG''"

fun status_str :: "rem_status \<Rightarrow> string" where
  "status_str PROPOSED = ''PROPOSED''"
| "status_str POLICY_EVALUATION = ''POLICY_EVALUATION''"
| "status_str PENDING_APPROVAL = ''PENDING_APPROVAL''"
| "status_str APPROVED = ''APPROVED''"
| "status_str EXECUTING = ''EXECUTING''"
| "status_str EXECUTED = ''EXECUTED''"
| "status_str VERIFYING = ''VERIFYING''"
| "status_str BLOCKED = ''BLOCKED''"
| "status_str REJECTED = ''REJECTED''"
| "status_str EXPIRED = ''EXPIRED''"
| "status_str EXECUTION_FAILED = ''EXECUTION_FAILED''"
| "status_str RECOVERED = ''RECOVERED''"
| "status_str RECOVERY_FAILED = ''RECOVERY_FAILED''"

fun risk_str :: "risk_level \<Rightarrow> string" where
  "risk_str RISK_LOW = ''LOW''"
| "risk_str RISK_MEDIUM = ''MEDIUM''"
| "risk_str RISK_HIGH = ''HIGH''"

fun executor_str :: "executor_type \<Rightarrow> string" where
  "executor_str LOCAL_SIMULATION = ''LOCAL_SIMULATION''"

fun execution_status_str :: "execution_status \<Rightarrow> string" where
  "execution_status_str ES_STARTED = ''STARTED''"
| "execution_status_str ES_SUCCEEDED = ''SUCCEEDED''"
| "execution_status_str ES_FAILED = ''FAILED''"

fun target_type_str :: "target_type \<Rightarrow> string" where
  "target_type_str SERVICE = ''SERVICE''"

fun trigger_str :: "trigger \<Rightarrow> string" where
  "trigger_str RCA_RECOMMENDATION = ''RCA_RECOMMENDATION''"
| "trigger_str MANUAL = ''MANUAL''"

fun decision_str :: "approval_decision \<Rightarrow> string" where
  "decision_str APPROVE = ''APPROVE''"
| "decision_str REJECT = ''REJECT''"

fun role_str :: "approver_role \<Rightarrow> string" where
  "role_str OPERATOR = ''OPERATOR''"
| "role_str INCIDENT_RESPONDER = ''INCIDENT_RESPONDER''"
| "role_str ADMINISTRATOR = ''ADMINISTRATOR''"

definition all_actions :: "action_type list" where
  "all_actions = [RESTART_SERVICE, SCALE_SERVICE, ROLL_BACK_DEPLOYMENT, DISABLE_FEATURE_FLAG]"

definition all_statuses :: "rem_status list" where
  "all_statuses =
     [PROPOSED, POLICY_EVALUATION, PENDING_APPROVAL, APPROVED, EXECUTING, EXECUTED, VERIFYING,
      BLOCKED, REJECTED, EXPIRED, EXECUTION_FAILED, RECOVERED, RECOVERY_FAILED]"

lemma set_all_actions [simp]: "set all_actions = UNIV"
  unfolding all_actions_def by (auto intro: action_type.exhaust)

lemma set_all_statuses [simp]: "set all_statuses = UNIV"
  unfolding all_statuses_def by (auto intro: rem_status.exhaust)

fun is_terminal :: "rem_status \<Rightarrow> bool" where
  "is_terminal BLOCKED = True"
| "is_terminal REJECTED = True"
| "is_terminal EXPIRED = True"
| "is_terminal EXECUTION_FAILED = True"
| "is_terminal RECOVERED = True"
| "is_terminal RECOVERY_FAILED = True"
| "is_terminal _ = False"

definition TERMINAL_STATUSES :: "rem_status set" where
  "TERMINAL_STATUSES = {s. is_terminal s}"

definition ACTIVE_STATUSES :: "rem_status set" where
  "ACTIVE_STATUSES = {s. \<not> is_terminal s}"

text \<open>\<open>RiskLevel.rank\<close>, and the order it induces.\<close>

fun risk_rank :: "risk_level \<Rightarrow> nat" where
  "risk_rank RISK_LOW = 0"
| "risk_rank RISK_MEDIUM = 1"
| "risk_rank RISK_HIGH = 2"

instantiation risk_level :: linorder
begin

definition less_eq_risk_level :: "risk_level \<Rightarrow> risk_level \<Rightarrow> bool" where
  "less_eq_risk_level a b \<longleftrightarrow> risk_rank a \<le> risk_rank b"

definition less_risk_level :: "risk_level \<Rightarrow> risk_level \<Rightarrow> bool" where
  "less_risk_level a b \<longleftrightarrow> risk_rank a < risk_rank b"

instance
proof
  fix a b :: risk_level
  show "a \<le> b \<Longrightarrow> b \<le> a \<Longrightarrow> a = b"
    by (cases a; cases b) (simp_all add: less_eq_risk_level_def)
qed (auto simp: less_eq_risk_level_def less_risk_level_def)

end

section \<open>Errors\<close>

text \<open>
  One constructor per exception class. The text is kept where the code stores or parses it
  (\<open>str(exc)\<close> of a parameter error becomes a violation's detail, a block reason goes to the
  client); the other messages are log text only. \<open>ValidationError\<close> is pydantic's.
\<close>

datatype rem_error =
    UnknownActionError
  | UnknownTargetError
  | ParameterValidationError string
  | InvalidRemediationTransition
  | ApprovalError
  | PolicyError
  | RemediationNotFoundError
  | RemediationAlreadyDecidedError
  | InvalidRemediationStateError
  | RemediationExpiredError
  | RemediationPolicyBlockedError
  | UnauthorizedApproverError
  | ProposalNotMappableError string
  | RemediationExecutionConflictError
  | RecoveryVerificationConflictError
  | RemediationExistsError
  | ValidationError
  | AssertionError

section \<open>State machine\<close>

fun allowed_transitions :: "rem_status \<Rightarrow> rem_status set" where
  "allowed_transitions PROPOSED = {POLICY_EVALUATION, BLOCKED}"
| "allowed_transitions POLICY_EVALUATION = {PENDING_APPROVAL, BLOCKED}"
| "allowed_transitions PENDING_APPROVAL = {APPROVED, REJECTED, EXPIRED}"
| "allowed_transitions APPROVED = {EXECUTING, EXPIRED}"
| "allowed_transitions EXECUTING = {EXECUTED, EXECUTION_FAILED}"
| "allowed_transitions EXECUTED = {VERIFYING}"
| "allowed_transitions VERIFYING = {RECOVERED, RECOVERY_FAILED}"
| "allowed_transitions BLOCKED = {}"
| "allowed_transitions REJECTED = {}"
| "allowed_transitions EXPIRED = {}"
| "allowed_transitions EXECUTION_FAILED = {}"
| "allowed_transitions RECOVERED = {}"
| "allowed_transitions RECOVERY_FAILED = {}"

definition can_transition :: "rem_status \<Rightarrow> rem_status \<Rightarrow> bool" where
  "can_transition current tgt \<longleftrightarrow> tgt \<in> allowed_transitions current"

definition validate_transition :: "rem_status \<Rightarrow> rem_status \<Rightarrow> rem_error + unit" where
  "validate_transition current tgt = guard (can_transition current tgt) InvalidRemediationTransition"

text \<open>The rank along which every transition makes progress.\<close>

fun status_rank :: "rem_status \<Rightarrow> nat" where
  "status_rank PROPOSED = 0"
| "status_rank POLICY_EVALUATION = 1"
| "status_rank PENDING_APPROVAL = 2"
| "status_rank APPROVED = 3"
| "status_rank EXECUTING = 4"
| "status_rank EXECUTED = 5"
| "status_rank VERIFYING = 6"
| "status_rank _ = 7"

interpretation rem: lifecycle allowed_transitions status_rank
proof
  show "t \<in> allowed_transitions s \<Longrightarrow> status_rank s < status_rank t" for s t
    by (cases s) auto
qed

interpretation rem_exec: gated_lifecycle allowed_transitions status_rank EXECUTING APPROVED
proof
  show "EXECUTING \<in> allowed_transitions s \<Longrightarrow> s = APPROVED" for s by (cases s) auto
qed

interpretation rem_verify: gated_lifecycle allowed_transitions status_rank VERIFYING EXECUTED
proof
  show "VERIFYING \<in> allowed_transitions s \<Longrightarrow> s = EXECUTED" for s by (cases s) auto
qed

interpretation rem_recovered: gated_lifecycle allowed_transitions status_rank RECOVERED VERIFYING
proof
  show "RECOVERED \<in> allowed_transitions s \<Longrightarrow> s = VERIFYING" for s by (cases s) auto
qed

lemma validate_transition_Inr [simp]:
  "validate_transition s t = Inr u \<longleftrightarrow> t \<in> allowed_transitions s"
  by (simp add: validate_transition_def can_transition_def)

lemma terminal_iff_stuck: "is_terminal s \<longleftrightarrow> allowed_transitions s = {}"
  by (cases s) auto

lemma terminal_reaches: "is_terminal s \<Longrightarrow> reaches allowed_transitions s t \<Longrightarrow> t = s"
  by (auto simp: terminal_iff_stuck dest: reaches_stuck)

section \<open>Identifiers\<close>

definition hex_tail :: "nat \<Rightarrow> nat \<Rightarrow> rx" where
  "hex_tail lo hi = Rep is_hex lo (Some hi)"

definition incident_id_ok :: "string \<Rightarrow> bool" where
  "incident_id_ok s = re_fullmatch (Cat (lit ''inc_'') (hex_tail 6 32)) s"

definition investigation_id_ok :: "string \<Rightarrow> bool" where
  "investigation_id_ok s = re_fullmatch (Cat (lit ''rca_'') (hex_tail 16 16)) s"

definition remediation_id_ok :: "string \<Rightarrow> bool" where
  "remediation_id_ok s = re_fullmatch (Cat (lit ''rem_'') (hex_tail 16 16)) s"

definition approval_id_ok :: "string \<Rightarrow> bool" where
  "approval_id_ok s = re_fullmatch (Cat (lit ''apr_'') (hex_tail 16 16)) s"

text \<open>
  The random part, \<open>secrets.token_hex(8)\<close>, is drawn by the caller of the model: \<open>token_ok\<close> is what
  the library documents about it.
\<close>

definition token_ok :: "string \<Rightarrow> bool" where
  "token_ok t \<longleftrightarrow> length t = 16 \<and> (\<forall>c \<in> set t. is_hex c)"

definition new_remediation_id :: "string \<Rightarrow> string" where
  "new_remediation_id tok = ''rem_'' @ tok"

definition new_approval_id :: "string \<Rightarrow> string" where
  "new_approval_id tok = ''apr_'' @ tok"

section \<open>Targets\<close>

definition ALLOWED_TARGET_SERVICES :: "string set" where
  "ALLOWED_TARGET_SERVICES = {''orders-service''}"

definition ALLOWED_ENVIRONMENTS :: "string set" where
  "ALLOWED_ENVIRONMENTS = {''development'', ''staging'', ''production''}"

record service_target =
  tg_type :: target_type
  tg_service :: string
  tg_environment :: string

definition slug_char :: "char \<Rightarrow> bool" where
  "slug_char c \<longleftrightarrow> is_lower c \<or> is_digit c \<or> c = CHR ''-''"

definition service_name_rx :: rx where
  "service_name_rx = cats [Cls is_lower, Rep slug_char 1 (Some 62), Dollar]"

definition mk_service_target :: "string \<Rightarrow> string \<Rightarrow> rem_error + service_target" where
  "mk_service_target name env =
     (if 2 \<le> length name \<and> length name \<le> 63 \<and> re_match service_name_rx name \<and> env \<in> ALLOWED_ENVIRONMENTS
      then Inr \<lparr>tg_type = SERVICE, tg_service = name, tg_environment = env\<rparr>
      else Inl ValidationError)"

definition target_str :: "service_target \<Rightarrow> string" where
  "target_str t = tg_service t @ '':'' @ tg_environment t"

definition is_allowed_service :: "string \<Rightarrow> bool" where
  "is_allowed_service s \<longleftrightarrow> s \<in> ALLOWED_TARGET_SERVICES"

definition resolve_target :: "service_target \<Rightarrow> rem_error + service_target" where
  "resolve_target t = (if is_allowed_service (tg_service t) then Inr t else Inl UnknownTargetError)"

section \<open>Approvals\<close>

record approval =
  ap_id :: string
  ap_remediation_id :: string
  ap_decision :: approval_decision
  ap_identity :: string
  ap_role :: approver_role
  ap_reason :: string
  ap_decided_at :: datetime

definition mk_approval ::
  "string \<Rightarrow> string \<Rightarrow> approval_decision \<Rightarrow> string \<Rightarrow> approver_role \<Rightarrow> string \<Rightarrow> datetime \<Rightarrow> rem_error + approval" where
  "mk_approval aid rid d who role why ts =
     (if approval_id_ok aid \<and> remediation_id_ok rid \<and> 1 \<le> length who \<and> length who \<le> 128 \<and>
         length why \<le> 1000 \<and> strip who \<noteq> []
      then Inr \<lparr>ap_id = aid, ap_remediation_id = rid, ap_decision = d, ap_identity = who, ap_role = role,
                ap_reason = why, ap_decided_at = ts\<rparr>
      else Inl ValidationError)"

lemma mk_approval_Inr:
  "mk_approval aid rid d who role why ts = Inr a \<Longrightarrow>
   ap_id a = aid \<and> ap_remediation_id a = rid \<and> ap_decision a = d \<and> ap_identity a = who \<and>
   ap_role a = role \<and> ap_decided_at a = ts \<and> strip (ap_identity a) \<noteq> []"
  by (auto simp: mk_approval_def split: if_splits)

lemma mk_service_target_Inr:
  "mk_service_target n e = Inr t \<Longrightarrow> tg_service t = n \<and> tg_environment t = e \<and> e \<in> ALLOWED_ENVIRONMENTS"
  by (auto simp: mk_service_target_def split: if_splits)

end
