(* ===== verification/Catalogue.thy ===== *)
theory Catalogue imports RemDomain begin

text \<open>
  The closed action catalogue, \<open>domain/catalogue.py\<close>, and the approval matrix of
  \<open>authorization.py\<close>, which reads the catalogue's risk level. A parameter value is a Python object:
  the three types a parameter may hold, and \<open>POther\<close> for any other one, with the name of its type.
\<close>

section \<open>Parameter values\<close>

datatype pyobj = PStr string | PInt int | PBool bool | POther string

fun type_name :: "pyobj \<Rightarrow> string" where
  "type_name (PStr s) = ''str''"
| "type_name (PInt i) = ''int''"
| "type_name (PBool b) = ''bool''"
| "type_name (POther t) = t"

fun is_scalar :: "pyobj \<Rightarrow> bool" where
  "is_scalar (POther t) = False"
| "is_scalar v = True"

datatype value_type = VInt | VString

record action_parameter =
  prm_name :: string
  prm_description :: string
  prm_required :: bool
  prm_type :: value_type
  prm_min :: "int option"
  prm_max :: "int option"
  prm_pattern :: "rx option"
  prm_allowed :: "string list option"

record action_definition =
  ad_type :: action_type
  ad_description :: string
  ad_target_types :: "target_type set"
  ad_target_services :: "string set"
  ad_severities :: "string set"
  ad_requires_approval :: bool
  ad_risk :: risk_level
  ad_executor :: executor_type
  ad_max_blast_radius :: int
  ad_timeout_seconds :: int
  ad_cooldown_seconds :: int
  ad_parameters :: "action_parameter list"

definition required_parameter_names :: "action_definition \<Rightarrow> string list" where
  "required_parameter_names d = map prm_name (filter prm_required (ad_parameters d))"

section \<open>The catalogue\<close>

definition SEVERITIES :: "string set" where
  "SEVERITIES = {''INFO'', ''LOW'', ''MEDIUM'', ''HIGH'', ''CRITICAL''}"

definition ALLOWED_ACTION_TARGET_SERVICES :: "string set" where
  "ALLOWED_ACTION_TARGET_SERVICES = {''orders-service''}"

definition HIGHER_SEVERITIES :: "string set" where
  "HIGHER_SEVERITIES = {''MEDIUM'', ''HIGH'', ''CRITICAL''}"

definition mk_def ::
  "action_type \<Rightarrow> string \<Rightarrow> risk_level \<Rightarrow> string set \<Rightarrow> int \<Rightarrow> int \<Rightarrow> int \<Rightarrow> action_parameter list \<Rightarrow> action_definition" where
  "mk_def a desc risk sevs blast timeout cooldown ps =
     \<lparr>ad_type = a, ad_description = desc, ad_target_types = {SERVICE},
      ad_target_services = ALLOWED_ACTION_TARGET_SERVICES, ad_severities = sevs,
      ad_requires_approval = True, ad_risk = risk, ad_executor = LOCAL_SIMULATION,
      ad_max_blast_radius = blast, ad_timeout_seconds = timeout, ad_cooldown_seconds = cooldown,
      ad_parameters = ps\<rparr>"

definition replicas_parameter :: action_parameter where
  "replicas_parameter =
     \<lparr>prm_name = ''replicas'', prm_description = ''Desired replica count.'', prm_required = True,
      prm_type = VInt, prm_min = Some 1, prm_max = Some 10, prm_pattern = None, prm_allowed = None\<rparr>"

definition revision_char :: "char \<Rightarrow> bool" where
  "revision_char c \<longleftrightarrow> is_alnum c \<or> one_of ''._-'' c"

definition to_revision_parameter :: action_parameter where
  "to_revision_parameter =
     \<lparr>prm_name = ''to_revision'',
      prm_description = ''Explicit revision id to roll back to; omitted means the immediately previous revision.'',
      prm_required = False, prm_type = VString, prm_min = None, prm_max = None,
      prm_pattern = Some (Rep revision_char 1 (Some 64)), prm_allowed = None\<rparr>"

definition flag_char :: "char \<Rightarrow> bool" where
  "flag_char c \<longleftrightarrow> is_lower c \<or> is_digit c \<or> one_of ''_.-'' c"

definition flag_key_parameter :: action_parameter where
  "flag_key_parameter =
     \<lparr>prm_name = ''flag_key'', prm_description = ''The feature-flag key to disable.'',
      prm_required = True, prm_type = VString, prm_min = None, prm_max = None,
      prm_pattern = Some (Rep flag_char 1 (Some 64)), prm_allowed = None\<rparr>"

definition CATALOGUE :: "(action_type, action_definition) dict" where
  "CATALOGUE =
     [(RESTART_SERVICE,
       mk_def RESTART_SERVICE
         ''Restart the target service's running instances to clear transient in-process state (saturated connection pools, stuck worker threads, corrupt in-memory caches).''
         RISK_MEDIUM HIGHER_SEVERITIES 1 120 300 []),
      (SCALE_SERVICE,
       mk_def SCALE_SERVICE
         ''Set the number of running replicas for the target service, within bounds.''
         RISK_MEDIUM HIGHER_SEVERITIES 10 180 300 [replicas_parameter]),
      (ROLL_BACK_DEPLOYMENT,
       mk_def ROLL_BACK_DEPLOYMENT
         ''Roll the target service back to its previous known-good deployment revision.''
         RISK_HIGH HIGHER_SEVERITIES 1 300 600 [to_revision_parameter]),
      (DISABLE_FEATURE_FLAG,
       mk_def DISABLE_FEATURE_FLAG
         ''Turn a named feature flag off for the target service.''
         RISK_LOW {''LOW'', ''MEDIUM'', ''HIGH'', ''CRITICAL''} 1 30 60 [flag_key_parameter])]"

definition is_known_action :: "string \<Rightarrow> bool" where
  "is_known_action s \<longleftrightarrow> s \<in> set (map action_str all_actions)"

definition get_action_definition :: "action_type \<Rightarrow> action_definition option" where
  "get_action_definition a = map_of CATALOGUE a"

definition require_action_definition :: "action_type \<Rightarrow> rem_error + action_definition" where
  "require_action_definition a =
     (case map_of CATALOGUE a of None \<Rightarrow> Inl UnknownActionError | Some d \<Rightarrow> Inr d)"

definition require_action_definition_str :: "string \<Rightarrow> rem_error + action_definition" where
  "require_action_definition_str s =
     (case find (\<lambda>a. action_str a = s) all_actions of
        None \<Rightarrow> Inl UnknownActionError
      | Some a \<Rightarrow> require_action_definition a)"

definition is_allowed_target :: "action_type \<Rightarrow> service_target \<Rightarrow> bool" where
  "is_allowed_target a t =
     (case get_action_definition a of
        None \<Rightarrow> False
      | Some d \<Rightarrow> tg_type t \<in> ad_target_types d \<and> is_allowed_service (tg_service t) \<and>
                 tg_service t \<in> ad_target_services d)"

section \<open>Parameter validation\<close>

definition prm_label :: "action_type \<Rightarrow> action_parameter \<Rightarrow> string" where
  "prm_label a p = action_str a @ ''.'' @ prm_name p"

definition below_min :: "action_parameter \<Rightarrow> int \<Rightarrow> bool" where
  "below_min p i = (case prm_min p of None \<Rightarrow> False | Some m \<Rightarrow> i < m)"

definition above_max :: "action_parameter \<Rightarrow> int \<Rightarrow> bool" where
  "above_max p i = (case prm_max p of None \<Rightarrow> False | Some m \<Rightarrow> m < i)"

definition not_allowed_value :: "action_parameter \<Rightarrow> string \<Rightarrow> bool" where
  "not_allowed_value p s = (case prm_allowed p of None \<Rightarrow> False | Some vs \<Rightarrow> s \<notin> set vs)"

definition fails_pattern :: "action_parameter \<Rightarrow> string \<Rightarrow> bool" where
  "fails_pattern p s = (case prm_pattern p of None \<Rightarrow> False | Some r \<Rightarrow> \<not> re_fullmatch r s)"

fun validate_one :: "action_type \<Rightarrow> action_parameter \<Rightarrow> pyobj \<Rightarrow> rem_error + pyobj" where
  "validate_one a p v =
     (case prm_type p of
        VInt \<Rightarrow>
          (case v of
             PInt i \<Rightarrow>
               if below_min p i
               then Inl (ParameterValidationError (prm_label a p @ '' must be >= '' @ int_str (the (prm_min p))))
               else if above_max p i
               then Inl (ParameterValidationError (prm_label a p @ '' must be <= '' @ int_str (the (prm_max p))))
               else Inr v
           | _ \<Rightarrow> Inl (ParameterValidationError (prm_label a p @ '' must be an int, got '' @ type_name v)))
      | VString \<Rightarrow>
          (case v of
             PStr s \<Rightarrow>
               if not_allowed_value p s
               then Inl (ParameterValidationError
                      (prm_label a p @ '' must be one of '' @ repr_str_list (the (prm_allowed p))))
               else if fails_pattern p s
               then Inl (ParameterValidationError (prm_label a p @ '' does not match the allowed pattern''))
               else Inr v
           | _ \<Rightarrow> Inl (ParameterValidationError (prm_label a p @ '' must be a string, got '' @ type_name v))))"

declare validate_one.simps [simp del]

fun normalize_parameters ::
  "action_type \<Rightarrow> (string, pyobj) dict \<Rightarrow> action_parameter list \<Rightarrow> rem_error + (string, pyobj) dict" where
  "normalize_parameters a ps [] = Inr []"
| "normalize_parameters a ps (spec # specs) =
     (case map_of ps (prm_name spec) of
        None \<Rightarrow> normalize_parameters a ps specs
      | Some v \<Rightarrow> and_then (validate_one a spec v) (\<lambda>w.
                 and_then (normalize_parameters a ps specs) (\<lambda>rest. Inr ((prm_name spec, w) # rest))))"

definition unknown_parameters :: "action_definition \<Rightarrow> (string, pyobj) dict \<Rightarrow> string list" where
  "unknown_parameters d ps = filter (\<lambda>k. k \<notin> set (map prm_name (ad_parameters d))) (map fst ps)"

definition missing_parameters :: "action_definition \<Rightarrow> (string, pyobj) dict \<Rightarrow> string list" where
  "missing_parameters d ps = filter (\<lambda>k. k \<notin> set (map fst ps)) (required_parameter_names d)"

definition validate_action_parameters ::
  "action_type \<Rightarrow> (string, pyobj) dict \<Rightarrow> rem_error + (string, pyobj) dict" where
  "validate_action_parameters a ps =
     and_then (require_action_definition a) (\<lambda>d.
       if unknown_parameters d ps \<noteq> []
       then Inl (ParameterValidationError
              (''unknown parameter(s) for '' @ action_str a @ '': '' @ repr_str_list (sort (unknown_parameters d ps))))
       else if missing_parameters d ps \<noteq> []
       then Inl (ParameterValidationError
              (''missing required parameter(s) for '' @ action_str a @ '': '' @
               repr_str_list (sort (missing_parameters d ps))))
       else normalize_parameters a ps (ad_parameters d))"

section \<open>Who may approve what\<close>

fun max_approvable_risk :: "approver_role \<Rightarrow> risk_level set" where
  "max_approvable_risk OPERATOR = {RISK_LOW}"
| "max_approvable_risk INCIDENT_RESPONDER = {RISK_LOW, RISK_MEDIUM}"
| "max_approvable_risk ADMINISTRATOR = {RISK_LOW, RISK_MEDIUM, RISK_HIGH}"

definition can_approve :: "approver_role \<Rightarrow> action_type \<Rightarrow> bool" where
  "can_approve role a =
     (case require_action_definition a of
        Inl e \<Rightarrow> False
      | Inr d \<Rightarrow> ad_risk d \<in> max_approvable_risk role)"

section \<open>Facts\<close>

text \<open>The catalogue is total: lookups compute.\<close>

lemma catalogue_lookup [simp]:
  "map_of CATALOGUE a =
     Some (case a of
        RESTART_SERVICE \<Rightarrow> snd (CATALOGUE ! 0)
      | SCALE_SERVICE \<Rightarrow> snd (CATALOGUE ! 1)
      | ROLL_BACK_DEPLOYMENT \<Rightarrow> snd (CATALOGUE ! 2)
      | DISABLE_FEATURE_FLAG \<Rightarrow> snd (CATALOGUE ! 3))"
  by (cases a) (simp_all add: CATALOGUE_def)

definition def_of :: "action_type \<Rightarrow> action_definition" where
  "def_of a = the (map_of CATALOGUE a)"

lemma get_def_of [simp]: "get_action_definition a = Some (def_of a)"
  by (simp add: get_action_definition_def def_of_def)

lemma require_def_of [simp]: "require_action_definition a = Inr (def_of a)"
  by (simp add: require_action_definition_def def_of_def)

lemma def_of_fields [simp]:
  "ad_type (def_of a) = a"
  "ad_target_types (def_of a) = {SERVICE}"
  "ad_target_services (def_of a) = {''orders-service''}"
  "ad_requires_approval (def_of a)"
  "ad_executor (def_of a) = LOCAL_SIMULATION"
  by (cases a; simp add: def_of_def CATALOGUE_def mk_def_def ALLOWED_ACTION_TARGET_SERVICES_def)+

lemma def_of_parameters [enum_simps]:
  "ad_parameters (def_of RESTART_SERVICE) = []"
  "ad_parameters (def_of SCALE_SERVICE) = [replicas_parameter]"
  "ad_parameters (def_of ROLL_BACK_DEPLOYMENT) = [to_revision_parameter]"
  "ad_parameters (def_of DISABLE_FEATURE_FLAG) = [flag_key_parameter]"
  by (simp_all add: def_of_def CATALOGUE_def mk_def_def)

lemma def_of_risk [enum_simps]:
  "ad_risk (def_of RESTART_SERVICE) = RISK_MEDIUM"
  "ad_risk (def_of SCALE_SERVICE) = RISK_MEDIUM"
  "ad_risk (def_of ROLL_BACK_DEPLOYMENT) = RISK_HIGH"
  "ad_risk (def_of DISABLE_FEATURE_FLAG) = RISK_LOW"
  by (simp_all add: def_of_def CATALOGUE_def mk_def_def)

lemma def_of_severities [enum_simps]:
  "ad_severities (def_of RESTART_SERVICE) = {''MEDIUM'', ''HIGH'', ''CRITICAL''}"
  "ad_severities (def_of SCALE_SERVICE) = {''MEDIUM'', ''HIGH'', ''CRITICAL''}"
  "ad_severities (def_of ROLL_BACK_DEPLOYMENT) = {''MEDIUM'', ''HIGH'', ''CRITICAL''}"
  "ad_severities (def_of DISABLE_FEATURE_FLAG) = {''LOW'', ''MEDIUM'', ''HIGH'', ''CRITICAL''}"
  by (simp_all add: def_of_def CATALOGUE_def mk_def_def HIGHER_SEVERITIES_def)

lemma def_of_bounds [enum_simps]:
  "ad_max_blast_radius (def_of RESTART_SERVICE) = 1" "ad_cooldown_seconds (def_of RESTART_SERVICE) = 300"
  "ad_max_blast_radius (def_of SCALE_SERVICE) = 10" "ad_cooldown_seconds (def_of SCALE_SERVICE) = 300"
  "ad_max_blast_radius (def_of ROLL_BACK_DEPLOYMENT) = 1" "ad_cooldown_seconds (def_of ROLL_BACK_DEPLOYMENT) = 600"
  "ad_max_blast_radius (def_of DISABLE_FEATURE_FLAG) = 1" "ad_cooldown_seconds (def_of DISABLE_FEATURE_FLAG) = 60"
  by (simp_all add: def_of_def CATALOGUE_def mk_def_def)

lemma action_str_inj [simp]: "action_str a = action_str b \<longleftrightarrow> a = b"
  by (cases a; cases b) simp_all

lemma is_allowed_target_iff [dom_simps]:
  "is_allowed_target a t \<longleftrightarrow> tg_service t = ''orders-service''"
  by (cases "tg_type t")
    (simp add: is_allowed_target_def is_allowed_service_def ALLOWED_TARGET_SERVICES_def)

lemma can_approve_iff [dom_simps]:
  "can_approve role a \<longleftrightarrow> ad_risk (def_of a) \<in> max_approvable_risk role"
  by (simp add: can_approve_def)

lemma parameter_names_distinct: "distinct (map prm_name (ad_parameters (def_of a)))"
  by (cases a) (simp_all add: enum_simps)

text \<open>What a validated value satisfies.\<close>

definition value_ok :: "action_parameter \<Rightarrow> pyobj \<Rightarrow> bool" where
  "value_ok p v =
     (case prm_type p of
        VInt \<Rightarrow> (case v of PInt i \<Rightarrow> \<not> below_min p i \<and> \<not> above_max p i | _ \<Rightarrow> False)
      | VString \<Rightarrow> (case v of PStr s \<Rightarrow> \<not> not_allowed_value p s \<and> \<not> fails_pattern p s | _ \<Rightarrow> False))"

lemma validate_one_Inr: "validate_one a p v = Inr w \<longleftrightarrow> value_ok p v \<and> w = v"
  by (cases v; cases "prm_type p") (auto simp: value_ok_def validate_one.simps)

lemma validate_one_error: "validate_one a p v = Inl e \<Longrightarrow> \<exists>m. e = ParameterValidationError m"
  by (cases v; cases "prm_type p") (auto simp: validate_one.simps split: if_splits)

lemma normalize_error: "normalize_parameters a ps specs = Inl e \<Longrightarrow> \<exists>m. e = ParameterValidationError m"
proof (induction specs)
  case (Cons p specs)
  then show ?case
    by (cases "map_of ps (prm_name p)"; cases "\<exists>w. validate_one a p (the (map_of ps (prm_name p))) = Inr w";
        cases "normalize_parameters a ps specs")
      (auto simp: and_then_def dest: validate_one_error split: sum.splits)
qed simp

lemma validate_parameters_error:
  "validate_action_parameters a ps = Inl e \<Longrightarrow> \<exists>m. e = ParameterValidationError m"
  by (auto simp: validate_action_parameters_def split: if_splits dest: normalize_error)

lemma normalize_ok:
  "normalize_parameters a ps specs = Inr ns \<Longrightarrow>
   map_of ns = (\<lambda>k. if k \<in> set (map prm_name specs) then map_of ps k else None)
     \<and> (\<forall>p \<in> set specs. \<forall>v. map_of ps (prm_name p) = Some v \<longrightarrow> value_ok p v)
     \<and> map fst ns = filter (\<lambda>k. map_of ps k \<noteq> None) (map prm_name specs)"
proof (induction specs arbitrary: ns)
  case (Cons p specs)
  then show ?case
    by (cases "map_of ps (prm_name p)") (auto simp: validate_one_Inr fun_eq_iff)
qed (simp add: fun_eq_iff)

lemma normalize_complete:
  "(\<And>p v. p \<in> set specs \<Longrightarrow> map_of ps (prm_name p) = Some v \<Longrightarrow> value_ok p v) \<Longrightarrow>
   \<exists>ns. normalize_parameters a ps specs = Inr ns"
proof (induction specs)
  case (Cons p specs)
  have here: "map_of ps (prm_name p) = Some v \<Longrightarrow> value_ok p v" for v
    using Cons.prems by simp
  obtain ns where "normalize_parameters a ps specs = Inr ns"
    using Cons by (metis list.set_intros(2))
  with here show ?case
    by (cases "map_of ps (prm_name p)") (auto simp: validate_one_Inr)
qed simp

lemma not_unknown_iff:
  "unknown_parameters d ps = [] \<longleftrightarrow> set (map fst ps) \<subseteq> set (map prm_name (ad_parameters d))"
  by (auto simp: unknown_parameters_def filter_empty_conv)

lemma not_missing_iff:
  "missing_parameters d ps = [] \<longleftrightarrow> set (required_parameter_names d) \<subseteq> set (map fst ps)"
  by (auto simp: missing_parameters_def filter_empty_conv)

text \<open>The specification of validation: accepted parameter sets, and the result is the input.\<close>

definition parameters_ok :: "action_type \<Rightarrow> (string, pyobj) dict \<Rightarrow> bool" where
  "parameters_ok a ps \<longleftrightarrow>
     set (map fst ps) \<subseteq> set (map prm_name (ad_parameters (def_of a))) \<and>
     set (required_parameter_names (def_of a)) \<subseteq> set (map fst ps) \<and>
     (\<forall>p \<in> set (ad_parameters (def_of a)). \<forall>v. map_of ps (prm_name p) = Some v \<longrightarrow> value_ok p v)"

lemma validate_parameters_ok:
  "(\<exists>ns. validate_action_parameters a ps = Inr ns) \<longleftrightarrow> parameters_ok a ps"
proof
  assume "\<exists>ns. validate_action_parameters a ps = Inr ns"
  then show "parameters_ok a ps"
    by (auto simp: validate_action_parameters_def parameters_ok_def not_unknown_iff not_missing_iff
        split: if_splits dest!: normalize_ok)
next
  assume ok: "parameters_ok a ps"
  then obtain ns where "normalize_parameters a ps (ad_parameters (def_of a)) = Inr ns"
    using normalize_complete [of "ad_parameters (def_of a)" ps a] by (auto simp: parameters_ok_def)
  with ok show "\<exists>ns. validate_action_parameters a ps = Inr ns"
    by (auto simp: validate_action_parameters_def parameters_ok_def not_unknown_iff not_missing_iff)
qed

lemma validate_parameters_same:
  assumes "validate_action_parameters a ps = Inr ns"
  shows "map_of ns = map_of ps"
proof -
  from assms have n: "normalize_parameters a ps (ad_parameters (def_of a)) = Inr ns"
    and u: "set (map fst ps) \<subseteq> set (map prm_name (ad_parameters (def_of a)))"
    by (auto simp: validate_action_parameters_def not_unknown_iff split: if_splits)
  have "map_of ps k = None" if "k \<notin> set (map prm_name (ad_parameters (def_of a)))" for k
    using that u by (auto simp: map_of_eq_None_iff)
  with normalize_ok [OF n] show ?thesis by (auto simp: fun_eq_iff)
qed

end
