(* ===== verification/Proposal.thy ===== *)
theory Proposal imports Catalogue begin

text \<open>
  \<open>domain/proposal.py\<close>: the proposal model with its validator, the deterministic mapping of an RCA
  recommendation, and the execution guard. \<open>mk_proposal\<close> and \<open>mk_blocked\<close> are the pydantic
  constructors: field constraints first, then the model validator.
\<close>

record rca_input =
  ri_action :: string
  ri_target :: "string option"
  ri_description :: string
  ri_rationale :: string
  ri_evidence :: "string list"

definition mk_rca_input ::
  "string \<Rightarrow> string option \<Rightarrow> string \<Rightarrow> string \<Rightarrow> string list \<Rightarrow> rem_error + rca_input" where
  "mk_rca_input act tgt desc rat evs =
     (if 1 \<le> length act \<and> length act \<le> 64 \<and> length (case_option [] id tgt) \<le> 128 \<and>
         length desc \<le> 4000 \<and> length rat \<le> 4000
      then Inr \<lparr>ri_action = act, ri_target = tgt, ri_description = desc, ri_rationale = rat, ri_evidence = evs\<rparr>
      else Inl ValidationError)"

record proposal =
  pr_id :: string
  pr_incident :: string
  pr_investigation :: "string option"
  pr_trigger :: trigger
  pr_proposed_by :: string
  pr_action :: action_type
  pr_target :: service_target
  pr_parameters :: "(string, pyobj) dict"
  pr_risk :: risk_level
  pr_requires_approval :: bool
  pr_source :: string
  pr_reason :: string
  pr_effect :: string
  pr_evidence :: "string list"
  pr_status :: rem_status
  pr_created :: datetime
  pr_expires :: datetime

definition investigation_ok :: "string option \<Rightarrow> bool" where
  "investigation_ok invg = (case invg of None \<Rightarrow> True | Some s \<Rightarrow> investigation_id_ok s)"

text \<open>\<open>RemediationProposal._check\<close>.\<close>

definition check_proposal :: "proposal \<Rightarrow> rem_error + unit" where
  "check_proposal p =
     (if get_action_definition (pr_action p) = None then Inl ValidationError
      else if \<not> is_allowed_target (pr_action p) (pr_target p) then Inl ValidationError
      else case validate_action_parameters (pr_action p) (pr_parameters p) of
        Inl e \<Rightarrow> Inl ValidationError
      | Inr _ \<Rightarrow> if pr_expires p \<le> pr_created p then Inl ValidationError else Inr ())"

definition proposal_fields_ok :: "proposal \<Rightarrow> bool" where
  "proposal_fields_ok p \<longleftrightarrow>
     remediation_id_ok (pr_id p) \<and> incident_id_ok (pr_incident p) \<and> investigation_ok (pr_investigation p) \<and>
     1 \<le> length (pr_proposed_by p) \<and> length (pr_proposed_by p) \<le> 128 \<and>
     (\<forall>v \<in> set (map snd (pr_parameters p)). is_scalar v) \<and> pr_requires_approval p \<and>
     length (pr_source p) \<le> 64 \<and> length (pr_reason p) \<le> 4000 \<and> length (pr_effect p) \<le> 2000"

definition mk_proposal :: "proposal \<Rightarrow> rem_error + proposal" where
  "mk_proposal p =
     (if proposal_fields_ok p then and_then (check_proposal p) (\<lambda>_. Inr p) else Inl ValidationError)"

definition is_executable_candidate :: "proposal \<Rightarrow> bool" where
  "is_executable_candidate p \<longleftrightarrow> pr_status p \<noteq> BLOCKED"

record blocked_proposal =
  bp_id :: string
  bp_incident :: string
  bp_investigation :: "string option"
  bp_source :: string
  bp_mapped :: "action_type option"
  bp_reason :: string
  bp_created :: datetime

definition mk_blocked :: "blocked_proposal \<Rightarrow> rem_error + blocked_proposal" where
  "mk_blocked b =
     (if remediation_id_ok (bp_id b) \<and> incident_id_ok (bp_incident b) \<and> investigation_ok (bp_investigation b) \<and>
         length (bp_source b) \<le> 64 \<and> length (bp_reason b) \<le> 500
      then Inr b else Inl ValidationError)"

datatype mapping_result = MProposal proposal | MBlocked blocked_proposal

section \<open>The mapping\<close>

definition RCA_ACTION_MAP :: "(string, action_type) dict" where
  "RCA_ACTION_MAP =
     [(''RESTART_SERVICE'', RESTART_SERVICE), (''ROLL_BACK_DEPLOYMENT'', ROLL_BACK_DEPLOYMENT),
      (''SCALE_SERVICE'', SCALE_SERVICE)]"

definition label_char :: "char \<Rightarrow> bool" where
  "label_char c \<longleftrightarrow> is_alnum c \<or> one_of ''_.:-'' c"

definition label_rx :: rx where
  "label_rx = Cat (Rep label_char 1 (Some 64)) Dollar"

definition safe_label :: "string \<Rightarrow> string" where
  "safe_label raw = (if re_match label_rx raw then raw else ''<invalid-label>'')"

definition reason_text :: "rca_input \<Rightarrow> string" where
  "reason_text rec =
     (let r = (if strip (ri_rationale rec) \<noteq> [] then strip (ri_rationale rec) else strip (ri_description rec));
          cut = take 4000 r
      in if cut \<noteq> [] then cut else ''Derived from a Phase 4 RCA recommendation.'')"

definition unmapped_reason :: "string \<Rightarrow> string" where
  "unmapped_reason label =
     ''RCA recommendation category '' @ repr_str label @
     '' has no executable action in the closed remediation catalogue; a human must decide''"

definition severity_reason :: "string \<Rightarrow> action_type \<Rightarrow> string" where
  "severity_reason sev a =
     ''incident severity '' @ repr_str (safe_label sev) @ '' is not eligible for action '' @ action_str a"

definition operator_reason :: "action_type \<Rightarrow> action_definition \<Rightarrow> string" where
  "operator_reason a d =
     ''action '' @ action_str a @ '' requires operator-supplied parameter(s) '' @
     repr_str_list (sort (required_parameter_names d)) @
     '' and cannot be derived automatically from an RCA recommendation''"

definition bad_target_reason :: "string \<Rightarrow> string" where
  "bad_target_reason t = ''RCA target service '' @ repr_str (safe_label t) @ '' is not a valid service target''"

definition off_list_reason :: "service_target \<Rightarrow> action_type \<Rightarrow> string" where
  "off_list_reason t a =
     ''target service '' @ repr_str (tg_service t) @
     '' is not on the remediation allow-list for action '' @ action_str a"

definition construction_reason :: string where
  "construction_reason = ''proposal construction failed catalogue/target validation (ValidationError)''"

definition blocked_result ::
  "string \<Rightarrow> string \<Rightarrow> string option \<Rightarrow> string \<Rightarrow> datetime \<Rightarrow> action_type option \<Rightarrow> string \<Rightarrow> rem_error + mapping_result" where
  "blocked_result rid inc invg label ts mapped reason =
     and_then (mk_blocked \<lparr>bp_id = rid, bp_incident = inc, bp_investigation = invg, bp_source = label,
                           bp_mapped = mapped, bp_reason = reason, bp_created = ts\<rparr>)
       (\<lambda>b. Inr (MBlocked b))"

definition drafted_proposal ::
  "rca_input \<Rightarrow> string \<Rightarrow> string \<Rightarrow> string option \<Rightarrow> string \<Rightarrow> datetime \<Rightarrow> int \<Rightarrow> action_type \<Rightarrow> service_target \<Rightarrow> proposal" where
  "drafted_proposal rec rid inc invg by_whom ts ttl a t =
     \<lparr>pr_id = rid, pr_incident = inc, pr_investigation = invg, pr_trigger = RCA_RECOMMENDATION,
      pr_proposed_by = by_whom, pr_action = a, pr_target = t, pr_parameters = [],
      pr_risk = ad_risk (def_of a), pr_requires_approval = True, pr_source = safe_label (ri_action rec),
      pr_reason = reason_text rec, pr_effect = ad_description (def_of a),
      pr_evidence = ri_evidence rec, pr_status = PROPOSED, pr_created = ts, pr_expires = ts + ttl\<rparr>"

definition proposal_from_rca ::
  "rca_input \<Rightarrow> string \<Rightarrow> string option \<Rightarrow> string option \<Rightarrow> string \<Rightarrow> string \<Rightarrow> datetime \<Rightarrow> int \<Rightarrow> string \<Rightarrow>
   rem_error + mapping_result" where
  "proposal_from_rca rec inc invg sev env by_whom ts ttl tok =
     (let rid = new_remediation_id tok; label = safe_label (ri_action rec);
          blocked = blocked_result rid inc invg label ts
      in case map_of RCA_ACTION_MAP (ri_action rec) of
        None \<Rightarrow> blocked None (unmapped_reason label)
      | Some a \<Rightarrow> and_then (require_action_definition a) (\<lambda>d.
          if sev \<noteq> None \<and> the sev \<notin> ad_severities d then blocked (Some a) (severity_reason (the sev) a)
          else if required_parameter_names d \<noteq> [] then blocked (Some a) (operator_reason a d)
          else if ri_target rec = None \<or> ri_target rec = Some []
            then blocked (Some a) ''RCA recommendation did not name a target service''
          else case mk_service_target (the (ri_target rec)) env of
            Inl e \<Rightarrow> blocked (Some a) (bad_target_reason (the (ri_target rec)))
          | Inr t \<Rightarrow>
              if \<not> is_allowed_target a t then blocked (Some a) (off_list_reason t a)
              else case mk_proposal (drafted_proposal rec rid inc invg by_whom ts ttl a t) of
                Inl e \<Rightarrow> blocked (Some a) construction_reason
              | Inr p \<Rightarrow> Inr (MProposal p)))"

section \<open>The execution guard\<close>

definition authorize_execution :: "proposal \<Rightarrow> approval option \<Rightarrow> rem_error + unit" where
  "authorize_execution p ap =
     (if pr_status p \<noteq> APPROVED then Inl ApprovalError
      else case ap of
        None \<Rightarrow> Inl ApprovalError
      | Some a \<Rightarrow>
          if ap_remediation_id a \<noteq> pr_id p then Inl ApprovalError
          else if ap_decision a \<noteq> APPROVE then Inl ApprovalError
          else Inr ())"

lemma authorize_execution_Inr:
  "authorize_execution p ap = Inr u \<longleftrightarrow>
   pr_status p = APPROVED \<and> (\<exists>a. ap = Some a \<and> ap_remediation_id a = pr_id p \<and> ap_decision a = APPROVE)"
  by (auto simp: authorize_execution_def split: option.splits)

section \<open>Facts\<close>

lemma length_repr_char: "length (repr_char q c) \<le> 4"
  by (simp add: repr_char_def)

lemma length_repr_str: "length (repr_str s) \<le> 2 + 4 * length s"
proof -
  have "length (concat (map (repr_char q) s)) \<le> 4 * length s" for q
    by (induction s) (use length_repr_char in \<open>auto intro: order_trans [OF add_mono]\<close>)
  then show ?thesis by (simp add: repr_str_def Let_def)
qed

lemma run_ends_length:
  "e \<in> set (run_ends p lo (Some hi) prev s) \<Longrightarrow> length s \<le> length (snd e) + hi"
proof (induction s arbitrary: lo hi prev)
  case (Cons c cs)
  show ?case
  proof (cases "e \<in> set (run_ends p (lo - 1) (Some (hi - 1)) (Some c) cs) \<and> hi \<noteq> 0")
    case True
    with Cons.IH show ?thesis by fastforce
  next
    case False
    with Cons.prems show ?thesis by (auto split: if_splits)
  qed
qed (auto split: if_splits)

lemma length_safe_label: "length (safe_label s) \<le> 65"
proof (cases "re_match label_rx s")
  case True
  then obtain e where e: "e \<in> set (run_ends label_char 1 (Some 64) None s)"
    and "snd e = [] \<or> snd e = [newline]"
    by (force simp: re_match_def label_rx_def)
  then have "length (snd e) \<le> 1" by auto
  with run_ends_length [OF e] True show ?thesis by (simp add: safe_label_def)
qed (simp add: safe_label_def)

lemma length_safe_label_le: "length s \<le> n \<Longrightarrow> 15 \<le> n \<Longrightarrow> length (safe_label s) \<le> n"
  by (simp add: safe_label_def)

lemma length_action_str: "length (action_str a) \<le> 20"
  by (cases a) simp_all

lemma reason_lengths:
  "length (unmapped_reason (safe_label s)) \<le> 500"
  "length (severity_reason sev a) \<le> 500"
  "length (bad_target_reason t) \<le> 500"
  "length construction_reason \<le> 500"
  using length_repr_str [of "safe_label s"] length_safe_label [of s]
    length_repr_str [of "safe_label sev"] length_safe_label [of sev]
    length_repr_str [of "safe_label t"] length_safe_label [of t] length_action_str [of a]
  by (simp_all add: unmapped_reason_def severity_reason_def bad_target_reason_def construction_reason_def)

lemma off_list_reason_length:
  "mk_service_target n e = Inr t \<Longrightarrow> length (off_list_reason t a) \<le> 500"
  using length_repr_str [of n] length_action_str [of a]
  by (auto simp: off_list_reason_def mk_service_target_def split: if_splits)

lemma length_reason_text: "length (reason_text rec) \<le> 4000"
  by (simp add: reason_text_def Let_def)

lemma mk_proposal_Inr: "mk_proposal p = Inr q \<Longrightarrow>
   q = p \<and> proposal_fields_ok p \<and> is_allowed_target (pr_action p) (pr_target p) \<and>
   parameters_ok (pr_action p) (pr_parameters p) \<and> pr_created p < pr_expires p"
  by (auto simp: mk_proposal_def check_proposal_def validate_parameters_ok [symmetric]
      split: if_splits sum.splits)

lemma mk_proposal_ok:
  "proposal_fields_ok p \<Longrightarrow> is_allowed_target (pr_action p) (pr_target p) \<Longrightarrow>
   parameters_ok (pr_action p) (pr_parameters p) \<Longrightarrow> pr_created p < pr_expires p \<Longrightarrow> mk_proposal p = Inr p"
  by (auto simp: mk_proposal_def check_proposal_def validate_parameters_ok [symmetric] split: sum.splits)

lemma remediation_token_ok:
  assumes "token_ok t"
  shows "remediation_id_ok (new_remediation_id t)"
proof -
  have run: "\<forall>c \<in> set s. is_hex c \<Longrightarrow> length s \<le> n \<Longrightarrow> \<exists>e \<in> set (run_ends is_hex (length s) (Some n) prev s). snd e = []"
    for s n prev
  proof (induction s arbitrary: n prev)
    case (Cons c cs)
    then have "\<exists>e \<in> set (run_ends is_hex (length cs) (Some (n - 1)) (Some c) cs). snd e = []" by simp
    with Cons.prems show ?case by auto
  qed simp
  have "length t = 16" "\<forall>c \<in> set t. is_hex c" using assms by (simp_all add: token_ok_def)
  with run [of t 16] show ?thesis
    by (auto simp: remediation_id_ok_def new_remediation_id_def re_fullmatch_def hex_tail_def)
qed

lemma required_parameter_names_simps [enum_simps]:
  "required_parameter_names (def_of RESTART_SERVICE) = []"
  "required_parameter_names (def_of SCALE_SERVICE) = [''replicas'']"
  "required_parameter_names (def_of ROLL_BACK_DEPLOYMENT) = []"
  "required_parameter_names (def_of DISABLE_FEATURE_FLAG) = [''flag_key'']"
  by (simp_all add: required_parameter_names_def enum_simps replicas_parameter_def
      to_revision_parameter_def flag_key_parameter_def)

text \<open>
  The specification of the mapping: the recommendations that become a proposal, as a condition on the
  inputs. Every other input is blocked.
\<close>

definition rca_mappable ::
  "rca_input \<Rightarrow> string \<Rightarrow> string option \<Rightarrow> string option \<Rightarrow> string \<Rightarrow> string \<Rightarrow> int \<Rightarrow> action_type option" where
  "rca_mappable rec inc invg sev env by_whom ttl =
     (if (sev = None \<or> the sev \<in> {''MEDIUM'', ''HIGH'', ''CRITICAL''}) \<and> ri_target rec = Some ''orders-service'' \<and>
         env \<in> ALLOWED_ENVIRONMENTS \<and> incident_id_ok inc \<and> investigation_ok invg \<and>
         by_whom \<noteq> [] \<and> length by_whom \<le> 128 \<and> length (ri_action rec) \<le> 64 \<and> 0 < ttl
      then if ri_action rec = ''RESTART_SERVICE'' then Some RESTART_SERVICE
           else if ri_action rec = ''ROLL_BACK_DEPLOYMENT'' then Some ROLL_BACK_DEPLOYMENT
           else None
      else None)"

definition orders_target :: "string \<Rightarrow> service_target" where
  "orders_target env = \<lparr>tg_type = SERVICE, tg_service = ''orders-service'', tg_environment = env\<rparr>"

lemma orders_slug: "re_match service_name_rx ''orders-service''"
  by (simp add: re_match_def service_name_rx_def slug_char_def is_lower_def is_digit_def)

lemma mk_orders_target: "env \<in> ALLOWED_ENVIRONMENTS \<Longrightarrow> mk_service_target ''orders-service'' env = Inr (orders_target env)"
  by (simp add: mk_service_target_def orders_slug orders_target_def)

lemma description_length: "length (ad_description (def_of a)) \<le> 2000"
  by (cases a) (simp_all add: def_of_def CATALOGUE_def mk_def_def)

lemma not_blocked_proposal [simp]: "blocked_result rid inc invg l ts m r \<noteq> Inr (MProposal p)"
  by (simp add: blocked_result_def mk_blocked_def)

lemma blocked_result_Inr:
  "blocked_result rid inc invg l ts m r = Inr x \<Longrightarrow> \<exists>b. x = MBlocked b \<and> bp_mapped b = m \<and> bp_reason b = r"
  by (auto simp: blocked_result_def mk_blocked_def split: if_splits)


lemma drafted_ok:
  assumes "remediation_id_ok rid" "incident_id_ok inc" "investigation_ok invg" "env \<in> ALLOWED_ENVIRONMENTS"
    and "by_whom \<noteq> []" "length by_whom \<le> 128" "length (ri_action rec) \<le> 64" "0 < ttl"
    and "required_parameter_names (def_of a) = []"
  shows "mk_proposal (drafted_proposal rec rid inc invg by_whom ts ttl a (orders_target env)) =
         Inr (drafted_proposal rec rid inc invg by_whom ts ttl a (orders_target env))"
proof (rule mk_proposal_ok)
  show "proposal_fields_ok (drafted_proposal rec rid inc invg by_whom ts ttl a (orders_target env))"
    using assms length_safe_label_le [of "ri_action rec" 64] length_reason_text description_length
    by (cases by_whom) (simp_all add: proposal_fields_ok_def drafted_proposal_def)
qed (use assms in \<open>simp_all add: drafted_proposal_def dom_simps orders_target_def parameters_ok_def\<close>)

lemma rca_map_cases:
  "map_of RCA_ACTION_MAP s =
     (if s = ''RESTART_SERVICE'' then Some RESTART_SERVICE
      else if s = ''ROLL_BACK_DEPLOYMENT'' then Some ROLL_BACK_DEPLOYMENT
      else if s = ''SCALE_SERVICE'' then Some SCALE_SERVICE else None)"
  by (auto simp: RCA_ACTION_MAP_def)

lemma mapped_proposal:
  "proposal_from_rca rec inc invg sev env by_whom ts ttl tok = Inr (MProposal p) \<Longrightarrow>
   \<exists>a. map_of RCA_ACTION_MAP (ri_action rec) = Some a \<and> (sev = None \<or> the sev \<in> ad_severities (def_of a)) \<and>
       required_parameter_names (def_of a) = [] \<and> ri_target rec = Some ''orders-service'' \<and>
       env \<in> ALLOWED_ENVIRONMENTS \<and>
       p = drafted_proposal rec (new_remediation_id tok) inc invg by_whom ts ttl a (orders_target env) \<and>
       mk_proposal p = Inr p"
  by (auto simp: proposal_from_rca_def Let_def dom_simps mk_service_target_def orders_target_def
      split: option.splits if_splits sum.splits dest: mk_proposal_Inr)

lemma rca_mapping_iff:
  "proposal_from_rca rec inc invg sev env by_whom ts ttl tok = Inr (MProposal p) \<longleftrightarrow>
   remediation_id_ok (new_remediation_id tok) \<and>
   (\<exists>a. rca_mappable rec inc invg sev env by_whom ttl = Some a \<and>
        p = drafted_proposal rec (new_remediation_id tok) inc invg by_whom ts ttl a (orders_target env))"
  (is "?mapped \<longleftrightarrow> ?spec")
proof
  assume ?mapped
  from mapped_proposal [OF this] obtain a where a: "map_of RCA_ACTION_MAP (ri_action rec) = Some a"
      "sev = None \<or> the sev \<in> ad_severities (def_of a)" "required_parameter_names (def_of a) = []"
      "ri_target rec = Some ''orders-service''" "env \<in> ALLOWED_ENVIRONMENTS"
    and p: "p = drafted_proposal rec (new_remediation_id tok) inc invg by_whom ts ttl a (orders_target env)"
    and mk: "mk_proposal p = Inr p" by blast
  from mk_proposal_Inr [OF mk] p have "remediation_id_ok (new_remediation_id tok)" "incident_id_ok inc"
      "investigation_ok invg" "by_whom \<noteq> []" "length by_whom \<le> 128" "0 < ttl"
    by (auto simp: proposal_fields_ok_def drafted_proposal_def)
  moreover have "length (ri_action rec) \<le> 64" using a(1) by (auto simp: rca_map_cases split: if_splits)
  ultimately show ?spec using a p
    by (auto simp: rca_mappable_def rca_map_cases enum_simps split: if_splits)
next
  assume ?spec
  then obtain a where "rca_mappable rec inc invg sev env by_whom ttl = Some a"
    and rid: "remediation_id_ok (new_remediation_id tok)"
    and p: "p = drafted_proposal rec (new_remediation_id tok) inc invg by_whom ts ttl a (orders_target env)" by blast
  then have c: "map_of RCA_ACTION_MAP (ri_action rec) = Some a" "sev \<noteq> None \<longrightarrow> the sev \<in> ad_severities (def_of a)"
      "required_parameter_names (def_of a) = []" "ri_target rec = Some ''orders-service''" "env \<in> ALLOWED_ENVIRONMENTS"
      "incident_id_ok inc" "investigation_ok invg" "by_whom \<noteq> []" "length by_whom \<le> 128"
      "length (ri_action rec) \<le> 64" "0 < ttl"
    by (auto simp: rca_mappable_def rca_map_cases enum_simps split: if_splits)
  have "mk_proposal p = Inr p" using c rid unfolding p by (intro drafted_ok) auto
  then show ?mapped
    using c p by (auto simp: proposal_from_rca_def Let_def mk_orders_target dom_simps orders_target_def)
qed

text \<open>
  Claim C11. An RCA recommendation becomes a proposal for exactly the inputs of the specification
  \<open>rca_mappable\<close> (a restart or a roll-back of \<open>orders-service\<close> in a known environment, for an
  incident whose severity is unknown or at least MEDIUM, with well-formed identifiers and a positive
  lifetime), and the proposal is the one drafted from the catalogue: no parameters, catalogue risk, human
  approval required, status PROPOSED. Everything else, a SCALE_SERVICE recommendation included, never
  yields a proposal.
\<close>
theorem rca_mapping_exact:
  "proposal_from_rca rec inc invg sev env by_whom ts ttl tok = Inr (MProposal p) \<longleftrightarrow>
   remediation_id_ok (new_remediation_id tok) \<and>
   (\<exists>a. rca_mappable rec inc invg sev env by_whom ttl = Some a \<and>
        p = drafted_proposal rec (new_remediation_id tok) inc invg by_whom ts ttl a (orders_target env))"
  by (rule rca_mapping_iff)

lemma rca_mapping_returns:
  assumes "token_ok tok" "incident_id_ok inc" "investigation_ok invg" "length (ri_action rec) \<le> 64"
  shows "(\<exists>p. proposal_from_rca rec inc invg sev env by_whom ts ttl tok = Inr (MProposal p)) \<or>
         (\<exists>b. proposal_from_rca rec inc invg sev env by_whom ts ttl tok = Inr (MBlocked b))"
proof -
  have blk: "\<exists>b. blocked_result (new_remediation_id tok) inc invg (safe_label (ri_action rec)) ts m r = Inr (MBlocked b)"
    if "length r \<le> 500" for m r
    using assms that length_safe_label_le [of "ri_action rec" 64] remediation_token_ok [of tok]
    by (simp add: blocked_result_def mk_blocked_def)
  have op: "length (operator_reason a (def_of a)) \<le> 500" for a
    by (cases a) (simp_all add: operator_reason_def enum_simps repr_str_list_def repr_str_def repr_char_def Let_def)
  show ?thesis
    using blk [OF reason_lengths(1)] blk [OF reason_lengths(2)] blk [OF reason_lengths(3)]
      blk [OF reason_lengths(4)] blk [OF op] blk [OF off_list_reason_length]
      blk [of "''RCA recommendation did not name a target service''"]
    by (auto simp: proposal_from_rca_def Let_def split: option.splits sum.splits)
qed

text \<open>
  The mapping is total and fails closed: with well-formed identifiers and a label of at most
  64 characters (what the request model guarantees) it never raises; it answers with a proposal for
  the specified inputs and with a blocked proposal for all others.
\<close>
theorem rca_mapping_total:
  assumes "token_ok tok" "incident_id_ok inc" "investigation_ok invg" "length (ri_action rec) \<le> 64"
  shows "(\<exists>p. proposal_from_rca rec inc invg sev env by_whom ts ttl tok = Inr (MProposal p)) \<or>
         (\<exists>b. proposal_from_rca rec inc invg sev env by_whom ts ttl tok = Inr (MBlocked b))"
  using assms by (rule rca_mapping_returns)

definition sample_token :: string where "sample_token = ''0123456789abcdef''"

definition sample_rca :: rca_input where
  "sample_rca = \<lparr>ri_action = ''RESTART_SERVICE'', ri_target = Some ''orders-service'', ri_description = ''d'',
                 ri_rationale = ''pool saturated'', ri_evidence = [''ev_001'']\<rparr>"

lemmas id_rx_simps = incident_id_ok_def investigation_id_ok_def remediation_id_ok_def approval_id_ok_def
  re_fullmatch_def hex_tail_def is_hex_def is_digit_def

lemma sample_token_ok: "token_ok sample_token"
  by (simp add: token_ok_def sample_token_def is_hex_def is_digit_def)

lemma sample_incident_ok: "incident_id_ok ''inc_0123ab''"
  by (simp add: id_rx_simps)

lemma bad_incident: "\<not> incident_id_ok ''incident-7''"
  by (simp add: id_rx_simps)

lemma rca_mapping_total_witness:
  "(\<exists>p. proposal_from_rca sample_rca ''inc_0123ab'' None None ''development'' ''api'' 0 3600 sample_token
        = Inr (MProposal p)) \<or>
   (\<exists>b. proposal_from_rca sample_rca ''inc_0123ab'' None None ''development'' ''api'' 0 3600 sample_token
        = Inr (MBlocked b))"
  by (rule rca_mapping_total [OF sample_token_ok sample_incident_ok])
    (simp_all add: investigation_ok_def sample_rca_def)

text \<open>
  A malformed incident identifier makes the mapping raise: the blocked proposal that should
  carry the refusal validates the same identifier. The function's text promises never to raise on
  hostile input; it relies on the request model for this field.
\<close>
theorem rca_mapping_raises_on_bad_incident:
  "\<not> incident_id_ok inc \<Longrightarrow>
   proposal_from_rca rec inc invg sev env by_whom ts ttl tok = Inl ValidationError"
  by (auto simp: proposal_from_rca_def Let_def blocked_result_def mk_blocked_def mk_proposal_def
      proposal_fields_ok_def drafted_proposal_def split: option.splits sum.splits)


lemma rca_mapping_raises_witness:
  "proposal_from_rca sample_rca ''incident-7'' None None ''development'' ''api'' 0 3600 sample_token
   = Inl ValidationError"
  by (rule rca_mapping_raises_on_bad_incident [OF bad_incident])

end
