(* ===== verification/Policy.thy ===== *)
theory Policy imports Proposal begin

text \<open>
  The deterministic policy engine, \<open>policy/\<close>: codes, configuration and context, the nine rules in
  their order, \<open>PolicyEngine.evaluate\<close> and \<open>apply_policy_decision\<close>. The history port is the pair
  of queries a provider answers. Every datetime is an aware instant, so \<open>_aware\<close> is the identity.
\<close>

section \<open>Codes, configuration, context, decision\<close>

datatype policy_outcome = ALLOW | DENY

datatype reason_code =
    POLICY_OK | APPROVAL_REQUIRED
  | ACTION_NOT_ALLOWED | TARGET_NOT_ALLOWED | ENVIRONMENT_NOT_ALLOWED | SEVERITY_NOT_ALLOWED
  | PARAMETER_INVALID | RISK_EXCEEDED | PROPOSAL_EXPIRED | INVALID_STATE | COOLDOWN_ACTIVE | DUPLICATE_ACTIVE

fun outcome_str :: "policy_outcome \<Rightarrow> string" where
  "outcome_str ALLOW = ''ALLOW''"
| "outcome_str DENY = ''DENY''"

fun code_str :: "reason_code \<Rightarrow> string" where
  "code_str POLICY_OK = ''POLICY_OK''"
| "code_str APPROVAL_REQUIRED = ''APPROVAL_REQUIRED''"
| "code_str ACTION_NOT_ALLOWED = ''ACTION_NOT_ALLOWED''"
| "code_str TARGET_NOT_ALLOWED = ''TARGET_NOT_ALLOWED''"
| "code_str ENVIRONMENT_NOT_ALLOWED = ''ENVIRONMENT_NOT_ALLOWED''"
| "code_str SEVERITY_NOT_ALLOWED = ''SEVERITY_NOT_ALLOWED''"
| "code_str PARAMETER_INVALID = ''PARAMETER_INVALID''"
| "code_str RISK_EXCEEDED = ''RISK_EXCEEDED''"
| "code_str PROPOSAL_EXPIRED = ''PROPOSAL_EXPIRED''"
| "code_str INVALID_STATE = ''INVALID_STATE''"
| "code_str COOLDOWN_ACTIVE = ''COOLDOWN_ACTIVE''"
| "code_str DUPLICATE_ACTIVE = ''DUPLICATE_ACTIVE''"

definition POLICY_VERSION :: string where "POLICY_VERSION = ''1''"

definition KNOWN_SEVERITIES :: "string set" where
  "KNOWN_SEVERITIES = {''INFO'', ''LOW'', ''MEDIUM'', ''HIGH'', ''CRITICAL''}"

record policy_config =
  pc_version :: string
  pc_eligible_actions :: "action_type set"
  pc_allowed_environments :: "string set"
  pc_max_allowed_risk :: risk_level
  pc_max_blast_radius :: int
  pc_require_known_severity :: bool

definition default_policy_config :: policy_config where
  "default_policy_config =
     \<lparr>pc_version = POLICY_VERSION, pc_eligible_actions = UNIV,
      pc_allowed_environments = {''development''}, pc_max_allowed_risk = RISK_HIGH,
      pc_max_blast_radius = 10, pc_require_known_severity = True\<rparr>"

record history_port =
  active_remediation_exists :: "string \<Rightarrow> action_type \<Rightarrow> service_target \<Rightarrow> bool"
  last_completed_at :: "string \<Rightarrow> action_type \<Rightarrow> service_target \<Rightarrow> datetime option"

definition null_history :: history_port where
  "null_history =
     \<lparr>active_remediation_exists = (\<lambda>_ _ _. False), last_completed_at = (\<lambda>_ _ _. None)\<rparr>"

record policy_context =
  cx_now :: datetime
  cx_severity :: "string option"
  cx_history :: history_port

record violation =
  vi_code :: reason_code
  vi_rule :: string
  vi_detail :: string

record policy_decision =
  pd_outcome :: policy_outcome
  pd_reason_codes :: "reason_code list"
  pd_violations :: "violation list"
  pd_version :: string
  pd_evaluated_rules :: "string list"
  pd_evaluated_at :: datetime

definition decision_allowed :: "policy_decision \<Rightarrow> bool" where
  "decision_allowed d \<longleftrightarrow> pd_outcome d = ALLOW"

section \<open>The rules\<close>

type_synonym rule = "proposal \<Rightarrow> policy_context \<Rightarrow> policy_config \<Rightarrow> violation list"

definition POLICY_INPUT_STATES :: "rem_status set" where
  "POLICY_INPUT_STATES = {PROPOSED, POLICY_EVALUATION}"

definition mk_violation :: "reason_code \<Rightarrow> string \<Rightarrow> string \<Rightarrow> violation" where
  "mk_violation c r d = \<lparr>vi_code = c, vi_rule = r, vi_detail = take 500 d\<rparr>"

definition state_rule :: rule where
  "state_rule p ctx cfg =
     (if pr_status p \<notin> POLICY_INPUT_STATES
      then [mk_violation INVALID_STATE ''state''
              (''proposal is '' @ status_str (pr_status p) @ ''; policy evaluation only accepts '' @
               repr_str_list [''POLICY_EVALUATION'', ''PROPOSED''])]
      else [])"

definition action_rule :: rule where
  "action_rule p ctx cfg =
     (if get_action_definition (pr_action p) = None
      then [mk_violation ACTION_NOT_ALLOWED ''action''
              (''action <RemediationActionType.'' @ action_str (pr_action p) @ '': '' @
               repr_str (action_str (pr_action p)) @ ''> is not in the closed catalogue'')]
      else if pr_action p \<notin> pc_eligible_actions cfg
      then [mk_violation ACTION_NOT_ALLOWED ''action''
              (''action '' @ action_str (pr_action p) @ '' is disabled by policy v'' @ pc_version cfg)]
      else [])"

definition target_rule :: rule where
  "target_rule p ctx cfg =
     (case get_action_definition (pr_action p) of
        None \<Rightarrow> []
      | Some d \<Rightarrow>
          let t = pr_target p in
          if \<not> is_allowed_service (tg_service t)
          then [mk_violation TARGET_NOT_ALLOWED ''target''
                  (''service '' @ repr_str (tg_service t) @ '' is not on the remediation allow-list'')]
          else if tg_service t \<notin> ad_target_services d
          then [mk_violation TARGET_NOT_ALLOWED ''target''
                  (''service '' @ repr_str (tg_service t) @ '' is not allowed for action '' @ action_str (pr_action p))]
          else if tg_type t \<notin> ad_target_types d
          then [mk_violation TARGET_NOT_ALLOWED ''target''
                  (''target type '' @ target_type_str (tg_type t) @ '' is not allowed for '' @ action_str (pr_action p))]
          else [])"

definition environment_rule :: rule where
  "environment_rule p ctx cfg =
     (let env = tg_environment (pr_target p) in
      if env \<notin> pc_allowed_environments cfg
      then [mk_violation ENVIRONMENT_NOT_ALLOWED ''environment''
              (''environment '' @ repr_str env @ '' is not policy-allowed ('' @
               repr_str_list (sorted_list_of_set (pc_allowed_environments cfg)) @ '')'')]
      else [])"

definition severity_rule :: rule where
  "severity_rule p ctx cfg =
     (case get_action_definition (pr_action p) of
        None \<Rightarrow> []
      | Some d \<Rightarrow>
          (case cx_severity ctx of
             None \<Rightarrow>
               if pc_require_known_severity cfg
               then [mk_violation SEVERITY_NOT_ALLOWED ''severity''
                       ''incident severity could not be verified; failing closed'']
               else []
           | Some sev \<Rightarrow>
               if sev \<notin> KNOWN_SEVERITIES
               then [mk_violation SEVERITY_NOT_ALLOWED ''severity''
                       (''unrecognised incident severity '' @ repr_str sev)]
               else if sev \<notin> ad_severities d
               then [mk_violation SEVERITY_NOT_ALLOWED ''severity''
                       (''severity '' @ sev @ '' is not eligible for action '' @ action_str (pr_action p) @
                        '' (allowed: '' @ repr_str_list (sorted_list_of_set (ad_severities d)) @ '')'')]
               else []))"

definition parameter_rule :: rule where
  "parameter_rule p ctx cfg =
     (case validate_action_parameters (pr_action p) (pr_parameters p) of
        Inl (ParameterValidationError msg) \<Rightarrow> [mk_violation PARAMETER_INVALID ''parameters'' msg]
      | _ \<Rightarrow> [])"

definition effective_blast_radius :: "proposal \<Rightarrow> action_definition \<Rightarrow> int" where
  "effective_blast_radius p d =
     (if pr_action p = SCALE_SERVICE
      then (case map_of (pr_parameters p) ''replicas'' of
              Some (PInt i) \<Rightarrow> max (ad_max_blast_radius d) i
            | _ \<Rightarrow> ad_max_blast_radius d)
      else ad_max_blast_radius d)"

definition risk_rule :: rule where
  "risk_rule p ctx cfg =
     (case get_action_definition (pr_action p) of
        None \<Rightarrow> []
      | Some d \<Rightarrow>
          (if risk_rank (pc_max_allowed_risk cfg) < risk_rank (ad_risk d)
           then [mk_violation RISK_EXCEEDED ''risk''
                   (''action risk '' @ risk_str (ad_risk d) @ '' exceeds the policy ceiling '' @
                    risk_str (pc_max_allowed_risk cfg))]
           else []) @
          (if pc_max_blast_radius cfg < effective_blast_radius p d
           then [mk_violation RISK_EXCEEDED ''risk''
                   (''effective blast radius '' @ int_str (effective_blast_radius p d) @
                    '' exceeds the policy limit '' @ int_str (pc_max_blast_radius cfg))]
           else []))"

definition expiry_rule :: rule where
  "expiry_rule p ctx cfg =
     (if pr_expires p \<le> pr_created p
      then [mk_violation PROPOSAL_EXPIRED ''expiry''
              ''proposal approval window is malformed (expires_at <= created_at)'']
      else if pr_expires p \<le> cx_now ctx
      then [mk_violation PROPOSAL_EXPIRED ''expiry'' (''proposal expired at '' @ isoformat (pr_expires p))]
      else [])"

definition cooldown_rule :: rule where
  "cooldown_rule p ctx cfg =
     (case get_action_definition (pr_action p) of
        None \<Rightarrow> []
      | Some d \<Rightarrow>
          (if active_remediation_exists (cx_history ctx) (pr_incident p) (pr_action p) (pr_target p)
           then [mk_violation DUPLICATE_ACTIVE ''cooldown''
                   ''another remediation for this incident/action/target is already in flight'']
           else []) @
          (case last_completed_at (cx_history ctx) (pr_incident p) (pr_action p) (pr_target p) of
             None \<Rightarrow> []
           | Some t \<Rightarrow>
               if cx_now ctx - t < ad_cooldown_seconds d * 1000000
               then [mk_violation COOLDOWN_ACTIVE ''cooldown''
                       (''only '' @ fixed_str 0 (of_int (cx_now ctx - t) / 1000000) @
                        ''s since the last completed remediation; cooldown is '' @
                        int_str (ad_cooldown_seconds d) @ ''s'')]
               else []))"

definition RULES :: "(string \<times> rule) list" where
  "RULES =
     [(''state_rule'', state_rule), (''action_rule'', action_rule), (''target_rule'', target_rule),
      (''environment_rule'', environment_rule), (''severity_rule'', severity_rule),
      (''parameter_rule'', parameter_rule), (''risk_rule'', risk_rule), (''expiry_rule'', expiry_rule),
      (''cooldown_rule'', cooldown_rule)]"

section \<open>The engine\<close>

definition all_violations :: "policy_config \<Rightarrow> proposal \<Rightarrow> policy_context \<Rightarrow> violation list" where
  "all_violations cfg p ctx = concat (map (\<lambda>r. snd r p ctx cfg) RULES)"

definition evaluate :: "policy_config \<Rightarrow> proposal \<Rightarrow> policy_context \<Rightarrow> policy_decision" where
  "evaluate cfg p ctx =
     (let vs = all_violations cfg p ctx in
      if vs \<noteq> []
      then \<lparr>pd_outcome = DENY, pd_reason_codes = sort_key code_str (remdups (map vi_code vs)),
            pd_violations = vs, pd_version = pc_version cfg, pd_evaluated_rules = map fst RULES,
            pd_evaluated_at = cx_now ctx\<rparr>
      else \<lparr>pd_outcome = ALLOW, pd_reason_codes = [POLICY_OK, APPROVAL_REQUIRED],
            pd_violations = [], pd_version = pc_version cfg, pd_evaluated_rules = map fst RULES,
            pd_evaluated_at = cx_now ctx\<rparr>)"

definition FORBIDDEN_RESULT_STATES :: "rem_status set" where
  "FORBIDDEN_RESULT_STATES = {APPROVED, EXECUTING, EXECUTED, VERIFYING, RECOVERED}"

definition PATHS :: "(rem_status \<times> rem_status, rem_status list) dict" where
  "PATHS =
     [((PROPOSED, PENDING_APPROVAL), [POLICY_EVALUATION, PENDING_APPROVAL]),
      ((PROPOSED, BLOCKED), [BLOCKED]),
      ((POLICY_EVALUATION, PENDING_APPROVAL), [PENDING_APPROVAL]),
      ((POLICY_EVALUATION, BLOCKED), [BLOCKED])]"

fun advance :: "proposal \<Rightarrow> rem_status list \<Rightarrow> rem_error + proposal" where
  "advance p [] = Inr p"
| "advance p (nxt # path) =
     and_then (validate_transition (pr_status p) nxt) (\<lambda>_. advance (p\<lparr>pr_status := nxt\<rparr>) path)"

definition apply_policy_decision :: "proposal \<Rightarrow> policy_decision \<Rightarrow> rem_error + proposal" where
  "apply_policy_decision p d =
     (if pr_status p \<notin> POLICY_INPUT_STATES then Inl PolicyError
      else let tgt = (if decision_allowed d then PENDING_APPROVAL else BLOCKED) in
        and_then (advance p (the (map_of PATHS (pr_status p, tgt)))) (\<lambda>r.
          if pr_status r \<in> FORBIDDEN_RESULT_STATES then Inl PolicyError else Inr r))"

section \<open>Facts\<close>

lemmas rule_defs = state_rule_def action_rule_def target_rule_def environment_rule_def severity_rule_def
  parameter_rule_def risk_rule_def expiry_rule_def cooldown_rule_def

lemma mk_violation_code [simp]: "vi_code (mk_violation c r d) = c"
  by (simp add: mk_violation_def)

lemma code_str_inj: "inj code_str"
proof (rule injI)
  show "code_str a = code_str b \<Longrightarrow> a = b" for a b by (cases a; cases b) simp_all
qed

lemma apply_policy_decision_cases:
  "apply_policy_decision p d =
     (if pr_status p \<in> POLICY_INPUT_STATES
      then Inr (p\<lparr>pr_status := if decision_allowed d then PENDING_APPROVAL else BLOCKED\<rparr>)
      else Inl PolicyError)"
  by (auto simp: apply_policy_decision_def POLICY_INPUT_STATES_def PATHS_def Let_def
      validate_transition_def can_transition_def FORBIDDEN_RESULT_STATES_def)

lemma rule_codes:
  "v \<in> set (state_rule p ctx cfg) \<Longrightarrow> vi_code v = INVALID_STATE"
  "v \<in> set (action_rule p ctx cfg) \<Longrightarrow> vi_code v = ACTION_NOT_ALLOWED"
  "v \<in> set (target_rule p ctx cfg) \<Longrightarrow> vi_code v = TARGET_NOT_ALLOWED"
  "v \<in> set (environment_rule p ctx cfg) \<Longrightarrow> vi_code v = ENVIRONMENT_NOT_ALLOWED"
  "v \<in> set (severity_rule p ctx cfg) \<Longrightarrow> vi_code v = SEVERITY_NOT_ALLOWED"
  "v \<in> set (risk_rule p ctx cfg) \<Longrightarrow> vi_code v = RISK_EXCEEDED"
  "v \<in> set (expiry_rule p ctx cfg) \<Longrightarrow> vi_code v = PROPOSAL_EXPIRED"
  subgoal by (simp add: state_rule_def split: if_splits)
  subgoal by (simp add: action_rule_def split: if_splits)
  subgoal by (simp add: target_rule_def Let_def split: if_splits)
  subgoal by (simp add: environment_rule_def Let_def split: if_splits)
  subgoal by (auto simp: severity_rule_def split: if_splits option.splits)
  subgoal by (auto simp: risk_rule_def split: if_splits)
  subgoal by (simp add: expiry_rule_def split: if_splits)
  done

lemma parameter_rule_code: "v \<in> set (parameter_rule p ctx cfg) \<Longrightarrow> vi_code v = PARAMETER_INVALID"
  unfolding parameter_rule_def by (auto split: sum.splits rem_error.splits)

lemma cooldown_rule_code:
  "v \<in> set (cooldown_rule p ctx cfg) \<Longrightarrow> vi_code v \<in> {DUPLICATE_ACTIVE, COOLDOWN_ACTIVE}"
  by (auto simp: cooldown_rule_def split: if_splits option.splits)

lemma set_all_violations:
  "set (all_violations cfg p ctx) =
     set (state_rule p ctx cfg) \<union> set (action_rule p ctx cfg) \<union> set (target_rule p ctx cfg) \<union>
     set (environment_rule p ctx cfg) \<union> set (severity_rule p ctx cfg) \<union> set (parameter_rule p ctx cfg) \<union>
     set (risk_rule p ctx cfg) \<union> set (expiry_rule p ctx cfg) \<union> set (cooldown_rule p ctx cfg)"
  by (simp add: all_violations_def RULES_def Un_assoc)

lemma violations_deny_side:
  assumes "v \<in> set (all_violations cfg p ctx)"
  shows "vi_code v \<noteq> POLICY_OK \<and> vi_code v \<noteq> APPROVAL_REQUIRED"
  using assms rule_codes [of v p ctx cfg] parameter_rule_code [of v p ctx cfg] cooldown_rule_code [of v p ctx cfg]
  unfolding set_all_violations by (elim UnE) auto

lemma evaluate_outcome: "pd_outcome (evaluate cfg p ctx) = ALLOW \<longleftrightarrow> all_violations cfg p ctx = []"
  by (simp add: evaluate_def Let_def)

text \<open>The specification of the engine: when a proposal may go to human review.\<close>

definition severity_permits :: "policy_config \<Rightarrow> action_type \<Rightarrow> string option \<Rightarrow> bool" where
  "severity_permits cfg a sev =
     (case sev of None \<Rightarrow> \<not> pc_require_known_severity cfg
      | Some s \<Rightarrow> s \<in> KNOWN_SEVERITIES \<and> s \<in> ad_severities (def_of a))"

definition cooldown_over :: "policy_context \<Rightarrow> proposal \<Rightarrow> bool" where
  "cooldown_over ctx p =
     (case last_completed_at (cx_history ctx) (pr_incident p) (pr_action p) (pr_target p) of
        None \<Rightarrow> True
      | Some t \<Rightarrow> ad_cooldown_seconds (def_of (pr_action p)) * 1000000 \<le> cx_now ctx - t)"

definition policy_permits :: "policy_config \<Rightarrow> proposal \<Rightarrow> policy_context \<Rightarrow> bool" where
  "policy_permits cfg p ctx \<longleftrightarrow>
     pr_status p \<in> {PROPOSED, POLICY_EVALUATION} \<and>
     pr_action p \<in> pc_eligible_actions cfg \<and>
     tg_service (pr_target p) = ''orders-service'' \<and>
     tg_environment (pr_target p) \<in> pc_allowed_environments cfg \<and>
     severity_permits cfg (pr_action p) (cx_severity ctx) \<and>
     parameters_ok (pr_action p) (pr_parameters p) \<and>
     ad_risk (def_of (pr_action p)) \<le> pc_max_allowed_risk cfg \<and>
     effective_blast_radius p (def_of (pr_action p)) \<le> pc_max_blast_radius cfg \<and>
     pr_created p < pr_expires p \<and> cx_now ctx < pr_expires p \<and>
     \<not> active_remediation_exists (cx_history ctx) (pr_incident p) (pr_action p) (pr_target p) \<and>
     cooldown_over ctx p"

lemma state_rule_passes: "state_rule p ctx cfg = [] \<longleftrightarrow> pr_status p \<in> {PROPOSED, POLICY_EVALUATION}"
  by (simp add: state_rule_def POLICY_INPUT_STATES_def)

lemma action_rule_passes: "action_rule p ctx cfg = [] \<longleftrightarrow> pr_action p \<in> pc_eligible_actions cfg"
  by (simp add: action_rule_def)

lemma target_rule_passes: "target_rule p ctx cfg = [] \<longleftrightarrow> tg_service (pr_target p) = ''orders-service''"
  by (cases "tg_type (pr_target p)")
    (simp add: target_rule_def Let_def is_allowed_service_def ALLOWED_TARGET_SERVICES_def)

lemma environment_rule_passes:
  "environment_rule p ctx cfg = [] \<longleftrightarrow> tg_environment (pr_target p) \<in> pc_allowed_environments cfg"
  by (simp add: environment_rule_def Let_def)

lemma severity_rule_passes:
  "severity_rule p ctx cfg = [] \<longleftrightarrow> severity_permits cfg (pr_action p) (cx_severity ctx)"
  by (simp add: severity_rule_def severity_permits_def split: option.splits)

lemma parameter_rule_passes:
  "parameter_rule p ctx cfg = [] \<longleftrightarrow> parameters_ok (pr_action p) (pr_parameters p)"
proof (cases "validate_action_parameters (pr_action p) (pr_parameters p)")
  case (Inl e)
  then obtain m where "e = ParameterValidationError m" using validate_parameters_error by blast
  with Inl show ?thesis by (simp add: parameter_rule_def validate_parameters_ok [symmetric])
next
  case (Inr ns)
  then show ?thesis by (auto simp: parameter_rule_def validate_parameters_ok [symmetric])
qed

lemma risk_rule_passes:
  "risk_rule p ctx cfg = [] \<longleftrightarrow>
   ad_risk (def_of (pr_action p)) \<le> pc_max_allowed_risk cfg \<and>
   effective_blast_radius p (def_of (pr_action p)) \<le> pc_max_blast_radius cfg"
  by (auto simp: risk_rule_def less_eq_risk_level_def)

lemma expiry_rule_passes:
  "expiry_rule p ctx cfg = [] \<longleftrightarrow> pr_created p < pr_expires p \<and> cx_now ctx < pr_expires p"
  by (auto simp: expiry_rule_def)

lemma cooldown_rule_passes:
  "cooldown_rule p ctx cfg = [] \<longleftrightarrow>
   \<not> active_remediation_exists (cx_history ctx) (pr_incident p) (pr_action p) (pr_target p) \<and> cooldown_over ctx p"
  by (auto simp: cooldown_rule_def cooldown_over_def split: option.splits)

lemmas rules_pass = state_rule_passes action_rule_passes target_rule_passes environment_rule_passes
  severity_rule_passes parameter_rule_passes risk_rule_passes expiry_rule_passes cooldown_rule_passes

lemma no_violations_iff: "all_violations cfg p ctx = [] \<longleftrightarrow> policy_permits cfg p ctx"
  by (simp add: all_violations_def RULES_def rules_pass policy_permits_def)

text \<open>
  Claim C9. The engine answers ALLOW for exactly the proposals of its specification: every one of the
  nine rules passes, with risk and blast radius read from the catalogue, and an unverifiable incident
  severity failing closed.
\<close>
theorem policy_allow_exact:
  "pd_outcome (evaluate cfg p ctx) = ALLOW \<longleftrightarrow> policy_permits cfg p ctx"
  by (simp add: evaluate_outcome no_violations_iff)

text \<open>
  A decision is self-consistent: ALLOW carries no violation and always the code
  APPROVAL_REQUIRED; DENY carries at least one violation, its reason codes are exactly the codes of its
  violations, without repetition, in order of their value, and none of them is an ALLOW code.
\<close>
theorem policy_decision_consistent:
  "let d = evaluate cfg p ctx; cs = pd_reason_codes d; vs = pd_violations d in
     (if decision_allowed d then vs = [] \<and> cs = [POLICY_OK, APPROVAL_REQUIRED]
      else vs \<noteq> [] \<and> set cs = vi_code ` set vs \<and> distinct cs \<and> sorted (map code_str cs) \<and>
           POLICY_OK \<notin> set cs \<and> APPROVAL_REQUIRED \<notin> set cs)"
proof (cases "all_violations cfg p ctx = []")
  case True
  then show ?thesis by (simp add: evaluate_def decision_allowed_def)
next
  case False
  moreover have "POLICY_OK \<notin> vi_code ` set (all_violations cfg p ctx)"
    "APPROVAL_REQUIRED \<notin> vi_code ` set (all_violations cfg p ctx)"
    using violations_deny_side by fastforce+
  ultimately show ?thesis by (simp add: evaluate_def decision_allowed_def Let_def)
qed

definition reworded ::
  "risk_level \<Rightarrow> string \<Rightarrow> string \<Rightarrow> string \<Rightarrow> string list \<Rightarrow> string \<Rightarrow> trigger \<Rightarrow> proposal \<Rightarrow> proposal" where
  "reworded r src why eff evs who trg p =
     p\<lparr>pr_risk := r, pr_source := src, pr_reason := why, pr_effect := eff, pr_evidence := evs,
       pr_proposed_by := who, pr_trigger := trg\<rparr>"

lemma reworded_fields [simp]:
  "pr_action (reworded r src why eff evs who trg p) = pr_action p"
  "pr_status (reworded r src why eff evs who trg p) = pr_status p"
  "pr_target (reworded r src why eff evs who trg p) = pr_target p"
  "pr_parameters (reworded r src why eff evs who trg p) = pr_parameters p"
  "pr_incident (reworded r src why eff evs who trg p) = pr_incident p"
  "pr_created (reworded r src why eff evs who trg p) = pr_created p"
  "pr_expires (reworded r src why eff evs who trg p) = pr_expires p"
  by (simp_all add: reworded_def)

lemma rules_reworded:
  "state_rule (reworded r src why eff evs who trg p) = state_rule p"
  "action_rule (reworded r src why eff evs who trg p) = action_rule p"
  "target_rule (reworded r src why eff evs who trg p) = target_rule p"
  "environment_rule (reworded r src why eff evs who trg p) = environment_rule p"
  "severity_rule (reworded r src why eff evs who trg p) = severity_rule p"
  "parameter_rule (reworded r src why eff evs who trg p) = parameter_rule p"
  "risk_rule (reworded r src why eff evs who trg p) = risk_rule p"
  "expiry_rule (reworded r src why eff evs who trg p) = expiry_rule p"
  "cooldown_rule (reworded r src why eff evs who trg p) = cooldown_rule p"
  subgoal by (simp add: state_rule_def fun_eq_iff)
  subgoal by (simp add: action_rule_def fun_eq_iff)
  subgoal by (simp add: target_rule_def Let_def fun_eq_iff)
  subgoal by (simp add: environment_rule_def fun_eq_iff)
  subgoal by (simp add: severity_rule_def fun_eq_iff split: option.split)
  subgoal by (simp add: parameter_rule_def fun_eq_iff)
  subgoal by (simp add: risk_rule_def effective_blast_radius_def fun_eq_iff split: option.split pyobj.split)
  subgoal by (simp add: expiry_rule_def fun_eq_iff)
  subgoal by (simp add: cooldown_rule_def fun_eq_iff split: option.split)
  done

text \<open>
  Claim C10. The declared risk and all free text of a proposal are ignored: replacing its risk level,
  source label, reason, expected effect, evidence references, proposer and trigger (\<open>reworded\<close>) changes
  nothing in the decision.
\<close>
theorem policy_ignores_untrusted_fields:
  "evaluate cfg (reworded r src why eff evs who trg p) ctx = evaluate cfg p ctx"
  by (simp add: evaluate_def all_violations_def RULES_def rules_reworded)

text \<open>
  Applying a decision moves a proposal from a policy-input state to PENDING_APPROVAL when the
  decision allows it and to BLOCKED when it does not, along edges of the state machine and changing
  nothing else; from any other state it raises. No decision can approve or execute anything.
\<close>
theorem policy_application_exact:
  "apply_policy_decision p d =
     (if pr_status p \<in> {PROPOSED, POLICY_EVALUATION}
      then Inr (p\<lparr>pr_status := if decision_allowed d then PENDING_APPROVAL else BLOCKED\<rparr>)
      else Inl PolicyError)"
  by (simp add: apply_policy_decision_cases POLICY_INPUT_STATES_def)

end
