(* ===== verification/Executor.thy ===== *)
theory Executor imports Policy begin

text \<open>
  The executor boundary and its one implementation, \<open>executor/base.py\<close>, \<open>executor/registry.py\<close> and
  \<open>executor/simulation.py\<close>. The in-process simulation state is passed explicitly: an \<open>executor\<close> is a
  function from the simulation state to a result and the next state. The locale \<open>executor_contract\<close> is
  what \<open>RemediationService\<close> relies on; the local simulation is its interpretation.
\<close>

section \<open>Results\<close>

definition execution_id_ok :: "string \<Rightarrow> bool" where
  "execution_id_ok s = re_fullmatch (Cat (lit ''exec_'') (hex_tail 16 16)) s"

definition new_execution_id :: "string \<Rightarrow> string" where
  "new_execution_id tok = ''exec_'' @ tok"

record execution_result =
  xr_id :: string
  xr_remediation_id :: string
  xr_action :: action_type
  xr_service :: string
  xr_environment :: string
  xr_executor :: executor_type
  xr_status :: execution_status
  xr_dry_run :: bool
  xr_started_at :: datetime
  xr_completed_at :: "datetime option"
  xr_effect :: string
  xr_metadata :: "(string, pyobj) dict"
  xr_error :: "string option"

definition execution_succeeded :: "execution_result \<Rightarrow> bool" where
  "execution_succeeded r \<longleftrightarrow> xr_status r = ES_SUCCEEDED"

text \<open>What \<open>execute\<close> may raise: an \<open>ExecutorError\<close>, or a domain error of its own parameter check.\<close>

datatype executor_exn = ExecutorError string | ExecutorDomain rem_error

section \<open>The simulated services\<close>

record service_sim =
  sm_running :: bool
  sm_replicas :: int
  sm_revision :: string
  sm_restarts :: int
  sm_rollbacks :: int
  sm_flags :: "(string, bool) dict"
  sm_faulted :: bool
  sm_recovery_started :: "datetime option"
  sm_recovery_delay :: int
  sm_chronic :: bool

definition DEFAULT_FLAGS :: "(string, bool) dict" where
  "DEFAULT_FLAGS = [(''new_checkout_flow'', True), (''recommendations_v2'', True)]"

definition fresh_service :: service_sim where
  "fresh_service =
     \<lparr>sm_running = True, sm_replicas = 3, sm_revision = ''v1'', sm_restarts = 0, sm_rollbacks = 0,
      sm_flags = DEFAULT_FLAGS, sm_faulted = False, sm_recovery_started = None, sm_recovery_delay = 0,
      sm_chronic = False\<rparr>"

type_synonym sim_state = "(string, service_sim) dict"

text \<open>\<open>SimulationState.service\<close> is \<open>setdefault\<close>: reading an unknown service creates it.\<close>

definition sim_service :: "sim_state \<Rightarrow> string \<Rightarrow> service_sim" where
  "sim_service st n = (case map_of st n of None \<Rightarrow> fresh_service | Some s \<Rightarrow> s)"

definition sim_touch :: "sim_state \<Rightarrow> string \<Rightarrow> sim_state" where
  "sim_touch st n = (case map_of st n of None \<Rightarrow> st @ [(n, fresh_service)] | Some s \<Rightarrow> st)"

definition sim_set :: "sim_state \<Rightarrow> string \<Rightarrow> service_sim \<Rightarrow> sim_state" where
  "sim_set st n s = AList.update n s (sim_touch st n)"

definition inject_fault :: "sim_state \<Rightarrow> string \<Rightarrow> int option \<Rightarrow> bool \<Rightarrow> sim_state" where
  "inject_fault st n recover_after chronic =
     sim_set st n
       ((sim_service st n)
          \<lparr>sm_faulted := True, sm_running := True, sm_chronic := chronic, sm_recovery_started := None,
           sm_recovery_delay := (case recover_after of None \<Rightarrow> sm_recovery_delay (sim_service st n) | Some d \<Rightarrow> d)\<rparr>)"

definition mark_remediated :: "sim_state \<Rightarrow> string \<Rightarrow> datetime \<Rightarrow> sim_state" where
  "mark_remediated st n now = sim_set st n ((sim_service st n)\<lparr>sm_recovery_started := Some now\<rparr>)"

definition snapshot :: "sim_state \<Rightarrow> string \<Rightarrow> (string, pyobj) dict" where
  "snapshot st n =
     (let s = sim_service st n in
      [(''running'', PBool (sm_running s)), (''replicas'', PInt (sm_replicas s)),
       (''deployment_revision'', PStr (sm_revision s)), (''restart_count'', PInt (sm_restarts s)),
       (''rollback_count'', PInt (sm_rollbacks s)), (''faulted'', PBool (sm_faulted s)),
       (''chronic_fault'', PBool (sm_chronic s))] @
      map (\<lambda>kv. (''flag:'' @ fst kv, PBool (snd kv))) (sort_key fst (sm_flags s)))"

fun repr_obj :: "pyobj \<Rightarrow> string" where
  "repr_obj (PStr s) = repr_str s"
| "repr_obj (PInt i) = int_str i"
| "repr_obj (PBool b) = bool_str b"
| "repr_obj (POther t) = ''<'' @ t @ ''>''"

definition repr_dict :: "(string, pyobj) dict \<Rightarrow> string" where
  "repr_dict d = ''{'' @ join '', '' (map (\<lambda>kv. repr_str (fst kv) @ '': '' @ repr_obj (snd kv)) d) @ ''}''"

section \<open>Applying an action\<close>

record plan =
  pl_effect :: string
  pl_metadata :: "(string, pyobj) dict"

definition truthy_str :: "pyobj option \<Rightarrow> bool" where
  "truthy_str v = (case v of None \<Rightarrow> False | Some (PStr s) \<Rightarrow> s \<noteq> [] | Some (PInt i) \<Rightarrow> i \<noteq> 0
                   | Some (PBool b) \<Rightarrow> b | Some (POther t) \<Rightarrow> True)"

fun str_obj :: "pyobj \<Rightarrow> string" where
  "str_obj (PStr s) = s"
| "str_obj v = repr_obj v"

definition apply_restart :: "string \<Rightarrow> sim_state \<Rightarrow> plan \<times> sim_state" where
  "apply_restart n st =
     (let s = sim_service st n; s' = s\<lparr>sm_restarts := sm_restarts s + 1, sm_running := True\<rparr>
      in (\<lparr>pl_effect = ''restart '' @ n @ '': bounce all instances (restart #'' @ int_str (sm_restarts s') @ '')'',
           pl_metadata = [(''restart_count'', PInt (sm_restarts s')), (''running'', PBool True)]\<rparr>,
          sim_set st n s'))"

definition apply_scale :: "string \<Rightarrow> int \<Rightarrow> sim_state \<Rightarrow> plan \<times> sim_state" where
  "apply_scale n k st =
     (let s = sim_service st n; prev = sm_replicas s
      in (\<lparr>pl_effect = ''scale '' @ n @ '' from '' @ int_str prev @ '' to '' @ int_str k @ '' replicas'',
           pl_metadata = [(''replicas'', PInt k), (''previous_replicas'', PInt prev)]\<rparr>,
          sim_set st n (s\<lparr>sm_replicas := k\<rparr>)))"

definition apply_rollback :: "string \<Rightarrow> pyobj option \<Rightarrow> sim_state \<Rightarrow> plan \<times> sim_state" where
  "apply_rollback n to_rev st =
     (let s = sim_service st n; prev = sm_revision s;
          rev_name = (if truthy_str to_rev then str_obj (the to_rev) else prev @ ''-prev'')
      in (\<lparr>pl_effect = ''roll '' @ n @ '' back from '' @ prev @ '' to '' @ rev_name,
           pl_metadata = [(''revision'', PStr rev_name), (''previous_revision'', PStr prev)]\<rparr>,
          sim_set st n (s\<lparr>sm_revision := rev_name, sm_rollbacks := sm_rollbacks s + 1\<rparr>)))"

definition apply_flag :: "string \<Rightarrow> pyobj \<Rightarrow> sim_state \<Rightarrow> plan \<times> sim_state" where
  "apply_flag n flag st =
     (let s = sim_service st n; key = str_obj flag;
          prev = (case map_of (sm_flags s) key of None \<Rightarrow> True | Some b \<Rightarrow> b)
      in (\<lparr>pl_effect = ''disable feature flag '' @ repr_str key @ '' on '' @ n,
           pl_metadata = [(''flag_key'', PStr key), (''previously_enabled'', PBool prev), (''enabled'', PBool False)]\<rparr>,
          sim_set st n (s\<lparr>sm_flags := AList.update key False (sm_flags s)\<rparr>)))"

fun apply_action ::
  "action_type \<Rightarrow> string \<Rightarrow> (string, pyobj) dict \<Rightarrow> sim_state \<Rightarrow> executor_exn + (plan \<times> sim_state)" where
  "apply_action RESTART_SERVICE n ps st = Inr (apply_restart n st)"
| "apply_action SCALE_SERVICE n ps st =
     (case map_of ps ''replicas'' of
        Some (PInt k) \<Rightarrow> Inr (apply_scale n k st)
      | _ \<Rightarrow> Inl (ExecutorDomain AssertionError))"
| "apply_action ROLL_BACK_DEPLOYMENT n ps st = Inr (apply_rollback n (map_of ps ''to_revision'') st)"
| "apply_action DISABLE_FEATURE_FLAG n ps st =
     (case map_of ps ''flag_key'' of
        Some v \<Rightarrow> Inr (apply_flag n v st)
      | None \<Rightarrow> Inl (ExecutorDomain AssertionError))"

definition SIMULATED_ACTIONS :: "action_type set" where
  "SIMULATED_ACTIONS = {RESTART_SERVICE, SCALE_SERVICE, ROLL_BACK_DEPLOYMENT, DISABLE_FEATURE_FLAG}"

text \<open>
  \<open>LocalSimulationExecutor.execute\<close>. A dry run works on a deep copy that is dropped; a real run
  writes through, also when it raises (the touched service stays in the table).
\<close>

definition simulation_execute ::
  "proposal \<Rightarrow> string \<Rightarrow> bool \<Rightarrow> datetime \<Rightarrow> sim_state \<Rightarrow> (executor_exn + execution_result) \<times> sim_state" where
  "simulation_execute p xid dry now st =
     (case validate_action_parameters (pr_action p) (pr_parameters p) of
        Inl e \<Rightarrow> (Inl (ExecutorDomain e), st)
      | Inr ps \<Rightarrow>
          let n = tg_service (pr_target p) in
          (case apply_action (pr_action p) n ps st of
             Inl e \<Rightarrow> (Inl e, if dry then st else sim_touch st n)
           | Inr (pl, st1) \<Rightarrow>
               let working = (if dry then st1 else mark_remediated st1 n now) in
               (Inr \<lparr>xr_id = xid, xr_remediation_id = pr_id p, xr_action = pr_action p, xr_service = n,
                     xr_environment = tg_environment (pr_target p), xr_executor = LOCAL_SIMULATION,
                     xr_status = ES_SUCCEEDED, xr_dry_run = dry, xr_started_at = now, xr_completed_at = Some now,
                     xr_effect = take 2000 ((if dry then ''[DRY RUN] would '' else []) @ pl_effect pl),
                     xr_metadata = AList.update ''resulting_state'' (PStr (repr_dict (snapshot working n)))
                       (AList.update ''dry_run'' (PBool dry) (pl_metadata pl)),
                     xr_error = None\<rparr>,
                if dry then st else working)))"

type_synonym executor = "proposal \<Rightarrow> string \<Rightarrow> bool \<Rightarrow> datetime \<Rightarrow> sim_state \<Rightarrow> (executor_exn + execution_result) \<times> sim_state"

text \<open>The closed registry.\<close>

fun build_executor :: "executor_type \<Rightarrow> executor" where
  "build_executor LOCAL_SIMULATION = simulation_execute"

section \<open>The contract of an executor\<close>

text \<open>
  What the service relies on: a dry run leaves the world alone; a result describes the proposal it was
  given, under the identifier it was given, and reports success; a proposal whose parameters satisfy the
  catalogue is executed or fails with an \<open>ExecutorError\<close>, never with a domain error. The simulation is
  total besides: it executes every such proposal.
\<close>

locale executor_contract =
  fixes exec :: executor
  assumes dry_pure: "snd (exec p xid True now st) = st"
    and describes: "fst (exec p xid dry now st) = Inr r \<Longrightarrow>
          xr_id r = xid \<and> xr_remediation_id r = pr_id p \<and> xr_action r = pr_action p \<and>
          xr_service r = tg_service (pr_target p) \<and> xr_environment r = tg_environment (pr_target p) \<and>
          xr_dry_run r = dry \<and> xr_started_at r = now \<and> xr_status r = ES_SUCCEEDED \<and>
          length (xr_effect r) \<le> 2000"
    and no_domain_error: "parameters_ok (pr_action p) (pr_parameters p) \<Longrightarrow>
          fst (exec p xid dry now st) \<noteq> Inl (ExecutorDomain e)"
begin

lemma run_cases:
  "parameters_ok (pr_action p) (pr_parameters p) \<Longrightarrow>
   (\<exists>r. fst (exec p xid dry now st) = Inr r \<and> execution_succeeded r \<and> xr_id r = xid \<and> xr_dry_run r = dry) \<or>
   (\<exists>msg. fst (exec p xid dry now st) = Inl (ExecutorError msg))"
  using no_domain_error [of p xid dry now st] describes [of p xid dry now st]
  by (cases "fst (exec p xid dry now st)"; cases "projl (fst (exec p xid dry now st))")
    (auto simp: execution_succeeded_def)

end

locale total_executor = executor_contract exec for exec :: executor +
  assumes total: "parameters_ok (pr_action p) (pr_parameters p) \<Longrightarrow> \<exists>r. fst (exec p xid dry now st) = Inr r"
begin

lemma real_run_succeeds:
  "parameters_ok (pr_action p) (pr_parameters p) \<Longrightarrow>
   \<exists>r. fst (exec p xid False now st) = Inr r \<and> execution_succeeded r \<and> xr_id r = xid \<and> \<not> xr_dry_run r"
  using total [of p xid False now st] run_cases [of p xid False now st] by fastforce

end

lemma apply_action_total:
  assumes "validate_action_parameters a ps = Inr ns"
  shows "\<exists>pl st'. apply_action a n ns st = Inr (pl, st')"
proof -
  from assms have ok: "parameters_ok a ps" using validate_parameters_ok by blast
  have same: "map_of ns = map_of ps" using validate_parameters_same [OF assms] .
  show ?thesis
  proof (cases a)
    case SCALE_SERVICE
    with ok have "''replicas'' \<in> set (map fst ps)" by (simp add: parameters_ok_def enum_simps)
    then obtain v where v: "map_of ps ''replicas'' = Some v"
      by (metis list.set_map map_of_eq_None_iff not_None_eq)
    with ok SCALE_SERVICE have "value_ok replicas_parameter v"
      by (auto simp: parameters_ok_def enum_simps replicas_parameter_def)
    then obtain k where "v = PInt k" by (cases v) (auto simp: value_ok_def replicas_parameter_def)
    with v same SCALE_SERVICE show ?thesis by (simp add: apply_scale_def Let_def)
  next
    case DISABLE_FEATURE_FLAG
    with ok have "''flag_key'' \<in> set (map fst ps)" by (simp add: parameters_ok_def enum_simps)
    then obtain v where "map_of ps ''flag_key'' = Some v"
      by (metis list.set_map map_of_eq_None_iff not_None_eq)
    with same DISABLE_FEATURE_FLAG show ?thesis by (simp add: apply_flag_def Let_def)
  qed (simp_all add: apply_restart_def apply_rollback_def Let_def)
qed

lemma simulation_dry_pure: "snd (simulation_execute p xid True now st) = st"
  by (simp add: simulation_execute_def Let_def split: sum.splits prod.splits)

lemma simulation_describes:
  "fst (simulation_execute p xid dry now st) = Inr r \<Longrightarrow>
   xr_id r = xid \<and> xr_remediation_id r = pr_id p \<and> xr_action r = pr_action p \<and>
   xr_service r = tg_service (pr_target p) \<and> xr_environment r = tg_environment (pr_target p) \<and>
   xr_dry_run r = dry \<and> xr_started_at r = now \<and> xr_status r = ES_SUCCEEDED \<and> length (xr_effect r) \<le> 2000"
  by (auto simp: simulation_execute_def Let_def split: sum.splits prod.splits)

lemma simulation_total:
  "parameters_ok (pr_action p) (pr_parameters p) \<Longrightarrow> \<exists>r. fst (simulation_execute p xid dry now st) = Inr r"
  using apply_action_total [of "pr_action p" "pr_parameters p" _ "tg_service (pr_target p)" st]
  by (fastforce simp: simulation_execute_def Let_def validate_parameters_ok [symmetric] split: sum.splits prod.splits)

lemma simulation_no_domain_error:
  "parameters_ok (pr_action p) (pr_parameters p) \<Longrightarrow>
   fst (simulation_execute p xid dry now st) \<noteq> Inl (ExecutorDomain e)"
  using simulation_total [of p xid dry now st] by auto

interpretation sim: total_executor simulation_execute
  by unfold_locales (simp_all add: simulation_dry_pure simulation_describes simulation_no_domain_error simulation_total)

section \<open>Effects of a real run\<close>

lemma sim_set_get [simp]: "sim_service (sim_set st n s) m = (if m = n then s else sim_service st m)"
  by (auto simp: sim_service_def sim_set_def sim_touch_def update_conv' map_add_def split: option.splits)

lemma mark_remediated_get [simp]:
  "sim_service (mark_remediated st n now) m =
     (if m = n then (sim_service st n)\<lparr>sm_recovery_started := Some now\<rparr> else sim_service st m)"
  by (simp add: mark_remediated_def)

text \<open>The abstract effect of an action on one service, without texts.\<close>

fun action_effect :: "action_type \<Rightarrow> (string \<rightharpoonup> pyobj) \<Rightarrow> service_sim \<Rightarrow> service_sim" where
  "action_effect RESTART_SERVICE ps s = s\<lparr>sm_restarts := sm_restarts s + 1, sm_running := True\<rparr>"
| "action_effect SCALE_SERVICE ps s =
     (case ps ''replicas'' of Some (PInt k) \<Rightarrow> s\<lparr>sm_replicas := k\<rparr> | _ \<Rightarrow> s)"
| "action_effect ROLL_BACK_DEPLOYMENT ps s =
     s\<lparr>sm_revision := (case ps ''to_revision'' of Some (PStr r) \<Rightarrow> r | _ \<Rightarrow> sm_revision s @ ''-prev''),
       sm_rollbacks := sm_rollbacks s + 1\<rparr>"
| "action_effect DISABLE_FEATURE_FLAG ps s =
     (case ps ''flag_key'' of Some (PStr k) \<Rightarrow> s\<lparr>sm_flags := AList.update k False (sm_flags s)\<rparr> | _ \<Rightarrow> s)"


lemma parameter_ok_int:
  assumes "parameters_ok SCALE_SERVICE ps"
  shows "\<exists>k. map_of ps ''replicas'' = Some (PInt k) \<and> 1 \<le> k \<and> k \<le> 10"
proof -
  from assms have "''replicas'' \<in> set (map fst ps)" by (simp add: parameters_ok_def enum_simps)
  then obtain v where v: "map_of ps ''replicas'' = Some v"
    by (metis list.set_map map_of_eq_None_iff not_None_eq)
  with assms have "value_ok replicas_parameter v"
    by (auto simp: parameters_ok_def enum_simps replicas_parameter_def)
  with v show ?thesis
    by (cases v) (auto simp: value_ok_def replicas_parameter_def below_min_def above_max_def)
qed

lemma parameter_ok_flag:
  assumes "parameters_ok DISABLE_FEATURE_FLAG ps"
  shows "\<exists>k. map_of ps ''flag_key'' = Some (PStr k)"
proof -
  from assms have "''flag_key'' \<in> set (map fst ps)" by (simp add: parameters_ok_def enum_simps)
  then obtain v where v: "map_of ps ''flag_key'' = Some v"
    by (metis list.set_map map_of_eq_None_iff not_None_eq)
  with assms have "value_ok flag_key_parameter v"
    by (auto simp: parameters_ok_def enum_simps flag_key_parameter_def)
  with v show ?thesis by (cases v) (auto simp: value_ok_def flag_key_parameter_def)
qed

lemma parameter_ok_revision:
  assumes "parameters_ok ROLL_BACK_DEPLOYMENT ps" and "map_of ps ''to_revision'' = Some v"
  shows "\<exists>r. v = PStr r \<and> r \<noteq> []"
proof -
  from assms have "value_ok to_revision_parameter v"
    by (auto simp: parameters_ok_def enum_simps to_revision_parameter_def)
  then show ?thesis
    by (cases v) (auto simp: value_ok_def to_revision_parameter_def fails_pattern_def re_fullmatch_def)
qed

lemma apply_action_effect:
  assumes "validate_action_parameters a ps = Inr ns" and "apply_action a n ns st = Inr (pl, st')"
  shows "sim_service st' m = (if m = n then action_effect a (map_of ps) (sim_service st n) else sim_service st m)"
proof -
  from assms have ok: "parameters_ok a ps" using validate_parameters_ok by blast
  have same: "map_of ns = map_of ps" using validate_parameters_same [OF assms(1)] .
  show ?thesis
  proof (cases a)
    case RESTART_SERVICE
    with assms show ?thesis by (auto simp: apply_restart_def Let_def)
  next
    case SCALE_SERVICE
    with ok assms same parameter_ok_int [of ps] show ?thesis by (auto simp: apply_scale_def Let_def)
  next
    case ROLL_BACK_DEPLOYMENT
    with ok assms same parameter_ok_revision [of ps] show ?thesis
      by (cases "map_of ps ''to_revision''") (auto simp: apply_rollback_def truthy_str_def Let_def)
  next
    case DISABLE_FEATURE_FLAG
    with ok assms same parameter_ok_flag [of ps] show ?thesis by (auto simp: apply_flag_def Let_def)
  qed
qed

lemma simulation_effect:
  assumes "parameters_ok (pr_action p) (pr_parameters p)"
  shows "sim_service (snd (simulation_execute p xid False now st)) m =
    (if m = tg_service (pr_target p)
     then (action_effect (pr_action p) (map_of (pr_parameters p)) (sim_service st m))\<lparr>sm_recovery_started := Some now\<rparr>
     else sim_service st m)"
proof -
  from assms obtain ns where ns: "validate_action_parameters (pr_action p) (pr_parameters p) = Inr ns"
    using validate_parameters_ok by blast
  then obtain pl st' where st': "apply_action (pr_action p) (tg_service (pr_target p)) ns st = Inr (pl, st')"
    using apply_action_total by blast
  show ?thesis
    using apply_action_effect [OF ns st'] by (simp add: simulation_execute_def ns st' Let_def)
qed

text \<open>
  Claim C12. A real run of the simulation executor on a proposal that satisfies the catalogue refines the
  abstract effect of its action: the target service changes by exactly that effect and starts its
  recovery at the time of the run, and no other service changes.
\<close>
theorem execution_refines_effect:
  assumes "parameters_ok (pr_action p) (pr_parameters p)"
  shows "sim_service (snd (simulation_execute p xid False now st)) m =
    (if m = tg_service (pr_target p)
     then (action_effect (pr_action p) (map_of (pr_parameters p)) (sim_service st m))\<lparr>sm_recovery_started := Some now\<rparr>
     else sim_service st m)"
  using assms by (rule simulation_effect)

definition sample_scale :: proposal where
  "sample_scale = (drafted_proposal sample_rca ''rem_0123456789abcdef'' ''inc_0123ab'' None ''api'' 0 3600
      SCALE_SERVICE (orders_target ''development''))\<lparr>pr_parameters := [(''replicas'', PInt 5)]\<rparr>"

lemma sample_scale_ok: "parameters_ok (pr_action sample_scale) (pr_parameters sample_scale)"
  by (simp add: sample_scale_def drafted_proposal_def parameters_ok_def enum_simps replicas_parameter_def
      value_ok_def below_min_def above_max_def)

lemma execution_refines_witness:
  "sm_replicas (sim_service (snd (simulation_execute sample_scale ''exec_0'' False 7 [])) ''orders-service'') = 5"
  using execution_refines_effect [OF sample_scale_ok, of "''exec_0''" 7 "[]" "''orders-service''"]
  by (simp add: sample_scale_def drafted_proposal_def orders_target_def)

text \<open>Every service runs between one and ten replicas.\<close>

definition sim_bounded :: "sim_state \<Rightarrow> bool" where
  "sim_bounded st \<longleftrightarrow> (\<forall>n. sm_running (sim_service st n) \<and>
     1 \<le> sm_replicas (sim_service st n) \<and> sm_replicas (sim_service st n) \<le> 10)"

lemma sim_bounded_initial: "sim_bounded []"
  by (simp add: sim_bounded_def sim_service_def fresh_service_def)

lemma sim_touch_get [simp]: "sim_service (sim_touch st n) m = sim_service st m"
  by (auto simp: sim_service_def sim_touch_def map_add_def split: option.splits)

lemma action_effect_bounded:
  assumes "parameters_ok a ps" "sm_running s" "1 \<le> sm_replicas s" "sm_replicas s \<le> 10"
  shows "sm_running (action_effect a (map_of ps) s) \<and> 1 \<le> sm_replicas (action_effect a (map_of ps) s) \<and>
         sm_replicas (action_effect a (map_of ps) s) \<le> 10"
  using assms parameter_ok_int [of ps] parameter_ok_flag [of ps] by (cases a) auto

text \<open>
  The catalogue's bounds survive execution: whatever proposal is executed, real or dry, valid or
  not, every simulated service stays up with one to ten replicas.
\<close>
theorem execution_keeps_bounds:
  assumes "sim_bounded st"
  shows "sim_bounded (snd (simulation_execute p xid dry now st))"
proof (cases "dry \<or> \<not> parameters_ok (pr_action p) (pr_parameters p)")
  case True
  then show ?thesis
    using assms simulation_dry_pure [of p xid now st] validate_parameters_ok [of "pr_action p" "pr_parameters p"]
    by (cases "validate_action_parameters (pr_action p) (pr_parameters p)") (auto simp: simulation_execute_def)
next
  case False
  then show ?thesis
    using assms action_effect_bounded [of "pr_action p" "pr_parameters p"]
      simulation_effect [of p xid now st]
    by (auto simp: sim_bounded_def)
qed


lemma execution_keeps_bounds_witness:
  "sim_bounded (snd (simulation_execute sample_scale ''exec_0'' False 7 []))"
  by (rule execution_keeps_bounds [OF sim_bounded_initial])

end
