(* ===== verification/Redaction.thy ===== *)
theory Redaction imports Catalogue begin

text \<open>
  The secret redaction boundary of the audit trail, \<open>audit/redaction.py\<close>: the two regular expressions,
  text, metadata and identity redaction, then the bounds on what they return: the lengths, the number of
  entries and the mark on the value of a credential key. That the substitution in free text finds every
  credential is not stated.
\<close>

section \<open>The expressions\<close>

definition REDACTED :: string where "REDACTED = ''[REDACTED]''"

definition MAX_TEXT :: nat where "MAX_TEXT = 1000"

definition MAX_METADATA_VALUE :: nat where "MAX_METADATA_VALUE = 500"

definition MAX_METADATA_KEYS :: nat where "MAX_METADATA_KEYS = 40"

definition opt_dash :: rx where "opt_dash = Rep (one_of ''_-'') 0 (Some 1)"

definition SENSITIVE_KEY :: rx where
  "SENSITIVE_KEY =
     alts [''secret'', ''token'', ''password'', ''passwd'', ''pwd'']
    (Alt (cats [lit ''api'', opt_dash, lit ''key''])
    (Alt (cats [lit ''access'', opt_dash, lit ''key''])
    (Alt (cats [lit ''secret'', opt_dash, lit ''key''])
    (Alt (lit ''credential'')
    (Alt (lit ''authorization'')
    (Alt (cats [lit ''auth'', opt_dash, lit ''header''])
    (Alt (cats [lit ''private'', opt_dash, lit ''key''])
    (Alt (lit ''passphrase'')
    (Alt (lit ''bearer'')
    (Alt (cats [lit ''session'', opt_dash, lit ''id''])
    (Alt (lit ''cookie'')
         (cats [lit ''ssh'', opt_dash, lit ''key'']))))))))))))"

definition pem_char :: "char \<Rightarrow> bool" where
  "pem_char c \<longleftrightarrow> is_upper c \<or> is_digit c \<or> c = CHR '' ''"

definition upper_digit :: "char \<Rightarrow> bool" where "upper_digit c \<longleftrightarrow> is_digit c \<or> is_upper c"

definition slack_char :: "char \<Rightarrow> bool" where "slack_char c \<longleftrightarrow> is_alnum c \<or> c = CHR ''-''"

definition url64_char :: "char \<Rightarrow> bool" where "url64_char c \<longleftrightarrow> is_alnum c \<or> one_of ''_-'' c"

definition bearer_char :: "char \<Rightarrow> bool" where "bearer_char c \<longleftrightarrow> is_alnum c \<or> one_of ''._~+/-'' c"

definition pem_rx :: rx where
  "pem_rx = cats [lit ''-----BEGIN'', Cls is_space, Rep pem_char 0 None, lit ''PRIVATE'', Cls is_space, lit ''KEY-----'']"

definition aws_rx :: rx where
  "aws_rx = cats [WordB, alts [''AKIA'', ''ASIA'', ''AROA''] (lit ''AIDA''), Rep upper_digit 16 (Some 16), WordB]"

definition github_rx :: rx where
  "github_rx = cats [WordB, lit ''gh'', Cls (one_of ''posru''), lit ''_'', Rep is_alnum 20 None, WordB]"

definition slack_rx :: rx where
  "slack_rx = cats [WordB, lit ''xox'', Cls (one_of ''baprs''), lit ''-'', Rep slack_char 10 None, WordB]"

definition jwt_rx :: rx where
  "jwt_rx = cats [WordB, lit ''eyJ'', Rep url64_char 8 None, lit ''.'', Rep url64_char 8 None, lit ''.'',
                  Rep url64_char 4 None, WordB]"

definition bearer_rx :: rx where
  "bearer_rx = cats [WordB, lit ''Bearer'', Rep is_space 1 None, Rep bearer_char 8 None, Rep (one_of ''='') 0 (Some 2)]"

definition google_rx :: rx where
  "google_rx = cats [WordB, lit ''AIza'', Rep url64_char 20 None, WordB]"

definition SENSITIVE_VALUE :: rx where
  "SENSITIVE_VALUE =
     Alt pem_rx (Alt aws_rx (Alt github_rx (Alt slack_rx (Alt jwt_rx (Alt bearer_rx google_rx)))))"

section \<open>Redaction\<close>

definition scrub :: "string \<Rightarrow> string" where
  "scrub s = re_sub SENSITIVE_VALUE REDACTED s"

definition redact_text :: "string \<Rightarrow> string" where
  "redact_text s =
     (let cleaned = scrub s in
      if MAX_TEXT < length cleaned then take (MAX_TEXT - 1) cleaned @ [ellipsis] else cleaned)"

definition sensitive_key :: "string \<Rightarrow> bool" where
  "sensitive_key k = re_search SENSITIVE_KEY (map lower_char k)"

fun redact_entry :: "string \<Rightarrow> pyobj \<Rightarrow> (string, pyobj) dict" where
  "redact_entry k raw =
     (if sensitive_key k then [(k, PStr REDACTED)]
      else case raw of
        PBool b \<Rightarrow> [(k, raw)]
      | PInt i \<Rightarrow> [(k, raw)]
      | PStr s \<Rightarrow> [(k, PStr (take MAX_METADATA_VALUE (scrub s)))]
      | POther t \<Rightarrow> [])"

declare redact_entry.simps [simp del]

definition redact_metadata :: "(string, pyobj) dict \<Rightarrow> (string, pyobj) dict" where
  "redact_metadata d =
     concat (map (\<lambda>k. redact_entry k (the (map_of d k))) (take MAX_METADATA_KEYS (sort (map fst d))))"

definition redact_identity :: "string \<Rightarrow> string" where
  "redact_identity s = (let r = take 128 (redact_text s) in if r \<noteq> [] then r else REDACTED)"

section \<open>Bounds\<close>

lemma length_redact_text: "length (redact_text s) \<le> 1000"
  by (simp add: redact_text_def Let_def MAX_TEXT_def)

lemma length_redact_identity: "redact_identity s \<noteq> [] \<and> length (redact_identity s) \<le> 128"
  by (simp add: redact_identity_def REDACTED_def Let_def)

lemma redact_entry_keys: "e \<in> set (redact_entry k v) \<Longrightarrow> fst e = k"
  by (auto simp: redact_entry.simps split: if_splits pyobj.splits)

lemma redact_entry_ok:
  "(k', w) \<in> set (redact_entry k v) \<Longrightarrow>
   is_scalar w \<and> (sensitive_key k \<longrightarrow> w = PStr REDACTED) \<and> (\<forall>s. w = PStr s \<longrightarrow> length s \<le> 500) \<and>
   (\<not> sensitive_key k \<longrightarrow> (\<forall>i. v = PInt i \<longrightarrow> w = PInt i) \<and> (\<forall>b. v = PBool b \<longrightarrow> w = PBool b))"
  by (auto simp: redact_entry.simps REDACTED_def MAX_METADATA_VALUE_def split: if_splits pyobj.splits)

lemma length_redact_entry: "length (redact_entry k v) \<le> 1"
  by (auto simp: redact_entry.simps split: pyobj.splits)

lemma length_concat_le: "(\<And>x. x \<in> set xs \<Longrightarrow> length (f x) \<le> 1) \<Longrightarrow> length (concat (map f xs)) \<le> length xs"
  by (induction xs) (auto intro: order_trans [OF add_mono])

lemma redact_metadata_facts:
  "length (redact_metadata d) \<le> 40 \<and> fst ` set (redact_metadata d) \<subseteq> fst ` set d \<and>
   (\<forall>(k, w) \<in> set (redact_metadata d).
      is_scalar w \<and> (sensitive_key k \<longrightarrow> w = PStr REDACTED) \<and> (\<forall>s. w = PStr s \<longrightarrow> length s \<le> 500))"
proof (intro conjI)
  let ?ks = "take MAX_METADATA_KEYS (sort (map fst d))"
  have "length (redact_metadata d) \<le> length ?ks"
    unfolding redact_metadata_def by (rule length_concat_le) (rule length_redact_entry)
  also have "\<dots> \<le> 40" by (simp add: MAX_METADATA_KEYS_def)
  finally show "length (redact_metadata d) \<le> 40" .
  have ks: "set ?ks \<subseteq> fst ` set d" using set_take_subset [of MAX_METADATA_KEYS "sort (map fst d)"] by auto
  then show "fst ` set (redact_metadata d) \<subseteq> fst ` set d"
    by (auto simp: redact_metadata_def dest!: redact_entry_keys)
  show "\<forall>(k, w) \<in> set (redact_metadata d).
      is_scalar w \<and> (sensitive_key k \<longrightarrow> w = PStr REDACTED) \<and> (\<forall>s. w = PStr s \<longrightarrow> length s \<le> 500)"
    unfolding redact_metadata_def using redact_entry_keys redact_entry_ok by fastforce
qed

text \<open>
  Claim C15. Redacted metadata is bounded and safe by key: at most 40 entries, all of them keys of the input,
  every value a scalar, every text at most 500 characters, and a key that looks like a credential carries
  the redaction mark whatever its value was.
\<close>
theorem redacted_metadata_safe:
  "length (redact_metadata d) \<le> 40 \<and> fst ` set (redact_metadata d) \<subseteq> fst ` set d \<and>
   (\<forall>(k, w) \<in> set (redact_metadata d).
      is_scalar w \<and> (sensitive_key k \<longrightarrow> w = PStr REDACTED) \<and> (\<forall>s. w = PStr s \<longrightarrow> length s \<le> 500))"
  by (rule redact_metadata_facts)

lemma redacted_metadata_safe_witness:
  "\<exists>w. redact_metadata [(''auth_token'', PStr ''hunter2'')] = [(''auth_token'', w)] \<and> w = PStr REDACTED"
proof -
  have "map fst (redact_metadata [(''auth_token'', PStr ''hunter2'')]) = [''auth_token'']" by code_simp
  then obtain w where w: "redact_metadata [(''auth_token'', PStr ''hunter2'')] = [(''auth_token'', w)]" by auto
  have "sensitive_key ''auth_token''" by code_simp
  then show ?thesis using redacted_metadata_safe [of "[(''auth_token'', PStr ''hunter2'')]"] by (simp add: w)
qed

end
