(* ===== verification/Recovery.thy ===== *)
theory Recovery imports Executor Redaction begin

text \<open>
  Recovery verification, \<open>recovery/config.py\<close>, \<open>health.py\<close>, \<open>model.py\<close> and \<open>verifier.py\<close>: the
  bounded poll loop over a health probe, on a virtual clock, and the simulated probe. A probe is a function
  of the state it reads; \<open>None\<close> is a probe that raised. The locale \<open>health_probe\<close> is what the verifier
  relies on (observing does not change later observations), \<open>converging_probe\<close> adds that a healthy
  service stays healthy; the simulated probe is an interpretation of both. Times are microseconds,
  thresholds and rates exact rationals.
\<close>

section \<open>Configuration\<close>

record recovery_config =
  rc_timeout :: int
  rc_poll :: rat
  rc_max_error_rate :: rat
  rc_min_success_rate :: rat
  rc_max_latency :: rat
  rc_min_replicas :: int
  rc_require_ready :: bool

definition recovery_config_ok :: "recovery_config \<Rightarrow> bool" where
  "recovery_config_ok c \<longleftrightarrow>
     1 \<le> rc_timeout c \<and> rc_timeout c \<le> 3600 \<and> 0 < rc_poll c \<and> rc_poll c \<le> 600 \<and>
     0 \<le> rc_max_error_rate c \<and> rc_max_error_rate c \<le> 1 \<and>
     0 \<le> rc_min_success_rate c \<and> rc_min_success_rate c \<le> 1 \<and> 0 < rc_max_latency c \<and> 1 \<le> rc_min_replicas c"

definition DEFAULT_RECOVERY_CONFIG :: recovery_config where
  "DEFAULT_RECOVERY_CONFIG =
     \<lparr>rc_timeout = 30, rc_poll = 3, rc_max_error_rate = 5 / 100, rc_min_success_rate = 95 / 100,
      rc_max_latency = 750, rc_min_replicas = 1, rc_require_ready = True\<rparr>"

definition max_attempts :: "recovery_config \<Rightarrow> nat" where
  "max_attempts c = nat (max 1 (\<lfloor>of_int (rc_timeout c) / rc_poll c\<rfloor> + 1))"

section \<open>Value objects\<close>

datatype verification_status = VS_STARTED | VS_RECOVERED | VS_RECOVERY_FAILED

datatype health_status = HEALTHY | DEGRADED | UNHEALTHY

fun verification_status_str :: "verification_status \<Rightarrow> string" where
  "verification_status_str VS_STARTED = ''STARTED''"
| "verification_status_str VS_RECOVERED = ''RECOVERED''"
| "verification_status_str VS_RECOVERY_FAILED = ''RECOVERY_FAILED''"

fun health_status_str :: "health_status \<Rightarrow> string" where
  "health_status_str HEALTHY = ''HEALTHY''"
| "health_status_str DEGRADED = ''DEGRADED''"
| "health_status_str UNHEALTHY = ''UNHEALTHY''"

definition verification_id_ok :: "string \<Rightarrow> bool" where
  "verification_id_ok s = re_fullmatch (Cat (lit ''ver_'') (hex_tail 16 16)) s"

definition new_verification_id :: "string \<Rightarrow> string" where
  "new_verification_id tok = ''ver_'' @ tok"

definition VERIFIER_VERSION :: string where "VERIFIER_VERSION = ''1''"

definition VERIFIER_TYPE_LOCAL :: string where "VERIFIER_TYPE_LOCAL = ''DETERMINISTIC_LOCAL''"

record health_snapshot =
  hs_service :: string
  hs_environment :: string
  hs_status :: health_status
  hs_ready :: bool
  hs_running :: bool
  hs_replicas :: int
  hs_error_rate :: rat
  hs_success_rate :: rat
  hs_latency :: rat
  hs_detail :: string
  hs_observed_at :: datetime

record recovery_check =
  ck_name :: string
  ck_passed :: bool
  ck_observed :: string
  ck_threshold :: string
  ck_detail :: string

record recovery_outcome =
  ro_status :: verification_status
  ro_checks :: "recovery_check list"
  ro_attempts :: nat
  ro_first_healthy_at :: "datetime option"
  ro_failure_reason :: "string option"
  ro_probe_status :: health_status
  ro_verifier_type :: string
  ro_verifier_version :: string
  ro_started_at :: datetime
  ro_completed_at :: datetime

definition outcome_recovered :: "recovery_outcome \<Rightarrow> bool" where
  "outcome_recovered o1 \<longleftrightarrow> ro_status o1 = VS_RECOVERED"

definition checks_passed :: "recovery_outcome \<Rightarrow> nat" where
  "checks_passed o1 = length (filter ck_passed (ro_checks o1))"

record verification_result =
  vr_id :: string
  vr_remediation_id :: string
  vr_execution_id :: string
  vr_status :: verification_status
  vr_verifier_type :: string
  vr_verifier_version :: string
  vr_attempts :: nat
  vr_checks :: "recovery_check list"
  vr_failure_reason :: "string option"
  vr_timeout :: int
  vr_poll :: rat
  vr_metadata :: "(string, pyobj) dict"
  vr_started_at :: datetime
  vr_completed_at :: "datetime option"

definition result_recovered :: "verification_result \<Rightarrow> bool" where
  "result_recovered r \<longleftrightarrow> vr_status r = VS_RECOVERED"

section \<open>The simulated probe\<close>

type_synonym 's probe = "string \<Rightarrow> string \<Rightarrow> datetime \<Rightarrow> 's \<Rightarrow> health_snapshot option \<times> 's"

definition snap ::
  "string \<Rightarrow> string \<Rightarrow> datetime \<Rightarrow> health_status \<Rightarrow> bool \<Rightarrow> bool \<Rightarrow> int \<Rightarrow> rat \<Rightarrow> rat \<Rightarrow> string \<Rightarrow> health_snapshot" where
  "snap service env now status ready running replicas error_rate latency detail =
     \<lparr>hs_service = service, hs_environment = env, hs_status = status, hs_ready = ready, hs_running = running,
      hs_replicas = max 0 replicas, hs_error_rate = error_rate, hs_success_rate = round_to 4 (1 - error_rate),
      hs_latency = latency, hs_detail = detail, hs_observed_at = now\<rparr>"

definition converging_fraction :: "int \<Rightarrow> int \<Rightarrow> rat" where
  "converging_fraction elapsed delay = (if 0 < delay then of_int elapsed / of_int delay else 1)"

definition observe_service :: "string \<Rightarrow> string \<Rightarrow> datetime \<Rightarrow> service_sim \<Rightarrow> health_snapshot" where
  "observe_service service env now s =
     (if \<not> sm_running s \<or> sm_replicas s < 1 then
        snap service env now UNHEALTHY False (sm_running s) (sm_replicas s) 1 8000
          ''target service is not running or has no replicas''
      else if sm_chronic s then
        snap service env now DEGRADED False True (sm_replicas s) (37 / 100) 2100
          ''service still failing after remediation; root cause not addressed''
      else case sm_recovery_started s of
        None \<Rightarrow>
          if sm_faulted s then
            snap service env now DEGRADED False True (sm_replicas s) (42 / 100) 2600
              ''incident active; no remediation applied yet''
          else
            snap service env now HEALTHY True True (sm_replicas s) (2 / 1000) 110 ''nominal''
      | Some t0 \<Rightarrow>
          let elapsed = max 0 (now - t0) in
          if sm_recovery_delay s \<le> elapsed then
            snap service env now HEALTHY True True (sm_replicas s) (3 / 1000) 135
              (''recovered '' @ fixed_str 1 (of_int elapsed / 1000000) @ ''s after remediation'')
          else
            let frac = converging_fraction elapsed (sm_recovery_delay s) in
            snap service env now DEGRADED False True (sm_replicas s)
              (round_to 4 (30 / 100 * (1 - frac) + 1 / 100)) (round_to 1 (1600 * (1 - frac) + 150))
              (''converging ('' @ fixed_str 0 (frac * 100) @ ''% through the expected recovery window)''))"

definition simulated_probe :: "sim_state probe" where
  "simulated_probe service env now st =
     (Some (observe_service service env now (sim_service st service)), sim_touch st service)"

section \<open>The verifier\<close>

definition mk_check :: "string \<Rightarrow> bool \<Rightarrow> string \<Rightarrow> string \<Rightarrow> string \<Rightarrow> recovery_check" where
  "mk_check name passed observed threshold detail =
     \<lparr>ck_name = name, ck_passed = passed, ck_observed = take 200 (redact_text observed),
      ck_threshold = take 200 threshold, ck_detail = take 500 (redact_text detail)\<rparr>"

definition probe_error_check :: "string \<Rightarrow> recovery_check" where
  "probe_error_check message =
     \<lparr>ck_name = ''probe_error'', ck_passed = False, ck_observed = ''error'',
      ck_threshold = ''probe returns a snapshot'', ck_detail = take 500 (redact_text message)\<rparr>"

definition evaluate_health :: "health_snapshot \<Rightarrow> recovery_config \<Rightarrow> recovery_check list" where
  "evaluate_health s c =
     [mk_check ''service_running'' (hs_running s) (bool_str (hs_running s)) ''running is True''
        ''the target service process is up'',
      mk_check ''error_rate'' (hs_error_rate s \<le> rc_max_error_rate c) (fixed_str 4 (hs_error_rate s))
        (''<= '' @ float_str (rc_max_error_rate c)) ''request error rate is within the recovery threshold'',
      mk_check ''latency_p95'' (hs_latency s \<le> rc_max_latency c) (fixed_str 1 (hs_latency s) @ ''ms'')
        (''<= '' @ float_str (rc_max_latency c) @ ''ms'') ''p95 latency is within the recovery threshold''] @
     (if rc_require_ready c then
        [mk_check ''readiness'' (hs_ready s) (bool_str (hs_ready s)) ''ready is True''
           ''the target service reports ready'']
      else [])"

definition probe_raised :: string where
  "probe_raised = ''health probe raised while observing the target''"

text \<open>One poll: the checks, the probe's own status, its detail and the state after it.\<close>

definition poll ::
  "'s probe \<Rightarrow> service_target \<Rightarrow> recovery_config \<Rightarrow> datetime \<Rightarrow> 's \<Rightarrow>
   recovery_check list \<times> health_status \<times> string \<times> 's" where
  "poll probe t c now st =
     (case probe (tg_service t) (tg_environment t) now st of
        (Some s, st') \<Rightarrow> (evaluate_health s c, hs_status s, hs_detail s, st')
      | (None, st') \<Rightarrow> ([probe_error_check probe_raised], UNHEALTHY, probe_raised, st'))"

definition poll_step :: "recovery_config \<Rightarrow> int" where
  "poll_step c = round_even (rc_poll c * 1000000)"

definition recovered_outcome ::
  "recovery_check list \<Rightarrow> nat \<Rightarrow> datetime \<Rightarrow> health_status \<Rightarrow> datetime \<Rightarrow> recovery_outcome" where
  "recovered_outcome checks attempt current status started =
     \<lparr>ro_status = VS_RECOVERED, ro_checks = checks, ro_attempts = attempt, ro_first_healthy_at = Some current,
      ro_failure_reason = None, ro_probe_status = status, ro_verifier_type = VERIFIER_TYPE_LOCAL,
      ro_verifier_version = VERIFIER_VERSION, ro_started_at = started, ro_completed_at = current\<rparr>"

definition failing_names :: "recovery_check list \<Rightarrow> string" where
  "failing_names checks =
     (let names = join '', '' (map ck_name (filter (\<lambda>k. \<not> ck_passed k) checks))
      in if names \<noteq> [] then names else ''none'')"

definition failure_reason :: "recovery_config \<Rightarrow> recovery_check list \<Rightarrow> string \<Rightarrow> string" where
  "failure_reason c checks detail =
     ''recovery not observed within '' @ int_str (rc_timeout c) @ ''s ('' @ nat_str (max_attempts c) @
     '' polls); failing checks: '' @ failing_names checks @ ''; last health detail: '' @ take 300 (redact_text detail)"

definition failed_outcome ::
  "recovery_config \<Rightarrow> recovery_check list \<Rightarrow> datetime \<Rightarrow> health_status \<Rightarrow> string \<Rightarrow> datetime \<Rightarrow> recovery_outcome" where
  "failed_outcome c checks current status detail started =
     \<lparr>ro_status = VS_RECOVERY_FAILED, ro_checks = checks, ro_attempts = max_attempts c,
      ro_first_healthy_at = None, ro_failure_reason = Some (redact_text (failure_reason c checks detail)),
      ro_probe_status = status, ro_verifier_type = VERIFIER_TYPE_LOCAL, ro_verifier_version = VERIFIER_VERSION,
      ro_started_at = started, ro_completed_at = current\<rparr>"

text \<open>
  The loop, with \<open>left\<close> polls still to come after this one. It always polls once, so the initial values
  of \<open>last_checks\<close> and \<open>last_detail\<close> are never used.
\<close>

fun verify_loop ::
  "'s probe \<Rightarrow> service_target \<Rightarrow> recovery_config \<Rightarrow> datetime \<Rightarrow> nat \<Rightarrow> nat \<Rightarrow> datetime \<Rightarrow> 's \<Rightarrow> recovery_outcome \<times> 's"
where
  "verify_loop probe t c started left attempt current st =
     (case poll probe t c current st of
        (checks, status, detail, st') \<Rightarrow>
          if list_all ck_passed checks then (recovered_outcome checks attempt current status started, st')
          else case left of
            0 \<Rightarrow> (failed_outcome c checks current status detail started, st')
          | Suc left' \<Rightarrow> verify_loop probe t c started left' (attempt + 1) (current + poll_step c) st')"

declare verify_loop.simps [simp del]

definition verify ::
  "'s probe \<Rightarrow> service_target \<Rightarrow> recovery_config \<Rightarrow> datetime \<Rightarrow> 's \<Rightarrow> recovery_outcome \<times> 's" where
  "verify probe t c started st = verify_loop probe t c started (max_attempts c - 1) 1 started st"

text \<open>\<open>build_default_verifier\<close>: the executor's own simulation state when it exposes one, else a fresh one.\<close>

definition build_default_verifier :: "sim_state option \<Rightarrow> sim_state" where
  "build_default_verifier source = (case source of Some st \<Rightarrow> st | None \<Rightarrow> [])"

section \<open>Shape of an outcome\<close>

definition poll_passes :: "'s probe \<Rightarrow> service_target \<Rightarrow> recovery_config \<Rightarrow> datetime \<Rightarrow> 's \<Rightarrow> bool" where
  "poll_passes probe t c now st \<longleftrightarrow> list_all ck_passed (fst (poll probe t c now st))"

definition poll_time :: "recovery_config \<Rightarrow> datetime \<Rightarrow> nat \<Rightarrow> datetime" where
  "poll_time c started k = started + int k * poll_step c"

lemma max_attempts_pos: "1 \<le> max_attempts c"
  by (simp add: max_attempts_def)

lemma poll_time_Suc: "poll_time c (started + poll_step c) k = poll_time c started (Suc k)"
  by (simp add: poll_time_def algebra_simps)

lemma verify_loop_step:
  "verify_loop probe t c started left attempt current st =
     (if poll_passes probe t c current st
      then (recovered_outcome (fst (poll probe t c current st)) attempt current
              (fst (snd (poll probe t c current st))) started, snd (snd (snd (poll probe t c current st))))
      else case left of
        0 \<Rightarrow> (failed_outcome c (fst (poll probe t c current st)) current (fst (snd (poll probe t c current st)))
               (fst (snd (snd (poll probe t c current st)))) started, snd (snd (snd (poll probe t c current st))))
      | Suc left' \<Rightarrow> verify_loop probe t c started left' (attempt + 1) (current + poll_step c)
               (snd (snd (snd (poll probe t c current st)))))"
  by (subst verify_loop.simps) (cases "poll probe t c current st", simp add: poll_passes_def split: nat.split)

definition check_bounded :: "recovery_check \<Rightarrow> bool" where
  "check_bounded k \<longleftrightarrow> length (ck_name k) \<le> 64 \<and> length (ck_observed k) \<le> 200 \<and>
     length (ck_threshold k) \<le> 200 \<and> length (ck_detail k) \<le> 500"

lemma mk_check_bounded: "length name \<le> 64 \<Longrightarrow> check_bounded (mk_check name b x y z)"
  unfolding mk_check_def check_bounded_def recovery_check.simps by (simp del: take_append)

lemma evaluate_health_bounded: "list_all check_bounded (evaluate_health s c)"
  unfolding evaluate_health_def by (simp add: mk_check_bounded)

lemma poll_checks_bounded: "list_all check_bounded (fst (poll probe t c now st))"
  by (simp add: poll_def evaluate_health_bounded check_bounded_def probe_error_check_def split: prod.split option.split)

definition outcome_shaped :: "recovery_config \<Rightarrow> datetime \<Rightarrow> recovery_outcome \<Rightarrow> bool" where
  "outcome_shaped c started o1 \<longleftrightarrow>
     1 \<le> ro_attempts o1 \<and> ro_attempts o1 \<le> max_attempts c \<and> ro_started_at o1 = started \<and>
     ro_completed_at o1 = poll_time c started (ro_attempts o1 - 1) \<and>
     (ro_status o1 = VS_RECOVERED \<and> ro_failure_reason o1 = None \<and> list_all ck_passed (ro_checks o1) \<and>
        ro_first_healthy_at o1 = Some (ro_completed_at o1)
      \<or> ro_status o1 = VS_RECOVERY_FAILED \<and> ro_attempts o1 = max_attempts c \<and> \<not> list_all ck_passed (ro_checks o1) \<and>
        ro_first_healthy_at o1 = None \<and> (\<exists>r. ro_failure_reason o1 = Some r \<and> length r \<le> 1000)) \<and>
     list_all check_bounded (ro_checks o1)"

lemma recovered_shaped:
  "list_all ck_passed (fst (poll probe t c current st)) \<Longrightarrow> 1 \<le> attempt \<Longrightarrow> attempt \<le> max_attempts c \<Longrightarrow>
   current = poll_time c started (attempt - 1) \<Longrightarrow>
   outcome_shaped c started (recovered_outcome (fst (poll probe t c current st)) attempt current h started)"
  using poll_checks_bounded [of probe t c current st]
  by (simp add: outcome_shaped_def recovered_outcome_def)

lemma failed_shaped:
  "\<not> list_all ck_passed (fst (poll probe t c current st)) \<Longrightarrow> current = poll_time c started (max_attempts c - 1) \<Longrightarrow>
   outcome_shaped c started (failed_outcome c (fst (poll probe t c current st)) current h d started)"
  using poll_checks_bounded [of probe t c current st] max_attempts_pos [of c]
  by (simp add: outcome_shaped_def failed_outcome_def length_redact_text)

lemma verify_loop_shape:
  "attempt + left = max_attempts c \<Longrightarrow> 1 \<le> attempt \<Longrightarrow> current = poll_time c started (attempt - 1) \<Longrightarrow>
   outcome_shaped c started (fst (verify_loop probe t c started left attempt current st))"
proof (induction left arbitrary: attempt current st)
  case 0
  then show ?case
    by (simp add: verify_loop_step [of probe t c started 0] recovered_shaped failed_shaped poll_passes_def)
next
  case (Suc left)
  have next_time: "current + poll_step c = poll_time c started (attempt + 1 - 1)"
    using Suc.prems by (cases attempt) (simp_all add: poll_time_def algebra_simps)
  show ?case
  proof (cases "poll_passes probe t c current st")
    case True
    then have "outcome_shaped c started (recovered_outcome (fst (poll probe t c current st)) attempt current
      (fst (snd (poll probe t c current st))) started)"
      using Suc.prems by (intro recovered_shaped) (simp_all add: poll_passes_def)
    with True show ?thesis by (simp add: verify_loop_step [of probe t c started "Suc left"])
  next
    case False
    then show ?thesis
      using Suc.IH [of "attempt + 1", OF _ _ next_time] Suc.prems(1)
      by (simp add: verify_loop_step [of probe t c started "Suc left"])
  qed
qed

lemma verify_shaped: "outcome_shaped c started (fst (verify probe t c started st))"
  unfolding verify_def using max_attempts_pos [of c] by (intro verify_loop_shape) (simp_all add: poll_time_def)

lemma evaluate_health_length: "length (evaluate_health s c) \<le> 4"
  by (simp add: evaluate_health_def)

lemma poll_length: "length (fst (poll probe t c now st)) \<le> 4"
  by (simp add: poll_def evaluate_health_length split: prod.split option.split)

lemma verify_loop_checks: "length (ro_checks (fst (verify_loop probe t c started left attempt current st))) \<le> 4"
  by (induction left arbitrary: attempt current st)
    (simp_all add: verify_loop_step [of _ t c started 0] verify_loop_step [of _ t c started "Suc n" for n]
      recovered_outcome_def failed_outcome_def poll_length)

lemma verify_checks: "length (ro_checks (fst (verify probe t c started st))) \<le> 4"
  unfolding verify_def by (rule verify_loop_checks)

section \<open>The contract of a probe\<close>

locale health_probe =
  fixes probe :: "'s probe"
  assumes observe_pure: "fst (probe a b u (snd (probe a' b' u' st))) = fst (probe a b u st)"
begin

lemma poll_fst: "fst (probe a b u st) = fst (probe a b u st') \<Longrightarrow> a = tg_service t \<Longrightarrow> b = tg_environment t \<Longrightarrow>
   fst (poll probe t c u st) = fst (poll probe t c u st')"
  by (cases "probe a b u st"; cases "probe a b u st'") (auto simp: poll_def split: option.split)

lemma poll_state: "snd (snd (snd (poll probe t c u st))) = snd (probe (tg_service t) (tg_environment t) u st)"
  by (simp add: poll_def split: prod.split option.split)

lemma passes_after: "poll_passes probe t c u (snd (snd (snd (poll probe t c u' st)))) = poll_passes probe t c u st"
  unfolding poll_passes_def poll_state by (simp add: poll_fst [OF observe_pure refl refl])

lemma loop_recovers:
  "k \<le> left \<Longrightarrow> poll_passes probe t c (poll_time c current k) st \<Longrightarrow>
   (\<And>j. j < k \<Longrightarrow> \<not> poll_passes probe t c (poll_time c current j) st) \<Longrightarrow>
   ro_status (fst (verify_loop probe t c started left attempt current st)) = VS_RECOVERED \<and>
   ro_attempts (fst (verify_loop probe t c started left attempt current st)) = attempt + k \<and>
   ro_first_healthy_at (fst (verify_loop probe t c started left attempt current st)) = Some (poll_time c current k)"
proof (induction k arbitrary: left attempt current st)
  case 0
  then show ?case by (simp add: verify_loop_step [of probe t c started left] recovered_outcome_def poll_time_def)
next
  case (Suc k)
  then obtain left' where left': "left = Suc left'" "k \<le> left'" by (cases left) auto
  have first: "\<not> poll_passes probe t c current st" using Suc.prems(3) [of 0] by (simp add: poll_time_def)
  let ?st = "snd (snd (snd (poll probe t c current st)))"
  have "poll_passes probe t c (poll_time c (current + poll_step c) k) ?st"
    using Suc.prems(2) by (simp add: passes_after poll_time_Suc)
  moreover have "\<not> poll_passes probe t c (poll_time c (current + poll_step c) j) ?st" if "j < k" for j
    using Suc.prems(3) [of "Suc j"] that by (simp add: passes_after poll_time_Suc)
  ultimately have "ro_status (fst (verify_loop probe t c started left' (attempt + 1) (current + poll_step c) ?st)) = VS_RECOVERED \<and>
   ro_attempts (fst (verify_loop probe t c started left' (attempt + 1) (current + poll_step c) ?st)) = attempt + 1 + k \<and>
   ro_first_healthy_at (fst (verify_loop probe t c started left' (attempt + 1) (current + poll_step c) ?st)) =
     Some (poll_time c (current + poll_step c) k)"
    by (intro Suc.IH left'(2)) auto
  then show ?case using first left' by (simp add: verify_loop_step [of probe t c started "Suc left'"] poll_time_Suc)
qed

lemma loop_fails:
  "(\<And>k. k \<le> left \<Longrightarrow> \<not> poll_passes probe t c (poll_time c current k) st) \<Longrightarrow>
   ro_status (fst (verify_loop probe t c started left attempt current st)) = VS_RECOVERY_FAILED \<and>
   ro_attempts (fst (verify_loop probe t c started left attempt current st)) = max_attempts c \<and>
   ro_first_healthy_at (fst (verify_loop probe t c started left attempt current st)) = None"
proof (induction left arbitrary: attempt current st)
  case 0
  have "\<not> poll_passes probe t c current st" using 0 [of 0] by (simp add: poll_time_def)
  then show ?case by (simp add: verify_loop_step [of probe t c started 0] failed_outcome_def)
next
  case (Suc left)
  have first: "\<not> poll_passes probe t c current st" using Suc.prems [of 0] by (simp add: poll_time_def)
  let ?st = "snd (snd (snd (poll probe t c current st)))"
  have "\<not> poll_passes probe t c (poll_time c (current + poll_step c) k) ?st" if "k \<le> left" for k
    using Suc.prems [of "Suc k"] that by (simp add: passes_after poll_time_Suc)
  from Suc.IH [OF this] first show ?case by (simp add: verify_loop_step [of probe t c started "Suc left"])
qed

theorem verify_exact:
  "(ro_status (fst (verify probe t c started st)), ro_attempts (fst (verify probe t c started st)),
    ro_first_healthy_at (fst (verify probe t c started st))) =
   (case find (\<lambda>k. poll_passes probe t c (poll_time c started k) st) [0..<max_attempts c] of
      Some k \<Rightarrow> (VS_RECOVERED, Suc k, Some (poll_time c started k))
    | None \<Rightarrow> (VS_RECOVERY_FAILED, max_attempts c, None))"
proof (cases "find (\<lambda>k. poll_passes probe t c (poll_time c started k) st) [0..<max_attempts c]")
  case None
  then have "\<not> poll_passes probe t c (poll_time c started k) st" if "k \<le> max_attempts c - 1" for k
    using that max_attempts_pos [of c] by (auto simp: find_None_iff)
  from loop_fails [OF this] None show ?thesis by (simp add: verify_def)
next
  case (Some k)
  then have "k < max_attempts c" "poll_passes probe t c (poll_time c started k) st"
    "\<And>j. j < k \<Longrightarrow> \<not> poll_passes probe t c (poll_time c started j) st"
    by (auto simp: find_Some_iff)
  with loop_recovers [of k "max_attempts c - 1" t c started st started 1] Some show ?thesis
    by (simp add: verify_def)
qed

corollary verify_recovers_iff:
  "ro_status (fst (verify probe t c started st)) = VS_RECOVERED \<longleftrightarrow>
   (\<exists>k < max_attempts c. poll_passes probe t c (poll_time c started k) st)"
  using verify_exact [of t c started st]
  by (auto simp: find_None_iff find_Some_iff split: option.splits)

end

locale converging_probe = health_probe probe for probe :: "'s probe" +
  assumes stays_healthy: "poll_passes probe t c now st \<Longrightarrow> now \<le> now' \<Longrightarrow> poll_passes probe t c now' st"
begin

lemma recovers_iff_last:
  assumes "0 \<le> poll_step c"
  shows "ro_status (fst (verify probe t c started st)) = VS_RECOVERED \<longleftrightarrow>
    poll_passes probe t c (poll_time c started (max_attempts c - 1)) st"
proof -
  have "poll_time c started k \<le> poll_time c started (max_attempts c - 1)" if "k < max_attempts c" for k
    using that assms max_attempts_pos [of c] by (auto simp: poll_time_def intro!: mult_right_mono)
  moreover have "max_attempts c - 1 < max_attempts c" using max_attempts_pos [of c] by simp
  ultimately show ?thesis unfolding verify_recovers_iff using stays_healthy by blast
qed

end

section \<open>The simulated probe satisfies the contract\<close>

text \<open>The verdict on one snapshot.\<close>

definition judged_healthy :: "recovery_config \<Rightarrow> health_snapshot \<Rightarrow> bool" where
  "judged_healthy c s \<longleftrightarrow>
     hs_running s \<and> hs_error_rate s \<le> rc_max_error_rate c \<and> hs_latency s \<le> rc_max_latency c \<and>
     (rc_require_ready c \<longrightarrow> hs_ready s)"

lemma evaluate_health_passes: "list_all ck_passed (evaluate_health s c) = judged_healthy c s"
  by (auto simp: evaluate_health_def mk_check_def judged_healthy_def)

lemma simulated_passes:
  "poll_passes simulated_probe t c now st =
     judged_healthy c (observe_service (tg_service t) (tg_environment t) now (sim_service st (tg_service t)))"
  by (simp add: poll_passes_def poll_def simulated_probe_def evaluate_health_passes)

lemma round_even_mono: "x \<le> y \<Longrightarrow> round_even x \<le> round_even y"
proof -
  assume le: "x \<le> y"
  have f: "\<lfloor>x\<rfloor> \<le> \<lfloor>y\<rfloor>" using le by (rule floor_mono)
  have r: "round_even z = \<lfloor>z\<rfloor> \<or> round_even z = \<lfloor>z\<rfloor> + 1" for z by (simp add: round_even_def Let_def)
  show ?thesis
  proof (cases "\<lfloor>x\<rfloor> = \<lfloor>y\<rfloor>")
    case True
    with le show ?thesis by (simp add: round_even_def Let_def)
  next
    case False
    with f r [of x] r [of y] show ?thesis by linarith
  qed
qed

lemma round_to_mono: "x \<le> y \<Longrightarrow> round_to k x \<le> round_to k y"
  unfolding round_to_def by (intro divide_right_mono) (simp_all add: round_even_mono mult_right_mono)

lemma round_to_at_least: "of_int m / 10 ^ k \<le> x \<Longrightarrow> of_int m / 10 ^ k \<le> round_to k x"
proof -
  assume "of_int m / 10 ^ k \<le> x"
  then have "round_to k (of_int m / 10 ^ k) \<le> round_to k x" by (rule round_to_mono)
  then show ?thesis by (simp add: round_to_def round_even_def)
qed

lemma fraction_mono:
  "0 \<le> e \<Longrightarrow> e \<le> e' \<Longrightarrow> e' < d \<Longrightarrow> converging_fraction e d \<le> converging_fraction e' d \<and> converging_fraction e' d \<le> 1"
  by (auto simp: converging_fraction_def divide_le_eq intro!: divide_right_mono)

text \<open>Health judged by any thresholds only improves with time.\<close>

definition converging_error :: "rat \<Rightarrow> rat" where
  "converging_error fr = round_to 4 (30 / 100 * (1 - fr) + 1 / 100)"

definition converging_latency :: "rat \<Rightarrow> rat" where
  "converging_latency fr = round_to 1 (1600 * (1 - fr) + 150)"

lemma converging_error_antimono: "f \<le> g \<Longrightarrow> converging_error g \<le> converging_error f"
  unfolding converging_error_def by (rule round_to_mono) simp

lemma converging_latency_antimono: "f \<le> g \<Longrightarrow> converging_latency g \<le> converging_latency f"
  unfolding converging_latency_def by (rule round_to_mono) simp

lemma converging_error_ge: "f \<le> 1 \<Longrightarrow> 3 / 1000 \<le> converging_error f"
  using round_to_at_least [of 30 4 "30 / 100 * (1 - f) + 1 / 100"] by (simp add: converging_error_def)

lemma converging_latency_ge: "f \<le> 1 \<Longrightarrow> 135 \<le> converging_latency f"
  using round_to_at_least [of 1350 1 "1600 * (1 - f) + 150"] by (simp add: converging_latency_def)

definition healthy_at :: "recovery_config \<Rightarrow> service_sim \<Rightarrow> datetime \<Rightarrow> bool" where
  "healthy_at c s now \<longleftrightarrow>
     (if \<not> sm_running s then False
      else if sm_replicas s < 1 then 1 \<le> rc_max_error_rate c \<and> 8000 \<le> rc_max_latency c \<and> \<not> rc_require_ready c
      else if sm_chronic s then 37 / 100 \<le> rc_max_error_rate c \<and> 2100 \<le> rc_max_latency c \<and> \<not> rc_require_ready c
      else case sm_recovery_started s of
        None \<Rightarrow> (if sm_faulted s
                  then 42 / 100 \<le> rc_max_error_rate c \<and> 2600 \<le> rc_max_latency c \<and> \<not> rc_require_ready c
                  else 2 / 1000 \<le> rc_max_error_rate c \<and> 110 \<le> rc_max_latency c)
      | Some t0 \<Rightarrow>
          (if sm_recovery_delay s \<le> max 0 (now - t0)
           then 3 / 1000 \<le> rc_max_error_rate c \<and> 135 \<le> rc_max_latency c
           else converging_error (converging_fraction (max 0 (now - t0)) (sm_recovery_delay s)) \<le> rc_max_error_rate c \<and>
                converging_latency (converging_fraction (max 0 (now - t0)) (sm_recovery_delay s)) \<le> rc_max_latency c \<and>
                \<not> rc_require_ready c))"

lemma judged_snap:
  "judged_healthy c (snap n e now h ready running k err lat d) \<longleftrightarrow>
     running \<and> err \<le> rc_max_error_rate c \<and> lat \<le> rc_max_latency c \<and> (rc_require_ready c \<longrightarrow> ready)"
  by (simp add: judged_healthy_def snap_def)

lemma judged_healthy_at: "judged_healthy c (observe_service n e now s) = healthy_at c s now"
proof (cases "sm_running s \<and> 1 \<le> sm_replicas s \<and> \<not> sm_chronic s")
  case False
  then show ?thesis by (auto simp: observe_service_def healthy_at_def judged_snap)
next
  case True
  then show ?thesis
  proof (cases "sm_recovery_started s")
    case None
    with True show ?thesis by (simp add: observe_service_def healthy_at_def judged_snap)
  next
    case (Some t0)
    with True show ?thesis
      by (simp add: observe_service_def healthy_at_def judged_snap Let_def converging_error_def
          converging_latency_def)
  qed
qed

lemma simulated_healthy_at:
  "poll_passes simulated_probe t c now st = healthy_at c (sim_service st (tg_service t)) now"
  by (simp add: simulated_passes judged_healthy_at)

definition recovering_ok :: "recovery_config \<Rightarrow> int \<Rightarrow> int \<Rightarrow> bool" where
  "recovering_ok c d e \<longleftrightarrow>
     (if d \<le> e then 3 / 1000 \<le> rc_max_error_rate c \<and> 135 \<le> rc_max_latency c
      else converging_error (converging_fraction e d) \<le> rc_max_error_rate c \<and>
           converging_latency (converging_fraction e d) \<le> rc_max_latency c \<and> \<not> rc_require_ready c)"

lemma recovering_ok_mono:
  assumes "recovering_ok c d e" "0 \<le> e" "e \<le> e'"
  shows "recovering_ok c d e'"
proof -
  consider "d \<le> e" | "e < d" "d \<le> e'" | "e < d" "e' < d" by linarith
  then show ?thesis
  proof cases
    case 1
    with assms show ?thesis by (simp add: recovering_ok_def)
  next
    case 2
    have "converging_fraction e d \<le> 1" using fraction_mono [OF assms(2) order_refl 2(1)] by simp
    note low = converging_error_ge [OF this] converging_latency_ge [OF this]
    with 2 assms(1) show ?thesis by (auto simp: recovering_ok_def)
  next
    case 3
    have "converging_fraction e d \<le> converging_fraction e' d" using fraction_mono [OF assms(2,3) 3(2)] by simp
    note low = converging_error_antimono [OF this] converging_latency_antimono [OF this]
    with 3 assms(1) show ?thesis by (auto simp: recovering_ok_def)
  qed
qed

lemma healthy_at_mono:
  assumes "healthy_at c s now" "now \<le> now'"
  shows "healthy_at c s now'"
proof (cases "sm_running s \<and> 1 \<le> sm_replicas s \<and> \<not> sm_chronic s \<and> sm_recovery_started s \<noteq> None")
  case False
  with assms(1) show ?thesis by (auto simp: healthy_at_def split: if_splits)
next
  case True
  then obtain t0 where t0: "sm_recovery_started s = Some t0" by auto
  define d where "d = sm_recovery_delay s"
  define e where "e = max 0 (now - t0)"
  define e' where "e' = max 0 (now' - t0)"
  have at_now: "healthy_at c s now = recovering_ok c d e" and at_now': "healthy_at c s now' = recovering_ok c d e'"
    using True t0 by (simp_all add: healthy_at_def recovering_ok_def d_def e_def e'_def)
  have "0 \<le> e" "e \<le> e'" using assms(2) by (auto simp: e_def e'_def)
  with assms(1) show ?thesis unfolding at_now at_now' by (rule recovering_ok_mono)
qed

lemma simulated_observe_pure:
  "fst (simulated_probe a b u (snd (simulated_probe a' b' u' st))) = fst (simulated_probe a b u st)"
  by (simp add: simulated_probe_def)

interpretation sp: converging_probe simulated_probe
  by unfold_locales (auto simp: simulated_observe_pure simulated_healthy_at intro: healthy_at_mono)

lemma poll_step_nonneg: "0 < rc_poll c \<Longrightarrow> 0 \<le> poll_step c"
  using round_even_mono [of 0 "rc_poll c * 1000000"] by (simp add: poll_step_def round_even_def)

section \<open>Properties\<close>

text \<open>
  Claim C13. Verification of a simulated service is exact: the verdict is RECOVERED at the first poll of the
  virtual clock that passes every check, with that poll's number and time, and RECOVERY_FAILED after
  exactly the bounded number of polls when none does.
\<close>
theorem verification_exact:
  "(let o1 = fst (verify simulated_probe t c started st) in
      (ro_status o1, ro_attempts o1, ro_first_healthy_at o1)) =
   (case find (\<lambda>k. poll_passes simulated_probe t c (poll_time c started k) st) [0..<max_attempts c] of
      Some k \<Rightarrow> (VS_RECOVERED, Suc k, Some (poll_time c started k))
    | None \<Rightarrow> (VS_RECOVERY_FAILED, max_attempts c, None))"
  unfolding Let_def by (rule sp.verify_exact)

text \<open>
  Every verification, with whatever probe, also one that raises, ends with a well-formed verdict:
  between one and \<open>max_attempts\<close> polls, completed at the poll that decided it, all checks passed and no
  failure reason when recovered, some check failed and a bounded reason when not, and every check text
  within its column's bound.
\<close>
theorem verification_bounded: "outcome_shaped c started (fst (verify probe t c started st))"
  by (rule verify_shaped)

text \<open>
  When a service counts as recovered by a time, without thresholds: up, not chronically faulty, and its
  recovery delay over (or no recovery running and no fault).
\<close>

definition converged_by :: "service_sim \<Rightarrow> datetime \<Rightarrow> bool" where
  "converged_by s now \<longleftrightarrow>
     sm_running s \<and> 1 \<le> sm_replicas s \<and> \<not> sm_chronic s \<and>
     (case sm_recovery_started s of None \<Rightarrow> \<not> sm_faulted s | Some t0 \<Rightarrow> sm_recovery_delay s \<le> max 0 (now - t0))"

definition strict_thresholds :: "recovery_config \<Rightarrow> bool" where
  "strict_thresholds c \<longleftrightarrow>
     0 < rc_poll c \<and> rc_require_ready c \<and> 3 / 1000 \<le> rc_max_error_rate c \<and> 135 \<le> rc_max_latency c"

lemma healthy_at_converged: "strict_thresholds c \<Longrightarrow> healthy_at c s now = converged_by s now"
  by (auto simp: healthy_at_def converged_by_def strict_thresholds_def split: option.splits)

text \<open>
  Claim C14. With readiness required and thresholds no tighter than a nominal service's figures, a simulated
  service is judged RECOVERED if and only if it has converged by the last poll of the window: it runs, the
  fault is not chronic, and the recovery delay has passed.
\<close>
theorem simulated_recovery_exact:
  assumes "strict_thresholds c"
  shows "ro_status (fst (verify simulated_probe t c started st)) = VS_RECOVERED \<longleftrightarrow>
    converged_by (sim_service st (tg_service t)) (poll_time c started (max_attempts c - 1))"
proof -
  have "0 \<le> poll_step c" using assms poll_step_nonneg by (simp add: strict_thresholds_def)
  from sp.recovers_iff_last [OF this] show ?thesis
    by (simp add: simulated_healthy_at healthy_at_converged [OF assms])
qed

lemma max_attempts_default: "max_attempts DEFAULT_RECOVERY_CONFIG = 11"
  by (simp add: max_attempts_def DEFAULT_RECOVERY_CONFIG_def)

lemma poll_step_default: "poll_step DEFAULT_RECOVERY_CONFIG = 3000000"
  by (simp add: poll_step_def DEFAULT_RECOVERY_CONFIG_def round_even_def)

lemma simulated_recovery_witness:
  "ro_status (fst (verify simulated_probe (orders_target ''development'') DEFAULT_RECOVERY_CONFIG 0
     (mark_remediated (inject_fault [] ''orders-service'' (Some 30000000) False) ''orders-service'' 0))) = VS_RECOVERED \<and>
   ro_status (fst (verify simulated_probe (orders_target ''development'') DEFAULT_RECOVERY_CONFIG 0
     (mark_remediated (inject_fault [] ''orders-service'' (Some 30000001) False) ''orders-service'' 0))) \<noteq> VS_RECOVERED"
proof -
  have d: "strict_thresholds DEFAULT_RECOVERY_CONFIG"
    by (simp add: strict_thresholds_def DEFAULT_RECOVERY_CONFIG_def)
  show ?thesis
    unfolding simulated_recovery_exact [OF d]
    by (simp add: max_attempts_default poll_time_def poll_step_default converged_by_def orders_target_def
        inject_fault_def) (simp add: sim_service_def fresh_service_def)
qed

text \<open>The fields a probe reports that the verdict must not depend on.\<close>

definition relabel ::
  "(health_snapshot \<Rightarrow> health_status) \<Rightarrow> (health_snapshot \<Rightarrow> string) \<Rightarrow> (health_snapshot \<Rightarrow> rat) \<Rightarrow>
   (health_snapshot \<Rightarrow> int) \<Rightarrow> 's probe \<Rightarrow> 's probe" where
  "relabel h d r k probe n e now st =
     (case probe n e now st of
        (Some s, st') \<Rightarrow>
          (Some (s\<lparr>hs_status := h s, hs_detail := d s, hs_success_rate := r s, hs_replicas := k s\<rparr>), st')
      | (None, st') \<Rightarrow> (None, st'))"

lemma relabel_poll:
  "fst (poll (relabel h d r k probe) t c now st) = fst (poll probe t c now st)"
  "snd (snd (snd (poll (relabel h d r k probe) t c now st))) = snd (snd (snd (poll probe t c now st)))"
  by (simp_all add: poll_def relabel_def evaluate_health_def split: prod.split option.split)

definition verdict :: "recovery_outcome \<Rightarrow> verification_status \<times> recovery_check list \<times> nat \<times> datetime" where
  "verdict o1 = (ro_status o1, ro_checks o1, ro_attempts o1, ro_completed_at o1)"

lemma relabel_loop:
  "verdict (fst (verify_loop (relabel h d r k probe) t c started left attempt current st)) =
   verdict (fst (verify_loop probe t c started left attempt current st))"
  by (induction left arbitrary: attempt current st)
    (simp_all add: verify_loop_step [of _ t c started 0] verify_loop_step [of _ t c started "Suc n" for n]
      poll_passes_def relabel_poll verdict_def recovered_outcome_def failed_outcome_def)

text \<open>
  The verdict is the verifier's own: whatever a probe reports as its status, its detail text, its
  success rate or its replica count, the verdict, the checks, the number of polls and the completion time
  are the same.
\<close>
theorem verdict_ignores_probe_opinion:
  "verdict (fst (verify (relabel h d r k probe) t c started st)) = verdict (fst (verify probe t c started st))"
  unfolding verify_def by (rule relabel_loop)

end
