(* ===== verification/AuditTrail.thy ===== *)
theory AuditTrail imports Recovery "HOL-Library.Multiset" begin

text \<open>
  The append-only audit trail, \<open>audit/model.py\<close> and \<open>audit/builders.py\<close>: the event record, its field
  constraints (\<open>mk_event\<close>) and one builder per lifecycle fact. The random part of \<open>audit_id\<close> is the
  argument \<open>tok\<close>. Event types carry the prefix \<open>AE_\<close>.
\<close>

section \<open>Events\<close>

datatype event_type =
    AE_PROPOSAL_CREATED | AE_POLICY_EVALUATED | AE_REMEDIATION_BLOCKED | AE_APPROVED | AE_REJECTED
  | AE_EXECUTION_REQUESTED | AE_EXECUTION_STARTED | AE_EXECUTION_SUCCEEDED | AE_EXECUTION_FAILED
  | AE_VERIFICATION_STARTED | AE_VERIFICATION_SUCCEEDED | AE_VERIFICATION_FAILED

datatype actor_type = SYSTEM | HUMAN

datatype execution_mode = REAL

fun actor_str :: "actor_type \<Rightarrow> string" where
  "actor_str SYSTEM = ''SYSTEM''"
| "actor_str HUMAN = ''HUMAN''"

definition audit_id_ok :: "string \<Rightarrow> bool" where
  "audit_id_ok s = re_fullmatch (Cat (lit ''aud_'') (hex_tail 16 16)) s"

definition new_audit_id :: "string \<Rightarrow> string" where
  "new_audit_id tok = ''aud_'' @ tok"

definition SYSTEM_ACTOR_ID :: string where "SYSTEM_ACTOR_ID = ''remediation-controller''"

record audit_event =
  ae_id :: string
  ae_remediation :: string
  ae_incident :: string
  ae_investigation :: "string option"
  ae_type :: event_type
  ae_actor_type :: actor_type
  ae_actor_id :: string
  ae_actor_role :: "approver_role option"
  ae_previous :: "rem_status option"
  ae_new :: "rem_status option"
  ae_action :: "action_type option"
  ae_service :: "string option"
  ae_environment :: "string option"
  ae_policy_outcome :: "policy_outcome option"
  ae_policy_version :: "string option"
  ae_reason_codes :: "reason_code list"
  ae_execution_id :: "string option"
  ae_execution_mode :: "execution_mode option"
  ae_execution_result :: "execution_status option"
  ae_verification_id :: "string option"
  ae_reason :: string
  ae_correlation :: "string option"
  ae_metadata :: "(string, pyobj) dict"
  ae_occurred_at :: datetime

definition at_most :: "nat \<Rightarrow> string option \<Rightarrow> bool" where
  "at_most n s = (case s of None \<Rightarrow> True | Some t \<Rightarrow> length t \<le> n)"

definition event_fields_ok :: "audit_event \<Rightarrow> bool" where
  "event_fields_ok e \<longleftrightarrow>
     audit_id_ok (ae_id e) \<and> 1 \<le> length (ae_actor_id e) \<and> length (ae_actor_id e) \<le> 128 \<and>
     at_most 128 (ae_service e) \<and> at_most 64 (ae_environment e) \<and> at_most 16 (ae_policy_version e) \<and>
     length (ae_reason e) \<le> 1000 \<and> at_most 64 (ae_correlation e) \<and>
     (\<forall>v \<in> snd ` set (ae_metadata e). is_scalar v)"

definition mk_event :: "audit_event \<Rightarrow> rem_error + audit_event" where
  "mk_event e = (if event_fields_ok e then Inr e else Inl ValidationError)"

text \<open>\<open>_event\<close> with every optional argument at its default.\<close>

definition base_event ::
  "string \<Rightarrow> proposal \<Rightarrow> event_type \<Rightarrow> datetime \<Rightarrow> string option \<Rightarrow> audit_event" where
  "base_event tok p ty now corr =
     \<lparr>ae_id = new_audit_id tok, ae_remediation = pr_id p, ae_incident = pr_incident p,
      ae_investigation = pr_investigation p, ae_type = ty, ae_actor_type = SYSTEM,
      ae_actor_id = SYSTEM_ACTOR_ID, ae_actor_role = None, ae_previous = None, ae_new = None,
      ae_action = Some (pr_action p), ae_service = Some (tg_service (pr_target p)),
      ae_environment = Some (tg_environment (pr_target p)), ae_policy_outcome = None,
      ae_policy_version = None, ae_reason_codes = [], ae_execution_id = None, ae_execution_mode = None,
      ae_execution_result = None, ae_verification_id = None, ae_reason = [], ae_correlation = corr,
      ae_metadata = [], ae_occurred_at = now\<rparr>"

section \<open>Builders\<close>

definition creation_params :: "proposal \<Rightarrow> (string, pyobj) dict" where
  "creation_params p =
     fold (\<lambda>kv d. AList.update (''param.'' @ fst kv) (snd kv) d) (pr_parameters p)
       [(''trigger'', PStr (trigger_str (pr_trigger p))), (''proposed_by'', PStr (pr_proposed_by p)),
        (''risk_level'', PStr (risk_str (pr_risk p))), (''source_recommendation'', PStr (pr_source p)),
        (''evidence_reference_count'', PInt (int (length (pr_evidence p))))]"

definition proposal_created_event ::
  "string \<Rightarrow> proposal \<Rightarrow> string option \<Rightarrow> datetime \<Rightarrow> rem_error + audit_event" where
  "proposal_created_event tok p corr now =
     mk_event ((base_event tok p AE_PROPOSAL_CREATED now corr)
       \<lparr>ae_previous := None, ae_new := Some PROPOSED, ae_reason := redact_text (pr_reason p),
        ae_metadata := redact_metadata (creation_params p)\<rparr>)"

definition policy_evaluated_event ::
  "string \<Rightarrow> proposal \<Rightarrow> policy_decision \<Rightarrow> rem_status \<Rightarrow> string option \<Rightarrow> datetime \<Rightarrow> rem_error + audit_event" where
  "policy_evaluated_event tok p d new_state corr now =
     (let detail = join ''; '' (map vi_detail (pd_violations d)) in
      mk_event ((base_event tok p AE_POLICY_EVALUATED now corr)
        \<lparr>ae_previous := Some POLICY_EVALUATION, ae_new := Some new_state,
         ae_policy_outcome := Some (pd_outcome d), ae_policy_version := Some (pd_version d),
         ae_reason_codes := pd_reason_codes d,
         ae_reason := (if detail \<noteq> [] then redact_text detail else ''policy '' @ outcome_str (pd_outcome d)),
         ae_metadata := redact_metadata [(''evaluated_rules'', PStr (join '','' (pd_evaluated_rules d)))]\<rparr>))"

definition remediation_blocked_event ::
  "string \<Rightarrow> proposal \<Rightarrow> policy_decision \<Rightarrow> string option \<Rightarrow> datetime \<Rightarrow> rem_error + audit_event" where
  "remediation_blocked_event tok p d corr now =
     (let detail = join ''; '' (map (\<lambda>v. code_str (vi_code v) @ '':'' @ vi_detail v) (pd_violations d)) in
      mk_event ((base_event tok p AE_REMEDIATION_BLOCKED now corr)
        \<lparr>ae_previous := Some POLICY_EVALUATION, ae_new := Some BLOCKED,
         ae_policy_outcome := Some (pd_outcome d), ae_policy_version := Some (pd_version d),
         ae_reason_codes := pd_reason_codes d,
         ae_reason := (if redact_text detail \<noteq> [] then redact_text detail else ''policy denied the remediation'')\<rparr>))"

definition decision_status :: "approval_decision \<Rightarrow> rem_status" where
  "decision_status d = (if d = APPROVE then APPROVED else REJECTED)"

definition decision_event ::
  "string \<Rightarrow> proposal \<Rightarrow> approval \<Rightarrow> rem_status \<Rightarrow> string option \<Rightarrow> datetime \<Rightarrow> rem_error + audit_event" where
  "decision_event tok p a previous corr now =
     mk_event ((base_event tok p (if ap_decision a = APPROVE then AE_APPROVED else AE_REJECTED) now corr)
       \<lparr>ae_actor_type := HUMAN, ae_actor_id := redact_identity (ap_identity a), ae_actor_role := Some (ap_role a),
        ae_previous := Some previous, ae_new := Some (decision_status (ap_decision a)),
        ae_reason := redact_text (ap_reason a),
        ae_metadata := redact_metadata [(''approval_id'', PStr (ap_id a))]\<rparr>)"

definition execution_requested_event ::
  "string \<Rightarrow> proposal \<Rightarrow> string \<Rightarrow> string option \<Rightarrow> datetime \<Rightarrow> rem_error + audit_event" where
  "execution_requested_event tok p xid corr now =
     mk_event ((base_event tok p AE_EXECUTION_REQUESTED now corr)
       \<lparr>ae_previous := Some APPROVED, ae_new := Some APPROVED, ae_execution_id := Some xid,
        ae_execution_mode := Some REAL, ae_reason := ''execution requested for an approved remediation''\<rparr>)"

definition execution_started_event ::
  "string \<Rightarrow> proposal \<Rightarrow> string \<Rightarrow> string option \<Rightarrow> datetime \<Rightarrow> rem_error + audit_event" where
  "execution_started_event tok p xid corr now =
     mk_event ((base_event tok p AE_EXECUTION_STARTED now corr)
       \<lparr>ae_previous := Some APPROVED, ae_new := Some EXECUTING, ae_execution_id := Some xid,
        ae_execution_mode := Some REAL,
        ae_reason := ''execution claimed; handed to LOCAL_SIMULATION executor''\<rparr>)"

definition error_or_default :: "string option \<Rightarrow> string \<Rightarrow> string" where
  "error_or_default e d = (case e of None \<Rightarrow> d | Some s \<Rightarrow> if s \<noteq> [] then s else d)"

definition execution_finished_event ::
  "string \<Rightarrow> proposal \<Rightarrow> execution_result \<Rightarrow> rem_status \<Rightarrow> string option \<Rightarrow> datetime \<Rightarrow> rem_error + audit_event" where
  "execution_finished_event tok p r final corr now =
     (let succeeded = (final = EXECUTED) in
      mk_event ((base_event tok p (if succeeded then AE_EXECUTION_SUCCEEDED else AE_EXECUTION_FAILED) now corr)
        \<lparr>ae_previous := Some EXECUTING, ae_new := Some final, ae_execution_id := Some (xr_id r),
         ae_execution_mode := Some REAL, ae_execution_result := Some (xr_status r),
         ae_reason := (if succeeded then redact_text (xr_effect r)
                       else redact_text (error_or_default (xr_error r) ''executor failed'')),
         ae_metadata := redact_metadata [(''executor_type'', PStr (executor_str (xr_executor r))),
                                         (''dry_run'', PBool (xr_dry_run r))]\<rparr>))"

definition verification_started_event ::
  "string \<Rightarrow> proposal \<Rightarrow> string \<Rightarrow> string \<Rightarrow> string option \<Rightarrow> datetime \<Rightarrow> rem_error + audit_event" where
  "verification_started_event tok p vid xid corr now =
     mk_event ((base_event tok p AE_VERIFICATION_STARTED now corr)
       \<lparr>ae_previous := Some EXECUTED, ae_new := Some VERIFYING, ae_execution_id := Some xid,
        ae_verification_id := Some vid, ae_reason := ''recovery verification started''\<rparr>)"

definition verified_reason :: "nat \<Rightarrow> nat \<Rightarrow> nat \<Rightarrow> string" where
  "verified_reason attempts passed total_checks =
     ''recovery verified: '' @ nat_str passed @ ''/'' @ nat_str total_checks @
     '' checks passed after '' @ nat_str attempts @ '' poll(s)''"

definition verification_finished_event ::
  "string \<Rightarrow> proposal \<Rightarrow> string \<Rightarrow> string \<Rightarrow> rem_status \<Rightarrow> nat \<Rightarrow> nat \<Rightarrow> nat \<Rightarrow> string option \<Rightarrow> string \<Rightarrow>
   string option \<Rightarrow> datetime \<Rightarrow> rem_error + audit_event" where
  "verification_finished_event tok p vid xid final attempts passed total_checks failure vtype corr now =
     (let recovered = (final = RECOVERED) in
      mk_event ((base_event tok p (if recovered then AE_VERIFICATION_SUCCEEDED else AE_VERIFICATION_FAILED) now corr)
        \<lparr>ae_previous := Some VERIFYING, ae_new := Some final, ae_execution_id := Some xid,
         ae_verification_id := Some vid,
         ae_reason := (if recovered then verified_reason attempts passed total_checks
                       else redact_text (error_or_default failure ''recovery not verified within the window'')),
         ae_metadata := redact_metadata [(''attempts'', PInt (int attempts)), (''checks_passed'', PInt (int passed)),
                                         (''checks_total'', PInt (int total_checks)), (''verifier_type'', PStr vtype)]\<rparr>))"

section \<open>What the builders record\<close>

lemma mk_event_Inr [simp]: "mk_event e = Inr e' \<longleftrightarrow> event_fields_ok e \<and> e' = e"
  by (auto simp: mk_event_def)

lemma mk_event_error: "mk_event e = Inl x \<Longrightarrow> x = ValidationError"
  by (auto simp: mk_event_def split: if_splits)

text \<open>The lifecycle content of an event: its remediation, its type and the two states.\<close>

definition lifecycle_of :: "audit_event \<Rightarrow> string \<times> event_type \<times> rem_status option \<times> rem_status option" where
  "lifecycle_of e = (ae_remediation e, ae_type e, ae_previous e, ae_new e)"

named_theorems builder_facts

lemma base_event_sel [simp]:
  "ae_remediation (base_event tok p ty now corr) = pr_id p"
  "ae_type (base_event tok p ty now corr) = ty"
  "ae_occurred_at (base_event tok p ty now corr) = now"
  "ae_actor_type (base_event tok p ty now corr) = SYSTEM"
  by (simp_all add: base_event_def)

lemma proposal_created_lifecycle [builder_facts]:
  "proposal_created_event tok p corr now = Inr e \<Longrightarrow>
   lifecycle_of e = (pr_id p, AE_PROPOSAL_CREATED, None, Some PROPOSED)"
  by (auto simp: proposal_created_event_def lifecycle_of_def)

lemma policy_evaluated_lifecycle [builder_facts]:
  "policy_evaluated_event tok p d s corr now = Inr e \<Longrightarrow>
   lifecycle_of e = (pr_id p, AE_POLICY_EVALUATED, Some POLICY_EVALUATION, Some s)"
  by (auto simp: policy_evaluated_event_def lifecycle_of_def Let_def)

lemma remediation_blocked_lifecycle [builder_facts]:
  "remediation_blocked_event tok p d corr now = Inr e \<Longrightarrow>
   lifecycle_of e = (pr_id p, AE_REMEDIATION_BLOCKED, Some POLICY_EVALUATION, Some BLOCKED)"
  by (auto simp: remediation_blocked_event_def lifecycle_of_def Let_def)

lemma decision_lifecycle [builder_facts]:
  "decision_event tok p a s corr now = Inr e \<Longrightarrow>
   lifecycle_of e = (pr_id p, if ap_decision a = APPROVE then AE_APPROVED else AE_REJECTED, Some s,
                     Some (decision_status (ap_decision a)))"
  by (auto simp: decision_event_def lifecycle_of_def)

lemma execution_requested_lifecycle [builder_facts]:
  "execution_requested_event tok p xid corr now = Inr e \<Longrightarrow>
   lifecycle_of e = (pr_id p, AE_EXECUTION_REQUESTED, Some APPROVED, Some APPROVED)"
  by (auto simp: execution_requested_event_def lifecycle_of_def)

lemma execution_started_lifecycle [builder_facts]:
  "execution_started_event tok p xid corr now = Inr e \<Longrightarrow>
   lifecycle_of e = (pr_id p, AE_EXECUTION_STARTED, Some APPROVED, Some EXECUTING)"
  by (auto simp: execution_started_event_def lifecycle_of_def)

lemma execution_finished_lifecycle [builder_facts]:
  "execution_finished_event tok p r final corr now = Inr e \<Longrightarrow>
   lifecycle_of e = (pr_id p, if final = EXECUTED then AE_EXECUTION_SUCCEEDED else AE_EXECUTION_FAILED,
                     Some EXECUTING, Some final)"
  by (auto simp: execution_finished_event_def lifecycle_of_def Let_def)

lemma verification_started_lifecycle [builder_facts]:
  "verification_started_event tok p vid xid corr now = Inr e \<Longrightarrow>
   lifecycle_of e = (pr_id p, AE_VERIFICATION_STARTED, Some EXECUTED, Some VERIFYING)"
  by (auto simp: verification_started_event_def lifecycle_of_def)

lemma verification_finished_lifecycle [builder_facts]:
  "verification_finished_event tok p vid xid final n k m f vt corr now = Inr e \<Longrightarrow>
   lifecycle_of e = (pr_id p, if final = RECOVERED then AE_VERIFICATION_SUCCEEDED else AE_VERIFICATION_FAILED,
                     Some VERIFYING, Some final)"
  by (auto simp: verification_finished_event_def lifecycle_of_def Let_def)

section \<open>Building never fails on well-formed objects\<close>

lemma audit_token_ok: "token_ok t \<Longrightarrow> audit_id_ok (new_audit_id t)"
  using remediation_token_ok [of t] unfolding remediation_id_ok_def new_remediation_id_def audit_id_ok_def
    new_audit_id_def re_fullmatch_def by simp

text \<open>What a builder needs of its inputs.\<close>

definition recordable :: "string \<Rightarrow> proposal \<Rightarrow> string option \<Rightarrow> bool" where
  "recordable tok p corr \<longleftrightarrow>
     token_ok tok \<and> length (tg_service (pr_target p)) \<le> 63 \<and> tg_environment (pr_target p) \<in> ALLOWED_ENVIRONMENTS \<and>
     at_most 64 corr"

lemma redact_metadata_scalar: "v \<in> snd ` set (redact_metadata d) \<Longrightarrow> is_scalar v"
  using redact_metadata_facts [of d] by auto

lemma length_outcome_str: "length (outcome_str oc) \<le> 5"
  by (cases oc) simp_all

lemma base_event_ok:
  "recordable tok p corr \<Longrightarrow> event_fields_ok (base_event tok p ty now corr)"
  by (auto simp: recordable_def event_fields_ok_def base_event_def at_most_def audit_token_ok SYSTEM_ACTOR_ID_def
      ALLOWED_ENVIRONMENTS_def)

lemma proposal_created_ok: "recordable tok p corr \<Longrightarrow> \<exists>e. proposal_created_event tok p corr now = Inr e"
  using base_event_ok [of tok p corr AE_PROPOSAL_CREATED now]
  by (simp add: proposal_created_event_def event_fields_ok_def length_redact_text redact_metadata_scalar)

lemma policy_evaluated_ok:
  "recordable tok p corr \<Longrightarrow> length (pd_version d) \<le> 16 \<Longrightarrow> \<exists>e. policy_evaluated_event tok p d s corr now = Inr e"
  using base_event_ok [of tok p corr AE_POLICY_EVALUATED now] length_outcome_str [of "pd_outcome d"]
  by (simp add: policy_evaluated_event_def event_fields_ok_def Let_def length_redact_text redact_metadata_scalar
      at_most_def)

lemma remediation_blocked_ok:
  "recordable tok p corr \<Longrightarrow> length (pd_version d) \<le> 16 \<Longrightarrow> \<exists>e. remediation_blocked_event tok p d corr now = Inr e"
  using base_event_ok [of tok p corr AE_REMEDIATION_BLOCKED now]
  by (simp add: remediation_blocked_event_def event_fields_ok_def Let_def length_redact_text at_most_def
      base_event_def)

lemma decision_event_ok: "recordable tok p corr \<Longrightarrow> \<exists>e. decision_event tok p a s corr now = Inr e"
  using base_event_ok [of tok p corr "if ap_decision a = APPROVE then AE_APPROVED else AE_REJECTED" now]
    length_redact_identity [of "ap_identity a"]
  by (cases "redact_identity (ap_identity a)")
    (simp_all add: decision_event_def event_fields_ok_def length_redact_text redact_metadata_scalar)

lemma execution_requested_ok: "recordable tok p corr \<Longrightarrow> \<exists>e. execution_requested_event tok p xid corr now = Inr e"
  using base_event_ok [of tok p corr AE_EXECUTION_REQUESTED now]
  by (simp add: execution_requested_event_def event_fields_ok_def)

lemma execution_started_ok: "recordable tok p corr \<Longrightarrow> \<exists>e. execution_started_event tok p xid corr now = Inr e"
  using base_event_ok [of tok p corr AE_EXECUTION_STARTED now]
  by (simp add: execution_started_event_def event_fields_ok_def)

lemma execution_finished_ok: "recordable tok p corr \<Longrightarrow> \<exists>e. execution_finished_event tok p r s corr now = Inr e"
  using base_event_ok [of tok p corr "if s = EXECUTED then AE_EXECUTION_SUCCEEDED else AE_EXECUTION_FAILED" now]
  by (simp add: execution_finished_event_def event_fields_ok_def Let_def length_redact_text redact_metadata_scalar)

lemma verification_started_ok:
  "recordable tok p corr \<Longrightarrow> \<exists>e. verification_started_event tok p vid xid corr now = Inr e"
  using base_event_ok [of tok p corr AE_VERIFICATION_STARTED now]
  by (simp add: verification_started_event_def event_fields_ok_def)

lemma verification_finished_ok:
  "recordable tok p corr \<Longrightarrow> length (verified_reason n k m) \<le> 1000 \<Longrightarrow>
   \<exists>e. verification_finished_event tok p vid xid s n k m f vt corr now = Inr e"
  using base_event_ok [of tok p corr "if s = RECOVERED then AE_VERIFICATION_SUCCEEDED else AE_VERIFICATION_FAILED" now]
  by (simp add: verification_finished_event_def event_fields_ok_def Let_def length_redact_text redact_metadata_scalar)

end
