(* ===== verification/RemRepository.thy ===== *)
theory RemRepository imports AuditTrail begin

text \<open>
  The persistence boundary, \<open>repository.py\<close>: the record, the in-memory store and each operation of
  \<open>InMemoryRemediationRepository\<close> as one atomic step that returns the stored record and the next store, or
  an error with the store as it was. The locale \<open>guarded_update\<close> is the contract the row-locked operations
  share (a precondition on the row, one row rewritten, the audit events appended); each is an interpretation.
\<close>

section \<open>Records and store\<close>

record rem_record =
  rr_proposal :: proposal
  rr_decision :: policy_decision
  rr_approval :: "approval option"
  rr_execution :: "execution_result option"
  rr_verification :: "verification_result option"

definition rr_id :: "rem_record \<Rightarrow> string" where "rr_id r = pr_id (rr_proposal r)"

definition rr_incident :: "rem_record \<Rightarrow> string" where "rr_incident r = pr_incident (rr_proposal r)"

definition rr_status :: "rem_record \<Rightarrow> rem_status" where "rr_status r = pr_status (rr_proposal r)"

definition with_status :: "rem_status \<Rightarrow> rem_record \<Rightarrow> rem_record" where
  "with_status s r = r\<lparr>rr_proposal := (rr_proposal r)\<lparr>pr_status := s\<rparr>\<rparr>"

record rem_filter =
  rf_incident :: "string option"
  rf_status :: "rem_status option"
  rf_action :: "action_type option"
  rf_since :: "datetime option"
  rf_limit :: nat
  rf_offset :: nat

definition ACTIVE_PRE_EXECUTION :: "rem_status set" where
  "ACTIVE_PRE_EXECUTION =
     {PROPOSED, POLICY_EVALUATION, PENDING_APPROVAL, APPROVED, EXECUTING, EXECUTED, VERIFYING}"

definition COOLDOWN_ANCHOR_STATUSES :: "rem_status set" where
  "COOLDOWN_ANCHOR_STATUSES = {APPROVED, EXECUTING, EXECUTED, EXECUTION_FAILED}"

record rem_store =
  st_records :: "(string, rem_record) dict"
  st_order :: "string list"
  st_executions :: "(string, execution_result) dict"
  st_verifications :: "(string, verification_result) dict"
  st_audit :: "audit_event list"

definition empty_store :: rem_store where
  "empty_store = \<lparr>st_records = [], st_order = [], st_executions = [], st_verifications = [], st_audit = []\<rparr>"

type_synonym 'a repo_result = "rem_error + ('a \<times> rem_store)"

section \<open>Operations\<close>

definition repo_create :: "rem_record \<Rightarrow> audit_event list \<Rightarrow> rem_store \<Rightarrow> rem_record repo_result" where
  "repo_create r evs st =
     (if map_of (st_records st) (rr_id r) \<noteq> None then Inl RemediationExistsError
      else Inr (r, st\<lparr>st_records := AList.update (rr_id r) r (st_records st), st_order := st_order st @ [rr_id r],
                      st_audit := st_audit st @ evs\<rparr>))"

definition repo_get :: "string \<Rightarrow> rem_store \<Rightarrow> rem_record option" where
  "repo_get rid st = map_of (st_records st) rid"

definition matches :: "'a option \<Rightarrow> 'a \<Rightarrow> bool" where
  "matches f x = (case f of None \<Rightarrow> True | Some y \<Rightarrow> x = y)"

definition filter_accepts :: "rem_filter \<Rightarrow> rem_record \<Rightarrow> bool" where
  "filter_accepts f r \<longleftrightarrow>
     matches (rf_incident f) (rr_incident r) \<and> matches (rf_status f) (rr_status r) \<and>
     matches (rf_action f) (pr_action (rr_proposal r)) \<and>
     (case rf_since f of None \<Rightarrow> True | Some t \<Rightarrow> t \<le> pr_created (rr_proposal r))"

text \<open>\<open>rows.sort(key=created_at, reverse=True)\<close> keeps the order of equal keys.\<close>

definition repo_list :: "rem_filter \<Rightarrow> rem_store \<Rightarrow> rem_record list" where
  "repo_list f st =
     (let rows = filter (filter_accepts f) (map (\<lambda>i. the (map_of (st_records st) i)) (st_order st))
      in take (rf_limit f) (drop (rf_offset f) (sort_key (\<lambda>r. - pr_created (rr_proposal r)) rows)))"

definition put_record :: "string \<Rightarrow> rem_record \<Rightarrow> audit_event list \<Rightarrow> rem_store \<Rightarrow> rem_store" where
  "put_record rid r evs st =
     st\<lparr>st_records := AList.update rid r (st_records st), st_audit := st_audit st @ evs\<rparr>"

definition repo_record_decision ::
  "string \<Rightarrow> proposal \<Rightarrow> approval \<Rightarrow> audit_event list \<Rightarrow> rem_store \<Rightarrow> rem_record repo_result" where
  "repo_record_decision rid p a evs st =
     (case map_of (st_records st) rid of
        None \<Rightarrow> Inl RemediationNotFoundError
      | Some r \<Rightarrow>
          if rr_approval r \<noteq> None then Inl RemediationAlreadyDecidedError
          else let r' = r\<lparr>rr_proposal := p, rr_approval := Some a\<rparr> in Inr (r', put_record rid r' evs st))"

definition repo_begin_execution ::
  "string \<Rightarrow> execution_result \<Rightarrow> audit_event list \<Rightarrow> rem_store \<Rightarrow> rem_record repo_result" where
  "repo_begin_execution rid pending evs st =
     (case map_of (st_records st) rid of
        None \<Rightarrow> Inl RemediationNotFoundError
      | Some r \<Rightarrow>
          if rr_status r \<noteq> APPROVED \<or> map_of (st_executions st) rid \<noteq> None then Inl RemediationExecutionConflictError
          else and_then (validate_transition APPROVED EXECUTING) (\<lambda>_.
            let r' = (with_status EXECUTING r)\<lparr>rr_execution := Some pending\<rparr> in
            Inr (r', (put_record rid r' evs st)\<lparr>st_executions := AList.update rid pending (st_executions st)\<rparr>)))"

definition repo_finish_execution ::
  "string \<Rightarrow> execution_result \<Rightarrow> rem_status \<Rightarrow> audit_event list \<Rightarrow> rem_store \<Rightarrow> rem_record repo_result" where
  "repo_finish_execution rid result final evs st =
     (case map_of (st_records st) rid of
        None \<Rightarrow> Inl RemediationNotFoundError
      | Some r \<Rightarrow>
          if rr_status r \<noteq> EXECUTING then Inl RemediationExecutionConflictError
          else and_then (validate_transition EXECUTING final) (\<lambda>_.
            let r' = (with_status final r)\<lparr>rr_execution := Some result\<rparr> in
            Inr (r', (put_record rid r' evs st)\<lparr>st_executions := AList.update rid result (st_executions st)\<rparr>)))"

definition repo_begin_verification ::
  "string \<Rightarrow> verification_result \<Rightarrow> audit_event list \<Rightarrow> rem_store \<Rightarrow> rem_record repo_result" where
  "repo_begin_verification rid pending evs st =
     (case map_of (st_records st) rid of
        None \<Rightarrow> Inl RemediationNotFoundError
      | Some r \<Rightarrow>
          if rr_status r \<noteq> EXECUTED \<or> map_of (st_verifications st) rid \<noteq> None
          then Inl RecoveryVerificationConflictError
          else and_then (validate_transition EXECUTED VERIFYING) (\<lambda>_.
            let r' = (with_status VERIFYING r)\<lparr>rr_verification := Some pending\<rparr> in
            Inr (r', (put_record rid r' evs st)\<lparr>st_verifications := AList.update rid pending (st_verifications st)\<rparr>)))"

definition repo_finish_verification ::
  "string \<Rightarrow> verification_result \<Rightarrow> rem_status \<Rightarrow> audit_event list \<Rightarrow> rem_store \<Rightarrow> rem_record repo_result" where
  "repo_finish_verification rid result final evs st =
     (case map_of (st_records st) rid of
        None \<Rightarrow> Inl RemediationNotFoundError
      | Some r \<Rightarrow>
          if rr_status r \<noteq> VERIFYING then Inl RecoveryVerificationConflictError
          else and_then (validate_transition VERIFYING final) (\<lambda>_.
            let r' = (with_status final r)\<lparr>rr_verification := Some result\<rparr> in
            Inr (r', (put_record rid r' evs st)\<lparr>st_verifications := AList.update rid result (st_verifications st)\<rparr>)))"

definition trail :: "rem_store \<Rightarrow> string \<Rightarrow> audit_event list" where
  "trail st rid = filter (\<lambda>e. ae_remediation e = rid) (st_audit st)"

definition repo_list_audit_events :: "string \<Rightarrow> nat \<Rightarrow> nat \<Rightarrow> rem_store \<Rightarrow> audit_event list" where
  "repo_list_audit_events rid how_many off st = take how_many (drop off (trail st rid))"

definition same_key :: "string \<Rightarrow> action_type \<Rightarrow> service_target \<Rightarrow> rem_record \<Rightarrow> bool" where
  "same_key inc a t r \<longleftrightarrow>
     (let p = rr_proposal r in
      pr_incident p = inc \<and> pr_action p = a \<and> tg_service (pr_target p) = tg_service t \<and>
      tg_environment (pr_target p) = tg_environment t)"

definition later :: "datetime option \<Rightarrow> datetime \<Rightarrow> datetime option" where
  "later cur ts = (case cur of None \<Rightarrow> Some ts | Some c \<Rightarrow> if c < ts then Some ts else cur)"

fun snapshot_fold ::
  "string \<Rightarrow> action_type \<Rightarrow> service_target \<Rightarrow> rem_record list \<Rightarrow> bool \<times> datetime option \<Rightarrow> bool \<times> datetime option" where
  "snapshot_fold inc a t [] acc = acc"
| "snapshot_fold inc a t (r # rs) (active, last_done) =
     (if \<not> same_key inc a t r then snapshot_fold inc a t rs (active, last_done)
      else snapshot_fold inc a t rs
        (if rr_status r \<in> ACTIVE_PRE_EXECUTION then True else active,
         if rr_status r \<in> COOLDOWN_ANCHOR_STATUSES
         then (case rr_approval r of None \<Rightarrow> last_done | Some ap \<Rightarrow> later last_done (ap_decided_at ap))
         else last_done))"

text \<open>\<open>RemediationHistorySnapshot\<close>: its two queries answer the same for every argument.\<close>

definition history_snapshot :: "string \<Rightarrow> action_type \<Rightarrow> service_target \<Rightarrow> rem_store \<Rightarrow> history_port" where
  "history_snapshot inc a t st =
     (case snapshot_fold inc a t (map snd (st_records st)) (False, None) of
        (active, last_done) \<Rightarrow>
          \<lparr>active_remediation_exists = (\<lambda>_ _ _. active), last_completed_at = (\<lambda>_ _ _. last_done)\<rparr>)"

section \<open>The contract of a row-locked operation\<close>

locale guarded_update =
  fixes op :: "rem_store \<Rightarrow> rem_record repo_result"
    and rid :: string
    and pre :: "rem_store \<Rightarrow> rem_record \<Rightarrow> bool"
    and upd :: "rem_record \<Rightarrow> rem_record"
    and evs :: "audit_event list"
  assumes success: "op st = Inr (r', st') \<Longrightarrow>
      \<exists>r. map_of (st_records st) rid = Some r \<and> pre st r \<and> r' = upd r \<and>
          st_records st' = AList.update rid r' (st_records st) \<and> st_order st' = st_order st \<and>
          st_audit st' = st_audit st @ evs"
    and enabled: "map_of (st_records st) rid = Some r \<Longrightarrow> pre st r \<Longrightarrow> \<exists>x. op st = Inr x"
    and consumes: "\<not> pre st' (upd r)"
begin

lemma records_after: "op st = Inr (r', st') \<Longrightarrow> map_of (st_records st') = (map_of (st_records st))(rid \<mapsto> r')"
  by (auto dest!: success simp: update_conv')

lemma keys_after: "op st = Inr (r', st') \<Longrightarrow> map fst (st_records st') = map fst (st_records st)"
  by (auto dest!: success intro!: keys_update_old simp: dom_map_of_conv_image_fst [symmetric])

lemma trail_after: "op st = Inr (r', st') \<Longrightarrow> trail st' i = trail st i @ filter (\<lambda>e. ae_remediation e = i) evs"
  by (auto dest!: success simp: trail_def)

lemma was_ready: "op st = Inr (r', st') \<Longrightarrow> \<exists>r. map_of (st_records st) rid = Some r \<and> pre st r \<and> r' = upd r"
  by (auto dest!: success)

lemma once: "op st = Inr (r', st') \<Longrightarrow> map_of (st_records st'') rid = Some r' \<Longrightarrow> \<exists>e. op st'' = Inl e"
  using consumes by (cases "op st''") (auto dest!: was_ready)

end

section \<open>The row-locked operations keep the contract\<close>

lemma and_then_validate [simp]:
  "and_then (validate_transition s t) f = (if t \<in> allowed_transitions s then f () else Inl InvalidRemediationTransition)"
  by (simp add: validate_transition_def can_transition_def guard_def)

lemma rr_status_with [simp]: "rr_status (with_status s r) = s"
  by (simp add: rr_status_def with_status_def)

lemma rr_id_with [simp]: "rr_id (with_status s r) = rr_id r"
  by (simp add: rr_id_def with_status_def)

lemma with_status_sel [simp]:
  "rr_approval (with_status s r) = rr_approval r" "rr_execution (with_status s r) = rr_execution r"
  "rr_verification (with_status s r) = rr_verification r" "rr_decision (with_status s r) = rr_decision r"
  "rr_proposal (with_status s r) = (rr_proposal r)\<lparr>pr_status := s\<rparr>"
  by (simp_all add: with_status_def)

lemma rr_sel_updates [simp]:
  "rr_status (r\<lparr>rr_execution := x\<rparr>) = rr_status r" "rr_status (r\<lparr>rr_verification := v\<rparr>) = rr_status r"
  "rr_status (r\<lparr>rr_proposal := p, rr_approval := a\<rparr>) = pr_status p"
  "rr_id (r\<lparr>rr_execution := x\<rparr>) = rr_id r" "rr_id (r\<lparr>rr_verification := v\<rparr>) = rr_id r"
  "rr_id (r\<lparr>rr_proposal := p, rr_approval := a\<rparr>) = pr_id p"
  by (simp_all add: rr_status_def rr_id_def)

interpretation dec: guarded_update "repo_record_decision rid p a evs" rid
  "\<lambda>_ r. rr_approval r = None" "\<lambda>r. r\<lparr>rr_proposal := p, rr_approval := Some a\<rparr>" evs for rid p a evs
  by unfold_locales
    (auto simp: repo_record_decision_def put_record_def Let_def split: option.splits if_splits)

interpretation bex: guarded_update "repo_begin_execution rid pending evs" rid
  "\<lambda>st r. rr_status r = APPROVED \<and> map_of (st_executions st) rid = None"
  "\<lambda>r. (with_status EXECUTING r)\<lparr>rr_execution := Some pending\<rparr>" evs for rid pending evs
  by unfold_locales
    (auto simp: repo_begin_execution_def put_record_def Let_def split: option.splits if_splits)

interpretation fex: guarded_update "repo_finish_execution rid result final evs" rid
  "\<lambda>_ r. rr_status r = EXECUTING \<and> final \<in> allowed_transitions EXECUTING"
  "\<lambda>r. (with_status final r)\<lparr>rr_execution := Some result\<rparr>" evs for rid result final evs
  by unfold_locales
    (auto simp: repo_finish_execution_def put_record_def Let_def split: option.splits if_splits)

interpretation bver: guarded_update "repo_begin_verification rid pending evs" rid
  "\<lambda>st r. rr_status r = EXECUTED \<and> map_of (st_verifications st) rid = None"
  "\<lambda>r. (with_status VERIFYING r)\<lparr>rr_verification := Some pending\<rparr>" evs for rid pending evs
  by unfold_locales
    (auto simp: repo_begin_verification_def put_record_def Let_def split: option.splits if_splits)

interpretation fver: guarded_update "repo_finish_verification rid result final evs" rid
  "\<lambda>_ r. rr_status r = VERIFYING \<and> final \<in> allowed_transitions VERIFYING"
  "\<lambda>r. (with_status final r)\<lparr>rr_verification := Some result\<rparr>" evs for rid result final evs
  by unfold_locales
    (auto simp: repo_finish_verification_def put_record_def Let_def split: option.splits if_splits)

section \<open>The history snapshot\<close>

text \<open>The decisions that anchor the cooldown of a key.\<close>

definition anchors :: "string \<Rightarrow> action_type \<Rightarrow> service_target \<Rightarrow> rem_record list \<Rightarrow> datetime list" where
  "anchors inc a t rs =
     map (\<lambda>r. ap_decided_at (the (rr_approval r)))
       (filter (\<lambda>r. same_key inc a t r \<and> rr_status r \<in> COOLDOWN_ANCHOR_STATUSES \<and> rr_approval r \<noteq> None) rs)"

definition latest :: "datetime option \<Rightarrow> datetime list \<Rightarrow> datetime option" where
  "latest acc ts = fold (\<lambda>t a. later a t) ts acc"

lemma latest_Cons: "latest acc (x # xs) = latest (later acc x) xs"
  by (simp add: latest_def)

lemma latest_Some: "latest (Some c) ts = Some (Max (insert c (set ts)))"
proof (induction ts arbitrary: c)
  case (Cons x xs)
  have "later (Some c) x = Some (max c x)" by (simp add: later_def max_def)
  moreover have "Max (insert (max c x) (set xs)) = Max (insert c (insert x (set xs)))"
    by (cases "set xs = {}") (simp_all add: max.assoc)
  ultimately show ?case by (simp add: latest_Cons Cons.IH)
qed (simp add: latest_def)

lemma latest_None: "latest None ts = (if ts = [] then None else Some (Max (set ts)))"
  by (cases ts) (simp_all add: latest_def [of None "[]"] latest_Cons later_def latest_Some)

lemma snapshot_fold_exact:
  "snapshot_fold inc a t rs (act, acc) =
     (act \<or> (\<exists>r \<in> set rs. same_key inc a t r \<and> rr_status r \<in> ACTIVE_PRE_EXECUTION),
      latest acc (anchors inc a t rs))"
proof (induction rs arbitrary: act acc)
  case Nil
  then show ?case by (simp add: latest_def anchors_def)
next
  case (Cons r rs)
  show ?case
  proof (cases "same_key inc a t r \<and> rr_status r \<in> COOLDOWN_ANCHOR_STATUSES \<and> rr_approval r \<noteq> None")
    case True
    then have "anchors inc a t (r # rs) = ap_decided_at (the (rr_approval r)) # anchors inc a t rs"
      by (simp add: anchors_def)
    with True show ?thesis by (auto simp: Cons.IH latest_Cons)
  next
    case False
    then have "anchors inc a t (r # rs) = anchors inc a t rs" by (auto simp: anchors_def)
    with False show ?thesis by (auto simp: Cons.IH split: option.splits)
  qed
qed

lemma history_snapshot_exact:
  "history_snapshot inc a t st =
     \<lparr>active_remediation_exists = (\<lambda>_ _ _. \<exists>r \<in> set (map snd (st_records st)).
         same_key inc a t r \<and> rr_status r \<in> ACTIVE_PRE_EXECUTION),
      last_completed_at = (\<lambda>_ _ _. latest None (anchors inc a t (map snd (st_records st))))\<rparr>"
  by (simp add: history_snapshot_def snapshot_fold_exact)

section \<open>Properties\<close>

text \<open>
  The duplicate and cooldown queries of a history snapshot are exact: a remediation counts as
  active when some stored remediation of the same incident, action and target has not ended, and the
  cooldown starts at the latest human decision among the approved, executing, executed and failed ones.
\<close>
theorem history_snapshot_faithful:
  "(active_remediation_exists (history_snapshot inc a t st) i b u \<longleftrightarrow>
      (\<exists>r \<in> snd ` set (st_records st). same_key inc a t r \<and> rr_status r \<in> ACTIVE_STATUSES)) \<and>
   last_completed_at (history_snapshot inc a t st) i b u =
     (let ds = {ap_decided_at ap | r ap. r \<in> snd ` set (st_records st) \<and> same_key inc a t r \<and> rr_approval r = Some ap \<and>
                  rr_status r \<in> {APPROVED, EXECUTING, EXECUTED, EXECUTION_FAILED}}
      in if ds = {} then None else Some (Max ds))"
proof -
  have act: "s \<in> ACTIVE_PRE_EXECUTION \<longleftrightarrow> s \<in> ACTIVE_STATUSES" for s
    by (cases s) (simp_all add: ACTIVE_PRE_EXECUTION_def ACTIVE_STATUSES_def)
  have ds: "{ap_decided_at ap | r ap. r \<in> snd ` set (st_records st) \<and> same_key inc a t r \<and> rr_approval r = Some ap \<and>
      rr_status r \<in> {APPROVED, EXECUTING, EXECUTED, EXECUTION_FAILED}} = set (anchors inc a t (map snd (st_records st)))"
    unfolding anchors_def COOLDOWN_ANCHOR_STATUSES_def by force
  show ?thesis
    unfolding history_snapshot_exact Let_def ds by (simp add: latest_None act)
qed

end
