(* ===== verification/RemService.thy ===== *)
theory RemService imports RemRepository begin

text \<open>
  \<open>RemediationService\<close>, \<open>service.py\<close>. Each handler is cut at its awaits on the repository: a \<open>_prepare\<close>
  function is the code before the state-changing call (its guards and the objects it builds), the repository
  operation is that call. The handlers \<open>propose\<close>, \<open>decide\<close>, \<open>execute\<close> and \<open>verify_recovery\<close> compose
  them without interruption; \<open>service_step\<close> lets any number of requests interleave at the awaits, and be
  cancelled at them. Random identifiers come from a supply \<open>tok\<close>, times from the request.
\<close>

section \<open>Configuration\<close>

record service =
  sv_policy :: policy_config
  sv_executor :: executor
  sv_ttl :: int
  sv_verify :: recovery_config

definition default_service :: service where
  "default_service =
     \<lparr>sv_policy = default_policy_config, sv_executor = build_executor LOCAL_SIMULATION,
      sv_ttl = 3600 * 1000000, sv_verify = DEFAULT_RECOVERY_CONFIG\<rparr>"

section \<open>Creation\<close>

record propose_request =
  pq_incident :: string
  pq_recommendation :: rca_input
  pq_investigation :: "string option"
  pq_severity :: "string option"
  pq_environment :: string
  pq_by :: string
  pq_now :: datetime
  pq_correlation :: "string option"
  pq_tok :: "nat \<Rightarrow> string"

definition creation_events ::
  "propose_request \<Rightarrow> proposal \<Rightarrow> proposal \<Rightarrow> policy_decision \<Rightarrow> rem_error + audit_event list" where
  "creation_events q p adv d =
     (let ts = pq_now q; corr = pq_correlation q; tok = pq_tok q in
      and_then (proposal_created_event (tok 1) p corr ts) (\<lambda>e1.
      and_then (policy_evaluated_event (tok 2) adv d (pr_status adv) corr ts) (\<lambda>e2.
      if decision_allowed d then Inr [e1, e2]
      else and_then (remediation_blocked_event (tok 3) adv d corr ts) (\<lambda>e3. Inr [e1, e2, e3]))))"

definition propose_prepare ::
  "service \<Rightarrow> propose_request \<Rightarrow> rem_store \<Rightarrow> rem_error + (rem_record \<times> audit_event list)" where
  "propose_prepare sv q st =
     and_then (proposal_from_rca (pq_recommendation q) (pq_incident q) (pq_investigation q) (pq_severity q)
                 (pq_environment q) (pq_by q) (pq_now q) (sv_ttl sv) (pq_tok q 0)) (\<lambda>m.
     case m of
       MBlocked b \<Rightarrow> Inl (ProposalNotMappableError (bp_reason b))
     | MProposal p \<Rightarrow>
         let ctx = \<lparr>cx_now = pq_now q, cx_severity = pq_severity q,
                    cx_history = history_snapshot (pq_incident q) (pr_action p) (pr_target p) st\<rparr>;
             d = evaluate (sv_policy sv) p ctx
         in and_then (apply_policy_decision p d) (\<lambda>adv.
            and_then (creation_events q p adv d) (\<lambda>evs.
            Inr (\<lparr>rr_proposal = adv, rr_decision = d, rr_approval = None, rr_execution = None,
                  rr_verification = None\<rparr>, evs))))"

definition propose :: "service \<Rightarrow> propose_request \<Rightarrow> rem_store \<Rightarrow> rem_record repo_result" where
  "propose sv q st = and_then (propose_prepare sv q st) (\<lambda>(r, evs). repo_create r evs st)"

section \<open>Reads\<close>

definition service_audit_events :: "string \<Rightarrow> nat \<Rightarrow> nat \<Rightarrow> rem_store \<Rightarrow> audit_event list option" where
  "service_audit_events rid how_many off st =
     (if repo_get rid st = None then None else Some (repo_list_audit_events rid how_many off st))"

section \<open>The human decision\<close>

record decide_request =
  dq_id :: string
  dq_decision :: approval_decision
  dq_identity :: string
  dq_role :: approver_role
  dq_reason :: string
  dq_now :: datetime
  dq_correlation :: "string option"
  dq_tok :: "nat \<Rightarrow> string"

definition check_decidable :: "rem_record \<Rightarrow> approval_decision \<Rightarrow> approver_role \<Rightarrow> datetime \<Rightarrow> rem_error + unit" where
  "check_decidable r d role now =
     (if rr_approval r \<noteq> None then Inl InvalidRemediationStateError
      else if rr_status r \<noteq> PENDING_APPROVAL then Inl InvalidRemediationStateError
      else if pd_outcome (rr_decision r) \<noteq> ALLOW then Inl RemediationPolicyBlockedError
      else if pr_expires (rr_proposal r) \<le> now then Inl RemediationExpiredError
      else if d = APPROVE \<and> \<not> can_approve role (pr_action (rr_proposal r)) then Inl UnauthorizedApproverError
      else Inr ())"

definition decide_prepare ::
  "decide_request \<Rightarrow> rem_record option \<Rightarrow> rem_error + (proposal \<times> approval \<times> audit_event list)" where
  "decide_prepare q found =
     (case found of
        None \<Rightarrow> Inl RemediationNotFoundError
      | Some r \<Rightarrow>
          and_then (check_decidable r (dq_decision q) (dq_role q) (dq_now q)) (\<lambda>_.
          and_then (validate_transition (rr_status r) (decision_status (dq_decision q))) (\<lambda>_.
          and_then (mk_approval (new_approval_id (dq_tok q 0)) (dq_id q) (dq_decision q) (dq_identity q)
                      (dq_role q) (dq_reason q) (dq_now q)) (\<lambda>a.
          and_then (decision_event (dq_tok q 1) (rr_proposal r) a (rr_status r) (dq_correlation q) (dq_now q)) (\<lambda>e.
          Inr ((rr_proposal r)\<lparr>pr_status := decision_status (dq_decision q)\<rparr>, a, [e]))))))"

definition decide :: "decide_request \<Rightarrow> rem_store \<Rightarrow> rem_record repo_result" where
  "decide q st =
     and_then (decide_prepare q (repo_get (dq_id q) st)) (\<lambda>(p, a, evs). repo_record_decision (dq_id q) p a evs st)"

section \<open>Execution\<close>

record execute_request =
  xq_id :: string
  xq_now :: datetime
  xq_failed_at :: datetime
  xq_correlation :: "string option"
  xq_tok :: "nat \<Rightarrow> string"

definition check_executable :: "rem_record \<Rightarrow> datetime \<Rightarrow> rem_error + unit" where
  "check_executable r now =
     (let p = rr_proposal r in
      if rr_status r \<noteq> APPROVED then Inl InvalidRemediationStateError
      else and_then (authorize_execution p (rr_approval r)) (\<lambda>_.
        and_then (require_action_definition (pr_action p)) (\<lambda>_.
        if \<not> is_allowed_target (pr_action p) (pr_target p) then Inl UnknownTargetError
        else and_then (validate_action_parameters (pr_action p) (pr_parameters p)) (\<lambda>_.
          if pr_expires p \<le> now then Inl RemediationExpiredError else Inr ()))))"

definition pending_execution :: "execute_request \<Rightarrow> proposal \<Rightarrow> execution_result" where
  "pending_execution q p =
     \<lparr>xr_id = new_execution_id (xq_tok q 0), xr_remediation_id = xq_id q, xr_action = pr_action p,
      xr_service = tg_service (pr_target p), xr_environment = tg_environment (pr_target p),
      xr_executor = LOCAL_SIMULATION, xr_status = ES_STARTED, xr_dry_run = False, xr_started_at = xq_now q,
      xr_completed_at = None, xr_effect = [], xr_metadata = [], xr_error = None\<rparr>"

definition checked_record :: "string \<Rightarrow> datetime \<Rightarrow> rem_record option \<Rightarrow> rem_error + rem_record" where
  "checked_record rid now found =
     (case found of
        None \<Rightarrow> Inl RemediationNotFoundError
      | Some r \<Rightarrow> and_then (check_executable r now) (\<lambda>_. Inr r))"

definition execute_prepare ::
  "execute_request \<Rightarrow> rem_record option \<Rightarrow> rem_error + (execution_result \<times> audit_event list)" where
  "execute_prepare q found =
     and_then (checked_record (xq_id q) (xq_now q) found) (\<lambda>r.
       let p = rr_proposal r; xid = new_execution_id (xq_tok q 0) in
       and_then (execution_requested_event (xq_tok q 1) p xid (xq_correlation q) (xq_now q)) (\<lambda>e1.
       and_then (execution_started_event (xq_tok q 2) p xid (xq_correlation q) (xq_now q)) (\<lambda>e2.
       Inr (pending_execution q p, [e1, e2]))))"

text \<open>The executor call on the claimed record and the terminal audit event.\<close>

definition failed_execution :: "execution_result \<Rightarrow> string \<Rightarrow> datetime \<Rightarrow> execution_result" where
  "failed_execution pending msg ts =
     pending\<lparr>xr_status := ES_FAILED, xr_error := Some (take 2000 msg), xr_completed_at := Some ts,
             xr_effect := take 2000 (''execution failed: '' @ msg)\<rparr>"

definition execute_run ::
  "service \<Rightarrow> execute_request \<Rightarrow> execution_result \<Rightarrow> rem_record \<Rightarrow> sim_state \<Rightarrow>
   (rem_error + (execution_result \<times> rem_status \<times> audit_event list)) \<times> sim_state" where
  "execute_run sv q pending begun sim =
     (case sv_executor sv (rr_proposal begun) (xr_id pending) False (xq_now q) sim of
        (outcome, sim') \<Rightarrow>
          (and_then (case outcome of
                       Inr result \<Rightarrow> Inr (result, EXECUTED)
                     | Inl (ExecutorError msg) \<Rightarrow> Inr (failed_execution pending msg (xq_failed_at q), EXECUTION_FAILED)
                     | Inl (ExecutorDomain e) \<Rightarrow> Inl e) (\<lambda>(result, final).
           and_then (execution_finished_event (xq_tok q 3) (rr_proposal begun) result final (xq_correlation q) (xq_now q))
             (\<lambda>e. Inr (result, final, [e]))), sim'))"

text \<open>\<open>execute\<close> of a real run and of a dry run. An error after the claim leaves the claim in place.\<close>

definition execute ::
  "service \<Rightarrow> execute_request \<Rightarrow> rem_store \<Rightarrow> sim_state \<Rightarrow>
   (rem_error + (rem_record \<times> execution_result)) \<times> rem_store \<times> sim_state" where
  "execute sv q st sim =
     (case and_then (execute_prepare q (repo_get (xq_id q) st)) (\<lambda>(pending, evs).
             and_then (repo_begin_execution (xq_id q) pending evs st) (\<lambda>(begun, st1). Inr (pending, begun, st1))) of
        Inl e \<Rightarrow> (Inl e, st, sim)
      | Inr (pending, begun, st1) \<Rightarrow>
          (case execute_run sv q pending begun sim of
             (Inl e, sim') \<Rightarrow> (Inl e, st1, sim')
           | (Inr (result, final, evs), sim') \<Rightarrow>
               (case repo_finish_execution (xq_id q) result final evs st1 of
                  Inl e \<Rightarrow> (Inl e, st1, sim')
                | Inr (completed, st2) \<Rightarrow> (Inr (completed, result), st2, sim'))))"

definition dry_run_execute ::
  "service \<Rightarrow> execute_request \<Rightarrow> rem_store \<Rightarrow> sim_state \<Rightarrow>
   ((rem_error + executor_exn) + (rem_record \<times> execution_result)) \<times> rem_store \<times> sim_state" where
  "dry_run_execute sv q st sim =
     (case checked_record (xq_id q) (xq_now q) (repo_get (xq_id q) st) of
        Inl e \<Rightarrow> (Inl (Inl e), st, sim)
      | Inr r \<Rightarrow>
          (case sv_executor sv (rr_proposal r) (new_execution_id (xq_tok q 0)) True (xq_now q) sim of
             (Inl x, sim') \<Rightarrow> (Inl (Inr x), st, sim')
           | (Inr result, sim') \<Rightarrow> (Inr (r, result), st, sim')))"

section \<open>Recovery verification\<close>

record verify_request =
  vq_id :: string
  vq_now :: datetime
  vq_correlation :: "string option"
  vq_tok :: "nat \<Rightarrow> string"

definition check_verifiable :: "rem_record \<Rightarrow> rem_error + execution_result" where
  "check_verifiable r =
     (if rr_status r \<noteq> EXECUTED then Inl InvalidRemediationStateError
      else case rr_execution r of
        None \<Rightarrow> Inl InvalidRemediationStateError
      | Some x \<Rightarrow> if xr_status x \<noteq> ES_SUCCEEDED then Inl InvalidRemediationStateError else Inr x)"

datatype verify_start =
    Replay rem_record verification_result
  | Claim verification_result "audit_event list"

definition pending_verification :: "service \<Rightarrow> verify_request \<Rightarrow> string \<Rightarrow> verification_result" where
  "pending_verification sv q xid =
     \<lparr>vr_id = new_verification_id (vq_tok q 0), vr_remediation_id = vq_id q, vr_execution_id = xid,
      vr_status = VS_STARTED, vr_verifier_type = VERIFIER_TYPE_LOCAL, vr_verifier_version = VERIFIER_VERSION,
      vr_attempts = 0, vr_checks = [], vr_failure_reason = None, vr_timeout = rc_timeout (sv_verify sv),
      vr_poll = rc_poll (sv_verify sv), vr_metadata = [], vr_started_at = vq_now q, vr_completed_at = None\<rparr>"

definition verify_prepare ::
  "service \<Rightarrow> verify_request \<Rightarrow> rem_record option \<Rightarrow> rem_error + verify_start" where
  "verify_prepare sv q found =
     (case found of
        None \<Rightarrow> Inl RemediationNotFoundError
      | Some r \<Rightarrow>
          if rr_status r = RECOVERED \<or> rr_status r = RECOVERY_FAILED then
            (case rr_verification r of
               None \<Rightarrow> Inl InvalidRemediationStateError
             | Some v \<Rightarrow> Inr (Replay r v))
          else if rr_status r = VERIFYING then Inl RecoveryVerificationConflictError
          else and_then (check_verifiable r) (\<lambda>x.
            and_then (verification_started_event (vq_tok q 1) (rr_proposal r) (new_verification_id (vq_tok q 0))
                        (xr_id x) (vq_correlation q) (vq_now q)) (\<lambda>e.
            Inr (Claim (pending_verification sv q (xr_id x)) [e]))))"

definition verification_metadata :: "recovery_outcome \<Rightarrow> (string, pyobj) dict" where
  "verification_metadata o1 =
     [(''probe_status'', PStr (health_status_str (ro_probe_status o1))),
      (''checks_passed'', PInt (int (checks_passed o1))),
      (''checks_total'', PInt (int (length (ro_checks o1)))),
      (''first_healthy_at'', PStr (case ro_first_healthy_at o1 of None \<Rightarrow> [] | Some t \<Rightarrow> isoformat t))]"

definition verify_run ::
  "service \<Rightarrow> verify_request \<Rightarrow> verification_result \<Rightarrow> rem_record \<Rightarrow> sim_state \<Rightarrow>
   (rem_error + (verification_result \<times> rem_status \<times> audit_event list)) \<times> sim_state" where
  "verify_run sv q pending begun sim =
     (case verify simulated_probe (pr_target (rr_proposal begun)) (sv_verify sv) (vq_now q) sim of
        (o1, sim') \<Rightarrow>
          (let final = (if outcome_recovered o1 then RECOVERED else RECOVERY_FAILED);
               result = pending\<lparr>vr_status := ro_status o1, vr_verifier_type := ro_verifier_type o1,
                 vr_verifier_version := ro_verifier_version o1, vr_attempts := ro_attempts o1,
                 vr_checks := ro_checks o1, vr_failure_reason := ro_failure_reason o1,
                 vr_metadata := verification_metadata o1, vr_completed_at := Some (ro_completed_at o1)\<rparr>
           in and_then (verification_finished_event (vq_tok q 2) (rr_proposal begun) (vr_id pending)
                (vr_execution_id pending) final (ro_attempts o1) (checks_passed o1) (length (ro_checks o1))
                (ro_failure_reason o1) (ro_verifier_type o1) (vq_correlation q) (vq_now q))
                (\<lambda>e. Inr (result, final, [e])), sim'))"

definition verify_recovery ::
  "service \<Rightarrow> verify_request \<Rightarrow> rem_store \<Rightarrow> sim_state \<Rightarrow>
   (rem_error + (rem_record \<times> verification_result \<times> bool)) \<times> rem_store \<times> sim_state" where
  "verify_recovery sv q st sim =
     (case verify_prepare sv q (repo_get (vq_id q) st) of
        Inl e \<Rightarrow> (Inl e, st, sim)
      | Inr (Replay r v) \<Rightarrow> (Inr (r, v, True), st, sim)
      | Inr (Claim pending evs) \<Rightarrow>
          (case repo_begin_verification (vq_id q) pending evs st of
             Inl e \<Rightarrow> (Inl e, st, sim)
           | Inr (begun, st1) \<Rightarrow>
               (case verify_run sv q pending begun sim of
                  (Inl e, sim') \<Rightarrow> (Inl e, st1, sim')
                | (Inr (result, final, evs2), sim') \<Rightarrow>
                    (case repo_finish_verification (vq_id q) result final evs2 st1 of
                       Inl e \<Rightarrow> (Inl e, st1, sim')
                     | Inr (completed, st2) \<Rightarrow> (Inr (completed, result, False), st2, sim')))))"

section \<open>Interleaved requests\<close>

text \<open>A job is a request suspended at an await: what it will do next, with what it has computed so far.\<close>

datatype job =
    JCreate rem_record "audit_event list"
  | JDecide string proposal approval "audit_event list"
  | JBeginExec execute_request execution_result "audit_event list"
  | JRunExec execute_request execution_result rem_record
  | JEndExec string execution_result rem_status "audit_event list"
  | JBeginVer verify_request verification_result "audit_event list"
  | JRunVer verify_request verification_result rem_record
  | JEndVer string verification_result rem_status "audit_event list"

record world =
  w_store :: rem_store
  w_sim :: sim_state
  w_jobs :: "job multiset"
  w_runs :: "string list"

definition initial_world :: "sim_state \<Rightarrow> world" where
  "initial_world sim = \<lparr>w_store = empty_store, w_sim = sim, w_jobs = {#}, w_runs = []\<rparr>"

text \<open>
  \<open>w_runs\<close> records the remediation of every real executor call. A job may end at any await without
  doing anything further: a repository error, a cancelled request or a crash (\<open>Drop\<close>).
\<close>

inductive service_step :: "service \<Rightarrow> world \<Rightarrow> world \<Rightarrow> bool" for sv :: service where
  StartPropose: "propose_prepare sv q (w_store w) = Inr (r, evs) \<Longrightarrow>
     service_step sv w (w\<lparr>w_jobs := add_mset (JCreate r evs) (w_jobs w)\<rparr>)"
| Create: "w_jobs w = add_mset (JCreate r evs) js \<Longrightarrow> repo_create r evs (w_store w) = Inr (r', st') \<Longrightarrow>
     service_step sv w (w\<lparr>w_store := st', w_jobs := js\<rparr>)"
| StartDecide: "decide_prepare q (repo_get (dq_id q) (w_store w)) = Inr (p, a, evs) \<Longrightarrow>
     service_step sv w (w\<lparr>w_jobs := add_mset (JDecide (dq_id q) p a evs) (w_jobs w)\<rparr>)"
| DecideStep: "w_jobs w = add_mset (JDecide rid p a evs) js \<Longrightarrow>
     repo_record_decision rid p a evs (w_store w) = Inr (r', st') \<Longrightarrow>
     service_step sv w (w\<lparr>w_store := st', w_jobs := js\<rparr>)"
| StartExecute: "execute_prepare q (repo_get (xq_id q) (w_store w)) = Inr (pending, evs) \<Longrightarrow>
     service_step sv w (w\<lparr>w_jobs := add_mset (JBeginExec q pending evs) (w_jobs w)\<rparr>)"
| BeginExec: "w_jobs w = add_mset (JBeginExec q pending evs) js \<Longrightarrow>
     repo_begin_execution (xq_id q) pending evs (w_store w) = Inr (begun, st') \<Longrightarrow>
     service_step sv w (w\<lparr>w_store := st', w_jobs := add_mset (JRunExec q pending begun) js\<rparr>)"
| RunExec: "w_jobs w = add_mset (JRunExec q pending begun) js \<Longrightarrow>
     execute_run sv q pending begun (w_sim w) = (Inr (result, final, evs), sim') \<Longrightarrow>
     service_step sv w (w\<lparr>w_sim := sim', w_runs := w_runs w @ [xq_id q],
                           w_jobs := add_mset (JEndExec (xq_id q) result final evs) js\<rparr>)"
| RunExecError: "w_jobs w = add_mset (JRunExec q pending begun) js \<Longrightarrow>
     execute_run sv q pending begun (w_sim w) = (Inl e, sim') \<Longrightarrow>
     service_step sv w (w\<lparr>w_sim := sim', w_runs := w_runs w @ [xq_id q], w_jobs := js\<rparr>)"
| EndExec: "w_jobs w = add_mset (JEndExec rid result final evs) js \<Longrightarrow>
     repo_finish_execution rid result final evs (w_store w) = Inr (r', st') \<Longrightarrow>
     service_step sv w (w\<lparr>w_store := st', w_jobs := js\<rparr>)"
| StartVerify: "verify_prepare sv q (repo_get (vq_id q) (w_store w)) = Inr (Claim pending evs) \<Longrightarrow>
     service_step sv w (w\<lparr>w_jobs := add_mset (JBeginVer q pending evs) (w_jobs w)\<rparr>)"
| BeginVer: "w_jobs w = add_mset (JBeginVer q pending evs) js \<Longrightarrow>
     repo_begin_verification (vq_id q) pending evs (w_store w) = Inr (begun, st') \<Longrightarrow>
     service_step sv w (w\<lparr>w_store := st', w_jobs := add_mset (JRunVer q pending begun) js\<rparr>)"
| RunVer: "w_jobs w = add_mset (JRunVer q pending begun) js \<Longrightarrow>
     verify_run sv q pending begun (w_sim w) = (Inr (result, final, evs), sim') \<Longrightarrow>
     service_step sv w (w\<lparr>w_sim := sim', w_jobs := add_mset (JEndVer (vq_id q) result final evs) js\<rparr>)"
| RunVerError: "w_jobs w = add_mset (JRunVer q pending begun) js \<Longrightarrow>
     verify_run sv q pending begun (w_sim w) = (Inl e, sim') \<Longrightarrow>
     service_step sv w (w\<lparr>w_sim := sim', w_jobs := js\<rparr>)"
| EndVer: "w_jobs w = add_mset (JEndVer rid result final evs) js \<Longrightarrow>
     repo_finish_verification rid result final evs (w_store w) = Inr (r', st') \<Longrightarrow>
     service_step sv w (w\<lparr>w_store := st', w_jobs := js\<rparr>)"
| Drop: "w_jobs w = add_mset j js \<Longrightarrow> service_step sv w (w\<lparr>w_jobs := js\<rparr>)"

definition reachable_world :: "service \<Rightarrow> world \<Rightarrow> bool" where
  "reachable_world sv w \<longleftrightarrow> (\<exists>sim. (service_step sv)\<^sup>*\<^sup>* (initial_world sim) w)"

inductive_cases service_stepE: "service_step sv w w'"

end
