(* ===== verification/RemSafety.thy ===== *)
theory RemSafety imports RemService begin

text \<open>
  Safety of the remediation workflow under every interleaving of requests. \<open>world_inv\<close> is the invariant:
  what each stored row looks like (\<open>row_ok\<close>), that the side tables and the audit trail agree with it
  (\<open>rec_ok\<close>), what a suspended job may still rely on (\<open>job_ok\<close>), and that at most one job is
  between claim and completion for a remediation. The properties follow from it by rule induction.
\<close>

section \<open>The invariant\<close>

text \<open>The lifecycle facts a trail holds, in order, when the remediation has a given status.\<close>

type_synonym fact = "event_type \<times> rem_status option \<times> rem_status option"

function lifecycle_facts :: "rem_status \<Rightarrow> fact list" where
  "lifecycle_facts PENDING_APPROVAL =
     [(AE_PROPOSAL_CREATED, None, Some PROPOSED),
      (AE_POLICY_EVALUATED, Some POLICY_EVALUATION, Some PENDING_APPROVAL)]"
| "lifecycle_facts BLOCKED =
     [(AE_PROPOSAL_CREATED, None, Some PROPOSED), (AE_POLICY_EVALUATED, Some POLICY_EVALUATION, Some BLOCKED),
      (AE_REMEDIATION_BLOCKED, Some POLICY_EVALUATION, Some BLOCKED)]"
| "lifecycle_facts REJECTED =
     lifecycle_facts PENDING_APPROVAL @ [(AE_REJECTED, Some PENDING_APPROVAL, Some REJECTED)]"
| "lifecycle_facts APPROVED =
     lifecycle_facts PENDING_APPROVAL @ [(AE_APPROVED, Some PENDING_APPROVAL, Some APPROVED)]"
| "lifecycle_facts EXECUTING =
     lifecycle_facts APPROVED @ [(AE_EXECUTION_REQUESTED, Some APPROVED, Some APPROVED),
                                 (AE_EXECUTION_STARTED, Some APPROVED, Some EXECUTING)]"
| "lifecycle_facts EXECUTED =
     lifecycle_facts EXECUTING @ [(AE_EXECUTION_SUCCEEDED, Some EXECUTING, Some EXECUTED)]"
| "lifecycle_facts EXECUTION_FAILED =
     lifecycle_facts EXECUTING @ [(AE_EXECUTION_FAILED, Some EXECUTING, Some EXECUTION_FAILED)]"
| "lifecycle_facts VERIFYING =
     lifecycle_facts EXECUTED @ [(AE_VERIFICATION_STARTED, Some EXECUTED, Some VERIFYING)]"
| "lifecycle_facts RECOVERED =
     lifecycle_facts VERIFYING @ [(AE_VERIFICATION_SUCCEEDED, Some VERIFYING, Some RECOVERED)]"
| "lifecycle_facts RECOVERY_FAILED =
     lifecycle_facts VERIFYING @ [(AE_VERIFICATION_FAILED, Some VERIFYING, Some RECOVERY_FAILED)]"
| "lifecycle_facts PROPOSED = []"
| "lifecycle_facts POLICY_EVALUATION = []"
| "lifecycle_facts EXPIRED = []"
  by (auto intro: rem_status.exhaust)
termination by (relation "measure status_rank") auto

definition approval_ok :: "rem_record \<Rightarrow> approval \<Rightarrow> bool" where
  "approval_ok r a \<longleftrightarrow>
     ap_remediation_id a = rr_id r \<and> (ap_decision a = APPROVE \<longleftrightarrow> rr_status r \<noteq> REJECTED) \<and>
     (ap_decision a = APPROVE \<longrightarrow> can_approve (ap_role a) (pr_action (rr_proposal r))) \<and>
     ap_decided_at a < pr_expires (rr_proposal r) \<and> strip (ap_identity a) \<noteq> []"

fun execution_matches :: "string \<Rightarrow> rem_status \<Rightarrow> execution_result option \<Rightarrow> bool" where
  "execution_matches rid s None \<longleftrightarrow> s \<in> {PENDING_APPROVAL, BLOCKED, REJECTED, APPROVED}"
| "execution_matches rid s (Some x) \<longleftrightarrow>
     xr_remediation_id x = rid \<and> \<not> xr_dry_run x \<and>
     (s = EXECUTING \<and> xr_status x = ES_STARTED \<or> s = EXECUTION_FAILED \<and> xr_status x = ES_FAILED \<or>
      s \<in> {EXECUTED, VERIFYING, RECOVERED, RECOVERY_FAILED} \<and> xr_status x = ES_SUCCEEDED)"

fun verification_matches :: "string \<Rightarrow> rem_status \<Rightarrow> verification_result option \<Rightarrow> bool" where
  "verification_matches rid s None \<longleftrightarrow> s \<notin> {VERIFYING, RECOVERED, RECOVERY_FAILED}"
| "verification_matches rid s (Some v) \<longleftrightarrow>
     vr_remediation_id v = rid \<and>
     (s = VERIFYING \<and> vr_status v = VS_STARTED \<or> s = RECOVERED \<and> vr_status v = VS_RECOVERED \<or>
      s = RECOVERY_FAILED \<and> vr_status v = VS_RECOVERY_FAILED)"

definition sound_proposal :: "proposal \<Rightarrow> bool" where
  "sound_proposal p \<longleftrightarrow>
     is_allowed_target (pr_action p) (pr_target p) \<and> parameters_ok (pr_action p) (pr_parameters p) \<and>
     pr_created p < pr_expires p \<and> tg_environment (pr_target p) \<in> ALLOWED_ENVIRONMENTS \<and>
     remediation_id_ok (pr_id p)"

definition row_ok :: "rem_record \<Rightarrow> bool" where
  "row_ok r \<longleftrightarrow>
     sound_proposal (rr_proposal r) \<and> rr_status r \<notin> {PROPOSED, POLICY_EVALUATION, EXPIRED} \<and>
     (pd_outcome (rr_decision r) = ALLOW \<longleftrightarrow> rr_status r \<noteq> BLOCKED) \<and>
     (rr_approval r = None \<longleftrightarrow> rr_status r \<in> {PENDING_APPROVAL, BLOCKED}) \<and>
     (\<forall>a. rr_approval r = Some a \<longrightarrow> approval_ok r a) \<and>
     execution_matches (rr_id r) (rr_status r) (rr_execution r) \<and>
     verification_matches (rr_id r) (rr_status r) (rr_verification r)"

definition trail_ok :: "audit_event list \<Rightarrow> string \<Rightarrow> rem_status \<Rightarrow> bool" where
  "trail_ok evs rid s \<longleftrightarrow> map lifecycle_of evs = map (Pair rid) (lifecycle_facts s)"

definition rec_ok :: "rem_store \<Rightarrow> string \<Rightarrow> rem_record \<Rightarrow> bool" where
  "rec_ok st rid r \<longleftrightarrow>
     rr_id r = rid \<and> row_ok r \<and> map_of (st_executions st) rid = rr_execution r \<and>
     map_of (st_verifications st) rid = rr_verification r \<and> trail_ok (trail st rid) rid (rr_status r)"

definition entry_ok :: "rem_store \<Rightarrow> string \<Rightarrow> bool" where
  "entry_ok st rid \<longleftrightarrow>
     (case map_of (st_records st) rid of
        None \<Rightarrow> trail st rid = [] \<and> map_of (st_executions st) rid = None \<and> map_of (st_verifications st) rid = None
      | Some r \<Rightarrow> rec_ok st rid r)"

definition store_inv :: "rem_store \<Rightarrow> bool" where
  "store_inv st \<longleftrightarrow>
     distinct (map fst (st_records st)) \<and> st_order st = map fst (st_records st) \<and> (\<forall>rid. entry_ok st rid)"

text \<open>The claim a suspended job holds: the row it has moved to a working status.\<close>

fun holds :: "job \<Rightarrow> (string \<times> rem_status) option" where
  "holds (JRunExec q pending begun) = Some (xq_id q, EXECUTING)"
| "holds (JEndExec rid result final evs) = Some (rid, EXECUTING)"
| "holds (JRunVer q pending begun) = Some (vq_id q, VERIFYING)"
| "holds (JEndVer rid result final evs) = Some (rid, VERIFYING)"
| "holds j = None"

definition claimed :: "rem_store \<Rightarrow> string \<Rightarrow> rem_status \<Rightarrow> bool" where
  "claimed st rid s \<longleftrightarrow> (\<exists>r. map_of (st_records st) rid = Some r \<and> rr_status r = s)"

definition decision_pending :: "rem_record \<Rightarrow> proposal \<Rightarrow> approval \<Rightarrow> bool" where
  "decision_pending r p a \<longleftrightarrow>
     rr_status r = PENDING_APPROVAL \<and> p = (rr_proposal r)\<lparr>pr_status := decision_status (ap_decision a)\<rparr> \<and>
     (ap_decision a = APPROVE \<longrightarrow> can_approve (ap_role a) (pr_action (rr_proposal r))) \<and>
     ap_decided_at a < pr_expires (rr_proposal r)"

fun job_ok :: "rem_store \<Rightarrow> string list \<Rightarrow> job \<Rightarrow> bool" where
  "job_ok st runs (JCreate r evs) \<longleftrightarrow>
     row_ok r \<and> rr_approval r = None \<and> rr_execution r = None \<and> rr_verification r = None \<and>
     trail_ok evs (rr_id r) (rr_status r)"
| "job_ok st runs (JDecide rid p a evs) \<longleftrightarrow>
     (\<exists>r. map_of (st_records st) rid = Some r \<and> (rr_approval r = None \<longrightarrow> decision_pending r p a)) \<and>
     ap_remediation_id a = rid \<and> strip (ap_identity a) \<noteq> [] \<and>
     map lifecycle_of evs = [(rid, if ap_decision a = APPROVE then AE_APPROVED else AE_REJECTED,
                              Some PENDING_APPROVAL, Some (decision_status (ap_decision a)))]"
| "job_ok st runs (JBeginExec q pending evs) \<longleftrightarrow>
     execution_matches (xq_id q) EXECUTING (Some pending) \<and> xr_id pending = new_execution_id (xq_tok q 0) \<and>
     map lifecycle_of evs = [(xq_id q, AE_EXECUTION_REQUESTED, Some APPROVED, Some APPROVED),
                             (xq_id q, AE_EXECUTION_STARTED, Some APPROVED, Some EXECUTING)]"
| "job_ok st runs (JRunExec q pending begun) \<longleftrightarrow>
     claimed st (xq_id q) EXECUTING \<and> execution_matches (xq_id q) EXECUTING (Some pending) \<and>
     rr_id begun = xq_id q \<and> sound_proposal (rr_proposal begun) \<and> xq_id q \<notin> set runs"
| "job_ok st runs (JEndExec rid result final evs) \<longleftrightarrow>
     claimed st rid EXECUTING \<and> final \<in> {EXECUTED, EXECUTION_FAILED} \<and>
     execution_matches rid final (Some result) \<and>
     map lifecycle_of evs = [(rid, if final = EXECUTED then AE_EXECUTION_SUCCEEDED else AE_EXECUTION_FAILED,
                              Some EXECUTING, Some final)]"
| "job_ok st runs (JBeginVer q pending evs) \<longleftrightarrow>
     verification_matches (vq_id q) VERIFYING (Some pending) \<and>
     map lifecycle_of evs = [(vq_id q, AE_VERIFICATION_STARTED, Some EXECUTED, Some VERIFYING)]"
| "job_ok st runs (JRunVer q pending begun) \<longleftrightarrow>
     claimed st (vq_id q) VERIFYING \<and> verification_matches (vq_id q) VERIFYING (Some pending) \<and>
     rr_id begun = vq_id q"
| "job_ok st runs (JEndVer rid result final evs) \<longleftrightarrow>
     claimed st rid VERIFYING \<and> final \<in> {RECOVERED, RECOVERY_FAILED} \<and>
     verification_matches rid final (Some result) \<and>
     map lifecycle_of evs = [(rid, if final = RECOVERED then AE_VERIFICATION_SUCCEEDED else AE_VERIFICATION_FAILED,
                              Some VERIFYING, Some final)]"

definition runs_ok :: "rem_store \<Rightarrow> string list \<Rightarrow> bool" where
  "runs_ok st runs \<longleftrightarrow>
     distinct runs \<and> (\<forall>rid \<in> set runs. \<exists>r. map_of (st_records st) rid = Some r \<and> rr_execution r \<noteq> None)"

definition exclusive :: "job multiset \<Rightarrow> bool" where
  "exclusive js \<longleftrightarrow> (\<forall>k. size (filter_mset (\<lambda>j. holds j = Some k) js) \<le> 1)"

definition world_inv :: "world \<Rightarrow> bool" where
  "world_inv w \<longleftrightarrow>
     store_inv (w_store w) \<and> (\<forall>j \<in># w_jobs w. job_ok (w_store w) (w_runs w) j) \<and>
     exclusive (w_jobs w) \<and> runs_ok (w_store w) (w_runs w)"

lemma initial_inv: "world_inv (initial_world sim)"
  by (simp add: world_inv_def initial_world_def store_inv_def entry_ok_def empty_store_def trail_def
      exclusive_def runs_ok_def)

section \<open>Preservation: the store\<close>

lemma entry_some: "store_inv st \<Longrightarrow> map_of (st_records st) rid = Some r \<Longrightarrow> rec_ok st rid r"
  by (metis entry_ok_def option.case(2) store_inv_def)

lemma rec_ok_cong:
  "trail st' i = trail st i \<Longrightarrow> map_of (st_executions st') i = map_of (st_executions st) i \<Longrightarrow>
   map_of (st_verifications st') i = map_of (st_verifications st) i \<Longrightarrow> rec_ok st' i r = rec_ok st i r"
  by (simp add: rec_ok_def)

lemma store_inv_update:
  assumes inv: "store_inv st" and old: "map_of (st_records st) rid = Some r"
    and recs: "st_records st' = AList.update rid r' (st_records st)" and order: "st_order st' = st_order st"
    and audit: "st_audit st' = st_audit st @ evs" and own: "\<forall>e \<in> set evs. ae_remediation e = rid"
    and frame: "\<And>i. i \<noteq> rid \<Longrightarrow> map_of (st_executions st') i = map_of (st_executions st) i \<and>
                  map_of (st_verifications st') i = map_of (st_verifications st) i"
    and ok: "rec_ok st' rid r'"
  shows "store_inv st'"
proof -
  have other: "trail st' i = trail st i" if "i \<noteq> rid" for i
    using that own by (auto simp: trail_def audit filter_empty_conv)
  have "entry_ok st' i" for i
  proof (cases "i = rid")
    case True
    then show ?thesis using ok by (simp add: entry_ok_def recs update_conv')
  next
    case False
    moreover have "entry_ok st i" using inv by (simp add: store_inv_def)
    ultimately show ?thesis
      using frame [OF False] other [OF False] rec_ok_cong [OF other [OF False]]
      by (simp add: entry_ok_def recs update_conv' split: option.splits)
  qed
  then show ?thesis
    using inv keys_update_old [OF old, of r'] by (simp add: store_inv_def recs order)
qed

text \<open>The row after an update, when the events of the step are appended to its trail.\<close>

lemma rec_ok_update:
  assumes "rec_ok st rid r" "row_ok r'" "rr_id r' = rid"
    "map_of (st_executions st') rid = rr_execution r'" "map_of (st_verifications st') rid = rr_verification r'"
    "st_audit st' = st_audit st @ evs" "\<forall>e \<in> set evs. ae_remediation e = rid"
    "map (Pair rid) (lifecycle_facts (rr_status r')) = map (Pair rid) (lifecycle_facts (rr_status r)) @ map lifecycle_of evs"
  shows "rec_ok st' rid r'"
proof -
  have "trail st' rid = trail st rid @ evs" using assms(6,7) by (auto simp: trail_def)
  then show ?thesis using assms by (simp add: rec_ok_def trail_ok_def)
qed

lemma own_events: "map lifecycle_of evs = map (Pair rid) fs \<Longrightarrow> \<forall>e \<in> set evs. ae_remediation e = rid"
proof
  fix e assume eq: "map lifecycle_of evs = map (Pair rid) fs" and "e \<in> set evs"
  then have "lifecycle_of e \<in> set (map (Pair rid) fs)" by (metis eq image_eqI set_map)
  then show "ae_remediation e = rid" by (auto simp: lifecycle_of_def)
qed

lemma decision_tables:
  "repo_record_decision rid p a evs st = Inr (r', st') \<Longrightarrow>
   st_executions st' = st_executions st \<and> st_verifications st' = st_verifications st"
  by (auto simp: repo_record_decision_def put_record_def Let_def split: option.splits if_splits)

lemma begin_execution_tables:
  "repo_begin_execution rid pending evs st = Inr (r', st') \<Longrightarrow>
   st_executions st' = AList.update rid pending (st_executions st) \<and> st_verifications st' = st_verifications st"
  by (auto simp: repo_begin_execution_def put_record_def Let_def split: option.splits if_splits)

lemma finish_execution_tables:
  "repo_finish_execution rid result final evs st = Inr (r', st') \<Longrightarrow>
   st_executions st' = AList.update rid result (st_executions st) \<and> st_verifications st' = st_verifications st"
  by (auto simp: repo_finish_execution_def put_record_def Let_def split: option.splits if_splits)

lemma begin_verification_tables:
  "repo_begin_verification rid pending evs st = Inr (r', st') \<Longrightarrow>
   st_executions st' = st_executions st \<and> st_verifications st' = AList.update rid pending (st_verifications st)"
  by (auto simp: repo_begin_verification_def put_record_def Let_def split: option.splits if_splits)

lemma finish_verification_tables:
  "repo_finish_verification rid result final evs st = Inr (r', st') \<Longrightarrow>
   st_executions st' = st_executions st \<and> st_verifications st' = AList.update rid result (st_verifications st)"
  by (auto simp: repo_finish_verification_def put_record_def Let_def split: option.splits if_splits)

lemma sound_proposal_status [simp]: "sound_proposal (p\<lparr>pr_status := s\<rparr>) = sound_proposal p"
  by (simp add: sound_proposal_def)

lemma map_Pair_append: "map (Pair rid) (xs @ ys) = map (Pair rid) xs @ map (Pair rid) ys"
  by simp

text \<open>What an update of one row does to the world: rows, and the claims of other jobs.\<close>

definition row_moves :: "rem_store \<Rightarrow> rem_store \<Rightarrow> string \<Rightarrow> rem_record \<Rightarrow> rem_record \<Rightarrow> bool" where
  "row_moves st st' rid r r' \<longleftrightarrow>
     map_of (st_records st) rid = Some r \<and> map_of (st_records st') = (map_of (st_records st))(rid \<mapsto> r') \<and>
     rr_approval r' \<noteq> None \<and> (rr_execution r \<noteq> None \<longrightarrow> rr_execution r' \<noteq> None) \<and>
     rr_status r' \<in> allowed_transitions (rr_status r) \<and> rr_id r' = rid \<and>
     rr_decision r' = rr_decision r \<and> rr_proposal r' = (rr_proposal r)\<lparr>pr_status := rr_status r'\<rparr> \<and>
     (rr_approval r \<noteq> None \<longrightarrow> rr_approval r' = rr_approval r) \<and> prefix (st_audit st) (st_audit st')"

lemma record_decision_inv:
  assumes inv: "store_inv st" and job: "job_ok st runs (JDecide rid p a evs)"
    and op: "repo_record_decision rid p a evs st = Inr (r', st')"
  shows "store_inv st' \<and> (\<exists>r. row_moves st st' rid r r' \<and> rr_status r = PENDING_APPROVAL)"
proof -
  from dec.success [OF op] obtain r where r: "map_of (st_records st) rid = Some r" "rr_approval r = None"
      "r' = r\<lparr>rr_proposal := p, rr_approval := Some a\<rparr>"
    and st': "st_records st' = AList.update rid r' (st_records st)" "st_order st' = st_order st"
      "st_audit st' = st_audit st @ evs" by auto
  have ok: "rec_ok st rid r" using entry_some [OF inv r(1)] .
  from job r have pend: "decision_pending r p a" by auto
  have tables: "st_executions st' = st_executions st" "st_verifications st' = st_verifications st"
    using decision_tables [OF op] by auto
  have status: "rr_status r = PENDING_APPROVAL" "rr_status r' = decision_status (ap_decision a)"
    using pend r(3) by (auto simp: decision_pending_def)
  have evs: "map lifecycle_of evs = map (Pair rid)
      [(if ap_decision a = APPROVE then AE_APPROVED else AE_REJECTED, Some PENDING_APPROVAL,
        Some (decision_status (ap_decision a)))]" using job by simp
  have id: "rr_id r' = rid" using ok pend r(3) by (simp add: rec_ok_def decision_pending_def rr_id_def)
  have row: "row_ok r'"
    using ok pend job r(3) status id
    by (cases "ap_decision a")
      (auto simp: row_ok_def rec_ok_def decision_pending_def approval_ok_def decision_status_def rr_id_def
        split: option.splits elim!: execution_matches.elims verification_matches.elims)
  have "rec_ok st' rid r'"
    by (rule rec_ok_update [OF ok row id])
      (use ok r st' tables status own_events [OF evs] evs in
        \<open>auto simp: rec_ok_def decision_status_def split: if_splits\<close>)
  from store_inv_update [OF inv r(1) st' own_events [OF evs] _ this] tables
  have "store_inv st'" by simp
  moreover have "row_moves st st' rid r r'"
    using r st' id status pend
    by (cases "ap_decision a") (auto simp: row_moves_def update_conv' decision_status_def decision_pending_def)
  ultimately show ?thesis using status by blast
qed

lemma begin_execution_inv:
  assumes inv: "store_inv st" and job: "job_ok st runs (JBeginExec q pending evs)"
    and op: "repo_begin_execution (xq_id q) pending evs st = Inr (r', st')"
  shows "store_inv st' \<and> (\<exists>r. row_moves st st' (xq_id q) r r' \<and> rr_status r = APPROVED) \<and>
    rr_status r' = EXECUTING \<and> sound_proposal (rr_proposal r')"
proof -
  let ?rid = "xq_id q"
  from bex.success [OF op] obtain r where r: "map_of (st_records st) ?rid = Some r" "rr_status r = APPROVED"
      "r' = (with_status EXECUTING r)\<lparr>rr_execution := Some pending\<rparr>"
    and st': "st_records st' = AList.update ?rid r' (st_records st)" "st_order st' = st_order st"
      "st_audit st' = st_audit st @ evs" by auto
  have ok: "rec_ok st ?rid r" using entry_some [OF inv r(1)] .
  have tables: "st_executions st' = AList.update ?rid pending (st_executions st)"
    "st_verifications st' = st_verifications st" using begin_execution_tables [OF op] by auto
  have evs: "map lifecycle_of evs = map (Pair ?rid)
      [(AE_EXECUTION_REQUESTED, Some APPROVED, Some APPROVED), (AE_EXECUTION_STARTED, Some APPROVED, Some EXECUTING)]"
    using job by simp
  have id: "rr_id r' = ?rid" using ok r(3) by (simp add: rec_ok_def)
  have row: "row_ok r'"
    using ok job r(2,3) id
    by (auto simp: row_ok_def rec_ok_def approval_ok_def elim!: verification_matches.elims)
  have "rec_ok st' ?rid r'"
    by (rule rec_ok_update [OF ok row id])
      (use ok r st' tables own_events [OF evs] evs in \<open>auto simp: rec_ok_def update_conv'\<close>)
  from store_inv_update [OF inv r(1) st' own_events [OF evs] _ this] tables
  have "store_inv st'" by (simp add: update_conv')
  moreover have "row_moves st st' ?rid r r'"
    using r st' id ok by (auto simp: row_moves_def update_conv' rec_ok_def row_ok_def)
  ultimately show ?thesis using r ok by (auto simp: rec_ok_def row_ok_def)
qed

lemma finish_execution_inv:
  assumes inv: "store_inv st" and job: "job_ok st runs (JEndExec rid result final evs)"
    and op: "repo_finish_execution rid result final evs st = Inr (r', st')"
  shows "store_inv st' \<and> (\<exists>r. row_moves st st' rid r r' \<and> rr_status r = EXECUTING)"
proof -
  from fex.success [OF op] obtain r where r: "map_of (st_records st) rid = Some r" "rr_status r = EXECUTING"
      "final \<in> allowed_transitions EXECUTING" "r' = (with_status final r)\<lparr>rr_execution := Some result\<rparr>"
    and st': "st_records st' = AList.update rid r' (st_records st)" "st_order st' = st_order st"
      "st_audit st' = st_audit st @ evs" by auto
  have ok: "rec_ok st rid r" using entry_some [OF inv r(1)] .
  have tables: "st_executions st' = AList.update rid result (st_executions st)"
    "st_verifications st' = st_verifications st" using finish_execution_tables [OF op] by auto
  have evs: "map lifecycle_of evs = map (Pair rid)
      [(if final = EXECUTED then AE_EXECUTION_SUCCEEDED else AE_EXECUTION_FAILED, Some EXECUTING, Some final)]"
    using job by simp
  have id: "rr_id r' = rid" using ok r(4) by (simp add: rec_ok_def)
  have row: "row_ok r'"
    using ok job r(2,4) id
    by (auto simp: row_ok_def rec_ok_def approval_ok_def elim!: verification_matches.elims)
  have "rec_ok st' rid r'"
    by (rule rec_ok_update [OF ok row id])
      (use ok r st' tables own_events [OF evs] evs in \<open>auto simp: rec_ok_def update_conv' split: if_splits\<close>)
  from store_inv_update [OF inv r(1) st' own_events [OF evs] _ this] tables
  have "store_inv st'" by (simp add: update_conv')
  moreover have "row_moves st st' rid r r'"
    using r st' id ok by (auto simp: row_moves_def update_conv' rec_ok_def row_ok_def)
  ultimately show ?thesis using r by blast
qed

lemma begin_verification_inv:
  assumes inv: "store_inv st" and job: "job_ok st runs (JBeginVer q pending evs)"
    and op: "repo_begin_verification (vq_id q) pending evs st = Inr (r', st')"
  shows "store_inv st' \<and> (\<exists>r. row_moves st st' (vq_id q) r r' \<and> rr_status r = EXECUTED) \<and> rr_status r' = VERIFYING"
proof -
  let ?rid = "vq_id q"
  from bver.success [OF op] obtain r where r: "map_of (st_records st) ?rid = Some r" "rr_status r = EXECUTED"
      "r' = (with_status VERIFYING r)\<lparr>rr_verification := Some pending\<rparr>"
    and st': "st_records st' = AList.update ?rid r' (st_records st)" "st_order st' = st_order st"
      "st_audit st' = st_audit st @ evs" by auto
  have ok: "rec_ok st ?rid r" using entry_some [OF inv r(1)] .
  have tables: "st_executions st' = st_executions st"
    "st_verifications st' = AList.update ?rid pending (st_verifications st)"
    using begin_verification_tables [OF op] by auto
  have evs: "map lifecycle_of evs = map (Pair ?rid) [(AE_VERIFICATION_STARTED, Some EXECUTED, Some VERIFYING)]"
    using job by simp
  have id: "rr_id r' = ?rid" using ok r(3) by (simp add: rec_ok_def)
  have row: "row_ok r'"
    using ok job r(2,3) id
    by (auto simp: row_ok_def rec_ok_def approval_ok_def elim!: execution_matches.elims)
  have "rec_ok st' ?rid r'"
    by (rule rec_ok_update [OF ok row id])
      (use ok r st' tables own_events [OF evs] evs in \<open>auto simp: rec_ok_def update_conv'\<close>)
  from store_inv_update [OF inv r(1) st' own_events [OF evs] _ this] tables
  have "store_inv st'" by (simp add: update_conv')
  moreover have "row_moves st st' ?rid r r'"
    using r st' id ok by (auto simp: row_moves_def update_conv' rec_ok_def row_ok_def)
  ultimately show ?thesis using r by auto
qed

lemma finish_verification_inv:
  assumes inv: "store_inv st" and job: "job_ok st runs (JEndVer rid result final evs)"
    and op: "repo_finish_verification rid result final evs st = Inr (r', st')"
  shows "store_inv st' \<and> (\<exists>r. row_moves st st' rid r r' \<and> rr_status r = VERIFYING)"
proof -
  from fver.success [OF op] obtain r where r: "map_of (st_records st) rid = Some r" "rr_status r = VERIFYING"
      "final \<in> allowed_transitions VERIFYING" "r' = (with_status final r)\<lparr>rr_verification := Some result\<rparr>"
    and st': "st_records st' = AList.update rid r' (st_records st)" "st_order st' = st_order st"
      "st_audit st' = st_audit st @ evs" by auto
  have ok: "rec_ok st rid r" using entry_some [OF inv r(1)] .
  have tables: "st_executions st' = st_executions st"
    "st_verifications st' = AList.update rid result (st_verifications st)"
    using finish_verification_tables [OF op] by auto
  have evs: "map lifecycle_of evs = map (Pair rid)
      [(if final = RECOVERED then AE_VERIFICATION_SUCCEEDED else AE_VERIFICATION_FAILED, Some VERIFYING, Some final)]"
    using job by simp
  have id: "rr_id r' = rid" using ok r(4) by (simp add: rec_ok_def)
  have row: "row_ok r'"
    using ok job r(2,4) id
    by (auto simp: row_ok_def rec_ok_def approval_ok_def elim!: execution_matches.elims)
  have "rec_ok st' rid r'"
    by (rule rec_ok_update [OF ok row id])
      (use ok r st' tables own_events [OF evs] evs in \<open>auto simp: rec_ok_def update_conv' split: if_splits\<close>)
  from store_inv_update [OF inv r(1) st' own_events [OF evs] _ this] tables
  have "store_inv st'" by (simp add: update_conv')
  moreover have "row_moves st st' rid r r'"
    using r st' id ok by (auto simp: row_moves_def update_conv' rec_ok_def row_ok_def)
  ultimately show ?thesis using r by blast
qed

lemma create_inv:
  assumes inv: "store_inv st" and job: "job_ok st runs (JCreate r evs)" and op: "repo_create r evs st = Inr (r', st')"
  shows "store_inv st' \<and> map_of (st_records st) (rr_id r) = None \<and>
    map_of (st_records st') = (map_of (st_records st))(rr_id r \<mapsto> r)"
proof -
  let ?rid = "rr_id r"
  from op have fresh: "map_of (st_records st) ?rid = None"
    and st': "st_records st' = AList.update ?rid r (st_records st)" "st_order st' = st_order st @ [?rid]"
      "st_audit st' = st_audit st @ evs" "st_executions st' = st_executions st"
      "st_verifications st' = st_verifications st"
    by (auto simp: repo_create_def split: if_splits)
  have new: "st_records st' = st_records st @ [(?rid, r)]"
    using fresh st'(1) by (simp add: update_new)
  have own: "\<forall>e \<in> set evs. ae_remediation e = ?rid" using job own_events by (auto simp: trail_ok_def)
  have tr: "trail st' i = trail st i @ (if i = ?rid then evs else [])" for i
    using own by (auto simp: trail_def st'(3) filter_empty_conv)
  have "entry_ok st' i" for i
  proof (cases "i = ?rid")
    case True
    moreover have "entry_ok st ?rid" using inv by (simp add: store_inv_def)
    ultimately show ?thesis using job fresh
      by (simp add: entry_ok_def st'(1,4,5) update_conv' rec_ok_def tr)
  next
    case False
    moreover have "entry_ok st i" using inv by (simp add: store_inv_def)
    ultimately show ?thesis
      by (simp add: entry_ok_def st'(1,4,5) update_conv' rec_ok_def tr split: option.splits)
  qed
  moreover have "distinct (map fst (st_records st'))" "st_order st' = map fst (st_records st')"
    using inv fresh by (auto simp: store_inv_def new st'(2) map_of_eq_None_iff)
  ultimately show ?thesis using fresh by (simp add: store_inv_def st'(1) update_conv')
qed

section \<open>Preservation: the jobs\<close>

lemma job_ok_moves:
  assumes job: "job_ok st runs j" and mv: "row_moves st st' rid r r'"
    and free: "holds j \<noteq> Some (rid, rr_status r)"
  shows "job_ok st' runs j"
proof -
  have cl: "claimed st' i s" if "claimed st i s" "(i, s) \<noteq> (rid, rr_status r)" for i s
    using that mv by (auto simp: claimed_def row_moves_def)
  show ?thesis
  proof (cases j)
    case (JDecide i p a evs)
    with job mv show ?thesis by (auto simp: row_moves_def)
  qed (use job free cl in auto)
qed

lemma job_ok_runs:
  "job_ok st runs j \<Longrightarrow> holds j \<noteq> Some (rid, EXECUTING) \<Longrightarrow> job_ok st (runs @ [rid]) j"
  by (cases j) auto

lemma job_ok_create:
  "job_ok st runs j \<Longrightarrow> map_of (st_records st) (rr_id r) = None \<Longrightarrow>
   map_of (st_records st') = (map_of (st_records st))(rr_id r \<mapsto> r) \<Longrightarrow> job_ok st' runs j"
  by (cases j) (auto simp: claimed_def split: if_splits)

lemma runs_ok_moves: "runs_ok st runs \<Longrightarrow> row_moves st st' rid r r' \<Longrightarrow> runs_ok st' runs"
  by (fastforce simp: runs_ok_def row_moves_def)

lemma exclusive_add_free: "exclusive (add_mset j js) \<longleftrightarrow>
   exclusive js \<and> (\<forall>k. holds j = Some k \<longrightarrow> (\<forall>i \<in># js. holds i \<noteq> Some k))"
proof -
  have none: "size (filter_mset P js) = 0 \<longleftrightarrow> (\<forall>i \<in># js. \<not> P i)" for P
    by (induction js) auto
  let ?n = "\<lambda>k. size (filter_mset (\<lambda>i. holds i = Some k) js)"
  show ?thesis
  proof (cases "holds j")
    case None
    then show ?thesis by (simp add: exclusive_def)
  next
    case (Some k0)
    have "exclusive (add_mset j js) \<longleftrightarrow> (\<forall>k. ?n k + (if k0 = k then 1 else 0) \<le> 1)"
      unfolding exclusive_def by (intro all_cong1) (simp add: Some)
    also have "\<dots> \<longleftrightarrow> (\<forall>k. ?n k \<le> 1) \<and> ?n k0 = 0"
    proof
      assume all: "\<forall>k. ?n k + (if k0 = k then 1 else 0) \<le> 1"
      have "?n k \<le> 1" for k using spec [OF all, of k] by linarith
      moreover have "?n k0 = 0" using spec [OF all, of k0] by simp
      ultimately show "(\<forall>k. ?n k \<le> 1) \<and> ?n k0 = 0" by blast
    qed auto
    also have "\<dots> \<longleftrightarrow> exclusive js \<and> (\<forall>i \<in># js. holds i \<noteq> Some k0)"
      unfolding none exclusive_def ..
    finally show ?thesis using Some by simp
  qed
qed

lemma exclusive_swap: "exclusive (add_mset j js) \<Longrightarrow> holds j' = holds j \<Longrightarrow> exclusive (add_mset j' js)"
  by (simp add: exclusive_add_free)

lemma exclusive_others: "exclusive (add_mset j js) \<Longrightarrow> holds j = Some k \<Longrightarrow> i \<in># js \<Longrightarrow> holds i \<noteq> Some k"
  by (auto simp: exclusive_add_free)

lemma holds_claimed: "job_ok st runs j \<Longrightarrow> holds j = Some (rid, s) \<Longrightarrow> claimed st rid s"
  by (cases j) auto

section \<open>What a prepared job carries\<close>

lemma mapped_proposal_sound:
  assumes "proposal_from_rca rec inc invg sev env by_whom ts ttl tok = Inr (MProposal p)"
  shows "pr_status p = PROPOSED \<and> sound_proposal p \<and> pr_id p = new_remediation_id tok \<and> pr_incident p = inc \<and>
    pr_created p = ts \<and> pr_expires p = ts + ttl \<and> pr_parameters p = []"
proof -
  from mapped_proposal [OF assms] obtain a where "env \<in> ALLOWED_ENVIRONMENTS"
    and p: "p = drafted_proposal rec (new_remediation_id tok) inc invg by_whom ts ttl a (orders_target env)"
    and mk: "mk_proposal p = Inr p" by blast
  with mk_proposal_Inr [OF mk] show ?thesis
    by (simp add: sound_proposal_def drafted_proposal_def orders_target_def proposal_fields_ok_def)
qed

lemma applied_decision:
  "apply_policy_decision p d = Inr adv \<Longrightarrow>
   adv = p\<lparr>pr_status := if decision_allowed d then PENDING_APPROVAL else BLOCKED\<rparr>"
  by (auto simp: apply_policy_decision_cases split: if_splits)

lemma creation_facts:
  assumes "creation_events q p adv d = Inr evs" "pr_id adv = pr_id p"
    "pr_status adv = (if decision_allowed d then PENDING_APPROVAL else BLOCKED)"
  shows "trail_ok evs (pr_id p) (pr_status adv)"
proof (cases "decision_allowed d")
  case True
  with assms obtain e1 e2 where "evs = [e1, e2]"
    and e: "proposal_created_event (pq_tok q 1) p (pq_correlation q) (pq_now q) = Inr e1"
      "policy_evaluated_event (pq_tok q 2) adv d (pr_status adv) (pq_correlation q) (pq_now q) = Inr e2"
    by (auto simp: creation_events_def Let_def and_then_Inr)
  with True assms(2,3) show ?thesis
    using proposal_created_lifecycle [OF e(1)] policy_evaluated_lifecycle [OF e(2)] by (simp add: trail_ok_def)
next
  case False
  with assms obtain e1 e2 e3 where "evs = [e1, e2, e3]"
    and e: "proposal_created_event (pq_tok q 1) p (pq_correlation q) (pq_now q) = Inr e1"
      "policy_evaluated_event (pq_tok q 2) adv d (pr_status adv) (pq_correlation q) (pq_now q) = Inr e2"
      "remediation_blocked_event (pq_tok q 3) adv d (pq_correlation q) (pq_now q) = Inr e3"
    by (auto simp: creation_events_def Let_def and_then_Inr)
  with False assms(2,3) show ?thesis
    using proposal_created_lifecycle [OF e(1)] policy_evaluated_lifecycle [OF e(2)]
      remediation_blocked_lifecycle [OF e(3)] by (simp add: trail_ok_def)
qed

lemma prepared_create:
  assumes "propose_prepare sv q st = Inr (r, evs)"
  shows "job_ok st' runs (JCreate r evs)"
proof -
  from assms obtain m where m: "proposal_from_rca (pq_recommendation q) (pq_incident q) (pq_investigation q)
      (pq_severity q) (pq_environment q) (pq_by q) (pq_now q) (sv_ttl sv) (pq_tok q 0) = Inr m"
    by (auto simp: propose_prepare_def and_then_Inr)
  then obtain p d adv where p: "proposal_from_rca (pq_recommendation q) (pq_incident q) (pq_investigation q)
      (pq_severity q) (pq_environment q) (pq_by q) (pq_now q) (sv_ttl sv) (pq_tok q 0) = Inr (MProposal p)"
    and adv: "apply_policy_decision p d = Inr adv" and evs: "creation_events q p adv d = Inr evs"
    and r: "r = \<lparr>rr_proposal = adv, rr_decision = d, rr_approval = None, rr_execution = None, rr_verification = None\<rparr>"
    using assms by (cases m) (auto simp: propose_prepare_def Let_def and_then_Inr)
  have a: "adv = p\<lparr>pr_status := if decision_allowed d then PENDING_APPROVAL else BLOCKED\<rparr>"
    using applied_decision [OF adv] .
  have "trail_ok evs (pr_id p) (pr_status adv)" using creation_facts [OF evs] a by simp
  moreover have "sound_proposal adv" using mapped_proposal_sound [OF p] a by simp
  ultimately show ?thesis using a
    by (auto simp: r row_ok_def rr_status_def rr_id_def decision_allowed_def)
qed

lemma prepared_decide:
  assumes inv: "store_inv st" and prep: "decide_prepare q (repo_get (dq_id q) st) = Inr (p, a, evs)"
  shows "job_ok st runs (JDecide (dq_id q) p a evs)"
proof -
  from prep obtain r e where r: "map_of (st_records st) (dq_id q) = Some r"
    and chk: "check_decidable r (dq_decision q) (dq_role q) (dq_now q) = Inr ()"
    and ap: "mk_approval (new_approval_id (dq_tok q 0)) (dq_id q) (dq_decision q) (dq_identity q)
        (dq_role q) (dq_reason q) (dq_now q) = Inr a"
    and e: "decision_event (dq_tok q 1) (rr_proposal r) a (rr_status r) (dq_correlation q) (dq_now q) = Inr e"
    and out: "p = (rr_proposal r)\<lparr>pr_status := decision_status (dq_decision q)\<rparr>" "evs = [e]"
    by (auto simp: decide_prepare_def repo_get_def and_then_Inr split: option.splits if_splits)
  have a: "ap_remediation_id a = dq_id q" "ap_decision a = dq_decision q" "ap_role a = dq_role q"
    "ap_decided_at a = dq_now q" "strip (ap_identity a) \<noteq> []"
    using mk_approval_Inr [OF ap] by auto
  have "pr_id (rr_proposal r) = dq_id q" using entry_some [OF inv r] by (simp add: rec_ok_def rr_id_def)
  moreover have "rr_status r = PENDING_APPROVAL" using chk by (auto simp: check_decidable_def split: if_splits)
  moreover have "decision_pending r p a"
    using chk out a by (auto simp: check_decidable_def decision_pending_def split: if_splits)
  ultimately show ?thesis
    using r a decision_lifecycle [OF e] out by auto
qed

lemma checked_record_Inr:
  "checked_record rid now found = Inr r \<longleftrightarrow> found = Some r \<and> check_executable r now = Inr ()"
  by (auto simp: checked_record_def and_then_Inr split: option.splits)

lemma prepared_execute:
  assumes inv: "store_inv st" and prep: "execute_prepare q (repo_get (xq_id q) st) = Inr (pending, evs)"
  shows "job_ok st runs (JBeginExec q pending evs)"
proof -
  from prep obtain r e1 e2 where r: "map_of (st_records st) (xq_id q) = Some r"
    and e: "execution_requested_event (xq_tok q 1) (rr_proposal r) (new_execution_id (xq_tok q 0)) (xq_correlation q) (xq_now q) = Inr e1"
      "execution_started_event (xq_tok q 2) (rr_proposal r) (new_execution_id (xq_tok q 0)) (xq_correlation q) (xq_now q) = Inr e2"
    and out: "pending = pending_execution q (rr_proposal r)" "evs = [e1, e2]"
    by (auto simp: execute_prepare_def Let_def and_then_Inr checked_record_Inr repo_get_def)
  have "pr_id (rr_proposal r) = xq_id q" using entry_some [OF inv r] by (simp add: rec_ok_def rr_id_def)
  then show ?thesis
    using execution_requested_lifecycle [OF e(1)] execution_started_lifecycle [OF e(2)]
    by (simp add: out pending_execution_def)
qed

lemma prepared_verify:
  assumes inv: "store_inv st" and prep: "verify_prepare sv q (repo_get (vq_id q) st) = Inr (Claim pending evs)"
  shows "job_ok st runs (JBeginVer q pending evs)"
proof -
  from prep obtain r where r: "map_of (st_records st) (vq_id q) = Some r"
    by (auto simp: verify_prepare_def repo_get_def split: option.splits)
  with prep obtain x where x: "check_verifiable r = Inr x"
    and prep': "and_then (verification_started_event (vq_tok q 1) (rr_proposal r) (new_verification_id (vq_tok q 0))
        (xr_id x) (vq_correlation q) (vq_now q)) (\<lambda>e. Inr (Claim (pending_verification sv q (xr_id x)) [e])) =
      Inr (Claim pending evs)"
    by (auto simp: verify_prepare_def repo_get_def and_then_Inr split: option.splits if_splits)
  then obtain e where e: "verification_started_event (vq_tok q 1) (rr_proposal r) (new_verification_id (vq_tok q 0))
        (xr_id x) (vq_correlation q) (vq_now q) = Inr e"
    and out: "pending = pending_verification sv q (xr_id x)" "evs = [e]"
    by (auto simp: and_then_Inr)
  have "pr_id (rr_proposal r) = vq_id q" using entry_some [OF inv r] by (simp add: rec_ok_def rr_id_def)
  then show ?thesis
    using verification_started_lifecycle [OF e] by (simp add: out pending_verification_def)
qed

lemma executed_job:
  assumes contract: "executor_contract (sv_executor sv)" and job: "job_ok st runs (JRunExec q pending begun)"
    and run: "execute_run sv q pending begun sim = (Inr (result, final, evs), sim')"
  shows "job_ok st runs' (JEndExec (xq_id q) result final evs)"
proof -
  let ?call = "sv_executor sv (rr_proposal begun) (xr_id pending) False (xq_now q) sim"
  have id: "pr_id (rr_proposal begun) = xq_id q" using job by (simp add: rr_id_def)
  from run obtain e where e: "execution_finished_event (xq_tok q 3) (rr_proposal begun) result final (xq_correlation q) (xq_now q) = Inr e"
    and evs: "evs = [e]"
    and out: "fst ?call = Inr result \<and> final = EXECUTED \<or>
      (\<exists>msg. fst ?call = Inl (ExecutorError msg) \<and> result = failed_execution pending msg (xq_failed_at q) \<and> final = EXECUTION_FAILED)"
    by (auto simp: execute_run_def and_then_Inr split: prod.splits sum.splits executor_exn.splits)
  have "execution_matches (xq_id q) final (Some result) \<and> final \<in> {EXECUTED, EXECUTION_FAILED}"
    using out job executor_contract.describes [OF contract, of "rr_proposal begun" "xr_id pending" False "xq_now q" sim result] id
    by (auto simp: failed_execution_def)
  then show ?thesis using job execution_finished_lifecycle [OF e] id by (simp add: evs)
qed

lemma verified_job:
  assumes job: "job_ok st runs (JRunVer q pending begun)"
    and run: "verify_run sv q pending begun sim = (Inr (result, final, evs), sim')"
  shows "job_ok st runs (JEndVer (vq_id q) result final evs)"
proof -
  define o1 where "o1 = fst (verify simulated_probe (pr_target (rr_proposal begun)) (sv_verify sv) (vq_now q) sim)"
  have id: "pr_id (rr_proposal begun) = vq_id q" using job by (simp add: rr_id_def)
  from run obtain e where e: "verification_finished_event (vq_tok q 2) (rr_proposal begun) (vr_id pending)
                (vr_execution_id pending) final (ro_attempts o1) (checks_passed o1) (length (ro_checks o1))
                (ro_failure_reason o1) (ro_verifier_type o1) (vq_correlation q) (vq_now q) = Inr e"
    and evs: "evs = [e]" and final: "final = (if outcome_recovered o1 then RECOVERED else RECOVERY_FAILED)"
    and result: "vr_status result = ro_status o1" "vr_remediation_id result = vr_remediation_id pending"
    by (auto simp: verify_run_def Let_def and_then_Inr o1_def split: prod.splits)
  have "ro_status o1 = VS_RECOVERED \<or> ro_status o1 = VS_RECOVERY_FAILED"
    using verify_shaped [of "sv_verify sv" "vq_now q" simulated_probe] unfolding o1_def outcome_shaped_def by blast
  then have "verification_matches (vq_id q) final (Some result) \<and> final \<in> {RECOVERED, RECOVERY_FAILED}"
    using job result final by (auto simp: outcome_recovered_def)
  then show ?thesis using job verification_finished_lifecycle [OF e] id by (simp add: evs)
qed

section \<open>Every step keeps the invariant\<close>

lemma world_invD:
  assumes "world_inv w" "w_jobs w = add_mset j js"
  shows "store_inv (w_store w)" "job_ok (w_store w) (w_runs w) j" "exclusive (add_mset j js)"
    "runs_ok (w_store w) (w_runs w)" "\<forall>i \<in># js. job_ok (w_store w) (w_runs w) i"
  using assms by (auto simp: world_inv_def)

lemma inv_start:
  assumes "world_inv w" "job_ok (w_store w) (w_runs w) j" "holds j = None"
  shows "world_inv (w\<lparr>w_jobs := add_mset j (w_jobs w)\<rparr>)"
  using assms by (auto simp: world_inv_def exclusive_add_free)

lemma inv_row:
  assumes inv: "world_inv w" and jobs: "w_jobs w = add_mset j js" and st: "store_inv st'"
    and mv: "row_moves (w_store w) st' rid r r'"
    and free: "holds j = Some (rid, rr_status r) \<or> \<not> (\<exists>i \<in># js. holds i = Some (rid, rr_status r))"
  shows "world_inv (w\<lparr>w_store := st', w_jobs := js\<rparr>)"
proof -
  note d = world_invD [OF inv jobs]
  have "job_ok st' (w_runs w) i" if i: "i \<in># js" for i
    using job_ok_moves [OF bspec [OF d(5) i] mv] free exclusive_others [OF d(3) _ i] i by blast
  then show ?thesis using st d runs_ok_moves [OF d(4) mv] by (auto simp: world_inv_def exclusive_add_free)
qed

lemma not_held:
  assumes "world_inv w" "w_jobs w = add_mset j js" "row_moves (w_store w) st' rid r r'"
    "rr_status r \<notin> {EXECUTING, VERIFYING}"
  shows "\<not> (\<exists>i \<in># js. holds i = Some (rid, rr_status r))"
proof
  assume "\<exists>i \<in># js. holds i = Some (rid, rr_status r)"
  then obtain i where "holds i = Some (rid, rr_status r)" by blast
  with assms(4) show False by (cases i) auto
qed

lemma inv_add:
  assumes "world_inv w" "job_ok (w_store w) (w_runs w) j" "\<And>k. holds j = Some k \<Longrightarrow> \<forall>i \<in># w_jobs w. holds i \<noteq> Some k"
  shows "world_inv (w\<lparr>w_jobs := add_mset j (w_jobs w)\<rparr>)"
  using assms by (auto simp: world_inv_def exclusive_add_free)

lemma inv_drop: "world_inv w \<Longrightarrow> w_jobs w = add_mset j js \<Longrightarrow> world_inv (w\<lparr>w_jobs := js\<rparr>)"
  by (auto simp: world_inv_def exclusive_add_free)

lemma inv_sim: "world_inv w \<Longrightarrow> world_inv (w\<lparr>w_sim := sim\<rparr>)"
  by (simp add: world_inv_def)

lemma none_claims:
  assumes "world_inv w" "w_jobs w = add_mset j js" "map_of (st_records (w_store w)) rid = Some r" "rr_status r \<noteq> s"
  shows "\<forall>i \<in># js. holds i \<noteq> Some (rid, s)"
  using world_invD(5) [OF assms(1,2)] assms(3,4) holds_claimed by (fastforce simp: claimed_def)

lemma begin_exec_step:
  assumes inv: "world_inv w" and jobs: "w_jobs w = add_mset (JBeginExec q pending evs) js"
    and op: "repo_begin_execution (xq_id q) pending evs (w_store w) = Inr (begun, st')"
  shows "world_inv (w\<lparr>w_store := st', w_jobs := add_mset (JRunExec q pending begun) js\<rparr>)"
proof -
  note d = world_invD [OF inv jobs]
  from begin_execution_inv [OF d(1,2) op] obtain r where st: "store_inv st'"
    and mv: "row_moves (w_store w) st' (xq_id q) r begun" and s: "rr_status r = APPROVED"
    and b: "rr_status begun = EXECUTING" "sound_proposal (rr_proposal begun)" by auto
  have old: "map_of (st_records (w_store w)) (xq_id q) = Some r" using mv by (simp add: row_moves_def)
  have "rr_execution r = None"
    using entry_some [OF d(1) old] s by (cases "rr_execution r") (auto simp: rec_ok_def row_ok_def)
  then have "xq_id q \<notin> set (w_runs w)" using d(4) old by (auto simp: runs_ok_def)
  then have "job_ok st' (w_runs w) (JRunExec q pending begun)"
    using mv b d(2) by (simp add: claimed_def row_moves_def)
  moreover have "world_inv (w\<lparr>w_store := st', w_jobs := js\<rparr>)"
    using inv_row [OF inv jobs st mv] not_held [OF inv jobs mv] s by auto
  moreover have "\<forall>i \<in># js. holds i \<noteq> Some (xq_id q, EXECUTING)" using none_claims [OF inv jobs old] s by auto
  ultimately show ?thesis using inv_add [of "w\<lparr>w_store := st', w_jobs := js\<rparr>" "JRunExec q pending begun"] by simp
qed

lemma begin_ver_step:
  assumes inv: "world_inv w" and jobs: "w_jobs w = add_mset (JBeginVer q pending evs) js"
    and op: "repo_begin_verification (vq_id q) pending evs (w_store w) = Inr (begun, st')"
  shows "world_inv (w\<lparr>w_store := st', w_jobs := add_mset (JRunVer q pending begun) js\<rparr>)"
proof -
  note d = world_invD [OF inv jobs]
  from begin_verification_inv [OF d(1,2) op] obtain r where st: "store_inv st'"
    and mv: "row_moves (w_store w) st' (vq_id q) r begun" and s: "rr_status r = EXECUTED"
    and b: "rr_status begun = VERIFYING" by auto
  have old: "map_of (st_records (w_store w)) (vq_id q) = Some r" using mv by (simp add: row_moves_def)
  have "job_ok st' (w_runs w) (JRunVer q pending begun)"
    using mv b d(2) by (simp add: claimed_def row_moves_def)
  moreover have "world_inv (w\<lparr>w_store := st', w_jobs := js\<rparr>)"
    using inv_row [OF inv jobs st mv] not_held [OF inv jobs mv] s by auto
  moreover have "\<forall>i \<in># js. holds i \<noteq> Some (vq_id q, VERIFYING)" using none_claims [OF inv jobs old] s by auto
  ultimately show ?thesis using inv_add [of "w\<lparr>w_store := st', w_jobs := js\<rparr>" "JRunVer q pending begun"] by simp
qed

lemma ran_inv:
  assumes inv: "world_inv w" and jobs: "w_jobs w = add_mset (JRunExec q pending begun) js"
  shows "world_inv (w\<lparr>w_sim := sim', w_runs := w_runs w @ [xq_id q], w_jobs := js\<rparr>)"
proof -
  note d = world_invD [OF inv jobs]
  obtain r where old: "map_of (st_records (w_store w)) (xq_id q) = Some r" and s: "rr_status r = EXECUTING"
    using d(2) by (auto simp: claimed_def)
  have "rr_execution r \<noteq> None"
    using entry_some [OF d(1) old] s by (cases "rr_execution r") (auto simp: rec_ok_def row_ok_def)
  then have "runs_ok (w_store w) (w_runs w @ [xq_id q])" using d(2,4) old by (auto simp: runs_ok_def)
  moreover have "job_ok (w_store w) (w_runs w @ [xq_id q]) i" if "i \<in># js" for i
    using job_ok_runs [OF bspec [OF d(5) that]] exclusive_others [OF d(3) _ that] by simp
  ultimately show ?thesis using d by (auto simp: world_inv_def exclusive_add_free)
qed

lemma run_exec_step:
  assumes contract: "executor_contract (sv_executor sv)" and inv: "world_inv w"
    and jobs: "w_jobs w = add_mset (JRunExec q pending begun) js"
    and run: "execute_run sv q pending begun (w_sim w) = (Inr (result, final, evs), sim')"
  shows "world_inv (w\<lparr>w_sim := sim', w_runs := w_runs w @ [xq_id q],
                      w_jobs := add_mset (JEndExec (xq_id q) result final evs) js\<rparr>)"
proof -
  note d = world_invD [OF inv jobs]
  have "\<forall>i \<in># js. holds i \<noteq> Some (xq_id q, EXECUTING)" using exclusive_others [OF d(3)] by simp
  then show ?thesis
    using inv_add [OF ran_inv [OF inv jobs, of sim'], of "JEndExec (xq_id q) result final evs"]
      executed_job [OF contract d(2) run] by simp
qed

lemma run_ver_step:
  assumes inv: "world_inv w" and jobs: "w_jobs w = add_mset (JRunVer q pending begun) js"
    and run: "verify_run sv q pending begun (w_sim w) = (Inr (result, final, evs), sim')"
  shows "world_inv (w\<lparr>w_sim := sim', w_jobs := add_mset (JEndVer (vq_id q) result final evs) js\<rparr>)"
proof -
  note d = world_invD [OF inv jobs]
  have "\<forall>i \<in># js. holds i \<noteq> Some (vq_id q, VERIFYING)" using exclusive_others [OF d(3)] by simp
  then show ?thesis
    using inv_add [OF inv_sim [OF inv_drop [OF inv jobs], of sim'], of "JEndVer (vq_id q) result final evs"]
      verified_job [OF d(2) run] by simp
qed

lemma create_step:
  assumes inv: "world_inv w" and jobs: "w_jobs w = add_mset (JCreate r evs) js"
    and op: "repo_create r evs (w_store w) = Inr (r', st')"
  shows "world_inv (w\<lparr>w_store := st', w_jobs := js\<rparr>)"
proof -
  note d = world_invD [OF inv jobs]
  from create_inv [OF d(1,2) op] have st: "store_inv st'" "map_of (st_records (w_store w)) (rr_id r) = None"
    "map_of (st_records st') = (map_of (st_records (w_store w)))(rr_id r \<mapsto> r)" by auto
  have "job_ok st' (w_runs w) i" if "i \<in># js" for i using job_ok_create [OF bspec [OF d(5) that] st(2,3)] .
  moreover have "runs_ok st' (w_runs w)" using d(4) st(2,3) by (fastforce simp: runs_ok_def)
  ultimately show ?thesis using st d by (auto simp: world_inv_def exclusive_add_free)
qed

lemma step_inv:
  assumes contract: "executor_contract (sv_executor sv)" and "service_step sv w w'" and inv: "world_inv w"
  shows "world_inv w'"
  using assms(2,3)
proof cases
  case (StartPropose q r evs)
  from inv_start [OF inv prepared_create [OF StartPropose(2)]] StartPropose(1) show ?thesis by simp
next
  case (StartDecide q p a evs)
  have "store_inv (w_store w)" using inv by (simp add: world_inv_def)
  from inv_start [OF inv prepared_decide [OF this StartDecide(2)]] StartDecide(1) show ?thesis by simp
next
  case (DecideStep rid p a evs js r' st')
  note d = world_invD [OF inv DecideStep(2)]
  from record_decision_inv [OF d(1,2) DecideStep(3)] obtain r where "store_inv st'"
    "row_moves (w_store w) st' rid r r'" "rr_status r = PENDING_APPROVAL" by blast
  with DecideStep show ?thesis using inv_row [OF inv DecideStep(2)] not_held [OF inv DecideStep(2)] by force
next
  case (StartExecute q pending evs)
  have "store_inv (w_store w)" using inv by (simp add: world_inv_def)
  from inv_start [OF inv prepared_execute [OF this StartExecute(2)]] StartExecute(1) show ?thesis by simp
next
  case (EndExec rid result final evs js r' st')
  note d = world_invD [OF inv EndExec(2)]
  from finish_execution_inv [OF d(1,2) EndExec(3)] obtain r where "store_inv st'"
    "row_moves (w_store w) st' rid r r'" "rr_status r = EXECUTING" by blast
  with EndExec show ?thesis using inv_row [OF inv EndExec(2)] by simp
next
  case (StartVerify q pending evs)
  have "store_inv (w_store w)" using inv by (simp add: world_inv_def)
  from inv_start [OF inv prepared_verify [OF this StartVerify(2)]] StartVerify(1) show ?thesis by simp
next
  case (RunVerError q pending begun js e sim')
  then show ?thesis using inv_drop [OF inv_sim [OF inv, of sim']] by simp
next
  case (EndVer rid result final evs js r' st')
  note d = world_invD [OF inv EndVer(2)]
  from finish_verification_inv [OF d(1,2) EndVer(3)] obtain r where "store_inv st'"
    "row_moves (w_store w) st' rid r r'" "rr_status r = VERIFYING" by blast
  with EndVer show ?thesis using inv_row [OF inv EndVer(2)] by simp
qed (use assms create_step begin_exec_step begin_ver_step run_exec_step run_ver_step ran_inv inv_drop in \<open>auto\<close>)

lemma reachable_inv:
  assumes "executor_contract (sv_executor sv)" "reachable_world sv w"
  shows "world_inv w"
proof -
  from assms(2) obtain sim where "(service_step sv)\<^sup>*\<^sup>* (initial_world sim) w" by (auto simp: reachable_world_def)
  then show ?thesis
    by (induction rule: rtranclp_induct) (use initial_inv step_inv [OF assms(1)] in auto)
qed

end
