(* ===== verification/RemProps.thy ===== *)
theory RemProps imports RemSafety begin

text \<open>
  What the workflow guarantees: the safety properties that follow from the invariant of \<open>RemSafety\<close>, the
  exact outcome of each handler, that a handler run alone is a run of the interleaved system, and two races
  and gaps the code leaves open, each as a theorem.
\<close>

section \<open>How rows and trails evolve\<close>

definition evolves :: "rem_record \<Rightarrow> rem_record \<Rightarrow> bool" where
  "evolves r r' \<longleftrightarrow>
     reaches allowed_transitions (rr_status r) (rr_status r') \<and> rr_decision r' = rr_decision r \<and>
     rr_proposal r' = (rr_proposal r)\<lparr>pr_status := rr_status r'\<rparr> \<and>
     (rr_approval r \<noteq> None \<longrightarrow> rr_approval r' = rr_approval r)"

definition store_evolves :: "rem_store \<Rightarrow> rem_store \<Rightarrow> bool" where
  "store_evolves st st' \<longleftrightarrow>
     prefix (st_audit st) (st_audit st') \<and>
     (\<forall>rid r. repo_get rid st = Some r \<longrightarrow> (\<exists>r'. repo_get rid st' = Some r' \<and> evolves r r'))"

lemma evolves_refl: "evolves r r"
  by (simp add: evolves_def rr_status_def)

lemma evolves_trans: "evolves a b \<Longrightarrow> evolves b c \<Longrightarrow> evolves a c"
  unfolding evolves_def by (auto intro: reaches_trans)

lemma store_evolves_refl: "store_evolves st st"
  by (auto simp: store_evolves_def evolves_refl)

lemma store_evolves_trans: "store_evolves a b \<Longrightarrow> store_evolves b c \<Longrightarrow> store_evolves a c"
  unfolding store_evolves_def by (meson evolves_trans prefix_order.trans)

lemma moves_evolve: "row_moves st st' rid r r' \<Longrightarrow> store_evolves st st'"
  by (auto simp: row_moves_def store_evolves_def repo_get_def evolves_refl intro: evolves_refl)
    (auto simp: evolves_def intro: reaches_step)

lemma create_evolves: "repo_create r evs st = Inr (r', st') \<Longrightarrow> store_evolves st st'"
  by (auto simp: repo_create_def store_evolves_def repo_get_def update_conv' evolves_refl split: if_splits)

lemma step_evolves:
  assumes "service_step sv w w'" "world_inv w"
  shows "store_evolves (w_store w) (w_store w')"
  using assms(1)
proof cases
  case (DecideStep rid p a evs js r' st')
  note d = world_invD [OF assms(2) DecideStep(2)]
  from record_decision_inv [OF d(1,2) DecideStep(3)] obtain r where "row_moves (w_store w) st' rid r r'" by blast
  from moves_evolve [OF this] show ?thesis by (simp add: DecideStep(1))
next
  case (BeginExec q pending evs js begun st')
  note d = world_invD [OF assms(2) BeginExec(2)]
  from begin_execution_inv [OF d(1,2) BeginExec(3)] obtain r where "row_moves (w_store w) st' (xq_id q) r begun" by blast
  from moves_evolve [OF this] show ?thesis by (simp add: BeginExec(1))
next
  case (EndExec rid result final evs js r' st')
  note d = world_invD [OF assms(2) EndExec(2)]
  from finish_execution_inv [OF d(1,2) EndExec(3)] obtain r where "row_moves (w_store w) st' rid r r'" by blast
  from moves_evolve [OF this] show ?thesis by (simp add: EndExec(1))
next
  case (BeginVer q pending evs js begun st')
  note d = world_invD [OF assms(2) BeginVer(2)]
  from begin_verification_inv [OF d(1,2) BeginVer(3)] obtain r where "row_moves (w_store w) st' (vq_id q) r begun" by blast
  from moves_evolve [OF this] show ?thesis by (simp add: BeginVer(1))
next
  case (EndVer rid result final evs js r' st')
  note d = world_invD [OF assms(2) EndVer(2)]
  from finish_verification_inv [OF d(1,2) EndVer(3)] obtain r where "row_moves (w_store w) st' rid r r'" by blast
  from moves_evolve [OF this] show ?thesis by (simp add: EndVer(1))
qed (auto simp: store_evolves_refl create_evolves)

lemma steps_evolve:
  assumes "executor_contract (sv_executor sv)" "world_inv w" "(service_step sv)\<^sup>*\<^sup>* w w'"
  shows "world_inv w' \<and> store_evolves (w_store w) (w_store w')"
  using assms(3)
proof (induction rule: rtranclp_induct)
  case base
  then show ?case using assms(2) store_evolves_refl by blast
next
  case (step y z)
  then show ?case using step_inv [OF assms(1)] step_evolves store_evolves_trans by blast
qed

lemma reachable_entry:
  assumes "executor_contract (sv_executor sv)" "reachable_world sv w" "repo_get rid (w_store w) = Some r"
  shows "rec_ok (w_store w) rid r"
  using reachable_inv [OF assms(1,2)] assms(3) entry_some by (auto simp: world_inv_def repo_get_def)

section \<open>Safety under every interleaving\<close>

lemma entry_executed:
  assumes "rec_ok st rid r" "rr_execution r \<noteq> None"
  shows "\<exists>a. rr_approval r = Some a \<and> ap_decision a = APPROVE \<and> ap_remediation_id a = rid \<and>
    can_approve (ap_role a) (pr_action (rr_proposal r)) \<and> ap_decided_at a < pr_expires (rr_proposal r) \<and>
    strip (ap_identity a) \<noteq> [] \<and> pd_outcome (rr_decision r) = ALLOW"
proof -
  obtain x where x: "rr_execution r = Some x" using assms(2) by blast
  have "rr_status r \<notin> {PENDING_APPROVAL, BLOCKED, REJECTED}" using assms x by (auto simp: rec_ok_def row_ok_def)
  then show ?thesis using assms(1) by (auto simp: rec_ok_def row_ok_def approval_ok_def)
qed

text \<open>
  Claim C1. The audit trail is a faithful history: in every reachable state, whatever the interleaving of
  requests, cancellations and failures, the facts recorded for a remediation are exactly, in order and
  without repetition, those of the path from its proposal to its current status.
\<close>
theorem audit_trail_replays:
  assumes "executor_contract (sv_executor sv)" "reachable_world sv w" "repo_get rid (w_store w) = Some r"
  shows "map lifecycle_of (trail (w_store w) rid) = map (Pair rid) (lifecycle_facts (rr_status r))"
  using reachable_entry [OF assms] by (simp add: rec_ok_def trail_ok_def)

text \<open>
  Claim C2. Nothing is executed without a human approval: whenever the executor has been called for a
  remediation, its row carries an affirmative approval of that very remediation, by a role allowed to approve
  the action's risk, given before the approval window closed, on a policy decision of ALLOW.
\<close>
theorem execution_needs_approval:
  assumes "executor_contract (sv_executor sv)" "reachable_world sv w" "rid \<in> set (w_runs w)"
  shows "\<exists>r a. repo_get rid (w_store w) = Some r \<and> rr_approval r = Some a \<and> ap_decision a = APPROVE \<and>
    ap_remediation_id a = rid \<and> can_approve (ap_role a) (pr_action (rr_proposal r)) \<and>
    ap_decided_at a < pr_expires (rr_proposal r) \<and> pd_outcome (rr_decision r) = ALLOW"
proof -
  have inv: "world_inv w" using reachable_inv [OF assms(1,2)] .
  then obtain r where "map_of (st_records (w_store w)) rid = Some r" "rr_execution r \<noteq> None"
    using assms(3) by (auto simp: world_inv_def runs_ok_def)
  then show ?thesis
    using inv entry_executed [of "w_store w" rid r] entry_some by (auto simp: world_inv_def repo_get_def)
qed

text \<open>
  Claim C3. A remediation is executed at most once: over any interleaving of execute requests, retries and
  failures, no remediation appears twice among the executor's real runs.
\<close>
theorem executor_runs_once:
  assumes "executor_contract (sv_executor sv)" "reachable_world sv w"
  shows "distinct (w_runs w)"
  using reachable_inv [OF assms] by (simp add: world_inv_def runs_ok_def)

text \<open>
  Rows only move forward: from any reachable state, after any further steps, every remediation is
  still stored, its status is reachable from the old one along the state machine (a terminal status is final),
  its intent and policy decision are unchanged, a recorded approval is immutable, and the audit trail has
  only grown.
\<close>
theorem rows_move_forward:
  assumes "executor_contract (sv_executor sv)" "reachable_world sv w" "(service_step sv)\<^sup>*\<^sup>* w w'"
  shows "prefix (st_audit (w_store w)) (st_audit (w_store w')) \<and>
    (\<forall>rid r. repo_get rid (w_store w) = Some r \<longrightarrow>
       (\<exists>r'. repo_get rid (w_store w') = Some r' \<and>
             reaches allowed_transitions (rr_status r) (rr_status r') \<and>
             (is_terminal (rr_status r) \<longrightarrow> rr_status r' = rr_status r) \<and>
             rr_proposal r' = (rr_proposal r)\<lparr>pr_status := rr_status r'\<rparr> \<and> rr_decision r' = rr_decision r \<and>
             (rr_approval r \<noteq> None \<longrightarrow> rr_approval r' = rr_approval r)))"
  using steps_evolve [OF assms(1) reachable_inv [OF assms(1,2)] assms(3)]
  unfolding store_evolves_def evolves_def by (meson terminal_reaches)

text \<open>
  Claim C4. The tables agree with the rows in every reachable state: a real execution is recorded exactly for
  the remediations past APPROVED, a verification exactly for those past EXECUTED, their status matches the
  row's, and no row is ever in a status the service does not produce; in particular nothing ever becomes
  EXPIRED, although the state machine provides for it.
\<close>
theorem tables_agree:
  assumes "executor_contract (sv_executor sv)" "reachable_world sv w" "repo_get rid (w_store w) = Some r"
  shows "rr_status r \<notin> {PROPOSED, POLICY_EVALUATION, EXPIRED} \<and>
    map_of (st_executions (w_store w)) rid = rr_execution r \<and> execution_matches rid (rr_status r) (rr_execution r) \<and>
    map_of (st_verifications (w_store w)) rid = rr_verification r \<and>
    verification_matches rid (rr_status r) (rr_verification r) \<and>
    (rr_approval r = None \<longleftrightarrow> rr_status r \<in> {PENDING_APPROVAL, BLOCKED})"
  using reachable_entry [OF assms] by (auto simp: rec_ok_def row_ok_def)

section \<open>Handlers are runs\<close>

lemma one_step: "service_step sv a b \<Longrightarrow> (service_step sv)\<^sup>*\<^sup>* a b"
  by simp

lemma then_step: "(service_step sv)\<^sup>*\<^sup>* a b \<Longrightarrow> service_step sv b c \<Longrightarrow> (service_step sv)\<^sup>*\<^sup>* a c"
  by simp

lemma propose_run:
  assumes "propose sv q (w_store w) = Inr (r, st')"
  shows "(service_step sv)\<^sup>*\<^sup>* w (w\<lparr>w_store := st'\<rparr>)"
proof -
  from assms obtain r0 evs where prep: "propose_prepare sv q (w_store w) = Inr (r0, evs)"
    and op: "repo_create r0 evs (w_store w) = Inr (r, st')"
    by (auto simp: propose_def and_then_Inr)
  have "service_step sv w (w\<lparr>w_jobs := add_mset (JCreate r0 evs) (w_jobs w)\<rparr>)"
    by (rule StartPropose [OF prep])
  from then_step [OF one_step [OF this] Create [of _ r0 evs "w_jobs w" r st']] op show ?thesis by simp
qed

lemma decide_run:
  assumes "decide q (w_store w) = Inr (r, st')"
  shows "(service_step sv)\<^sup>*\<^sup>* w (w\<lparr>w_store := st'\<rparr>)"
proof -
  from assms obtain p a evs where prep: "decide_prepare q (repo_get (dq_id q) (w_store w)) = Inr (p, a, evs)"
    and op: "repo_record_decision (dq_id q) p a evs (w_store w) = Inr (r, st')"
    by (auto simp: decide_def and_then_Inr)
  have "service_step sv w (w\<lparr>w_jobs := add_mset (JDecide (dq_id q) p a evs) (w_jobs w)\<rparr>)"
    by (rule StartDecide [OF prep])
  from then_step [OF one_step [OF this] DecideStep [of _ "dq_id q" p a evs "w_jobs w" r st']] op show ?thesis by simp
qed

lemma execute_cases:
  obtains (early) e where "execute sv q st sim = (Inl e, st, sim)"
  | (claimed) pending evs begun st1 where
      "execute_prepare q (repo_get (xq_id q) st) = Inr (pending, evs)"
      "repo_begin_execution (xq_id q) pending evs st = Inr (begun, st1)"
      "execute sv q st sim =
        (case execute_run sv q pending begun sim of
             (Inl e, sim') \<Rightarrow> (Inl e, st1, sim')
           | (Inr (result, final, evs), sim') \<Rightarrow>
               (case repo_finish_execution (xq_id q) result final evs st1 of
                  Inl e \<Rightarrow> (Inl e, st1, sim')
                | Inr (completed, st2) \<Rightarrow> (Inr (completed, result), st2, sim')))"
proof (cases "execute_prepare q (repo_get (xq_id q) st)")
  case (Inl e)
  then show ?thesis using early by (simp add: execute_def)
next
  case (Inr v)
  then obtain pending evs where prep: "execute_prepare q (repo_get (xq_id q) st) = Inr (pending, evs)"
    by (cases v) simp
  show ?thesis
  proof (cases "repo_begin_execution (xq_id q) pending evs st")
    case (Inl e)
    then show ?thesis using early prep by (simp add: execute_def)
  next
    case (Inr v')
    then show ?thesis using claimed [OF prep] by (cases v') (simp add: execute_def prep)
  qed
qed

lemma execute_run_steps:
  "\<exists>runs. (service_step sv)\<^sup>*\<^sup>* w
     (w\<lparr>w_store := fst (snd (execute sv q (w_store w) (w_sim w))),
        w_sim := snd (snd (execute sv q (w_store w) (w_sim w))), w_runs := runs\<rparr>) \<and>
     (isl (fst (execute sv q (w_store w) (w_sim w))) \<or> xq_id q \<in> set runs)"
proof (cases rule: execute_cases [of sv q "w_store w" "w_sim w"])
  case (early e)
  then show ?thesis by (intro exI [of _ "w_runs w"]) simp
next
  case (claimed pending evs begun st1)
  let ?js = "w_jobs w"
  have s1: "service_step sv w (w\<lparr>w_jobs := add_mset (JBeginExec q pending evs) ?js\<rparr>)"
    by (rule StartExecute [OF claimed(1)])
  have s2: "(service_step sv)\<^sup>*\<^sup>* w (w\<lparr>w_store := st1, w_jobs := add_mset (JRunExec q pending begun) ?js\<rparr>)"
    using then_step [OF one_step [OF s1] BeginExec [of _ q pending evs ?js begun st1]] claimed(2) by simp
  obtain res sim' where run: "execute_run sv q pending begun (w_sim w) = (res, sim')" by fastforce
  let ?runs = "w_runs w @ [xq_id q]"
  show ?thesis
  proof (cases res)
    case (Inl e)
    have "(service_step sv)\<^sup>*\<^sup>* w (w\<lparr>w_store := st1, w_sim := sim', w_runs := ?runs, w_jobs := ?js\<rparr>)"
      using then_step [OF s2 RunExecError [of _ q pending begun ?js sv e sim']] run Inl by simp
    then show ?thesis using claimed(3) run Inl by (intro exI [of _ ?runs]) simp
  next
    case (Inr v)
    then obtain result final evs' where run': "execute_run sv q pending begun (w_sim w) = (Inr (result, final, evs'), sim')"
      using run by (cases v) auto
    let ?w3 = "w\<lparr>w_store := st1, w_sim := sim', w_runs := ?runs,
                 w_jobs := add_mset (JEndExec (xq_id q) result final evs') ?js\<rparr>"
    have s3: "(service_step sv)\<^sup>*\<^sup>* w ?w3"
      using then_step [OF s2 RunExec [of _ q pending begun ?js sv result final evs' sim']] run' by simp
    show ?thesis
    proof (cases "repo_finish_execution (xq_id q) result final evs' st1")
      case (Inl e)
      have "(service_step sv)\<^sup>*\<^sup>* w (?w3\<lparr>w_jobs := ?js\<rparr>)" by (rule then_step [OF s3 Drop]) simp
      then show ?thesis using claimed(3) run' Inl by (intro exI [of _ ?runs]) simp
    next
      case (Inr v')
      then obtain completed st2 where fin: "repo_finish_execution (xq_id q) result final evs' st1 = Inr (completed, st2)"
        by (cases v') auto
      have fin_steps: "(service_step sv)\<^sup>*\<^sup>* w (?w3\<lparr>w_store := st2, w_jobs := ?js\<rparr>)"
        by (rule then_step [OF s3 EndExec]) (simp, simp add: fin)
      have eq: "?w3\<lparr>w_store := st2, w_jobs := ?js\<rparr> = w\<lparr>w_store := st2, w_sim := sim', w_runs := ?runs\<rparr>"
        by (cases w) simp
      show ?thesis using fin_steps [unfolded eq] claimed(3) run' fin by (intro exI [of _ ?runs]) simp
    qed
  qed
qed

lemma verify_run_steps:
  "(service_step sv)\<^sup>*\<^sup>* w
     (w\<lparr>w_store := fst (snd (verify_recovery sv q (w_store w) (w_sim w))),
        w_sim := snd (snd (verify_recovery sv q (w_store w) (w_sim w)))\<rparr>)"
proof (cases "\<exists>pending evs begun st1. verify_prepare sv q (repo_get (vq_id q) (w_store w)) = Inr (Claim pending evs) \<and>
    repo_begin_verification (vq_id q) pending evs (w_store w) = Inr (begun, st1)")
  case False
  then have "snd (verify_recovery sv q (w_store w) (w_sim w)) = (w_store w, w_sim w)"
    by (auto simp: verify_recovery_def split: sum.splits verify_start.splits)
  then show ?thesis by simp
next
  case True
  then obtain pending evs begun st1 where prep: "verify_prepare sv q (repo_get (vq_id q) (w_store w)) = Inr (Claim pending evs)"
    and beg: "repo_begin_verification (vq_id q) pending evs (w_store w) = Inr (begun, st1)" by blast
  let ?js = "w_jobs w"
  have s1: "service_step sv w (w\<lparr>w_jobs := add_mset (JBeginVer q pending evs) ?js\<rparr>)"
    by (rule StartVerify [OF prep])
  have s2: "(service_step sv)\<^sup>*\<^sup>* w (w\<lparr>w_store := st1, w_jobs := add_mset (JRunVer q pending begun) ?js\<rparr>)"
    using then_step [OF one_step [OF s1] BeginVer [of _ q pending evs ?js begun st1]] beg by simp
  obtain res sim' where run: "verify_run sv q pending begun (w_sim w) = (res, sim')" by fastforce
  show ?thesis
  proof (cases res)
    case (Inl e)
    have "(service_step sv)\<^sup>*\<^sup>* w (w\<lparr>w_store := st1, w_sim := sim', w_jobs := ?js\<rparr>)"
      using then_step [OF s2 RunVerError [of _ q pending begun ?js sv e sim']] run Inl by simp
    then show ?thesis using prep beg run Inl by (simp add: verify_recovery_def)
  next
    case (Inr v)
    then obtain result final evs' where run': "verify_run sv q pending begun (w_sim w) = (Inr (result, final, evs'), sim')"
      using run by (cases v) auto
    let ?w3 = "w\<lparr>w_store := st1, w_sim := sim', w_jobs := add_mset (JEndVer (vq_id q) result final evs') ?js\<rparr>"
    have s3: "(service_step sv)\<^sup>*\<^sup>* w ?w3"
      using then_step [OF s2 RunVer [of _ q pending begun ?js sv result final evs' sim']] run' by simp
    show ?thesis
    proof (cases "repo_finish_verification (vq_id q) result final evs' st1")
      case (Inl e)
      have "(service_step sv)\<^sup>*\<^sup>* w (?w3\<lparr>w_jobs := ?js\<rparr>)" by (rule then_step [OF s3 Drop]) simp
      then show ?thesis using prep beg run' Inl by (simp add: verify_recovery_def)
    next
      case (Inr v')
      then obtain completed st2 where fin: "repo_finish_verification (vq_id q) result final evs' st1 = Inr (completed, st2)"
        by (cases v') auto
      have fin_steps: "(service_step sv)\<^sup>*\<^sup>* w (?w3\<lparr>w_store := st2, w_jobs := ?js\<rparr>)"
        by (rule then_step [OF s3 EndVer]) (simp, simp add: fin)
      have eq: "?w3\<lparr>w_store := st2, w_jobs := ?js\<rparr> = w\<lparr>w_store := st2, w_sim := sim'\<rparr>"
        by (cases w) simp
      show ?thesis using fin_steps [unfolded eq] prep beg run' fin by (simp add: verify_recovery_def)
    qed
  qed
qed

section \<open>Exact outcomes\<close>

lemma sound_recordable:
  "sound_proposal p \<Longrightarrow> token_ok tok \<Longrightarrow> at_most 64 corr \<Longrightarrow> recordable tok p corr"
  by (auto simp: sound_proposal_def recordable_def is_allowed_target_def is_allowed_service_def
      ALLOWED_TARGET_SERVICES_def split: option.splits)

lemma approval_token_ok: "token_ok t \<Longrightarrow> approval_id_ok (new_approval_id t)"
  using remediation_token_ok [of t] unfolding remediation_id_ok_def new_remediation_id_def approval_id_ok_def
    new_approval_id_def re_fullmatch_def by simp

text \<open>When a decision is accepted.\<close>

definition decidable :: "decide_request \<Rightarrow> rem_record \<Rightarrow> bool" where
  "decidable q r \<longleftrightarrow>
     rr_status r = PENDING_APPROVAL \<and> dq_now q < pr_expires (rr_proposal r) \<and>
     (dq_decision q = APPROVE \<longrightarrow> can_approve (dq_role q) (pr_action (rr_proposal r))) \<and>
     strip (dq_identity q) \<noteq> [] \<and> length (dq_identity q) \<le> 128 \<and> length (dq_reason q) \<le> 1000"

definition decide_wellformed :: "decide_request \<Rightarrow> bool" where
  "decide_wellformed q \<longleftrightarrow> token_ok (dq_tok q 0) \<and> token_ok (dq_tok q 1) \<and> at_most 64 (dq_correlation q)"

lemma strip_nonempty: "strip s \<noteq> [] \<Longrightarrow> 1 \<le> length s"
  by (cases s) (simp_all add: strip_def)

lemma check_decidable_ok:
  "row_ok r \<Longrightarrow> check_decidable r d role now = Inr () \<longleftrightarrow>
     rr_status r = PENDING_APPROVAL \<and> now < pr_expires (rr_proposal r) \<and>
     (d = APPROVE \<longrightarrow> can_approve role (pr_action (rr_proposal r)))"
  by (auto simp: check_decidable_def row_ok_def)

lemma decision_allowed_transition: "decision_status d \<in> allowed_transitions PENDING_APPROVAL"
  by (cases d) (simp_all add: decision_status_def)

lemma decide_prepare_exact:
  assumes ok: "rec_ok st (dq_id q) r" and wf: "decide_wellformed q"
  shows "(\<exists>x. decide_prepare q (Some r) = Inr x) \<longleftrightarrow> decidable q r"
proof (cases "check_decidable r (dq_decision q) (dq_role q) (dq_now q) = Inr ()")
  case False
  then have "\<nexists>x. decide_prepare q (Some r) = Inr x" by (auto simp: decide_prepare_def and_then_Inr)
  then show ?thesis using False ok check_decidable_ok [of r] by (auto simp: rec_ok_def decidable_def)
next
  case True
  have row: "row_ok r" "pr_id (rr_proposal r) = dq_id q" using ok by (auto simp: rec_ok_def rr_id_def)
  have s: "rr_status r = PENDING_APPROVAL" using True check_decidable_ok [OF row(1)] by auto
  have id: "remediation_id_ok (dq_id q)" using row by (simp add: row_ok_def sound_proposal_def)
  have ev: "\<exists>e. decision_event (dq_tok q 1) (rr_proposal r) a PENDING_APPROVAL (dq_correlation q) (dq_now q) = Inr e" for a
    using decision_event_ok sound_recordable wf row by (auto simp: row_ok_def decide_wellformed_def)
  have "(\<exists>x. decide_prepare q (Some r) = Inr x) \<longleftrightarrow>
      (\<exists>a. mk_approval (new_approval_id (dq_tok q 0)) (dq_id q) (dq_decision q) (dq_identity q)
                      (dq_role q) (dq_reason q) (dq_now q) = Inr a)"
    using True s ev decision_allowed_transition [of "dq_decision q"]
    by (auto simp: decide_prepare_def and_then_Inr)
  also have "\<dots> \<longleftrightarrow> strip (dq_identity q) \<noteq> [] \<and> length (dq_identity q) \<le> 128 \<and> length (dq_reason q) \<le> 1000"
    using id wf approval_token_ok strip_nonempty [of "dq_identity q"] by (auto simp: mk_approval_def decide_wellformed_def)
  finally show ?thesis using True check_decidable_ok [OF row(1)] by (auto simp: decidable_def)
qed

lemma decide_store_exact:
  assumes inv: "store_inv st" and wf: "decide_wellformed q"
  shows "(\<exists>r' st'. decide q st = Inr (r', st')) \<longleftrightarrow> (\<exists>r. repo_get (dq_id q) st = Some r \<and> decidable q r)"
proof (cases "repo_get (dq_id q) st")
  case None
  then show ?thesis by (auto simp: decide_def decide_prepare_def and_then_Inr)
next
  case (Some r)
  have ok: "rec_ok st (dq_id q) r" using entry_some [OF inv] Some by (simp add: repo_get_def)
  have "(\<exists>r' st'. decide q st = Inr (r', st')) \<longleftrightarrow> (\<exists>x. decide_prepare q (Some r) = Inr x)"
  proof
    assume "\<exists>r' st'. decide q st = Inr (r', st')"
    then show "\<exists>x. decide_prepare q (Some r) = Inr x" using Some by (auto simp: decide_def and_then_Inr)
  next
    assume prep: "\<exists>x. decide_prepare q (Some r) = Inr x"
    then obtain p a evs where x: "decide_prepare q (Some r) = Inr (p, a, evs)" by auto
    have "rr_status r = PENDING_APPROVAL" using prep decide_prepare_exact [OF ok wf] by (simp add: decidable_def)
    then have "rr_approval r = None" using ok by (simp add: rec_ok_def row_ok_def)
    then show "\<exists>r' st'. decide q st = Inr (r', st')"
      using dec.enabled [of st "dq_id q" r p a evs] x Some by (auto simp: decide_def repo_get_def)
  qed
  then show ?thesis using decide_prepare_exact [OF ok wf] Some by simp
qed

lemma decide_effect:
  assumes "decide q st = Inr (r', st')"
  shows "\<exists>r a e. repo_get (dq_id q) st = Some r \<and> r' = r\<lparr>rr_proposal := (rr_proposal r)\<lparr>pr_status := decision_status (dq_decision q)\<rparr>,
                                                     rr_approval := Some a\<rparr> \<and>
     ap_decision a = dq_decision q \<and> ap_role a = dq_role q \<and> ap_identity a = dq_identity q \<and> ap_decided_at a = dq_now q \<and>
     st_records st' = AList.update (dq_id q) r' (st_records st) \<and> st_audit st' = st_audit st @ [e] \<and> ae_actor_type e = HUMAN"
proof -
  from assms obtain p a evs where prep: "decide_prepare q (repo_get (dq_id q) st) = Inr (p, a, evs)"
    and op: "repo_record_decision (dq_id q) p a evs st = Inr (r', st')"
    by (auto simp: decide_def and_then_Inr)
  from dec.success [OF op] obtain r where r: "repo_get (dq_id q) st = Some r"
    "r' = r\<lparr>rr_proposal := p, rr_approval := Some a\<rparr>" "st_records st' = AList.update (dq_id q) r' (st_records st)"
    "st_audit st' = st_audit st @ evs" by (auto simp: repo_get_def)
  from prep r(1) obtain e where "mk_approval (new_approval_id (dq_tok q 0)) (dq_id q) (dq_decision q) (dq_identity q)
        (dq_role q) (dq_reason q) (dq_now q) = Inr a"
    and "decision_event (dq_tok q 1) (rr_proposal r) a (rr_status r) (dq_correlation q) (dq_now q) = Inr e"
    and "p = (rr_proposal r)\<lparr>pr_status := decision_status (dq_decision q)\<rparr>" "evs = [e]"
    by (auto simp: decide_prepare_def and_then_Inr split: if_splits)
  then show ?thesis using r mk_approval_Inr by (auto simp: decision_event_def)
qed

lemma recorded_ok:
  assumes "rec_ok st (dq_id q) r" "decide_wellformed q" "rr_status r = PENDING_APPROVAL"
  shows "decide_prepare q (Some r) =
    and_then (check_decidable r (dq_decision q) (dq_role q) (dq_now q)) (\<lambda>_.
      if strip (dq_identity q) = [] \<or> 128 < length (dq_identity q) \<or> 1000 < length (dq_reason q) then Inl ValidationError
      else Inr ((rr_proposal r)\<lparr>pr_status := decision_status (dq_decision q)\<rparr>,
        \<lparr>ap_id = new_approval_id (dq_tok q 0), ap_remediation_id = dq_id q, ap_decision = dq_decision q,
          ap_identity = dq_identity q, ap_role = dq_role q, ap_reason = dq_reason q, ap_decided_at = dq_now q\<rparr>,
        [projr (decision_event (dq_tok q 1) (rr_proposal r)
          \<lparr>ap_id = new_approval_id (dq_tok q 0), ap_remediation_id = dq_id q, ap_decision = dq_decision q,
            ap_identity = dq_identity q, ap_role = dq_role q, ap_reason = dq_reason q, ap_decided_at = dq_now q\<rparr>
          PENDING_APPROVAL (dq_correlation q) (dq_now q))]))"
proof -
  have row: "row_ok r" "pr_id (rr_proposal r) = dq_id q" using assms(1) by (auto simp: rec_ok_def rr_id_def)
  have id: "remediation_id_ok (dq_id q)" using row by (simp add: row_ok_def sound_proposal_def)
  have ev: "\<exists>e. decision_event (dq_tok q 1) (rr_proposal r) a PENDING_APPROVAL (dq_correlation q) (dq_now q) = Inr e" for a
    using decision_event_ok sound_recordable assms(2) row by (auto simp: row_ok_def decide_wellformed_def)
  have t: "validate_transition PENDING_APPROVAL (decision_status (dq_decision q)) = Inr ()"
    using decision_allowed_transition by (simp add: validate_transition_def guard_def can_transition_def)
  have a: "approval_id_ok (new_approval_id (dq_tok q 0))" using assms(2) approval_token_ok by (simp add: decide_wellformed_def)
  show ?thesis
  proof (cases "strip (dq_identity q) = [] \<or> 128 < length (dq_identity q) \<or> 1000 < length (dq_reason q)")
    case True
    then show ?thesis
      by (cases "check_decidable r (dq_decision q) (dq_role q) (dq_now q)")
        (auto simp: decide_prepare_def mk_approval_def assms(3) t)
  next
    case False
    then have "mk_approval (new_approval_id (dq_tok q 0)) (dq_id q) (dq_decision q) (dq_identity q) (dq_role q) (dq_reason q) (dq_now q) =
      Inr \<lparr>ap_id = new_approval_id (dq_tok q 0), ap_remediation_id = dq_id q, ap_decision = dq_decision q,
          ap_identity = dq_identity q, ap_role = dq_role q, ap_reason = dq_reason q, ap_decided_at = dq_now q\<rparr>" (is "_ = Inr ?a")
      using a id strip_nonempty [of "dq_identity q"] by (auto simp: mk_approval_def)
    moreover obtain e where "decision_event (dq_tok q 1) (rr_proposal r) ?a PENDING_APPROVAL (dq_correlation q) (dq_now q) = Inr e"
      using ev by blast
    ultimately show ?thesis using False
      by (cases "check_decidable r (dq_decision q) (dq_role q) (dq_now q)")
        (auto simp: decide_prepare_def assms(3) t)
  qed
qed

text \<open>
  Claim C6. A human decision is exact. Over any reachable state, a well-formed decide request meets these
  guards in this order, and the first that fails is the error of the answer, which carries no new store: the
  remediation exists; it is PENDING_APPROVAL, so a second decision, by anyone, is refused; its window is open
  at the time of the request; an approval comes from a role allowed to approve the action's catalogue risk;
  the identity is not blank and it and the reason are within bounds. When all hold, the row gets the decided
  status and exactly the approval that the request states, one audit event of a human actor with the
  identity, role and transition is appended, and nothing else in the store changes.
\<close>
theorem decide_exact:
  assumes "executor_contract (sv_executor sv)" "reachable_world sv w" "decide_wellformed q"
  shows "case repo_get (dq_id q) (w_store w) of
      None \<Rightarrow> decide q (w_store w) = Inl RemediationNotFoundError
    | Some r \<Rightarrow>
        if rr_status r \<noteq> PENDING_APPROVAL then decide q (w_store w) = Inl InvalidRemediationStateError
        else if pr_expires (rr_proposal r) \<le> dq_now q then decide q (w_store w) = Inl RemediationExpiredError
        else if dq_decision q = APPROVE \<and> \<not> can_approve (dq_role q) (pr_action (rr_proposal r))
        then decide q (w_store w) = Inl UnauthorizedApproverError
        else if strip (dq_identity q) = [] \<or> 128 < length (dq_identity q) \<or> 1000 < length (dq_reason q)
        then decide q (w_store w) = Inl ValidationError
        else \<exists>r' e. decide q (w_store w) =
            Inr (r', (w_store w)\<lparr>st_records := AList.update (dq_id q) r' (st_records (w_store w)),
                      st_audit := st_audit (w_store w) @ [e]\<rparr>) \<and>
          r' = r\<lparr>rr_proposal := (rr_proposal r)\<lparr>pr_status := decision_status (dq_decision q)\<rparr>,
            rr_approval := Some \<lparr>ap_id = new_approval_id (dq_tok q 0), ap_remediation_id = dq_id q,
              ap_decision = dq_decision q, ap_identity = dq_identity q, ap_role = dq_role q,
              ap_reason = dq_reason q, ap_decided_at = dq_now q\<rparr>\<rparr> \<and>
          lifecycle_of e = (dq_id q, if dq_decision q = APPROVE then AE_APPROVED else AE_REJECTED,
            Some PENDING_APPROVAL, Some (decision_status (dq_decision q))) \<and>
          ae_actor_type e = HUMAN \<and> ae_actor_id e = redact_identity (dq_identity q) \<and> ae_actor_role e = Some (dq_role q)"
proof (cases "repo_get (dq_id q) (w_store w)")
  case None
  then show ?thesis by (simp add: decide_def decide_prepare_def)
next
  case (Some r)
  have inv: "store_inv (w_store w)" using reachable_inv [OF assms(1,2)] by (simp add: world_inv_def)
  then have ok: "rec_ok (w_store w) (dq_id q) r" using entry_some [OF inv] Some by (simp add: repo_get_def)
  then have row: "row_ok r" "pr_id (rr_proposal r) = dq_id q" by (auto simp: rec_ok_def rr_id_def)
  show ?thesis
  proof (cases "rr_status r = PENDING_APPROVAL")
    case False
    then show ?thesis using Some by (simp add: decide_def decide_prepare_def check_decidable_def)
  next
    case pending: True
    then have clear: "rr_approval r = None" "pd_outcome (rr_decision r) = ALLOW" using row(1) by (auto simp: row_ok_def)
    note prep = recorded_ok [OF ok assms(3) pending]
    let ?a = "\<lparr>ap_id = new_approval_id (dq_tok q 0), ap_remediation_id = dq_id q, ap_decision = dq_decision q,
          ap_identity = dq_identity q, ap_role = dq_role q, ap_reason = dq_reason q, ap_decided_at = dq_now q\<rparr>"
    obtain e where e: "decision_event (dq_tok q 1) (rr_proposal r) ?a PENDING_APPROVAL (dq_correlation q) (dq_now q) = Inr e"
      using decision_event_ok sound_recordable assms(3) row by (fastforce simp: row_ok_def decide_wellformed_def)
    have ev: "ae_actor_type e = HUMAN" "ae_actor_id e = redact_identity (dq_identity q)" "ae_actor_role e = Some (dq_role q)"
      "lifecycle_of e = (dq_id q, if dq_decision q = APPROVE then AE_APPROVED else AE_REJECTED,
            Some PENDING_APPROVAL, Some (decision_status (dq_decision q)))"
      using e decision_lifecycle [OF e] row(2) by (auto simp: decision_event_def)
    have m: "map_of (st_records (w_store w)) (dq_id q) = Some r" using Some by (simp add: repo_get_def)
    show ?thesis
      using pending clear ev e unfolding decide_def Some prep
      by (auto simp: check_decidable_def repo_record_decision_def m put_record_def Let_def)
  qed
qed

text \<open>When a real execution starts, and what its outcome is.\<close>

definition execute_wellformed :: "execute_request \<Rightarrow> bool" where
  "execute_wellformed q \<longleftrightarrow>
     token_ok (xq_tok q 1) \<and> token_ok (xq_tok q 2) \<and> token_ok (xq_tok q 3) \<and> at_most 64 (xq_correlation q)"

definition startable :: "execute_request \<Rightarrow> rem_store \<Rightarrow> bool" where
  "startable q st \<longleftrightarrow>
     (case repo_get (xq_id q) st of None \<Rightarrow> False
      | Some r \<Rightarrow> rr_status r = APPROVED \<and> xq_now q < pr_expires (rr_proposal r))"

lemma check_executable_ok:
  assumes ok: "rec_ok st rid r"
  shows "check_executable r now = Inr () \<longleftrightarrow> rr_status r = APPROVED \<and> now < pr_expires (rr_proposal r)"
proof (cases "rr_status r = APPROVED")
  case True
  then obtain a where a: "rr_approval r = Some a" using ok by (auto simp: rec_ok_def row_ok_def)
  then have "ap_remediation_id a = pr_id (rr_proposal r)" "ap_decision a = APPROVE"
    using ok True by (auto simp: rec_ok_def row_ok_def approval_ok_def rr_id_def)
  moreover have "is_allowed_target (pr_action (rr_proposal r)) (pr_target (rr_proposal r))"
    "parameters_ok (pr_action (rr_proposal r)) (pr_parameters (rr_proposal r))"
    using ok by (auto simp: rec_ok_def row_ok_def sound_proposal_def)
  moreover have "pr_status (rr_proposal r) = APPROVED" using True by (simp add: rr_status_def)
  ultimately show ?thesis
    using True a
    by (auto simp: check_executable_def Let_def authorize_execution_def validate_parameters_ok [symmetric])
next
  case False
  then show ?thesis by (simp add: check_executable_def Let_def)
qed

lemma execute_prepare_ok:
  assumes ok: "rec_ok st (xq_id q) r" and wf: "execute_wellformed q" and chk: "check_executable r (xq_now q) = Inr ()"
  shows "\<exists>evs. execute_prepare q (Some r) = Inr (pending_execution q (rr_proposal r), evs)"
proof -
  have rc: "recordable (xq_tok q 1) (rr_proposal r) (xq_correlation q)" "recordable (xq_tok q 2) (rr_proposal r) (xq_correlation q)"
    using sound_recordable ok wf by (auto simp: rec_ok_def row_ok_def execute_wellformed_def)
  then obtain e1 e2 where
    "execution_requested_event (xq_tok q 1) (rr_proposal r) (new_execution_id (xq_tok q 0)) (xq_correlation q) (xq_now q) = Inr e1"
    "execution_started_event (xq_tok q 2) (rr_proposal r) (new_execution_id (xq_tok q 0)) (xq_correlation q) (xq_now q) = Inr e2"
    using execution_requested_ok [OF rc(1)] execution_started_ok [OF rc(2)] by blast
  then show ?thesis using chk by (simp add: execute_prepare_def Let_def checked_record_def)
qed

text \<open>The executor's answer to an approved remediation.\<close>

definition executor_answer :: "service \<Rightarrow> execute_request \<Rightarrow> rem_record \<Rightarrow> sim_state \<Rightarrow> executor_exn + execution_result" where
  "executor_answer sv q r sim =
     fst (sv_executor sv (rr_proposal (with_status EXECUTING r)) (new_execution_id (xq_tok q 0)) False (xq_now q) sim)"

lemma executor_answer_cases:
  assumes "executor_contract (sv_executor sv)" "sound_proposal (rr_proposal r)"
  obtains (ok) x where "executor_answer sv q r sim = Inr x" "xr_status x = ES_SUCCEEDED"
  | (failed) msg where "executor_answer sv q r sim = Inl (ExecutorError msg)"
  using executor_contract.run_cases [OF assms(1), of "rr_proposal (with_status EXECUTING r)"
      "new_execution_id (xq_tok q 0)" False "xq_now q" sim] assms(2)
  by (auto simp: executor_answer_def execution_succeeded_def sound_proposal_def)

lemma execute_store_exact:
  assumes contract: "executor_contract (sv_executor sv)" and inv: "store_inv st" and wf: "execute_wellformed q"
    and r: "repo_get (xq_id q) st = Some r" and start: "rr_status r = APPROVED" "xq_now q < pr_expires (rr_proposal r)"
  shows "\<exists>completed result st' sim'. execute sv q st sim = (Inr (completed, result), st', sim') \<and>
    repo_get (xq_id q) st' = Some completed \<and> rr_execution completed = Some result \<and>
    rr_status completed = (if isl (executor_answer sv q r sim) then EXECUTION_FAILED else EXECUTED)"
proof -
  have ok: "rec_ok st (xq_id q) r" using entry_some [OF inv] r by (simp add: repo_get_def)
  then have sound: "sound_proposal (rr_proposal r)" by (simp add: rec_ok_def row_ok_def)
  have "check_executable r (xq_now q) = Inr ()" using check_executable_ok [OF ok] start by simp
  from execute_prepare_ok [OF ok wf this] obtain evs where
    prep: "execute_prepare q (Some r) = Inr (pending_execution q (rr_proposal r), evs)" by blast
  let ?p = "pending_execution q (rr_proposal r)"
  have free: "map_of (st_executions st) (xq_id q) = None"
    using ok start by (cases "rr_execution r") (auto simp: rec_ok_def row_ok_def)
  from bex.enabled [of st "xq_id q" r ?p evs] r free start obtain begun st1
    where beg: "repo_begin_execution (xq_id q) ?p evs st = Inr (begun, st1)" by (auto simp: repo_get_def)
  from bex.was_ready [OF beg] r have begun: "begun = (with_status EXECUTING r)\<lparr>rr_execution := Some ?p\<rparr>"
    by (auto simp: repo_get_def)
  have st1: "map_of (st_records st1) (xq_id q) = Some begun" using bex.records_after [OF beg] by simp
  obtain outcome sim' where call: "sv_executor sv (rr_proposal begun) (xr_id ?p) False (xq_now q) sim = (outcome, sim')"
    by fastforce
  then have ans: "executor_answer sv q r sim = outcome" by (simp add: executor_answer_def begun pending_execution_def)
  define res where "res = (case outcome of Inr x \<Rightarrow> (x, EXECUTED)
      | Inl (ExecutorError msg) \<Rightarrow> (failed_execution ?p msg (xq_failed_at q), EXECUTION_FAILED)
      | Inl (ExecutorDomain e) \<Rightarrow> undefined)"
  have rc: "recordable (xq_tok q 3) (rr_proposal begun) (xq_correlation q)"
    by (rule sound_recordable) (use sound wf in \<open>simp_all add: begun execute_wellformed_def\<close>)
  obtain e where e: "execution_finished_event (xq_tok q 3) (rr_proposal begun) (fst res) (snd res) (xq_correlation q) (xq_now q) = Inr e"
    using execution_finished_ok [OF rc] by blast
  have run: "execute_run sv q ?p begun sim = (Inr (fst res, snd res, [e]), sim')"
    by (rule executor_answer_cases [OF contract sound, of q sim])
      (use call ans e in \<open>simp_all add: execute_run_def res_def\<close>)
  have final: "snd res = (if isl outcome then EXECUTION_FAILED else EXECUTED)"
    by (rule executor_answer_cases [OF contract sound, of q sim]) (use ans in \<open>simp_all add: res_def\<close>)
  then have "snd res \<in> allowed_transitions EXECUTING" by simp
  with fex.enabled [of st1 "xq_id q" begun "snd res" "fst res" "[e]"] st1 begun obtain completed st2
    where fin: "repo_finish_execution (xq_id q) (fst res) (snd res) [e] st1 = Inr (completed, st2)" by auto
  from fex.was_ready [OF fin] st1 have "completed = (with_status (snd res) begun)\<lparr>rr_execution := Some (fst res)\<rparr>" by auto
  moreover have "repo_get (xq_id q) st2 = Some completed" using fex.records_after [OF fin] by (simp add: repo_get_def)
  ultimately show ?thesis using prep beg run fin final r by (simp add: execute_def ans)
qed

lemma execute_refused:
  assumes inv: "store_inv st" and not: "\<not> startable q st"
  shows "\<exists>e. execute sv q st sim = (Inl e, st, sim)"
proof -
  have "\<exists>e. execute_prepare q (repo_get (xq_id q) st) = Inl e"
  proof (cases "repo_get (xq_id q) st")
    case None
    then show ?thesis by (simp add: execute_prepare_def checked_record_def)
  next
    case (Some r)
    have ok: "rec_ok st (xq_id q) r" using entry_some [OF inv] Some by (simp add: repo_get_def)
    have "check_executable r (xq_now q) \<noteq> Inr ()"
      using not Some by (simp add: check_executable_ok [OF ok] startable_def)
    then show ?thesis using Some by (cases "check_executable r (xq_now q)") (simp_all add: execute_prepare_def checked_record_def)
  qed
  then show ?thesis by (auto simp: execute_def)
qed

text \<open>
  Claim C7. Execution is exact. Over any reachable state, a well-formed execute request runs if and only if
  the remediation is APPROVED and its window is still open; then it ends as EXECUTED when the executor
  succeeded and as EXECUTION_FAILED when it raised, never in between, with the executor's result stored. In
  every other case the request is refused and neither the store nor the simulated services change.
\<close>
theorem execute_exact:
  assumes "executor_contract (sv_executor sv)" "reachable_world sv w" "execute_wellformed q"
  shows "case repo_get (xq_id q) (w_store w) of
      None \<Rightarrow> \<exists>e. execute sv q (w_store w) (w_sim w) = (Inl e, w_store w, w_sim w)
    | Some r \<Rightarrow>
        if rr_status r = APPROVED \<and> xq_now q < pr_expires (rr_proposal r)
        then \<exists>completed result st' sim'. execute sv q (w_store w) (w_sim w) = (Inr (completed, result), st', sim') \<and>
          repo_get (xq_id q) st' = Some completed \<and> rr_execution completed = Some result \<and>
          rr_status completed = (if isl (executor_answer sv q r (w_sim w)) then EXECUTION_FAILED else EXECUTED)
        else \<exists>e. execute sv q (w_store w) (w_sim w) = (Inl e, w_store w, w_sim w)"
proof -
  have inv: "store_inv (w_store w)" using reachable_inv [OF assms(1,2)] by (simp add: world_inv_def)
  show ?thesis
  proof (cases "startable q (w_store w)")
    case True
    then obtain r where r: "repo_get (xq_id q) (w_store w) = Some r" "rr_status r = APPROVED"
      "xq_now q < pr_expires (rr_proposal r)" by (auto simp: startable_def split: option.splits)
    show ?thesis using execute_store_exact [OF assms(1) inv assms(3) r] r by simp
  next
    case False
    then show ?thesis using execute_refused [OF inv False, of sv "w_sim w"]
      by (auto simp: startable_def split: option.splits)
  qed
qed

text \<open>
  A dry run is a pure preview: whatever it answers, an error included, neither the store, with its
  audit trail, nor the simulated services change.
\<close>
theorem dry_run_pure:
  assumes "executor_contract (sv_executor sv)"
  shows "snd (dry_run_execute sv q st sim) = (st, sim)"
proof -
  have "snd (sv_executor sv p xid True now s) = s" for p xid now s
    using executor_contract.dry_pure [OF assms] .
  then show ?thesis
    by (auto simp: dry_run_execute_def split: sum.splits prod.splits) (metis snd_conv)+
qed

definition verify_wellformed :: "service \<Rightarrow> verify_request \<Rightarrow> bool" where
  "verify_wellformed sv q \<longleftrightarrow>
     token_ok (vq_tok q 1) \<and> token_ok (vq_tok q 2) \<and> at_most 64 (vq_correlation q) \<and>
     max_attempts (sv_verify sv) < 10 ^ 900"

lemma verified_reason_length:
  assumes "n < 10 ^ 900" "k \<le> 4" "m \<le> 4"
  shows "length (verified_reason n k m) \<le> 1000"
proof -
  have "length (nat_str n) \<le> 900" by (rule length_nat_str [OF assms(1)]) simp
  moreover have "length (nat_str k) \<le> 1" "length (nat_str m) \<le> 1"
    using assms(2,3) length_nat_str [of k 1] length_nat_str [of m 1] by simp_all
  ultimately show ?thesis by (simp add: verified_reason_def)
qed

text \<open>The verifier's verdict on a remediation's target.\<close>

definition verifier_outcome :: "service \<Rightarrow> verify_request \<Rightarrow> rem_record \<Rightarrow> sim_state \<Rightarrow> recovery_outcome" where
  "verifier_outcome sv q r sim = fst (verify simulated_probe (pr_target (rr_proposal r)) (sv_verify sv) (vq_now q) sim)"

lemma verify_run_ok:
  assumes "sound_proposal (rr_proposal begun)" and wf: "verify_wellformed sv q"
    and o1: "o1 = verifier_outcome sv q begun sim"
  shows "\<exists>result evs sim'. verify_run sv q pending begun sim =
    (Inr (result, if ro_status o1 = VS_RECOVERED then RECOVERED else RECOVERY_FAILED, evs), sim')"
proof -
  obtain sim' where v: "verify simulated_probe (pr_target (rr_proposal begun)) (sv_verify sv) (vq_now q) sim = (o1, sim')"
    unfolding o1 verifier_outcome_def by (metis prod.collapse)
  have rc: "recordable (vq_tok q 2) (rr_proposal begun) (vq_correlation q)"
    using sound_recordable assms(1) wf by (simp add: verify_wellformed_def)
  have "ro_attempts o1 \<le> max_attempts (sv_verify sv)"
    using verify_shaped [of "sv_verify sv" "vq_now q" simulated_probe "pr_target (rr_proposal begun)" sim]
    unfolding o1 verifier_outcome_def outcome_shaped_def by blast
  then have "ro_attempts o1 < 10 ^ 900" using wf unfolding verify_wellformed_def by linarith
  moreover have "length (ro_checks o1) \<le> 4" unfolding o1 verifier_outcome_def by (rule verify_checks)
  moreover have "checks_passed o1 \<le> 4"
    unfolding checks_passed_def by (rule order_trans [OF length_filter_le calculation(2)])
  ultimately have len: "length (verified_reason (ro_attempts o1) (checks_passed o1) (length (ro_checks o1))) \<le> 1000"
    by (intro verified_reason_length)
  obtain e where e: "verification_finished_event (vq_tok q 2) (rr_proposal begun) (vr_id pending) (vr_execution_id pending)
      (if outcome_recovered o1 then RECOVERED else RECOVERY_FAILED) (ro_attempts o1) (checks_passed o1)
      (length (ro_checks o1)) (ro_failure_reason o1) (ro_verifier_type o1) (vq_correlation q) (vq_now q) = Inr e"
    using verification_finished_ok [OF rc len] by blast
  show ?thesis
    using e by (simp add: verify_run_def v Let_def outcome_recovered_def)
qed

lemma verify_store_exact:
  assumes inv: "store_inv st" and wf: "verify_wellformed sv q"
    and r: "repo_get (vq_id q) st = Some r" and s: "rr_status r = EXECUTED"
  shows "\<exists>completed result st' sim'. verify_recovery sv q st sim = (Inr (completed, result, False), st', sim') \<and>
    repo_get (vq_id q) st' = Some completed \<and> rr_verification completed = Some result \<and>
    rr_status completed =
      (if ro_status (verifier_outcome sv q r sim) = VS_RECOVERED
       then RECOVERED else RECOVERY_FAILED)"
proof -
  have ok: "rec_ok st (vq_id q) r" using entry_some [OF inv] r by (simp add: repo_get_def)
  then have sound: "sound_proposal (rr_proposal r)" by (simp add: rec_ok_def row_ok_def)
  obtain x where x: "rr_execution r = Some x" "xr_status x = ES_SUCCEEDED"
    using ok s by (cases "rr_execution r") (auto simp: rec_ok_def row_ok_def)
  have rc: "recordable (vq_tok q 1) (rr_proposal r) (vq_correlation q)"
    using sound_recordable sound wf by (simp add: verify_wellformed_def)
  obtain e where "verification_started_event (vq_tok q 1) (rr_proposal r) (new_verification_id (vq_tok q 0))
      (xr_id x) (vq_correlation q) (vq_now q) = Inr e" using verification_started_ok [OF rc] by blast
  then obtain evs where prep: "verify_prepare sv q (Some r) = Inr (Claim (pending_verification sv q (xr_id x)) evs)"
    using x s by (simp add: verify_prepare_def check_verifiable_def)
  let ?p = "pending_verification sv q (xr_id x)"
  have "map_of (st_verifications st) (vq_id q) = None"
    using ok s by (cases "rr_verification r") (auto simp: rec_ok_def row_ok_def)
  with bver.enabled [of st "vq_id q" r ?p evs] r s obtain begun st1
    where beg: "repo_begin_verification (vq_id q) ?p evs st = Inr (begun, st1)" by (auto simp: repo_get_def)
  from bver.was_ready [OF beg] r have begun: "begun = (with_status VERIFYING r)\<lparr>rr_verification := Some ?p\<rparr>"
    by (auto simp: repo_get_def)
  have st1: "map_of (st_records st1) (vq_id q) = Some begun" using bver.records_after [OF beg] by simp
  define final where "final = (if ro_status (verifier_outcome sv q r sim) = VS_RECOVERED
       then RECOVERED else RECOVERY_FAILED)"
  obtain result evs2 sim' where run: "verify_run sv q ?p begun sim = (Inr (result, final, evs2), sim')"
    using verify_run_ok [OF _ wf refl, where begun = begun and pending = ?p and sim = sim] sound by (auto simp: begun final_def verifier_outcome_def)
  have "final \<in> allowed_transitions VERIFYING" by (simp add: final_def)
  with fver.enabled [of st1 "vq_id q" begun final result evs2] st1 begun obtain completed st2
    where fin: "repo_finish_verification (vq_id q) result final evs2 st1 = Inr (completed, st2)" by auto
  from fver.was_ready [OF fin] st1 have "completed = (with_status final begun)\<lparr>rr_verification := Some result\<rparr>" by auto
  moreover have "repo_get (vq_id q) st2 = Some completed" using fver.records_after [OF fin] by (simp add: repo_get_def)
  ultimately show ?thesis using prep beg run fin r by (simp add: verify_recovery_def final_def)
qed

text \<open>
  Claim C8. Recovery verification is exact and safe to retry. Over any reachable state: a remediation already
  verified answers with its stored verification and nothing changes; an EXECUTED one is verified once and ends
  as RECOVERED or RECOVERY_FAILED by the verifier's verdict on its target, with the verification stored; in
  every other case (unknown, not yet executed, verification in progress) the request is refused and nothing
  changes.
\<close>
theorem recovery_request_exact:
  assumes "executor_contract (sv_executor sv)" "reachable_world sv w" "verify_wellformed sv q"
  shows "case repo_get (vq_id q) (w_store w) of
      None \<Rightarrow> \<exists>e. verify_recovery sv q (w_store w) (w_sim w) = (Inl e, w_store w, w_sim w)
    | Some r \<Rightarrow>
        if rr_status r = RECOVERED \<or> rr_status r = RECOVERY_FAILED
        then \<exists>v. rr_verification r = Some v \<and>
               verify_recovery sv q (w_store w) (w_sim w) = (Inr (r, v, True), w_store w, w_sim w)
        else if rr_status r = EXECUTED
        then \<exists>completed result st' sim'.
               verify_recovery sv q (w_store w) (w_sim w) = (Inr (completed, result, False), st', sim') \<and>
               repo_get (vq_id q) st' = Some completed \<and> rr_verification completed = Some result \<and>
               rr_status completed =
                 (if ro_status (verifier_outcome sv q r (w_sim w)) = VS_RECOVERED
                  then RECOVERED else RECOVERY_FAILED)
        else \<exists>e. verify_recovery sv q (w_store w) (w_sim w) = (Inl e, w_store w, w_sim w)"
proof (cases "repo_get (vq_id q) (w_store w)")
  case None
  then show ?thesis by (simp add: verify_recovery_def verify_prepare_def)
next
  case (Some r)
  have inv: "store_inv (w_store w)" using reachable_inv [OF assms(1,2)] by (simp add: world_inv_def)
  have ok: "rec_ok (w_store w) (vq_id q) r" using entry_some [OF inv] Some by (simp add: repo_get_def)
  consider "rr_status r = RECOVERED \<or> rr_status r = RECOVERY_FAILED" | "rr_status r = EXECUTED"
    | "rr_status r \<notin> {RECOVERED, RECOVERY_FAILED, EXECUTED}" by blast
  then show ?thesis
  proof cases
    case 1
    then obtain v where "rr_verification r = Some v"
      using ok by (cases "rr_verification r") (auto simp: rec_ok_def row_ok_def)
    then show ?thesis using 1 Some by (auto simp: verify_recovery_def verify_prepare_def)
  next
    case 2
    then show ?thesis using verify_store_exact [OF inv assms(3) Some 2, of "w_sim w"] Some by simp
  next
    case 3
    then show ?thesis using Some by (simp add: verify_recovery_def verify_prepare_def check_verifiable_def)
  qed
qed

text \<open>What a proposal request amounts to: the mapped action, and what policy says of the drafted proposal.\<close>

definition propose_wellformed :: "service \<Rightarrow> propose_request \<Rightarrow> bool" where
  "propose_wellformed sv q \<longleftrightarrow>
     token_ok (pq_tok q 0) \<and> token_ok (pq_tok q 1) \<and> token_ok (pq_tok q 2) \<and> token_ok (pq_tok q 3) \<and>
     at_most 64 (pq_correlation q) \<and> incident_id_ok (pq_incident q) \<and> investigation_ok (pq_investigation q) \<and>
     length (ri_action (pq_recommendation q)) \<le> 64 \<and> length (pc_version (sv_policy sv)) \<le> 16"

definition mapped_action :: "service \<Rightarrow> propose_request \<Rightarrow> action_type option" where
  "mapped_action sv q =
     rca_mappable (pq_recommendation q) (pq_incident q) (pq_investigation q) (pq_severity q) (pq_environment q)
       (pq_by q) (sv_ttl sv)"

definition draft_of :: "service \<Rightarrow> propose_request \<Rightarrow> action_type \<Rightarrow> proposal" where
  "draft_of sv q a =
     drafted_proposal (pq_recommendation q) (new_remediation_id (pq_tok q 0)) (pq_incident q) (pq_investigation q)
       (pq_by q) (pq_now q) (sv_ttl sv) a (orders_target (pq_environment q))"

definition permitted :: "service \<Rightarrow> propose_request \<Rightarrow> rem_store \<Rightarrow> action_type \<Rightarrow> bool" where
  "permitted sv q st a \<longleftrightarrow>
     policy_permits (sv_policy sv) (draft_of sv q a)
       \<lparr>cx_now = pq_now q, cx_severity = pq_severity q,
        cx_history = history_snapshot (pq_incident q) a (orders_target (pq_environment q)) st\<rparr>"

lemma propose_prepare_exact:
  assumes wf: "propose_wellformed sv q" and a: "mapped_action sv q = Some a"
  shows "\<exists>r evs. propose_prepare sv q st = Inr (r, evs) \<and> rr_id r = new_remediation_id (pq_tok q 0) \<and>
    rr_status r = (if permitted sv q st a then PENDING_APPROVAL else BLOCKED) \<and> rr_approval r = None \<and>
    rr_proposal r = (draft_of sv q a)\<lparr>pr_status := rr_status r\<rparr> \<and>
    (pd_outcome (rr_decision r) = ALLOW \<longleftrightarrow> permitted sv q st a) \<and> rr_execution r = None \<and> rr_verification r = None"
proof -
  let ?p = "draft_of sv q a"
  have map: "proposal_from_rca (pq_recommendation q) (pq_incident q) (pq_investigation q) (pq_severity q)
                 (pq_environment q) (pq_by q) (pq_now q) (sv_ttl sv) (pq_tok q 0) = Inr (MProposal ?p)"
    unfolding rca_mapping_iff draft_of_def
    using a wf remediation_token_ok by (auto simp: mapped_action_def propose_wellformed_def)
  have p: "pr_action ?p = a" "pr_target ?p = orders_target (pq_environment q)" "pr_status ?p = PROPOSED"
    "pr_id ?p = new_remediation_id (pq_tok q 0)" by (simp_all add: draft_of_def drafted_proposal_def)
  have sound: "sound_proposal ?p" using mapped_proposal_sound [OF map] by simp
  define d where "d = evaluate (sv_policy sv) ?p \<lparr>cx_now = pq_now q, cx_severity = pq_severity q,
        cx_history = history_snapshot (pq_incident q) (pr_action ?p) (pr_target ?p) st\<rparr>"
  have allowed: "decision_allowed d \<longleftrightarrow> permitted sv q st a"
    unfolding d_def decision_allowed_def evaluate_outcome no_violations_iff permitted_def p ..
  define adv where "adv = ?p\<lparr>pr_status := if decision_allowed d then PENDING_APPROVAL else BLOCKED\<rparr>"
  have app: "apply_policy_decision ?p d = Inr adv"
    by (simp add: apply_policy_decision_cases p POLICY_INPUT_STATES_def adv_def)
  have rc: "recordable (pq_tok q i) ?p (pq_correlation q)" "recordable (pq_tok q i) adv (pq_correlation q)"
    if "i \<in> {1, 2, 3}" for i
    using sound_recordable sound wf that by (auto simp: propose_wellformed_def adv_def)
  have ver: "length (pd_version d) \<le> 16" using wf by (simp add: d_def evaluate_def Let_def propose_wellformed_def)
  obtain e1 where e1: "proposal_created_event (pq_tok q 1) ?p (pq_correlation q) (pq_now q) = Inr e1"
    using proposal_created_ok rc(1) [of 1] by blast
  obtain e2 where e2: "policy_evaluated_event (pq_tok q 2) adv d (pr_status adv) (pq_correlation q) (pq_now q) = Inr e2"
    using policy_evaluated_ok [OF _ ver] rc(2) [of 2] by blast
  obtain e3 where e3: "remediation_blocked_event (pq_tok q 3) adv d (pq_correlation q) (pq_now q) = Inr e3"
    using remediation_blocked_ok [OF _ ver] rc(2) [of 3] by blast
  have "\<exists>evs. creation_events q ?p adv d = Inr evs"
    using e1 e2 e3 by (simp add: creation_events_def Let_def)
  then obtain evs where "creation_events q ?p adv d = Inr evs" ..
  then have "propose_prepare sv q st =
      Inr (\<lparr>rr_proposal = adv, rr_decision = d, rr_approval = None, rr_execution = None, rr_verification = None\<rparr>, evs)"
    using app by (simp add: propose_prepare_def map Let_def d_def [symmetric])
  then show ?thesis using allowed p by (simp add: rr_id_def rr_status_def adv_def decision_allowed_def)
qed

lemma propose_prepare_blocked:
  assumes wf: "propose_wellformed sv q" and a: "mapped_action sv q = None"
  shows "\<exists>why. propose_prepare sv q st = Inl (ProposalNotMappableError why)"
proof -
  have "\<nexists>p. proposal_from_rca (pq_recommendation q) (pq_incident q) (pq_investigation q) (pq_severity q)
                 (pq_environment q) (pq_by q) (pq_now q) (sv_ttl sv) (pq_tok q 0) = Inr (MProposal p)"
    using a by (simp add: rca_mapping_iff mapped_action_def)
  then obtain b where "proposal_from_rca (pq_recommendation q) (pq_incident q) (pq_investigation q) (pq_severity q)
                 (pq_environment q) (pq_by q) (pq_now q) (sv_ttl sv) (pq_tok q 0) = Inr (MBlocked b)"
    using rca_mapping_returns [of "pq_tok q 0" "pq_incident q" "pq_investigation q" "pq_recommendation q"
        "pq_severity q" "pq_environment q" "pq_by q" "pq_now q" "sv_ttl sv"] wf
    unfolding propose_wellformed_def by blast
  then show ?thesis by (simp add: propose_prepare_def)
qed

text \<open>
  Claim C5. Proposing is exact. A well-formed request whose identifier is fresh is answered in one of three
  ways: an RCA recommendation outside the closed mapping is refused, and the answer carries no new store; a
  mapped one that policy permits, against the history in the store, is stored as PENDING_APPROVAL with an
  ALLOW decision; a mapped one that policy denies is stored as BLOCKED. The row is the last of the creation
  order and has no approval, execution or verification; the audit events appended with it, all of this
  remediation, are exactly the proposal, the policy evaluation and, for a blocked one, the block, with their
  transitions. Nothing else in the store changes.
\<close>
theorem propose_exact:
  assumes "propose_wellformed sv q" "repo_get (new_remediation_id (pq_tok q 0)) st = None"
  shows "case mapped_action sv q of
      None \<Rightarrow> \<exists>why. propose sv q st = Inl (ProposalNotMappableError why)
    | Some a \<Rightarrow> \<exists>r evs. let rid = new_remediation_id (pq_tok q 0); s = if permitted sv q st a then PENDING_APPROVAL else BLOCKED in
        propose sv q st = Inr (r, st\<lparr>st_records := AList.update rid r (st_records st), st_order := st_order st @ [rid],
                                     st_audit := st_audit st @ evs\<rparr>) \<and>
        rr_proposal r = (draft_of sv q a)\<lparr>pr_status := s\<rparr> \<and> (pd_outcome (rr_decision r) = ALLOW \<longleftrightarrow> s = PENDING_APPROVAL) \<and>
        rr_approval r = None \<and> rr_execution r = None \<and> rr_verification r = None \<and>
        map lifecycle_of evs =
          [(rid, AE_PROPOSAL_CREATED, None, Some PROPOSED), (rid, AE_POLICY_EVALUATED, Some POLICY_EVALUATION, Some s)] @
          (if s = BLOCKED then [(rid, AE_REMEDIATION_BLOCKED, Some POLICY_EVALUATION, Some BLOCKED)] else [])"
proof (cases "mapped_action sv q")
  case None
  then show ?thesis using propose_prepare_blocked [OF assms(1) None, of st] by (auto simp: propose_def)
next
  case (Some a)
  from propose_prepare_exact [OF assms(1) Some, of st] obtain r evs where r: "propose_prepare sv q st = Inr (r, evs)"
    "rr_id r = new_remediation_id (pq_tok q 0)"
    "rr_status r = (if permitted sv q st a then PENDING_APPROVAL else BLOCKED)"
    "rr_proposal r = (draft_of sv q a)\<lparr>pr_status := rr_status r\<rparr>" "rr_approval r = None"
    "pd_outcome (rr_decision r) = ALLOW \<longleftrightarrow> permitted sv q st a" "rr_execution r = None" "rr_verification r = None" by blast
  let ?rid = "new_remediation_id (pq_tok q 0)"
  have "trail_ok evs (rr_id r) (rr_status r)" using prepared_create [OF r(1), of st "[]"] by simp
  then have facts: "map lifecycle_of evs = map (Pair ?rid) (lifecycle_facts (rr_status r))" by (simp add: trail_ok_def r(2))
  have run: "propose sv q st = Inr (r, st\<lparr>st_records := AList.update ?rid r (st_records st), st_order := st_order st @ [?rid],
      st_audit := st_audit st @ evs\<rparr>)"
    using assms(2) by (simp add: propose_def r(1) repo_create_def r(2) repo_get_def)
  show ?thesis
    unfolding Some option.case Let_def
    by (rule exI [of _ r], rule exI [of _ evs], cases "permitted sv q st a")
      (simp_all only: run r(3-8) facts if_True if_False lifecycle_facts.simps list.map append.simps append_Nil2
        rem_status.distinct simp_thms)
qed

end
