(* ===== verification/RemWitness.thy ===== *)
theory RemWitness imports RemProps begin

text \<open>
  A concrete run of the default service, used to show that the properties apply: a HIGH-severity restart of
  \<open>orders-service\<close> is proposed, approved by an administrator, executed by the simulation and verified. The
  identifiers are all drawn from one token; every state on the way is reachable.
\<close>

definition sample_id :: string where "sample_id = new_remediation_id sample_token"

definition sample_propose :: propose_request where
  "sample_propose =
     \<lparr>pq_incident = ''inc_0123ab'', pq_recommendation = sample_rca, pq_investigation = None,
      pq_severity = Some ''HIGH'', pq_environment = ''development'', pq_by = ''api'', pq_now = 0,
      pq_correlation = None, pq_tok = (\<lambda>_. sample_token)\<rparr>"

definition sample_decide :: "approval_decision \<Rightarrow> datetime \<Rightarrow> decide_request" where
  "sample_decide d now =
     \<lparr>dq_id = sample_id, dq_decision = d, dq_identity = ''alice'', dq_role = ADMINISTRATOR, dq_reason = [],
      dq_now = now, dq_correlation = None, dq_tok = (\<lambda>_. sample_token)\<rparr>"

definition sample_execute :: execute_request where
  "sample_execute =
     \<lparr>xq_id = sample_id, xq_now = 2, xq_failed_at = 2, xq_correlation = None, xq_tok = (\<lambda>_. sample_token)\<rparr>"

definition sample_verify :: verify_request where
  "sample_verify = \<lparr>vq_id = sample_id, vq_now = 3, vq_correlation = None, vq_tok = (\<lambda>_. sample_token)\<rparr>"

lemma default_contract: "executor_contract (sv_executor default_service)"
  by (simp add: default_service_def sim.executor_contract_axioms)

lemma sample_propose_wf: "propose_wellformed default_service sample_propose"
  by (simp add: propose_wellformed_def sample_propose_def sample_token_ok sample_incident_ok at_most_def
      investigation_ok_def sample_rca_def default_service_def default_policy_config_def POLICY_VERSION_def)

lemma sample_decide_wf: "decide_wellformed (sample_decide d now)"
  by (simp add: decide_wellformed_def sample_decide_def sample_token_ok at_most_def)

lemma sample_execute_wf: "execute_wellformed sample_execute"
  by (simp add: execute_wellformed_def sample_execute_def sample_token_ok at_most_def)

lemma sample_verify_wf: "verify_wellformed default_service sample_verify"
  unfolding verify_wellformed_def
  by (simp add: sample_verify_def sample_token_ok at_most_def default_service_def max_attempts_default)

lemma sample_mapped: "mapped_action default_service sample_propose = Some RESTART_SERVICE"
  by (simp add: mapped_action_def rca_mappable_def sample_propose_def sample_rca_def sample_incident_ok
      investigation_ok_def ALLOWED_ENVIRONMENTS_def default_service_def)

lemma sample_permitted: "permitted default_service sample_propose empty_store RESTART_SERVICE"
  by (simp add: permitted_def policy_permits_def draft_of_def drafted_proposal_def sample_propose_def sample_rca_def
      default_service_def default_policy_config_def orders_target_def severity_permits_def KNOWN_SEVERITIES_def
      enum_simps parameters_ok_def less_eq_risk_level_def effective_blast_radius_def cooldown_over_def
      history_snapshot_def empty_store_def)

text \<open>A reachable world whose sample remediation has a given status, with the facts later steps need.\<close>

definition sample_world :: "world \<Rightarrow> rem_record \<Rightarrow> bool" where
  "sample_world w r \<longleftrightarrow>
     reachable_world default_service w \<and> repo_get sample_id (w_store w) = Some r \<and>
     rr_proposal r = (draft_of default_service sample_propose RESTART_SERVICE)\<lparr>pr_status := rr_status r\<rparr>"

lemma sample_draft_sel:
  "pr_expires (draft_of default_service sample_propose RESTART_SERVICE) = 3600000000"
  "pr_action (draft_of default_service sample_propose RESTART_SERVICE) = RESTART_SERVICE"
  "pr_target (draft_of default_service sample_propose RESTART_SERVICE) = orders_target ''development''"
  "pr_parameters (draft_of default_service sample_propose RESTART_SERVICE) = []"
  by (simp_all add: draft_of_def drafted_proposal_def sample_propose_def default_service_def)

lemma sample_proposes:
  "\<exists>r st'. propose default_service sample_propose empty_store = Inr (r, st') \<and>
     sample_world ((initial_world [])\<lparr>w_store := st'\<rparr>) r \<and> rr_id r = sample_id \<and> rr_status r = PENDING_APPROVAL"
proof -
  from propose_prepare_exact [OF sample_propose_wf sample_mapped, of empty_store] sample_permitted
  obtain r evs where r: "propose_prepare default_service sample_propose empty_store = Inr (r, evs)"
    "rr_id r = sample_id" "rr_status r = PENDING_APPROVAL"
    "rr_proposal r = (draft_of default_service sample_propose RESTART_SERVICE)\<lparr>pr_status := rr_status r\<rparr>"
    by (auto simp: sample_id_def sample_propose_def)
  then obtain st' where op: "propose default_service sample_propose empty_store = Inr (r, st')"
    and st': "map_of (st_records st') sample_id = Some r"
    by (auto simp: propose_def repo_create_def empty_store_def update_conv')
  have "(service_step default_service)\<^sup>*\<^sup>* (initial_world []) ((initial_world [])\<lparr>w_store := st'\<rparr>)"
    using propose_run [of default_service sample_propose "initial_world []" r st'] op by (simp add: initial_world_def)
  then have "reachable_world default_service ((initial_world [])\<lparr>w_store := st'\<rparr>)"
    unfolding reachable_world_def by blast
  then have "sample_world ((initial_world [])\<lparr>w_store := st'\<rparr>) r"
    using r st' by (simp add: sample_world_def repo_get_def)
  then show ?thesis using op r by blast
qed

lemma sample_pending: "\<exists>w r. sample_world w r \<and> rr_status r = PENDING_APPROVAL \<and> w_sim w = []"
proof -
  from sample_proposes obtain r st' where "sample_world ((initial_world [])\<lparr>w_store := st'\<rparr>) r" "rr_status r = PENDING_APPROVAL"
    by blast
  moreover have "w_sim ((initial_world [])\<lparr>w_store := st'\<rparr>) = []" by (simp add: initial_world_def)
  ultimately show ?thesis by blast
qed

lemma reachable_more: "reachable_world sv w \<Longrightarrow> (service_step sv)\<^sup>*\<^sup>* w w' \<Longrightarrow> reachable_world sv w'"
  unfolding reachable_world_def by (meson rtranclp_trans)

lemma sample_inv: "sample_world w r \<Longrightarrow> store_inv (w_store w)"
  using reachable_inv [OF default_contract] by (auto simp: sample_world_def world_inv_def)

lemma admin_approves: "can_approve ADMINISTRATOR a"
  by (cases a) (simp_all add: dom_simps enum_simps)

lemma sample_decide_id: "dq_id (sample_decide d now) = sample_id"
  by (simp add: sample_decide_def)

lemma sample_decides:
  "sample_world w r \<Longrightarrow> decidable (sample_decide d now) r \<Longrightarrow>
   \<exists>r' st'. decide (sample_decide d now) (w_store w) = Inr (r', st')"
  using decide_store_exact [OF sample_inv sample_decide_wf, of w r d now] unfolding sample_decide_id sample_world_def
  by blast

lemma evolved_proposal:
  "store_evolves st st' \<Longrightarrow> repo_get rid st = Some r \<Longrightarrow> repo_get rid st' = Some r' \<Longrightarrow>
   rr_proposal r' = (rr_proposal r)\<lparr>pr_status := rr_status r'\<rparr>"
  unfolding store_evolves_def evolves_def by fastforce

lemma sample_is_decidable:
  assumes "sample_world w r" "rr_status r = PENDING_APPROVAL" "(now :: datetime) < 3600000000"
  shows "decidable (sample_decide d now) r"
proof -
  have "strip ''alice'' = ''alice''" by (simp add: strip_def is_space_def)
  then show ?thesis
    using assms by (simp add: sample_world_def decidable_def sample_decide_def sample_draft_sel admin_approves)
qed

lemma sample_decidable:
  assumes "sample_world w r" "rr_status r = PENDING_APPROVAL" "(now :: datetime) < 3600000000"
  shows "\<exists>w' r'. sample_world w' r' \<and> rr_status r' = decision_status d \<and> w_sim w' = w_sim w"
proof -
  have w: "reachable_world default_service w" "repo_get sample_id (w_store w) = Some r"
    "rr_proposal r = (draft_of default_service sample_propose RESTART_SERVICE)\<lparr>pr_status := rr_status r\<rparr>"
    using assms(1) by (auto simp: sample_world_def)
  obtain r' st' where op: "decide (sample_decide d now) (w_store w) = Inr (r', st')"
    using sample_decides [OF assms(1) sample_is_decidable [OF assms]] by blast
  from decide_effect [OF op] w(2) obtain a where
    r': "r' = r\<lparr>rr_proposal := (rr_proposal r)\<lparr>pr_status := decision_status d\<rparr>, rr_approval := Some a\<rparr>"
    and st': "st_records st' = AList.update sample_id r' (st_records (w_store w))"
    by (auto simp: sample_decide_def)
  have "sample_world (w\<lparr>w_store := st'\<rparr>) r'"
    using reachable_more [OF w(1) decide_run [OF op]] r' st' w(3)
    by (simp add: sample_world_def repo_get_def update_conv')
  then show ?thesis using r' by (intro exI [of _ "w\<lparr>w_store := st'\<rparr>"] exI [of _ r']) simp
qed

lemma sample_approved: "\<exists>w r. sample_world w r \<and> rr_status r = APPROVED \<and> w_sim w = []"
  using sample_pending sample_decidable [of _ _ 1 APPROVE] by (simp add: decision_status_def) metis

lemma sample_answer:
  assumes "sample_world w r"
  shows "\<not> isl (executor_answer default_service sample_execute r sim)"
proof -
  have "parameters_ok (pr_action (rr_proposal (with_status EXECUTING r))) (pr_parameters (rr_proposal (with_status EXECUTING r)))"
    using assms by (simp add: sample_world_def sample_draft_sel parameters_ok_def enum_simps)
  from sim.total [OF this] show ?thesis
    by (auto simp: executor_answer_def default_service_def dest: spec)
      (metis sum.disc(2) sim.total \<open>parameters_ok _ _\<close>)
qed

lemma same_draft:
  "rr_proposal r' = (rr_proposal r)\<lparr>pr_status := rr_status r'\<rparr> \<Longrightarrow> sample_world w r \<Longrightarrow>
   reachable_world default_service w' \<Longrightarrow> repo_get sample_id (w_store w') = Some r' \<Longrightarrow> sample_world w' r'"
  by (simp add: sample_world_def)

lemma sample_executed: "\<exists>w r. sample_world w r \<and> rr_status r = EXECUTED \<and> sample_id \<in> set (w_runs w)"
proof -
  from sample_approved obtain w r where w: "sample_world w r" "rr_status r = APPROVED" by blast
  have r: "repo_get (xq_id sample_execute) (w_store w) = Some r" "xq_now sample_execute < pr_expires (rr_proposal r)"
    using w by (simp_all add: sample_world_def sample_execute_def sample_draft_sel)
  from execute_store_exact [OF default_contract sample_inv [OF w(1)] sample_execute_wf r(1) w(2) r(2), of "w_sim w"]
  obtain r' x st' sim' where run: "execute default_service sample_execute (w_store w) (w_sim w) = (Inr (r', x), st', sim')"
    and r': "repo_get sample_id st' = Some r'" "rr_status r' = EXECUTED"
    using sample_answer [OF w(1)] by (auto simp: sample_execute_def)
  from execute_run_steps [of default_service w sample_execute] run obtain runs where
    steps: "(service_step default_service)\<^sup>*\<^sup>* w (w\<lparr>w_store := st', w_sim := sim', w_runs := runs\<rparr>)"
    and ran: "sample_id \<in> set runs" by (auto simp: sample_execute_def)
  let ?w = "w\<lparr>w_store := st', w_sim := sim', w_runs := runs\<rparr>"
  have reach: "reachable_world default_service ?w" using reachable_more [OF _ steps] w(1) by (simp add: sample_world_def)
  have "store_evolves (w_store w) (w_store ?w)"
    using steps_evolve [OF default_contract _ steps] reachable_inv [OF default_contract] w(1) by (simp add: sample_world_def)
  then have "rr_proposal r' = (rr_proposal r)\<lparr>pr_status := rr_status r'\<rparr>"
    using evolved_proposal [of "w_store w" "w_store ?w" sample_id r r'] w(1) r'(1) by (simp add: sample_world_def)
  then have "sample_world ?w r'" using same_draft [OF _ w(1) reach] r' by simp
  then show ?thesis using r' ran by (intro exI [of _ ?w] exI [of _ r']) simp
qed

lemma sample_verified:
  "\<exists>w r. sample_world w r \<and> (rr_status r = RECOVERED \<or> rr_status r = RECOVERY_FAILED)"
proof -
  from sample_executed obtain w r where w: "sample_world w r" "rr_status r = EXECUTED" by blast
  have r: "repo_get (vq_id sample_verify) (w_store w) = Some r" using w by (simp add: sample_world_def sample_verify_def)
  from verify_store_exact [OF sample_inv [OF w(1)] sample_verify_wf r w(2), of "w_sim w"]
  obtain r' x st' sim' where run: "verify_recovery default_service sample_verify (w_store w) (w_sim w) = (Inr (r', x, False), st', sim')"
    and r': "repo_get sample_id st' = Some r'" "rr_status r' = RECOVERED \<or> rr_status r' = RECOVERY_FAILED"
    by (auto simp: sample_verify_def split: if_splits)
  let ?w = "w\<lparr>w_store := st', w_sim := sim'\<rparr>"
  have steps: "(service_step default_service)\<^sup>*\<^sup>* w ?w"
    using verify_run_steps [of default_service w sample_verify] run by simp
  have reach: "reachable_world default_service ?w" using reachable_more [OF _ steps] w(1) by (simp add: sample_world_def)
  have "store_evolves (w_store w) (w_store ?w)"
    using steps_evolve [OF default_contract _ steps] reachable_inv [OF default_contract] w(1) by (simp add: sample_world_def)
  then have "rr_proposal r' = (rr_proposal r)\<lparr>pr_status := rr_status r'\<rparr>"
    using evolved_proposal [of "w_store w" "w_store ?w" sample_id r r'] w(1) r'(1) by (simp add: sample_world_def)
  then have "sample_world ?w r'" using same_draft [OF _ w(1) reach] r' by simp
  then show ?thesis using r' by (intro exI [of _ ?w] exI [of _ r']) simp
qed

section \<open>The properties at the sample\<close>

lemma audit_trail_replays_witness:
  "\<exists>(w :: world). map (fst \<circ> snd \<circ> lifecycle_of) (trail (w_store w) sample_id) =
     [AE_PROPOSAL_CREATED, AE_POLICY_EVALUATED, AE_APPROVED, AE_EXECUTION_REQUESTED, AE_EXECUTION_STARTED,
      AE_EXECUTION_SUCCEEDED]"
proof -
  obtain w r where w: "sample_world w r" "rr_status r = EXECUTED" using sample_executed by blast
  then have "map lifecycle_of (trail (w_store w) sample_id) = map (Pair sample_id) (lifecycle_facts EXECUTED)"
    using audit_trail_replays [OF default_contract, of w sample_id r] by (simp add: sample_world_def)
  from arg_cong [OF this, of "map (fst \<circ> snd)"] show ?thesis by - (rule exI [of _ w], simp add: comp_assoc)
qed

lemma execution_needs_approval_witness:
  "\<exists>(w :: world) r a. reachable_world default_service w \<and> sample_id \<in> set (w_runs w) \<and> repo_get sample_id (w_store w) = Some r \<and>
     rr_approval r = Some a \<and> ap_decision a = APPROVE"
proof -
  obtain w r where "sample_world w r" "sample_id \<in> set (w_runs w)" using sample_executed by blast
  then show ?thesis
    using execution_needs_approval [OF default_contract, of w sample_id] by (auto simp: sample_world_def)
qed

lemma executor_runs_once_witness:
  "\<exists>(w :: world). reachable_world default_service w \<and> sample_id \<in> set (w_runs w) \<and> distinct (w_runs w)"
proof -
  obtain w r where "sample_world w r" "sample_id \<in> set (w_runs w)" using sample_executed by blast
  then show ?thesis
    using executor_runs_once [OF default_contract, of w] by (auto simp: sample_world_def)
qed

lemma rows_move_forward_witness:
  "\<exists>(w :: world) (w' :: world) r r'. (service_step default_service)\<^sup>*\<^sup>* w w' \<and> repo_get sample_id (w_store w) = Some r \<and>
     rr_status r = PENDING_APPROVAL \<and> repo_get sample_id (w_store w') = Some r' \<and> rr_status r' = REJECTED \<and>
     reaches allowed_transitions PENDING_APPROVAL REJECTED \<and> rr_decision r' = rr_decision r"
proof -
  obtain w r where w: "sample_world w r" "rr_status r = PENDING_APPROVAL" using sample_pending by blast
  have strip: "strip ''alice'' = ''alice''" by (simp add: strip_def is_space_def)
  have "decidable (sample_decide REJECT 1) r"
    using w by (simp add: decidable_def sample_decide_def sample_world_def sample_draft_sel strip)
  then obtain r' st' where op: "decide (sample_decide REJECT 1) (w_store w) = Inr (r', st')"
    using sample_decides [OF w(1)] by blast
  let ?w = "w\<lparr>w_store := st'\<rparr>"
  have steps: "(service_step default_service)\<^sup>*\<^sup>* w ?w" by (rule decide_run [OF op])
  have g: "repo_get sample_id st' = Some r'" "rr_status r' = REJECTED"
    using decide_effect [OF op]
    by (auto simp: sample_decide_def repo_get_def update_conv' decision_status_def)
  have "reachable_world default_service w" "repo_get sample_id (w_store w) = Some r" using w by (simp_all add: sample_world_def)
  moreover from this have "reaches allowed_transitions PENDING_APPROVAL REJECTED \<and> rr_decision r' = rr_decision r"
    using rows_move_forward [OF default_contract _ steps] w g by fastforce
  ultimately show ?thesis using w g steps
    by - (rule exI [of _ w], rule exI [of _ ?w], rule exI [of _ r], rule exI [of _ r'], simp)
qed

lemma tables_agree_witness:
  "\<exists>(w :: world) r. repo_get sample_id (w_store w) = Some r \<and> rr_status r = EXECUTED \<and>
     map_of (st_executions (w_store w)) sample_id = rr_execution r \<and> execution_matches sample_id EXECUTED (rr_execution r)"
proof -
  obtain w r where "sample_world w r" "rr_status r = EXECUTED" using sample_executed by blast
  then show ?thesis
    using tables_agree [OF default_contract, of w sample_id r]
    by - (rule exI [of _ w], rule exI [of _ r], simp add: sample_world_def)
qed

lemma decide_exact_witness:
  "\<exists>(w :: world) r. repo_get sample_id (w_store w) = Some r \<and> rr_status r = PENDING_APPROVAL \<and>
     (\<exists>r' st'. decide (sample_decide APPROVE 1) (w_store w) = Inr (r', st') \<and> rr_status r' = APPROVED \<and>
        length (st_audit st') = Suc (length (st_audit (w_store w)))) \<and>
     decide (sample_decide APPROVE 3600000000) (w_store w) = Inl RemediationExpiredError"
proof -
  obtain w r where w: "sample_world w r" "rr_status r = PENDING_APPROVAL" using sample_pending by blast
  have strip: "strip ''alice'' = ''alice''" by (simp add: strip_def is_space_def)
  have reach: "reachable_world default_service w" and r: "repo_get sample_id (w_store w) = Some r"
    using w by (simp_all add: sample_world_def)
  have ex: "pr_expires (rr_proposal r) = 3600000000" using w by (simp add: sample_world_def sample_draft_sel)
  note exact = decide_exact [OF default_contract reach sample_decide_wf, unfolded sample_decide_id r option.case]
  have "decide (sample_decide APPROVE 3600000000) (w_store w) = Inl RemediationExpiredError"
    using exact [of APPROVE "3600000000 :: datetime"] w(2) ex by (simp add: sample_decide_def)
  moreover have "\<exists>r' st'. decide (sample_decide APPROVE 1) (w_store w) = Inr (r', st') \<and> rr_status r' = APPROVED \<and>
      length (st_audit st') = Suc (length (st_audit (w_store w)))"
    using exact [of APPROVE "1 :: datetime"] w(2) ex
    by (auto simp: sample_decide_def admin_approves strip rr_status_def decision_status_def)
  ultimately show ?thesis using r w by blast
qed

lemma execute_exact_witness:
  "\<exists>(w :: world) r completed result st' sim'. repo_get sample_id (w_store w) = Some r \<and> rr_status r = APPROVED \<and>
     execute default_service sample_execute (w_store w) (w_sim w) = (Inr (completed, result), st', sim') \<and>
     rr_status completed = EXECUTED"
proof -
  obtain w r where w: "sample_world w r" "rr_status r = APPROVED" using sample_approved by blast
  have reach: "reachable_world default_service w" and r: "repo_get (xq_id sample_execute) (w_store w) = Some r"
    using w by (simp_all add: sample_world_def sample_execute_def)
  have "xq_now sample_execute < pr_expires (rr_proposal r)"
    using w by (simp add: sample_world_def sample_draft_sel sample_execute_def)
  with execute_exact [OF default_contract reach sample_execute_wf] r w(2) sample_answer [OF w(1), of "w_sim w"]
  obtain completed result st' sim' where
    "execute default_service sample_execute (w_store w) (w_sim w) = (Inr (completed, result), st', sim')"
    "rr_status completed = EXECUTED" by auto
  moreover have "repo_get sample_id (w_store w) = Some r" using r by (simp add: sample_execute_def)
  ultimately show ?thesis using w(2) by blast
qed

lemma dry_run_pure_witness: "snd (dry_run_execute default_service sample_execute empty_store []) = (empty_store, [])"
  by (rule dry_run_pure [OF default_contract])

lemma recovery_request_exact_witness:
  "\<exists>(w :: world) r v. repo_get sample_id (w_store w) = Some r \<and> (rr_status r = RECOVERED \<or> rr_status r = RECOVERY_FAILED) \<and>
     verify_recovery default_service sample_verify (w_store w) (w_sim w) = (Inr (r, v, True), w_store w, w_sim w)"
proof -
  obtain w r where w: "sample_world w r" "rr_status r = RECOVERED \<or> rr_status r = RECOVERY_FAILED"
    using sample_verified by blast
  have reach: "reachable_world default_service w" and r: "repo_get (vq_id sample_verify) (w_store w) = Some r"
    using w by (simp_all add: sample_world_def sample_verify_def)
  from recovery_request_exact [OF default_contract reach sample_verify_wf] r w(2)
  obtain v where "verify_recovery default_service sample_verify (w_store w) (w_sim w) = (Inr (r, v, True), w_store w, w_sim w)"
    by auto
  moreover have "repo_get sample_id (w_store w) = Some r" using r by (simp add: sample_verify_def)
  ultimately show ?thesis using w(2) by blast
qed

lemma sample_fresh_id: "new_remediation_id (pq_tok sample_propose 0) = sample_id"
  by (simp add: sample_id_def sample_propose_def)

lemma propose_exact_witness:
  "\<exists>r st'. propose default_service sample_propose empty_store = Inr (r, st') \<and> rr_status r = PENDING_APPROVAL \<and>
     map (fst \<circ> snd \<circ> lifecycle_of) (st_audit st') = [AE_PROPOSAL_CREATED, AE_POLICY_EVALUATED]"
proof -
  have "repo_get (new_remediation_id (pq_tok sample_propose 0)) empty_store = None"
    by (simp add: repo_get_def empty_store_def)
  from propose_exact [OF sample_propose_wf this] obtain r evs where
    "propose default_service sample_propose empty_store = Inr (r, empty_store\<lparr>st_records := AList.update sample_id r [],
       st_order := [sample_id], st_audit := evs\<rparr>)"
    "rr_proposal r = (draft_of default_service sample_propose RESTART_SERVICE)\<lparr>pr_status := PENDING_APPROVAL\<rparr>"
    "map lifecycle_of evs = [(sample_id, AE_PROPOSAL_CREATED, None, Some PROPOSED),
       (sample_id, AE_POLICY_EVALUATED, Some POLICY_EVALUATION, Some PENDING_APPROVAL)]"
    using sample_permitted unfolding sample_mapped option.case Let_def sample_fresh_id
    by (auto simp: empty_store_def)
  moreover from arg_cong [OF this(3), of "map (fst \<circ> snd)"]
  have "map (fst \<circ> snd \<circ> lifecycle_of) evs = [AE_PROPOSAL_CREATED, AE_POLICY_EVALUATED]" by (simp add: comp_assoc)
  ultimately show ?thesis by (auto simp: rr_status_def)
qed

end
