(* ===== verification/RcaDomain.thy ===== *)
theory RcaDomain imports PyText begin

text \<open>
  The vocabulary of the RCA agent: its enumerations (\<open>domain.py\<close>), the documented lifecycle table
  (\<open>state_machine.py\<close>), the resource limits (\<open>limits.py\<close>), the typed contracts (\<open>schemas.py\<close>) and the
  deterministic validation of a report (\<open>validation.py\<close>). A JSON value is a \<open>jval\<close>.
\<close>

datatype jval = JNull | JBool bool | JNum rat | JStr string | JList "jval list" | JObj "(string \<times> jval) list"

type_synonym jdict = "(string, jval) dict"

section \<open>Enumerations\<close>

datatype rca_status =
    R_PENDING | R_PLANNING | R_COLLECTING | R_ANALYZING | R_VERIFYING
  | R_COMPLETED | R_INSUFFICIENT | R_FAILED | R_TIMED_OUT

fun rca_status_str :: "rca_status \<Rightarrow> string" where
  "rca_status_str R_PENDING = ''PENDING''"
| "rca_status_str R_PLANNING = ''PLANNING''"
| "rca_status_str R_COLLECTING = ''COLLECTING_EVIDENCE''"
| "rca_status_str R_ANALYZING = ''ANALYZING''"
| "rca_status_str R_VERIFYING = ''VERIFYING''"
| "rca_status_str R_COMPLETED = ''COMPLETED''"
| "rca_status_str R_INSUFFICIENT = ''INSUFFICIENT_EVIDENCE''"
| "rca_status_str R_FAILED = ''FAILED''"
| "rca_status_str R_TIMED_OUT = ''TIMED_OUT''"

definition RCA_TERMINAL :: "rca_status set" where
  "RCA_TERMINAL = {R_COMPLETED, R_INSUFFICIENT, R_FAILED, R_TIMED_OUT}"

definition rca_is_terminal :: "rca_status \<Rightarrow> bool" where
  "rca_is_terminal s \<longleftrightarrow> s \<in> RCA_TERMINAL"

definition RCA_ACTIVE :: "rca_status set" where
  "RCA_ACTIVE = - RCA_TERMINAL"

datatype rca_trigger = TR_EVENT | TR_MANUAL

datatype confidence = C_UNKNOWN | C_LOW | C_MEDIUM | C_HIGH

fun confidence_rank :: "confidence \<Rightarrow> nat" where
  "confidence_rank C_UNKNOWN = 0"
| "confidence_rank C_LOW = 1"
| "confidence_rank C_MEDIUM = 2"
| "confidence_rank C_HIGH = 3"

fun confidence_str :: "confidence \<Rightarrow> string" where
  "confidence_str C_UNKNOWN = ''UNKNOWN''"
| "confidence_str C_LOW = ''LOW''"
| "confidence_str C_MEDIUM = ''MEDIUM''"
| "confidence_str C_HIGH = ''HIGH''"

datatype source_type =
    SRC_INCIDENT | SRC_ANOMALY | SRC_METRIC | SRC_SERVICE_HEALTH | SRC_RELATED_INCIDENT
  | SRC_LOG | SRC_TRACE | SRC_DEPLOYMENT | SRC_SERVICE_DEPENDENCY

datatype trust_level = TRUSTED_SYSTEM | UNTRUSTED_EXTERNAL

datatype finding_type = F_OBSERVATION | F_CORRELATION | F_HYPOTHESIS | F_ROOT_CAUSE | F_CONTRIBUTING_FACTOR

fun finding_type_str :: "finding_type \<Rightarrow> string" where
  "finding_type_str F_OBSERVATION = ''observation''"
| "finding_type_str F_CORRELATION = ''correlation''"
| "finding_type_str F_HYPOTHESIS = ''hypothesis''"
| "finding_type_str F_ROOT_CAUSE = ''root_cause''"
| "finding_type_str F_CONTRIBUTING_FACTOR = ''contributing_factor''"

datatype hypothesis_verdict = V_SUPPORTED | V_REFUTED | V_UNVERIFIED | V_CONFLICTING

datatype recommended_type =
    A_INVESTIGATE_FURTHER | A_MONITOR | A_RESTART_SERVICE | A_ROLL_BACK_DEPLOYMENT | A_SCALE_SERVICE
  | A_ADJUST_CONFIGURATION | A_FAILOVER_DEPENDENCY | A_CONTACT_SERVICE_OWNER | A_NO_ACTION_NEEDED
  | A_MANUAL_REVIEW_REQUIRED

fun recommended_str :: "recommended_type \<Rightarrow> string" where
  "recommended_str A_INVESTIGATE_FURTHER = ''INVESTIGATE_FURTHER''"
| "recommended_str A_MONITOR = ''MONITOR''"
| "recommended_str A_RESTART_SERVICE = ''RESTART_SERVICE''"
| "recommended_str A_ROLL_BACK_DEPLOYMENT = ''ROLL_BACK_DEPLOYMENT''"
| "recommended_str A_SCALE_SERVICE = ''SCALE_SERVICE''"
| "recommended_str A_ADJUST_CONFIGURATION = ''ADJUST_CONFIGURATION''"
| "recommended_str A_FAILOVER_DEPENDENCY = ''FAILOVER_DEPENDENCY''"
| "recommended_str A_CONTACT_SERVICE_OWNER = ''CONTACT_SERVICE_OWNER''"
| "recommended_str A_NO_ACTION_NEEDED = ''NO_ACTION_NEEDED''"
| "recommended_str A_MANUAL_REVIEW_REQUIRED = ''MANUAL_REVIEW_REQUIRED''"

datatype step_kind =
    K_PLAN | K_TOOL_CALL | K_TOOL_RESULT | K_ANALYSIS | K_HYPOTHESIS | K_VERIFICATION | K_RCA
  | K_VALIDATION | K_LIMIT | K_ERROR

section \<open>Documented lifecycle\<close>

fun rca_allowed :: "rca_status \<Rightarrow> rca_status set" where
  "rca_allowed R_PENDING = {R_PLANNING, R_FAILED}"
| "rca_allowed R_PLANNING = {R_COLLECTING, R_INSUFFICIENT, R_FAILED, R_TIMED_OUT}"
| "rca_allowed R_COLLECTING = {R_COLLECTING, R_ANALYZING, R_INSUFFICIENT, R_FAILED, R_TIMED_OUT}"
| "rca_allowed R_ANALYZING = {R_ANALYZING, R_VERIFYING, R_INSUFFICIENT, R_FAILED, R_TIMED_OUT}"
| "rca_allowed R_VERIFYING = {R_ANALYZING, R_COMPLETED, R_INSUFFICIENT, R_FAILED, R_TIMED_OUT}"
| "rca_allowed R_COMPLETED = {}"
| "rca_allowed R_INSUFFICIENT = {}"
| "rca_allowed R_FAILED = {}"
| "rca_allowed R_TIMED_OUT = {}"

definition rca_can_transition :: "rca_status \<Rightarrow> rca_status \<Rightarrow> bool" where
  "rca_can_transition s t \<longleftrightarrow> t \<in> rca_allowed s"

definition rca_validate_transition :: "rca_status \<Rightarrow> rca_status \<Rightarrow> unit + unit" where
  "rca_validate_transition s t = guard (rca_can_transition s t) ()"

section \<open>Resource limits\<close>

record resource_limits =
  rl_tool_calls :: nat
  rl_steps :: nat
  rl_evidence :: nat
  rl_timeout :: rat
  rl_hypotheses :: nat

text \<open>The bounds its validators enforce.\<close>

definition resource_limits_ok :: "resource_limits \<Rightarrow> bool" where
  "resource_limits_ok l \<longleftrightarrow>
     1 \<le> rl_tool_calls l \<and> rl_tool_calls l \<le> 100 \<and> 1 \<le> rl_steps l \<and> rl_steps l \<le> 200 \<and>
     1 \<le> rl_evidence l \<and> rl_evidence l \<le> 200 \<and> 0 < rl_timeout l \<and> rl_timeout l \<le> 900 \<and>
     1 \<le> rl_hypotheses l \<and> rl_hypotheses l \<le> 20"

definition default_limits :: resource_limits where
  "default_limits = \<lparr>rl_tool_calls = 12, rl_steps = 25, rl_evidence = 40, rl_timeout = 120, rl_hypotheses = 5\<rparr>"

record resource_usage =
  us_tool_calls :: nat
  us_steps :: nat
  us_evidence :: nat
  us_started :: datetime

definition elapsed_seconds :: "resource_usage \<Rightarrow> datetime \<Rightarrow> rat" where
  "elapsed_seconds u now = of_int (now - us_started u) / 1000000"

datatype limit_kind = L_TOOL_CALLS | L_STEPS | L_EVIDENCE | L_TIME

fun limit_kind_str :: "limit_kind \<Rightarrow> string" where
  "limit_kind_str L_TOOL_CALLS = ''tool_calls''"
| "limit_kind_str L_STEPS = ''steps''"
| "limit_kind_str L_EVIDENCE = ''evidence_items''"
| "limit_kind_str L_TIME = ''time''"

text \<open>\<open>check_limits\<close> raises \<open>LimitExceeded\<close> with the first limit exceeded.\<close>

definition check_limits :: "resource_usage \<Rightarrow> resource_limits \<Rightarrow> datetime \<Rightarrow> limit_kind + unit" where
  "check_limits u l now =
     (if rl_tool_calls l < us_tool_calls u then Inl L_TOOL_CALLS
      else if rl_steps l < us_steps u then Inl L_STEPS
      else if rl_evidence l < us_evidence u then Inl L_EVIDENCE
      else if rl_timeout l < elapsed_seconds u now then Inl L_TIME
      else Inr ())"

section \<open>Contracts\<close>

record evidence_item =
  rv_id :: string
  rv_source :: source_type
  rv_reference :: string
  rv_trust :: trust_level
  rv_tool :: string
  rv_service :: "string option"
  rv_summary :: string
  rv_content :: jdict
  rv_observed :: "datetime option"
  rv_collected :: datetime

record finding =
  fi_id :: string
  fi_type :: finding_type
  fi_statement :: string
  fi_evidence :: "string list"
  fi_confidence :: confidence

record hypothesis =
  hy_id :: string
  hy_statement :: string
  hy_supporting :: "string list"
  hy_contradicting :: "string list"
  hy_assessment :: string
  hy_verdict :: hypothesis_verdict

record root_cause =
  rt_statement :: string
  rt_confidence :: confidence
  rt_evidence :: "string list"
  rt_reasoning :: string

record recommended_action =
  ra_type :: recommended_type
  ra_target :: "string option"
  ra_description :: string
  ra_rationale :: string
  ra_evidence :: "string list"
  ra_approval :: bool

record timeline_entry =
  tm_at :: datetime
  tm_description :: string
  tm_evidence :: "string list"

record investigation_step =
  is_seq :: nat
  is_kind :: step_kind
  is_phase :: rca_status
  is_description :: string
  is_tool :: "string option"
  is_evidence :: "string list"
  is_at :: datetime

record report_metadata =
  md_mode :: string
  md_provider :: "string option"
  md_model :: "string option"
  md_started :: datetime
  md_completed :: datetime
  md_duration :: rat
  md_tool_calls :: nat
  md_steps :: nat
  md_evidence :: nat
  md_reason :: string
  md_limits :: resource_limits

record rca_report =
  rp_incident :: string
  rp_investigation :: string
  rp_status :: rca_status
  rp_summary :: string
  rp_severity :: "string option"
  rp_services :: "string list"
  rp_timeline :: "timeline_entry list"
  rp_findings :: "finding list"
  rp_hypotheses :: "hypothesis list"
  rp_root_cause :: "root_cause option"
  rp_factors :: "finding list"
  rp_action :: recommended_action
  rp_evidence :: "evidence_item list"
  rp_confidence :: confidence
  rp_uncertainty :: string
  rp_unavailable :: "string list"
  rp_metadata :: report_metadata

record investigation =
  iv_id :: string
  iv_incident :: string
  iv_status :: rca_status
  iv_trigger :: rca_trigger
  iv_mode :: string
  iv_model :: "string option"
  iv_reason :: "string option"
  iv_tool_calls :: nat
  iv_steps :: nat
  iv_evidence :: nat
  iv_confidence :: confidence
  iv_started :: "datetime option"
  iv_completed :: "datetime option"
  iv_created :: datetime
  iv_updated :: datetime

section \<open>Report validation\<close>

definition all_findings :: "rca_report \<Rightarrow> finding list" where
  "all_findings r = rp_findings r @ rp_factors r"

definition referenced_evidence_ids :: "rca_report \<Rightarrow> string set" where
  "referenced_evidence_ids r =
     (\<Union>f \<in> set (all_findings r). set (fi_evidence f)) \<union>
     (\<Union>h \<in> set (rp_hypotheses r). set (hy_supporting h) \<union> set (hy_contradicting h)) \<union>
     (\<Union>t \<in> set (rp_timeline r). set (tm_evidence t)) \<union>
     set (ra_evidence (rp_action r)) \<union>
     (case rp_root_cause r of None \<Rightarrow> {} | Some rc \<Rightarrow> set (rt_evidence rc))"

definition validate_evidence_references :: "rca_report \<Rightarrow> string set \<Rightarrow> string list" where
  "validate_evidence_references r known =
     map (\<lambda>i. ''references evidence id '' @ repr_str i @ '' which was not collected'')
       (sorted_list_of_set (referenced_evidence_ids r - known))"

definition err_if :: "bool \<Rightarrow> string \<Rightarrow> string list" where
  "err_if b e = (if b then [e] else [])"

definition validate_consistency :: "rca_report \<Rightarrow> string list" where
  "validate_consistency r =
     err_if (rp_status r = R_INSUFFICIENT \<and> rp_root_cause r \<noteq> None)
       ''INSUFFICIENT_EVIDENCE report must not assert a root cause'' @
     (case rp_root_cause r of
        None \<Rightarrow> []
      | Some rc \<Rightarrow>
          err_if (rt_evidence rc = []) ''root cause asserted with no supporting evidence'' @
          err_if (rp_status r \<noteq> R_COMPLETED) ''root cause may only appear on a COMPLETED report'' @
          err_if (confidence_rank (rt_confidence rc) < confidence_rank (rp_confidence r))
            ''overall confidence exceeds root-cause confidence'') @
     concat (map (\<lambda>f.
        err_if (confidence_rank C_LOW \<le> confidence_rank (fi_confidence f) \<and> fi_evidence f = [])
          (''finding '' @ repr_str (fi_id f) @ '' claims '' @ confidence_str (fi_confidence f) @ '' confidence with no evidence''))
        (all_findings r)) @
     concat (map (\<lambda>f.
        err_if (fi_type f \<noteq> F_CONTRIBUTING_FACTOR)
          (''contributing factor '' @ repr_str (fi_id f) @ '' has wrong type '' @ finding_type_str (fi_type f)))
        (rp_factors r)) @
     err_if (strip (rp_uncertainty r) = []) ''uncertainty must be stated explicitly'' @
     err_if (\<not> ra_approval (rp_action r)) ''recommended action must require human approval''"

definition validate_report :: "rca_report \<Rightarrow> string set \<Rightarrow> string list + unit" where
  "validate_report r known =
     (let errors = validate_evidence_references r known @ validate_consistency r
      in if errors = [] then Inr () else Inl errors)"

text \<open>What a valid report is, stated without the error messages.\<close>

definition report_grounded :: "rca_report \<Rightarrow> string set \<Rightarrow> bool" where
  "report_grounded r known \<longleftrightarrow>
     referenced_evidence_ids r \<subseteq> known \<and>
     (\<forall>rc. rp_root_cause r = Some rc \<longrightarrow> rp_status r = R_COMPLETED \<and> rt_evidence rc \<noteq> [] \<and>
        confidence_rank (rp_confidence r) \<le> confidence_rank (rt_confidence rc)) \<and>
     (\<forall>f \<in> set (all_findings r). fi_evidence f = [] \<longrightarrow> fi_confidence f = C_UNKNOWN) \<and>
     (\<forall>f \<in> set (rp_factors r). fi_type f = F_CONTRIBUTING_FACTOR) \<and>
     strip (rp_uncertainty r) \<noteq> [] \<and> ra_approval (rp_action r)"

lemma err_if_nil [simp]: "err_if b e = [] \<longleftrightarrow> \<not> b"
  by (simp add: err_if_def)

lemma finite_referenced: "finite (referenced_evidence_ids r)"
  by (simp add: referenced_evidence_ids_def split: option.split)

lemma rank_unknown: "confidence_rank C_LOW \<le> confidence_rank c \<longleftrightarrow> c \<noteq> C_UNKNOWN"
  by (cases c) auto

lemma validate_report_iff: "validate_report r known = Inr u \<longleftrightarrow> report_grounded r known"
proof -
  have "validate_evidence_references r known = [] \<longleftrightarrow> referenced_evidence_ids r \<subseteq> known"
    using finite_referenced [of r] by (simp add: validate_evidence_references_def)
  moreover have "validate_consistency r = [] \<longleftrightarrow>
     (\<forall>rc. rp_root_cause r = Some rc \<longrightarrow> rp_status r = R_COMPLETED \<and> rt_evidence rc \<noteq> [] \<and>
        confidence_rank (rp_confidence r) \<le> confidence_rank (rt_confidence rc)) \<and>
     (\<forall>f \<in> set (all_findings r). fi_evidence f = [] \<longrightarrow> fi_confidence f = C_UNKNOWN) \<and>
     (\<forall>f \<in> set (rp_factors r). fi_type f = F_CONTRIBUTING_FACTOR) \<and>
     strip (rp_uncertainty r) \<noteq> [] \<and> ra_approval (rp_action r)"
    unfolding validate_consistency_def append_is_Nil_conv err_if_nil concat_eq_Nil_conv set_map ball_simps rank_unknown
    by (cases "rp_root_cause r") auto
  ultimately show ?thesis unfolding report_grounded_def validate_report_def Let_def by simp
qed

lemma terminal_iff [simp]: "rca_is_terminal s \<longleftrightarrow> s \<in> {R_COMPLETED, R_INSUFFICIENT, R_FAILED, R_TIMED_OUT}"
  by (simp add: rca_is_terminal_def RCA_TERMINAL_def)

end
