(* ===== verification/RcaAct.thy ===== *)
theory RcaAct imports RcaDomain begin

text \<open>
  Actions of an investigation: state-passing computations that may raise.

  The state is the mutable part of \<open>GraphDeps\<close> and \<open>ToolContext\<close> (\<open>engine/deps.py\<close>,
  \<open>tools/context.py\<close>): the usage meter, the step and evidence counters, together with the number of
  clock reads and of calls to the outside made so far. The outside itself (clock, HTTP, model) is a
  function of these two numbers, so that no two reads of it have to agree. \<open>wp\<close> is the weakest
  precondition of an action for a normal and an exceptional postcondition; its simplification rules
  turn a property of a composed action into a property of the states it passes through.
\<close>

section \<open>Tool names and outcomes\<close>

datatype tool_name =
    T_INCIDENT | T_TIMELINE | T_ANOMALY | T_RELATED | T_METRICS | T_HEALTH
  | T_LOGS | T_TRACES | T_DEPLOYMENTS | T_DEPENDENCIES

fun tool_str :: "tool_name \<Rightarrow> string" where
  "tool_str T_INCIDENT = ''get_incident''"
| "tool_str T_TIMELINE = ''get_incident_timeline''"
| "tool_str T_ANOMALY = ''get_anomaly_evidence''"
| "tool_str T_RELATED = ''get_related_incidents''"
| "tool_str T_METRICS = ''get_service_metrics''"
| "tool_str T_HEALTH = ''get_service_health''"
| "tool_str T_LOGS = ''get_recent_logs''"
| "tool_str T_TRACES = ''get_traces''"
| "tool_str T_DEPLOYMENTS = ''get_recent_deployments''"
| "tool_str T_DEPENDENCIES = ''get_service_dependencies''"

definition ALL_TOOLS :: "tool_name list" where
  "ALL_TOOLS = [T_INCIDENT, T_TIMELINE, T_ANOMALY, T_RELATED, T_METRICS, T_HEALTH,
     T_LOGS, T_TRACES, T_DEPLOYMENTS, T_DEPENDENCIES]"

definition AVAILABLE_TOOLS :: "tool_name set" where
  "AVAILABLE_TOOLS = {T_INCIDENT, T_TIMELINE, T_ANOMALY, T_RELATED, T_METRICS, T_HEALTH}"

text \<open>\<open>ToolName(s)\<close>, with \<open>None\<close> where it raises; \<open>ToolRegistry.has\<close> tests just this, because the
  constructor of the registry refuses an incomplete one.\<close>

definition parse_tool :: "string \<Rightarrow> tool_name option" where
  "parse_tool s = find (\<lambda>t. tool_str t = s) ALL_TOOLS"

datatype tool_code =
    TC_OK | TC_INVALID_INPUT | TC_UNSUPPORTED_SERVICE | TC_SOURCE_UNAVAILABLE | TC_NOT_FOUND
  | TC_UPSTREAM_TIMEOUT | TC_UPSTREAM_UNAVAILABLE | TC_MALFORMED_RESPONSE | TC_LIMIT_EXCEEDED

fun tool_code_str :: "tool_code \<Rightarrow> string" where
  "tool_code_str TC_OK = ''OK''"
| "tool_code_str TC_INVALID_INPUT = ''INVALID_INPUT''"
| "tool_code_str TC_UNSUPPORTED_SERVICE = ''UNSUPPORTED_SERVICE''"
| "tool_code_str TC_SOURCE_UNAVAILABLE = ''SOURCE_UNAVAILABLE''"
| "tool_code_str TC_NOT_FOUND = ''NOT_FOUND''"
| "tool_code_str TC_UPSTREAM_TIMEOUT = ''UPSTREAM_TIMEOUT''"
| "tool_code_str TC_UPSTREAM_UNAVAILABLE = ''UPSTREAM_UNAVAILABLE''"
| "tool_code_str TC_MALFORMED_RESPONSE = ''MALFORMED_RESPONSE''"
| "tool_code_str TC_LIMIT_EXCEEDED = ''LIMIT_EXCEEDED''"

section \<open>Exceptions\<close>

datatype llm_error =
    LLM_TIMEOUT | LLM_PROVIDER_ERROR | LLM_MALFORMED_OUTPUT | LIVE_LLM_NOT_AVAILABLE | LLM_CONFIGURATION_ERROR

fun llm_error_str :: "llm_error \<Rightarrow> string" where
  "llm_error_str LLM_TIMEOUT = ''LlmTimeout''"
| "llm_error_str LLM_PROVIDER_ERROR = ''LlmProviderError''"
| "llm_error_str LLM_MALFORMED_OUTPUT = ''LlmMalformedOutput''"
| "llm_error_str LIVE_LLM_NOT_AVAILABLE = ''LiveLlmNotAvailable''"
| "llm_error_str LLM_CONFIGURATION_ERROR = ''LlmConfigurationError''"

text \<open>\<open>E_OTHER\<close> carries the name of the exception's class; the schema classes raise \<open>ValidationError\<close>.\<close>

datatype exn =
    E_TOOL tool_code string
  | E_LIMIT limit_kind
  | E_LLM llm_error string
  | E_RECURSION
  | E_OTHER string

fun exn_name :: "exn \<Rightarrow> string" where
  "exn_name (E_TOOL c m) = ''ToolExecutionError''"
| "exn_name (E_LIMIT k) = ''LimitExceeded''"
| "exn_name (E_LLM k m) = llm_error_str k"
| "exn_name E_RECURSION = ''GraphRecursionError''"
| "exn_name (E_OTHER n) = n"

abbreviation validation_error :: exn where
  "validation_error \<equiv> E_OTHER ''ValidationError''"

section \<open>State\<close>

record rca_world =
  wd_ticks :: nat
  wd_calls :: nat
  wd_issued :: nat
  wd_seq :: nat
  wd_usage :: resource_usage

type_synonym 'a act = "rca_world \<Rightarrow> (exn + 'a) \<times> rca_world"

definition ret :: "'a \<Rightarrow> 'a act" where
  "ret x = (\<lambda>w. (Inr x, w))"

definition throw :: "exn \<Rightarrow> 'a act" where
  "throw e = (\<lambda>w. (Inl e, w))"

definition then_do :: "'a act \<Rightarrow> ('a \<Rightarrow> 'b act) \<Rightarrow> 'b act" where
  "then_do m f = (\<lambda>w. case m w of (Inl e, w') \<Rightarrow> (Inl e, w') | (Inr x, w') \<Rightarrow> f x w')"

definition handle :: "'a act \<Rightarrow> (exn \<Rightarrow> 'a act) \<Rightarrow> 'a act" where
  "handle m h = (\<lambda>w. case m w of (Inl e, w') \<Rightarrow> h e w' | (Inr x, w') \<Rightarrow> (Inr x, w'))"

definition reads :: "(rca_world \<Rightarrow> 'a) \<Rightarrow> 'a act" where
  "reads f = (\<lambda>w. (Inr (f w), w))"

definition writes :: "(rca_world \<Rightarrow> rca_world) \<Rightarrow> unit act" where
  "writes f = (\<lambda>w. (Inr (), f w))"

definition check :: "bool \<Rightarrow> exn \<Rightarrow> unit act" where
  "check b e = (if b then ret () else throw e)"

fun map_act :: "('a \<Rightarrow> 'b act) \<Rightarrow> 'a list \<Rightarrow> 'b list act" where
  "map_act f [] = ret []"
| "map_act f (x # xs) = then_do (f x) (\<lambda>y. then_do (map_act f xs) (\<lambda>ys. ret (y # ys)))"

lemmas act_defs = ret_def throw_def then_do_def handle_def reads_def writes_def check_def

section \<open>Weakest preconditions\<close>

named_theorems wp_simps \<open>weakest preconditions of the primitive actions\<close>

definition wp :: "'a act \<Rightarrow> ('a \<Rightarrow> rca_world \<Rightarrow> bool) \<Rightarrow> (exn \<Rightarrow> rca_world \<Rightarrow> bool) \<Rightarrow> rca_world \<Rightarrow> bool" where
  "wp m Q E w = (case m w of (Inr x, w') \<Rightarrow> Q x w' | (Inl e, w') \<Rightarrow> E e w')"

lemma wp_ret [wp_simps]: "wp (ret x) Q E = Q x"
  by (simp add: fun_eq_iff wp_def ret_def)

lemma wp_throw [wp_simps]: "wp (throw e) Q E = E e"
  by (simp add: fun_eq_iff wp_def throw_def)

lemma wp_then_do [wp_simps]: "wp (then_do m f) Q E = wp m (\<lambda>x. wp (f x) Q E) E"
  by (simp add: fun_eq_iff wp_def then_do_def split: prod.split sum.split)

lemma wp_handle [wp_simps]: "wp (handle m h) Q E = wp m Q (\<lambda>e. wp (h e) Q E)"
  by (simp add: fun_eq_iff wp_def handle_def split: prod.split sum.split)

lemma wp_reads [wp_simps]: "wp (reads f) Q E = (\<lambda>w. Q (f w) w)"
  by (simp add: fun_eq_iff wp_def reads_def)

lemma wp_writes [wp_simps]: "wp (writes f) Q E = (\<lambda>w. Q () (f w))"
  by (simp add: fun_eq_iff wp_def writes_def)

lemma wp_check [wp_simps]: "wp (check b e) Q E = (if b then Q () else E e)"
  by (simp add: check_def wp_ret wp_throw)

lemma wp_mono:
  "wp m Q E w \<Longrightarrow> (\<And>x w'. Q x w' \<Longrightarrow> Q' x w') \<Longrightarrow> (\<And>e w'. E e w' \<Longrightarrow> E' e w') \<Longrightarrow> wp m Q' E' w"
  by (auto simp: wp_def split: prod.splits sum.splits)

lemma wp_conj:
  "wp m Q E w \<Longrightarrow> wp m Q' E' w \<Longrightarrow> wp m (\<lambda>x w. Q x w \<and> Q' x w) (\<lambda>e w. E e w \<and> E' e w) w"
  by (auto simp: wp_def split: prod.splits sum.splits)

lemma wp_result:
  "wp m Q E w \<Longrightarrow> m w = (Inr x, w') \<Longrightarrow> Q x w'"
  "wp m Q E w \<Longrightarrow> m w = (Inl e, w') \<Longrightarrow> E e w'"
  by (simp_all add: wp_def)

text \<open>An action that never raises.\<close>

lemma wp_total: "wp m Q (\<lambda>_ _. False) w \<Longrightarrow> \<exists>x w'. m w = (Inr x, w') \<and> Q x w'"
  by (auto simp: wp_def split: prod.splits sum.splits)


end
