(* ===== verification/RcaPrometheus.thy ===== *)
theory RcaPrometheus imports PyText begin

text \<open>
  The Prometheus text-exposition parser of the RCA agent (\<open>tools/prometheus.py\<close>): lines, quoted
  labels, \<open>float()\<close>. A float is an exact rational or one of the three special values; a sample whose
  value does not parse is skipped, as every malformed line is. \<open>parse_sample\<close> is the body of the loop
  up to the point where a sample is accepted, \<open>parse_exposition\<close> the loop.
\<close>

section \<open>Text\<close>

definition is_newline :: "char \<Rightarrow> bool" where
  "is_newline c \<longleftrightarrow> code c \<in> {0x0A, 0x0B, 0x0C, 0x0D, 0x1C, 0x1D, 0x1E}"

text \<open>\<open>str.splitlines\<close>: \<open>\r\n\<close> is one separator, and a separator at the end starts no new line.\<close>

fun split_lines :: "string \<Rightarrow> string \<Rightarrow> string list" where
  "split_lines buf [] = (if buf = [] then [] else [rev buf])"
| "split_lines buf [c] = (if is_newline c then [rev buf] else [rev (c # buf)])"
| "split_lines buf (c # d # cs) =
     (if c = CHR 0x0D \<and> d = CHR 0x0A then rev buf # split_lines [] cs
      else if is_newline c then rev buf # split_lines [] (d # cs)
      else split_lines (c # buf) (d # cs))"

definition splitlines :: "string \<Rightarrow> string list" where
  "splitlines s = split_lines [] s"

text \<open>\<open>s.partition(c)\<close> without the separator, and \<open>s.split(sub)[0]\<close>.\<close>

definition partition_at :: "char \<Rightarrow> string \<Rightarrow> string \<times> string" where
  "partition_at c s = (takeWhile (\<lambda>x. x \<noteq> c) s, drop 1 (dropWhile (\<lambda>x. x \<noteq> c) s))"

fun before_sub :: "string \<Rightarrow> string \<Rightarrow> string" where
  "before_sub sub [] = []"
| "before_sub sub (c # cs) = (if prefix sub (c # cs) then [] else c # before_sub sub cs)"

definition strip_chars :: "char \<Rightarrow> string \<Rightarrow> string" where
  "strip_chars q s = rev (dropWhile (\<lambda>c. c = q) (rev (dropWhile (\<lambda>c. c = q) s)))"

section \<open>Floats\<close>

datatype pyfloat = Fin rat | Pos_inf | Neg_inf | Not_a_number

text \<open>Decimal digits, with single underscores between them.\<close>

fun digit_part :: "bool \<Rightarrow> string \<Rightarrow> nat list \<times> string" where
  "digit_part b [] = ([], [])"
| "digit_part b (c # cs) =
     (if is_digit c then (case digit_part True cs of (ds, r) \<Rightarrow> ((code c - 48) # ds, r))
      else if b \<and> c = CHR ''_'' \<and> cs \<noteq> [] \<and> is_digit (hd cs) then digit_part False cs
      else ([], c # cs))"

definition digits_value :: "nat list \<Rightarrow> nat" where
  "digits_value ds = foldl (\<lambda>n d. 10 * n + d) 0 ds"

definition sign_of :: "string \<Rightarrow> bool \<times> string" where
  "sign_of s = (case s of c # cs \<Rightarrow> if c = CHR ''-'' then (True, cs) else if c = CHR ''+'' then (False, cs) else (False, s)
                 | [] \<Rightarrow> (False, s))"

definition exponent_of :: "string \<Rightarrow> int option" where
  "exponent_of s =
     (case s of
        [] \<Rightarrow> Some 0
      | c # cs \<Rightarrow>
          if c \<noteq> CHR ''e'' \<and> c \<noteq> CHR ''E'' then None
          else case sign_of cs of (neg, t) \<Rightarrow> case digit_part False t of (ds, r) \<Rightarrow>
            if ds = [] \<or> r \<noteq> [] then None
            else Some (if neg then - int (digits_value ds) else int (digits_value ds)))"

definition scaled :: "rat \<Rightarrow> int \<Rightarrow> rat" where
  "scaled m e = (if 0 \<le> e then m * 10 ^ nat e else m / 10 ^ nat (- e))"

definition decimal_of :: "string \<Rightarrow> rat option" where
  "decimal_of s =
     (case digit_part False s of (ip, r) \<Rightarrow>
      case (case r of c # cs \<Rightarrow> if c = CHR ''.'' then digit_part False cs else ([], r) | [] \<Rightarrow> ([], r)) of (fp, r') \<Rightarrow>
        if ip = [] \<and> fp = [] then None
        else map_option (\<lambda>e. scaled (of_nat (digits_value (ip @ fp))) (e - int (length fp))) (exponent_of r'))"

text \<open>\<open>float(s)\<close>, with \<open>None\<close> for \<open>ValueError\<close>.\<close>

definition parse_float :: "string \<Rightarrow> pyfloat option" where
  "parse_float s =
     (case sign_of (strip s) of (neg, t) \<Rightarrow>
        let l = map lower_char t in
        if l = ''inf'' \<or> l = ''infinity'' then Some (if neg then Neg_inf else Pos_inf)
        else if l = ''nan'' then Some Not_a_number
        else map_option (\<lambda>x. Fin (if neg then - x else x)) (decimal_of t))"

section \<open>Labels\<close>

abbreviation dquote :: char where "dquote \<equiv> CHR 0x22"

fun close_brace :: "bool \<Rightarrow> string \<Rightarrow> string \<Rightarrow> (string \<times> string) option" where
  "close_brace q buf [] = None"
| "close_brace q buf (c # cs) =
     (if c = dquote then close_brace (\<not> q) (c # buf) cs
      else if c = CHR ''}'' \<and> \<not> q then Some (rev buf, cs)
      else close_brace q (c # buf) cs)"

definition split_on_close_brace :: "string \<Rightarrow> (string \<times> string) option" where
  "split_on_close_brace s = close_brace False [] s"

fun top_commas :: "bool \<Rightarrow> string \<Rightarrow> string \<Rightarrow> string list" where
  "top_commas q buf [] = (if buf = [] then [] else [rev buf])"
| "top_commas q buf (c # cs) =
     (if c = dquote then top_commas (\<not> q) (c # buf) cs
      else if c = CHR '','' \<and> \<not> q then rev buf # top_commas q [] cs
      else top_commas q (c # buf) cs)"

definition split_top_level_commas :: "string \<Rightarrow> string list" where
  "split_top_level_commas s = top_commas False [] s"

type_synonym labels = "(string, string) dict"

definition parse_labels :: "string \<Rightarrow> labels" where
  "parse_labels blob =
     foldl (\<lambda>d part.
         if CHR ''='' \<notin> set part then d
         else case partition_at (CHR ''='') part of (key, raw) \<Rightarrow>
           AList.update (strip key) (strip_chars dquote (strip raw)) d)
       [] (split_top_level_commas blob)"

section \<open>Lines\<close>

record sample =
  sm_labels :: labels
  sm_value :: pyfloat

definition MAX_LINE_LEN :: nat where "MAX_LINE_LEN = 4000"

definition MAX_SAMPLES_PER_METRIC :: nat where "MAX_SAMPLES_PER_METRIC = 50"

definition metric_base :: "string \<Rightarrow> string" where
  "metric_base m = before_sub ''_count'' (before_sub ''_sum'' (before_sub ''_bucket'' m))"

definition split_sample :: "string \<Rightarrow> (string \<times> labels \<times> string) option" where
  "split_sample line =
     (if CHR ''{'' \<in> set line then
        case partition_at (CHR ''{'') line of (metric, rest) \<Rightarrow>
          map_option (\<lambda>(blob, v). (metric, parse_labels blob, v)) (split_on_close_brace rest)
      else case partition_at (CHR '' '') line of (metric, v) \<Rightarrow> Some (metric, [], v))"

definition parse_sample :: "string set \<Rightarrow> string \<Rightarrow> (string \<times> sample) option" where
  "parse_sample wanted raw =
     (let line = strip raw in
      if line = [] \<or> hd line = CHR ''#'' \<or> MAX_LINE_LEN < length line then None
      else case split_sample line of
        None \<Rightarrow> None
      | Some (metric, labels, value) \<Rightarrow>
          let value_part = strip value; base = metric_base metric in
          if value_part = [] \<or> (metric \<notin> wanted \<and> base \<notin> wanted) then None
          else map_option (\<lambda>x. (if metric \<in> wanted then metric else base, \<lparr>sm_labels = labels, sm_value = x\<rparr>))
                 (parse_float (takeWhile (\<lambda>c. \<not> is_space c) value_part)))"

type_synonym exposition = "(string, sample list) dict"

definition add_sample :: "exposition \<Rightarrow> string \<times> sample \<Rightarrow> exposition" where
  "add_sample d ks =
     (let bucket = (case map_of d (fst ks) of None \<Rightarrow> [] | Some b \<Rightarrow> b)
      in AList.update (fst ks)
           (if length bucket < MAX_SAMPLES_PER_METRIC then bucket @ [snd ks] else bucket) d)"

definition parse_exposition :: "string \<Rightarrow> string set \<Rightarrow> exposition" where
  "parse_exposition text wanted =
     foldl (\<lambda>d raw. case parse_sample wanted raw of None \<Rightarrow> d | Some ks \<Rightarrow> add_sample d ks) [] (splitlines text)"

section \<open>What the parser returns\<close>

definition samples_of :: "string \<Rightarrow> string set \<Rightarrow> string \<Rightarrow> sample list" where
  "samples_of text wanted m =
     map snd (filter (\<lambda>ks. fst ks = m) (List.map_filter (parse_sample wanted) (splitlines text)))"

lemma parse_sample_wanted: "parse_sample wanted raw = Some (m, s) \<Longrightarrow> m \<in> wanted"
  by (auto simp: parse_sample_def Let_def split: if_splits option.splits prod.splits)

lemma add_sample_lookup:
  assumes "map_of d (fst ks) = (if b = [] then None else Some (take MAX_SAMPLES_PER_METRIC b))"
  shows "map_of (add_sample d ks) m =
    (if m = fst ks then Some (take MAX_SAMPLES_PER_METRIC (b @ [snd ks])) else map_of d m)"
  using assms by (auto simp: add_sample_def Let_def map_of_update_if MAX_SAMPLES_PER_METRIC_def)

lemma samples_snoc:
  "map snd (filter (\<lambda>ks. fst ks = m) (List.map_filter f (ls @ [l]))) =
   map snd (filter (\<lambda>ks. fst ks = m) (List.map_filter f ls)) @
   (case f l of None \<Rightarrow> [] | Some ks \<Rightarrow> if fst ks = m then [snd ks] else [])"
  by (auto simp: List.map_filter_def split: option.split)

lemma parse_lines_exact:
  "map_of (foldl (\<lambda>d raw. case f raw of None \<Rightarrow> d | Some ks \<Rightarrow> add_sample d ks) [] ls) m =
     (let b = map snd (filter (\<lambda>ks. fst ks = m) (List.map_filter f ls))
      in if b = [] then None else Some (take MAX_SAMPLES_PER_METRIC b))"
proof (induction ls arbitrary: m rule: rev_induct)
  case Nil
  show ?case by (simp add: List.map_filter_def)
next
  case (snoc l ls)
  show ?case
  proof (cases "f l")
    case None
    then show ?thesis using snoc.IH by (simp add: samples_snoc)
  next
    case (Some ks)
    show ?thesis
      using add_sample_lookup [OF snoc.IH [of "fst ks", unfolded Let_def], of m] snoc.IH [of m] Some
      by (auto simp: samples_snoc Let_def)
  qed
qed

lemma parse_exposition_samples:
  "map_of (parse_exposition text wanted) m =
     (if samples_of text wanted m = [] then None else Some (take MAX_SAMPLES_PER_METRIC (samples_of text wanted m)))"
proof -
  have "map_of (parse_exposition text wanted) m =
     (let b = samples_of text wanted m in if b = [] then None else Some (take MAX_SAMPLES_PER_METRIC b))"
    unfolding parse_exposition_def samples_of_def by (rule parse_lines_exact)
  then show ?thesis by (simp add: Let_def)
qed

text \<open>
  Parsing a scrape returns exactly the well-formed samples of the wanted metric families: for
  every family the first 50 of its samples in the order of the text, and no entry for a family
  that is not wanted or has no sample. No input makes the parser raise.
\<close>

theorem parse_exposition_exact:
  "map_of (parse_exposition text wanted) m =
     (if m \<in> wanted \<and> samples_of text wanted m \<noteq> []
      then Some (take MAX_SAMPLES_PER_METRIC (samples_of text wanted m)) else None)"
proof -
  have "m \<in> wanted" if some: "samples_of text wanted m \<noteq> []"
  proof -
    obtain x where "x \<in> set (filter (\<lambda>ks. fst ks = m) (List.map_filter (parse_sample wanted) (splitlines text)))"
      using some unfolding samples_of_def by (metis last_in_set list.map_disc_iff)
    then obtain raw where "parse_sample wanted raw = Some x" "fst x = m"
      by (auto simp only: set_filter map_filter_def set_map comp_def mem_Collect_eq image_iff option.sel not_None_eq)
    then show ?thesis using parse_sample_wanted by (metis prod.collapse)
  qed
  then show ?thesis unfolding parse_exposition_samples by presburger
qed

section \<open>A sample line of the exposition format\<close>

text \<open>
  The lines the format's specification describes: a metric name, labels with a quoted text each, a value and
  possibly a timestamp. Backslash escapes, which stand for a quote in a label text, are not among them: the
  parser toggles at every quote.
\<close>

definition name_char :: "char \<Rightarrow> bool" where
  "name_char c \<longleftrightarrow> is_alnum c \<or> c = CHR ''_'' \<or> c = CHR '':''"

definition label_text :: "string \<Rightarrow> bool" where
  "label_text v \<longleftrightarrow> list_all (\<lambda>c. c \<noteq> dquote) v"

definition label_ok :: "string \<times> string \<Rightarrow> bool" where
  "label_ok kv \<longleftrightarrow> fst kv \<noteq> [] \<and> list_all name_char (fst kv) \<and> label_text (snd kv)"

definition label_line :: "string \<times> string \<Rightarrow> string" where
  "label_line kv = fst kv @ ''='' @ [dquote] @ snd kv @ [dquote]"

definition sample_line :: "string \<Rightarrow> labels \<Rightarrow> string \<Rightarrow> string \<Rightarrow> string" where
  "sample_line m ls v rest =
     m @ (if ls = [] then [] else ''{'' @ join '','' (map label_line ls) @ ''}'') @ '' '' @ v @ rest"

text \<open>A value is a word, and what follows it, a timestamp if anything, is set off by a blank.\<close>

definition value_text :: "string \<Rightarrow> bool" where
  "value_text v \<longleftrightarrow> v \<noteq> [] \<and> list_all (\<lambda>c. \<not> is_space c \<and> c \<noteq> CHR ''{'') v"

definition after_value :: "string \<Rightarrow> bool" where
  "after_value r \<longleftrightarrow> r = [] \<or> hd r = CHR '' '' \<and> CHR ''{'' \<notin> set r \<and> \<not> is_space (last r)"

lemma name_char_facts:
  assumes "name_char c"
  shows "\<not> is_space c" "c \<noteq> dquote" "c \<noteq> CHR ''='' \<and> c \<noteq> CHR '',''"
    "c \<noteq> CHR ''{'' \<and> c \<noteq> CHR ''}'' \<and> c \<noteq> CHR ''#'' \<and> c \<noteq> CHR '' ''"
  using assms
  by (auto simp: name_char_def is_alnum_def is_digit_def is_upper_def is_lower_def is_space_def)

lemma strip_id:
  assumes "s \<noteq> []" and "\<not> is_space (hd s)" and "\<not> is_space (last s)"
  shows "strip s = s"
proof -
  have "dropWhile is_space s = s" using assms by (cases s) auto
  moreover have "dropWhile is_space (rev s) = rev s" using assms by (cases s rule: rev_cases) auto
  ultimately show ?thesis by (simp add: strip_def)
qed

lemma close_plain:
  "list_all (\<lambda>c. c \<noteq> dquote \<and> (q \<or> c \<noteq> CHR ''}'')) k \<Longrightarrow>
   close_brace q buf (k @ t) = close_brace q (rev k @ buf) t"
  by (induction k arbitrary: buf) auto

lemma top_plain:
  "list_all (\<lambda>c. c \<noteq> dquote \<and> (q \<or> c \<noteq> CHR '','')) k \<Longrightarrow>
   top_commas q buf (k @ t) = top_commas q (rev k @ buf) t"
  by (induction k arbitrary: buf) auto

lemma not_name_char: "\<not> name_char (CHR ''{'')" "\<not> name_char (CHR '' '')" "\<not> name_char (CHR ''='')"
  by (simp_all add: name_char_def is_alnum_def is_digit_def is_upper_def is_lower_def)

lemma name_chars:
  assumes "list_all name_char k"
  shows "list_all (\<lambda>c. c \<noteq> dquote \<and> c \<noteq> CHR ''}'') k" "list_all (\<lambda>c. c \<noteq> dquote \<and> c \<noteq> CHR '','') k"
    "CHR ''{'' \<notin> set k" "CHR '' '' \<notin> set k" "CHR ''='' \<notin> set k" "list_all (\<lambda>c. \<not> is_space c) k"
  using assms by (induction k) (auto simp: name_char_facts not_name_char)

lemma label_ok_plain:
  assumes "label_ok kv"
  shows "list_all (\<lambda>c. c \<noteq> dquote \<and> c \<noteq> CHR ''}'') (fst kv)"
    and "list_all (\<lambda>c. c \<noteq> dquote \<and> c \<noteq> CHR '','') (fst kv)"
    and "list_all (\<lambda>c. c \<noteq> dquote) (snd kv)"
  using assms name_chars unfolding label_ok_def label_text_def by (blast, blast, simp add: list_all_iff)

lemma partition_at_append: "c \<notin> set m \<Longrightarrow> partition_at c (m @ c # t) = (m, t)"
  by (simp add: partition_at_def takeWhile_append dropWhile_append)

lemma close_label:
  assumes "label_ok kv"
  shows "close_brace False buf (label_line kv @ t) = close_brace False (rev (label_line kv) @ buf) t"
  using label_ok_plain [OF assms]
  by (simp add: label_line_def close_plain)

lemma close_labels:
  "list_all label_ok ls \<Longrightarrow>
   close_brace False buf (join '','' (map label_line ls) @ t) =
   close_brace False (rev (join '','' (map label_line ls)) @ buf) t"
proof (induction ls arbitrary: buf)
  case (Cons l ls)
  then show ?case by (cases ls) (simp_all add: close_label)
qed simp

lemma top_labels:
  "list_all label_ok (l # ls) \<Longrightarrow>
   top_commas False buf (join '','' (map label_line (l # ls))) =
   (rev buf @ label_line l) # map label_line ls"
proof (induction ls arbitrary: l buf)
  case Nil
  then show ?case using label_ok_plain [of l] by (simp add: label_line_def top_plain)
next
  case (Cons l' ls)
  then have "top_commas False buf (label_line l @ '','' @ join '','' (map label_line (l' # ls))) =
      (rev buf @ label_line l) # top_commas False [] (join '','' (map label_line (l' # ls)))"
    using label_ok_plain [of l] by (simp add: label_line_def top_plain)
  then show ?case using Cons.IH [of l' "[]"] Cons.prems by simp
qed

lemma strip_chars_quoted:
  assumes "list_all (\<lambda>c. c \<noteq> dquote) v"
  shows "strip_chars dquote (dquote # v @ [dquote]) = v"
proof (cases v rule: rev_cases)
  case Nil
  then show ?thesis by (simp add: strip_chars_def)
next
  case (snoc w d)
  then obtain e u where v: "v = e # u" by (metis append_is_Nil_conv list.exhaust)
  with assms have "dropWhile (\<lambda>c. c = dquote) (v @ [dquote]) = v @ [dquote]" by simp
  moreover have "d \<noteq> dquote" using assms snoc by simp
  ultimately show ?thesis using snoc by (simp add: strip_chars_def)
qed

lemma label_parts:
  assumes "label_ok kv"
  shows "CHR ''='' \<in> set (label_line kv)"
    and "partition_at (CHR ''='') (label_line kv) = (fst kv, dquote # snd kv @ [dquote])"
    and "strip (fst kv) = fst kv"
    and "strip_chars dquote (strip (dquote # snd kv @ [dquote])) = snd kv"
proof -
  have "CHR ''='' \<notin> set (fst kv)" using assms name_chars(5) unfolding label_ok_def by blast
  then show "partition_at (CHR ''='') (label_line kv) = (fst kv, dquote # snd kv @ [dquote])"
    by (simp add: label_line_def partition_at_append)
  show "strip (fst kv) = fst kv"
    using assms name_char_facts(1) unfolding label_ok_def list_all_iff
    by (intro strip_id) auto
  have "strip (dquote # snd kv @ [dquote]) = dquote # snd kv @ [dquote]"
    by (rule strip_id) (simp_all add: is_space_def)
  then show "strip_chars dquote (strip (dquote # snd kv @ [dquote])) = snd kv"
    using label_ok_plain(3) [OF assms] by (simp add: strip_chars_quoted)
qed (simp add: label_line_def)

lemma parse_labels_fold:
  assumes "list_all label_ok ls" and "distinct (map fst (acc @ ls))"
  shows "foldl (\<lambda>d part.
         if CHR ''='' \<notin> set part then d
         else case partition_at (CHR ''='') part of (key, raw) \<Rightarrow>
           AList.update (strip key) (strip_chars dquote (strip raw)) d) acc (map label_line ls) = acc @ ls"
  using assms
proof (induction ls arbitrary: acc)
  case (Cons l ls)
  then have "map_of acc (fst l) = None" by (auto simp: map_of_eq_None_iff)
  then have "AList.update (fst l) (snd l) acc = acc @ [l]" by (simp add: update_new)
  then show ?case using Cons.IH [of "acc @ [l]"] Cons.prems label_parts [of l] by simp
qed simp

lemma parse_labels_render:
  assumes "list_all label_ok ls" and "distinct (map fst ls)"
  shows "parse_labels (join '','' (map label_line ls)) = ls"
proof (cases ls)
  case (Cons l r)
  then have "split_top_level_commas (join '','' (map label_line ls)) = map label_line ls"
    using assms(1) by (simp only: split_top_level_commas_def top_labels) simp
  then show ?thesis unfolding parse_labels_def using parse_labels_fold [of ls "[]"] assms by simp
qed (simp add: parse_labels_def split_top_level_commas_def)

lemma strip_space: "strip (CHR '' '' # s) = strip s"
  by (simp add: strip_def is_space_def)

lemma value_facts:
  assumes "value_text v" "after_value rest"
  shows "strip (v @ rest) = v @ rest" "takeWhile (\<lambda>c. \<not> is_space c) (v @ rest) = v" "v @ rest \<noteq> []"
    "CHR ''{'' \<notin> set (v @ rest)" "\<not> is_space (last (v @ rest))"
proof -
  have v: "v \<noteq> []" "\<forall>c \<in> set v. \<not> is_space c \<and> c \<noteq> CHR ''{''" using assms(1) by (auto simp: value_text_def list_all_iff)
  show l: "\<not> is_space (last (v @ rest))"
  proof (cases "rest = []")
    case True
    then show ?thesis using v(2) last_in_set [OF v(1)] by simp
  next
    case False
    then show ?thesis using assms(2) by (simp add: after_value_def)
  qed
  show "v @ rest \<noteq> []" using v by simp
  have h: "\<not> is_space (hd (v @ rest))" using v(2) hd_in_set [OF v(1)] v(1) by simp
  show "strip (v @ rest) = v @ rest" by (rule strip_id [OF _ h l]) (simp add: v(1))
  have nv: "CHR ''{'' \<notin> set v" using v(2) by blast
  have nr: "CHR ''{'' \<notin> set rest" using assms(2) unfolding after_value_def by (metis empty_iff list.set(1))
  show "CHR ''{'' \<notin> set (v @ rest)" using nv nr by simp
  have "rest = [] \<or> is_space (hd rest)"
  proof (cases "rest = []")
    case False
    then have "hd rest = CHR '' ''" using assms(2) by (simp add: after_value_def)
    then show ?thesis by (simp add: is_space_def)
  qed simp
  moreover have "takeWhile (\<lambda>c. \<not> is_space c) (v @ rest) = v @ takeWhile (\<lambda>c. \<not> is_space c) rest"
    by (rule takeWhile_append2) (use v(2) in blast)
  ultimately show "takeWhile (\<lambda>c. \<not> is_space c) (v @ rest) = v" by (cases rest) simp_all
qed

lemma split_sample_line:
  assumes m: "list_all name_char m" and ls: "distinct (map fst ls)" "list_all label_ok ls"
    and v: "value_text v" "after_value rest"
  shows "\<exists>w. split_sample (sample_line m ls v rest) = Some (m, ls, w) \<and> strip w = v @ rest"
proof (cases "ls = []")
  case True
  have "partition_at (CHR '' '') (m @ CHR '' '' # v @ rest) = (m, v @ rest)"
    by (rule partition_at_append) (rule name_chars(4) [OF m])
  moreover have "CHR ''{'' \<notin> set (m @ CHR '' '' # v @ rest)" using name_chars(3) [OF m] value_facts(4) [OF v] by simp
  ultimately show ?thesis using True value_facts(1) [OF v] by (simp add: split_sample_def sample_line_def)
next
  case False
  let ?J = "join '','' (map label_line ls)"
  have "CHR ''{'' \<notin> set m" by (rule name_chars(3) [OF m])
  then have p: "partition_at (CHR ''{'') (sample_line m ls v rest) = (m, ?J @ CHR ''}'' # CHR '' '' # v @ rest)"
    using False by (simp add: sample_line_def partition_at_append)
  have "split_on_close_brace (?J @ CHR ''}'' # CHR '' '' # v @ rest) = Some (?J, CHR '' '' # v @ rest)"
    by (simp add: split_on_close_brace_def close_labels [OF ls(2)])
  moreover have "CHR ''{'' \<in> set (sample_line m ls v rest)" using False by (simp add: sample_line_def)
  ultimately have "split_sample (sample_line m ls v rest) = Some (m, ls, CHR '' '' # v @ rest)"
    unfolding split_sample_def p using parse_labels_render ls by simp
  then show ?thesis by (simp add: strip_space value_facts [OF v])
qed

text \<open>
  Claim C34. Reading a line of the exposition format: a metric name, labels whose texts may hold commas, braces,
  equals signs, blanks and anything else but a double quote, a value and possibly a timestamp. If the name or
  its family is wanted and the line is no longer than the limit, the line yields a sample with exactly those
  labels in their order and the value that \<open>float()\<close> reads from the value's text, decimal, exponent, sign and
  infinity included, filed under the name, or under its family when only that is wanted; it is skipped if and
  only if \<open>float()\<close> refuses the value. The timestamp is ignored.
\<close>

theorem sample_line_exact:
  assumes "m \<noteq> []" "list_all name_char m" "distinct (map fst ls)" "list_all label_ok ls" "value_text v" "after_value rest"
    and "m \<in> wanted \<or> metric_base m \<in> wanted" and "length (sample_line m ls v rest) \<le> MAX_LINE_LEN"
  shows "parse_sample wanted (sample_line m ls v rest) =
    map_option (\<lambda>x. (if m \<in> wanted then m else metric_base m, \<lparr>sm_labels = ls, sm_value = x\<rparr>)) (parse_float v)"
proof -
  let ?l = "sample_line m ls v rest"
  obtain c cs where m: "m = c # cs" and c: "name_char c" using assms(1,2) by (cases m) auto
  obtain w where w: "split_sample ?l = Some (m, ls, w)" "strip w = v @ rest"
    using split_sample_line [OF assms(2-6)] by blast
  note v = value_facts [OF assms(5,6)]
  have hd: "hd ?l = c" "?l \<noteq> []" by (simp_all add: sample_line_def m)
  obtain pre where "?l = pre @ (v @ rest)" unfolding sample_line_def by (metis append.assoc)
  then have "last ?l = last (v @ rest)" using v(3) by (metis last_appendR)
  then have "strip ?l = ?l" using hd c v(5) by (intro strip_id) (simp_all add: name_char_facts)
  then show ?thesis
    unfolding parse_sample_def Let_def using hd c w assms(7,8) name_char_facts(4) [OF c] v(2,3) by auto
qed

end
