(* ===== verification/RcaTools.thy ===== *)
theory RcaTools imports RcaAct RcaPrometheus begin

text \<open>
  The read-only evidence tools of the RCA agent: typed requests and payloads (\<open>tools/contracts.py\<close>),
  structured outcomes (\<open>tools/results.py\<close>), the safety wrapper (\<open>tools/base.py\<close>), the evidence-id
  allocator (\<open>tools/context.py\<close>), the HTTP clients (\<open>tools/incident_api.py\<close>, \<open>tools/http_sources.py\<close>)
  and the tools themselves. The environment \<open>rca_env\<close> stands for what is outside: the clock, the HTTP
  replies, and the conversions that the Pydantic library makes. \<open>IncidentApiError\<close>, which every
  caller turns into \<open>ToolExecutionError\<close>, is \<open>E_TOOL\<close> from the start.
\<close>

section \<open>Requests\<close>

datatype request =
    RQ_INCIDENT string
  | RQ_TIMELINE string
  | RQ_ANOMALY string int
  | RQ_RELATED string int "string option" int
  | RQ_METRICS string "string list"
  | RQ_HEALTH string
  | RQ_LOGS string int int "string option"
  | RQ_TRACES string "string option" int int
  | RQ_DEPLOYMENTS string int
  | RQ_DEPENDENCIES string string

fun request_tool :: "request \<Rightarrow> tool_name" where
  "request_tool (RQ_INCIDENT i) = T_INCIDENT"
| "request_tool (RQ_TIMELINE i) = T_TIMELINE"
| "request_tool (RQ_ANOMALY i l) = T_ANOMALY"
| "request_tool (RQ_RELATED s h st l) = T_RELATED"
| "request_tool (RQ_METRICS s ms) = T_METRICS"
| "request_tool (RQ_HEALTH s) = T_HEALTH"
| "request_tool (RQ_LOGS s m l c) = T_LOGS"
| "request_tool (RQ_TRACES s t m l) = T_TRACES"
| "request_tool (RQ_DEPLOYMENTS s h) = T_DEPLOYMENTS"
| "request_tool (RQ_DEPENDENCIES s d) = T_DEPENDENCIES"

text \<open>Field patterns. Pydantic's \<open>pattern\<close> has no trailing line break; \<open>re.match\<close> with \<open>$\<close> allows one.\<close>

definition hex_run :: "nat \<Rightarrow> nat \<Rightarrow> string \<Rightarrow> bool" where
  "hex_run lo hi s \<longleftrightarrow> lo \<le> length s \<and> length s \<le> hi \<and> list_all is_hex s"

definition incident_ref_ok :: "string \<Rightarrow> bool" where
  "incident_ref_ok s \<longleftrightarrow> take 4 s = ''inc_'' \<and> hex_run 6 32 (drop 4 s)"

definition metric_head :: "char \<Rightarrow> bool" where
  "metric_head c \<longleftrightarrow> is_upper c \<or> is_lower c \<or> c = CHR ''_'' \<or> c = CHR '':''"

definition metric_name_rx :: rx where
  "metric_name_rx = Cat (Cls metric_head) (Cat (Rep (\<lambda>c. metric_head c \<or> is_digit c) 0 None) Dollar)"

definition metric_name_ok :: "string \<Rightarrow> bool" where
  "metric_name_ok s \<longleftrightarrow> length s \<le> 120 \<and> re_match metric_name_rx s"

definition service_ok :: "string \<Rightarrow> bool" where
  "service_ok s \<longleftrightarrow> 1 \<le> length s \<and> length s \<le> 128"

definition INCIDENT_STATUSES :: "string list" where
  "INCIDENT_STATUSES = [''OPEN'', ''ACKNOWLEDGED'', ''INVESTIGATING'', ''MITIGATING'', ''RESOLVED'']"

definition in_range :: "int \<Rightarrow> int \<Rightarrow> int \<Rightarrow> bool" where
  "in_range lo hi i \<longleftrightarrow> lo \<le> i \<and> i \<le> hi"

definition opt_ok :: "('a \<Rightarrow> bool) \<Rightarrow> 'a option \<Rightarrow> bool" where
  "opt_ok p x \<longleftrightarrow> (case x of None \<Rightarrow> True | Some v \<Rightarrow> p v)"

fun request_ok :: "request \<Rightarrow> bool" where
  "request_ok (RQ_INCIDENT i) = incident_ref_ok i"
| "request_ok (RQ_TIMELINE i) = incident_ref_ok i"
| "request_ok (RQ_ANOMALY i l) = (incident_ref_ok i \<and> in_range 1 50 l)"
| "request_ok (RQ_RELATED s h st l) =
     (service_ok s \<and> in_range 1 720 h \<and> opt_ok (\<lambda>v. v \<in> set INCIDENT_STATUSES) st \<and> in_range 1 50 l)"
| "request_ok (RQ_METRICS s ms) =
     (service_ok s \<and> 1 \<le> length ms \<and> length ms \<le> 15 \<and> list_all metric_name_ok ms)"
| "request_ok (RQ_HEALTH s) = service_ok s"
| "request_ok (RQ_LOGS s m l c) =
     (service_ok s \<and> in_range 1 360 m \<and> in_range 1 500 l \<and> opt_ok (\<lambda>v. length v \<le> 200) c)"
| "request_ok (RQ_TRACES s t m l) =
     (service_ok s \<and> opt_ok (hex_run 8 32) t \<and> in_range 1 360 m \<and> in_range 1 100 l)"
| "request_ok (RQ_DEPLOYMENTS s h) = (service_ok s \<and> in_range 1 336 h)"
| "request_ok (RQ_DEPENDENCIES s d) = (service_ok s \<and> d \<in> {''upstream'', ''downstream'', ''both''})"

text \<open>Reading the fields of a request out of a dict; \<open>to_int\<close> is Pydantic's conversion to \<open>int\<close>.\<close>

fun as_str :: "jval \<Rightarrow> string option" where
  "as_str (JStr s) = Some s"
| "as_str _ = None"

fun as_str_list :: "jval \<Rightarrow> string list option" where
  "as_str_list (JList vs) = those (map as_str vs)"
| "as_str_list _ = None"

fun as_opt_str :: "jval \<Rightarrow> string option option" where
  "as_opt_str JNull = Some None"
| "as_opt_str v = map_option Some (as_str v)"

definition need :: "(jval \<Rightarrow> 'a option) \<Rightarrow> jdict \<Rightarrow> string \<Rightarrow> 'a option" where
  "need conv d k = Option.bind (map_of d k) conv"

definition field :: "(jval \<Rightarrow> 'a option) \<Rightarrow> jdict \<Rightarrow> string \<Rightarrow> 'a \<Rightarrow> 'a option" where
  "field conv d k dflt = (case map_of d k of None \<Rightarrow> Some dflt | Some v \<Rightarrow> conv v)"

definition only_fields :: "string list \<Rightarrow> jdict \<Rightarrow> bool" where
  "only_fields ks d \<longleftrightarrow> set (map fst d) \<subseteq> set ks"

fun read_request :: "(jval \<Rightarrow> int option) \<Rightarrow> tool_name \<Rightarrow> jdict \<Rightarrow> request option" where
  "read_request to_int T_INCIDENT d =
     (if only_fields [''incident_id''] d
      then map_option RQ_INCIDENT (need as_str d ''incident_id'') else None)"
| "read_request to_int T_TIMELINE d =
     (if only_fields [''incident_id''] d
      then map_option RQ_TIMELINE (need as_str d ''incident_id'') else None)"
| "read_request to_int T_ANOMALY d =
     (if only_fields [''incident_id'', ''limit''] d
      then Option.bind (need as_str d ''incident_id'') (\<lambda>i.
           map_option (RQ_ANOMALY i) (field to_int d ''limit'' 20)) else None)"
| "read_request to_int T_RELATED d =
     (if only_fields [''service'', ''lookback_hours'', ''status'', ''limit''] d
      then Option.bind (need as_str d ''service'') (\<lambda>s.
           Option.bind (field to_int d ''lookback_hours'' 168) (\<lambda>h.
           Option.bind (field as_opt_str d ''status'' None) (\<lambda>st.
           map_option (RQ_RELATED s h st) (field to_int d ''limit'' 10)))) else None)"
| "read_request to_int T_METRICS d =
     (if only_fields [''service'', ''metric_names''] d
      then Option.bind (need as_str d ''service'') (\<lambda>s.
           map_option (RQ_METRICS s) (need as_str_list d ''metric_names'')) else None)"
| "read_request to_int T_HEALTH d =
     (if only_fields [''service''] d then map_option RQ_HEALTH (need as_str d ''service'') else None)"
| "read_request to_int T_LOGS d =
     (if only_fields [''service'', ''lookback_minutes'', ''limit'', ''contains''] d
      then Option.bind (need as_str d ''service'') (\<lambda>s.
           Option.bind (field to_int d ''lookback_minutes'' 30) (\<lambda>m.
           Option.bind (field to_int d ''limit'' 100) (\<lambda>l.
           map_option (RQ_LOGS s m l) (field as_opt_str d ''contains'' None)))) else None)"
| "read_request to_int T_TRACES d =
     (if only_fields [''service'', ''trace_id'', ''lookback_minutes'', ''limit''] d
      then Option.bind (need as_str d ''service'') (\<lambda>s.
           Option.bind (field as_opt_str d ''trace_id'' None) (\<lambda>t.
           Option.bind (field to_int d ''lookback_minutes'' 30) (\<lambda>m.
           map_option (RQ_TRACES s t m) (field to_int d ''limit'' 20)))) else None)"
| "read_request to_int T_DEPLOYMENTS d =
     (if only_fields [''service'', ''lookback_hours''] d
      then Option.bind (need as_str d ''service'') (\<lambda>s.
           map_option (RQ_DEPLOYMENTS s) (field to_int d ''lookback_hours'' 48)) else None)"
| "read_request to_int T_DEPENDENCIES d =
     (if only_fields [''service'', ''direction''] d
      then Option.bind (need as_str d ''service'') (\<lambda>s.
           map_option (RQ_DEPENDENCIES s) (field as_str d ''direction'' ''both'')) else None)"

text \<open>\<open>request_model.model_validate\<close>, and \<open>model_dump(mode="json")\<close>.\<close>

definition parse_request :: "(jval \<Rightarrow> int option) \<Rightarrow> tool_name \<Rightarrow> jdict \<Rightarrow> request option" where
  "parse_request to_int n d =
     Option.bind (read_request to_int n d) (\<lambda>r. if request_ok r then Some r else None)"

definition jint :: "int \<Rightarrow> jval" where
  "jint i = JNum (of_int i)"

definition jopt :: "('a \<Rightarrow> jval) \<Rightarrow> 'a option \<Rightarrow> jval" where
  "jopt f x = (case x of None \<Rightarrow> JNull | Some v \<Rightarrow> f v)"

definition jstrs :: "string list \<Rightarrow> jval" where
  "jstrs xs = JList (map JStr xs)"

fun dump_request :: "request \<Rightarrow> jdict" where
  "dump_request (RQ_INCIDENT i) = [(''incident_id'', JStr i)]"
| "dump_request (RQ_TIMELINE i) = [(''incident_id'', JStr i)]"
| "dump_request (RQ_ANOMALY i l) = [(''incident_id'', JStr i), (''limit'', jint l)]"
| "dump_request (RQ_RELATED s h st l) =
     [(''service'', JStr s), (''lookback_hours'', jint h), (''status'', jopt JStr st), (''limit'', jint l)]"
| "dump_request (RQ_METRICS s ms) = [(''service'', JStr s), (''metric_names'', jstrs ms)]"
| "dump_request (RQ_HEALTH s) = [(''service'', JStr s)]"
| "dump_request (RQ_LOGS s m l c) =
     [(''service'', JStr s), (''lookback_minutes'', jint m), (''limit'', jint l), (''contains'', jopt JStr c)]"
| "dump_request (RQ_TRACES s t m l) =
     [(''service'', JStr s), (''trace_id'', jopt JStr t), (''lookback_minutes'', jint m), (''limit'', jint l)]"
| "dump_request (RQ_DEPLOYMENTS s h) = [(''service'', JStr s), (''lookback_hours'', jint h)]"
| "dump_request (RQ_DEPENDENCIES s d) = [(''service'', JStr s), (''direction'', JStr d)]"

section \<open>Payloads\<close>

record incident_payload =
  ip_id :: string
  ip_correlation_key :: string
  ip_service :: string
  ip_environment :: string
  ip_status :: string
  ip_severity :: string
  ip_title :: string
  ip_anomaly_count :: int
  ip_distinct :: int
  ip_started :: datetime
  ip_last_evidence :: datetime
  ip_created :: datetime
  ip_updated :: datetime
  ip_resolved :: "datetime option"
  ip_acknowledged :: "datetime option"
  ip_resolution :: "string option"
  ip_reasons :: "string list"
  ip_signal_names :: "string list"
  ip_max_score :: rat
  ip_max_error_rate :: rat
  ip_max_latency :: rat
  ip_detector :: string
  ip_duration :: rat

record anomaly_payload =
  ay_event_id :: string
  ay_detector :: string
  ay_version :: string
  ay_score :: rat
  ay_threshold :: rat
  ay_window_start :: datetime
  ay_window_end :: datetime
  ay_signals :: "(string, rat) dict"
  ay_abnormal :: "string list"
  ay_trace :: "string option"
  ay_occurred :: datetime
  ay_reason :: string

record transition_payload =
  tn_from :: "string option"
  tn_to :: string
  tn_actor :: string
  tn_reason :: string
  tn_severity :: "string option"
  tn_created :: datetime

record related_payload =
  rl_id :: string
  rl_service :: string
  rl_environment :: string
  rl_status :: string
  rl_severity :: string
  rl_title :: string
  rl_anomaly_count :: int
  rl_started :: datetime
  rl_created :: datetime
  rl_resolved :: "datetime option"

record metric_series =
  ms_name :: string
  ms_present :: bool
  ms_samples :: "sample list"

record metrics_payload =
  mp_service :: string
  mp_scraped :: datetime
  mp_note :: string
  mp_series :: "metric_series list"

record health_payload =
  hp_service :: string
  hp_checked :: datetime
  hp_health :: string
  hp_readiness :: string
  hp_detail :: "(string, string) dict"

section \<open>Outside\<close>

datatype http_reply = H_TIMEOUT | H_ERROR | H_RESPONSE int string "jval option"

record rca_env =
  en_clock :: "nat \<Rightarrow> datetime"
  en_get :: "nat \<Rightarrow> string \<Rightarrow> (string \<times> string) list \<Rightarrow> http_reply"
  en_int :: "jval \<Rightarrow> int option"
  en_first_error :: "tool_name \<Rightarrow> jdict \<Rightarrow> string \<times> string"
  en_incident :: "jval \<Rightarrow> incident_payload option"
  en_anomalies :: "jval \<Rightarrow> anomaly_payload list option"
  en_history :: "jval \<Rightarrow> transition_payload list option"
  en_related :: "jval \<Rightarrow> related_payload list option"
  en_datetime :: "datetime \<Rightarrow> string"
  en_float :: "pyfloat \<Rightarrow> jval"
  en_str :: "jval \<Rightarrow> string"

record rca_config =
  rc_mode :: string
  rc_api_base :: string
  rc_metrics_urls :: "(string, string) dict"
  rc_health_urls :: "(string, string) dict"
  rc_limits :: resource_limits

definition read_clock :: "'e rca_env_scheme \<Rightarrow> datetime act" where
  "read_clock env =
     then_do (reads wd_ticks) (\<lambda>n.
     then_do (writes (\<lambda>w. w\<lparr>wd_ticks := Suc n\<rparr>)) (\<lambda>_. ret (en_clock env n)))"

definition http_get :: "'e rca_env_scheme \<Rightarrow> string \<Rightarrow> (string \<times> string) list \<Rightarrow> http_reply act" where
  "http_get env url params =
     then_do (reads wd_calls) (\<lambda>n.
     then_do (writes (\<lambda>w. w\<lparr>wd_calls := Suc n\<rparr>)) (\<lambda>_. ret (en_get env n url params)))"

definition jdt :: "'e rca_env_scheme \<Rightarrow> datetime \<Rightarrow> jval" where
  "jdt env t = JStr (en_datetime env t)"

definition dump_incident :: "'e rca_env_scheme \<Rightarrow> incident_payload \<Rightarrow> jdict" where
  "dump_incident env p =
     [(''id'', JStr (ip_id p)), (''correlation_key'', JStr (ip_correlation_key p)),
      (''service'', JStr (ip_service p)), (''environment'', JStr (ip_environment p)),
      (''status'', JStr (ip_status p)), (''severity'', JStr (ip_severity p)), (''title'', JStr (ip_title p)),
      (''anomaly_count'', jint (ip_anomaly_count p)), (''distinct_abnormal_signals'', jint (ip_distinct p)),
      (''started_at'', jdt env (ip_started p)), (''last_evidence_at'', jdt env (ip_last_evidence p)),
      (''created_at'', jdt env (ip_created p)), (''updated_at'', jdt env (ip_updated p)),
      (''resolved_at'', jopt (jdt env) (ip_resolved p)), (''acknowledged_at'', jopt (jdt env) (ip_acknowledged p)),
      (''resolution'', jopt JStr (ip_resolution p)), (''severity_reasons'', jstrs (ip_reasons p)),
      (''abnormal_signal_names'', jstrs (ip_signal_names p)), (''max_anomaly_score'', JNum (ip_max_score p)),
      (''max_error_rate'', JNum (ip_max_error_rate p)), (''max_latency_p95_ms'', JNum (ip_max_latency p)),
      (''detector'', JStr (ip_detector p)), (''duration_seconds'', JNum (ip_duration p))]"

definition dump_anomaly :: "'e rca_env_scheme \<Rightarrow> anomaly_payload \<Rightarrow> jdict" where
  "dump_anomaly env p =
     [(''event_id'', JStr (ay_event_id p)), (''detector'', JStr (ay_detector p)),
      (''detector_version'', JStr (ay_version p)), (''anomaly_score'', JNum (ay_score p)),
      (''threshold'', JNum (ay_threshold p)), (''window_start'', jdt env (ay_window_start p)),
      (''window_end'', jdt env (ay_window_end p)),
      (''signals'', JObj (map (\<lambda>(k, v). (k, JNum v)) (ay_signals p))),
      (''abnormal_signals'', jstrs (ay_abnormal p)), (''trace_id'', jopt JStr (ay_trace p)),
      (''occurred_at'', jdt env (ay_occurred p)), (''correlation_reason'', JStr (ay_reason p))]"

definition dump_transition :: "'e rca_env_scheme \<Rightarrow> transition_payload \<Rightarrow> jdict" where
  "dump_transition env p =
     [(''from_status'', jopt JStr (tn_from p)), (''to_status'', JStr (tn_to p)), (''actor'', JStr (tn_actor p)),
      (''reason'', JStr (tn_reason p)), (''severity_at_transition'', jopt JStr (tn_severity p)),
      (''created_at'', jdt env (tn_created p))]"

definition dump_related :: "'e rca_env_scheme \<Rightarrow> related_payload \<Rightarrow> jdict" where
  "dump_related env p =
     [(''id'', JStr (rl_id p)), (''service'', JStr (rl_service p)), (''environment'', JStr (rl_environment p)),
      (''status'', JStr (rl_status p)), (''severity'', JStr (rl_severity p)), (''title'', JStr (rl_title p)),
      (''anomaly_count'', jint (rl_anomaly_count p)), (''started_at'', jdt env (rl_started p)),
      (''created_at'', jdt env (rl_created p)), (''resolved_at'', jopt (jdt env) (rl_resolved p))]"

definition dump_sample :: "'e rca_env_scheme \<Rightarrow> sample \<Rightarrow> jval" where
  "dump_sample env s =
     JObj [(''labels'', JObj (map (\<lambda>(k, v). (k, JStr v)) (sm_labels s))), (''value'', en_float env (sm_value s))]"

definition dump_series :: "'e rca_env_scheme \<Rightarrow> metric_series \<Rightarrow> jval" where
  "dump_series env s =
     JObj [(''metric_name'', JStr (ms_name s)), (''present'', JBool (ms_present s)),
           (''samples'', JList (map (dump_sample env) (ms_samples s)))]"

definition dump_metrics :: "'e rca_env_scheme \<Rightarrow> metrics_payload \<Rightarrow> jdict" where
  "dump_metrics env p =
     [(''service'', JStr (mp_service p)), (''scraped_at'', jdt env (mp_scraped p)), (''note'', JStr (mp_note p)),
      (''series'', JList (map (dump_series env) (mp_series p)))]"

definition dump_health :: "'e rca_env_scheme \<Rightarrow> health_payload \<Rightarrow> jdict" where
  "dump_health env p =
     [(''service'', JStr (hp_service p)), (''checked_at'', jdt env (hp_checked p)), (''health'', JStr (hp_health p)),
      (''readiness'', JStr (hp_readiness p)), (''detail'', JObj (map (\<lambda>(k, v). (k, JStr v)) (hp_detail p)))]"

section \<open>Outcomes\<close>

record tool_error =
  te_code :: tool_code
  te_message :: string
  te_retriable :: bool

record tool_result =
  tr_tool :: tool_name
  tr_status :: tool_code
  tr_evidence :: "evidence_item list"
  tr_error :: "tool_error option"
  tr_summary :: string
  tr_query :: jdict

definition tr_ok :: "tool_result \<Rightarrow> bool" where
  "tr_ok r \<longleftrightarrow> tr_status r = TC_OK"

definition retriable :: "tool_code \<Rightarrow> bool" where
  "retriable c \<longleftrightarrow> c \<in> {TC_UPSTREAM_TIMEOUT, TC_UPSTREAM_UNAVAILABLE}"

text \<open>The constructors check the lengths their schemas declare.\<close>

definition tool_failure :: "tool_name \<Rightarrow> tool_code \<Rightarrow> string \<Rightarrow> jdict \<Rightarrow> tool_result act" where
  "tool_failure n c msg query =
     then_do (check (length msg \<le> 500) validation_error) (\<lambda>_.
       ret \<lparr>tr_tool = n, tr_status = c, tr_evidence = [],
            tr_error = Some \<lparr>te_code = c, te_message = msg, te_retriable = retriable c\<rparr>,
            tr_summary = tool_str n @ '': '' @ tool_code_str c, tr_query = query\<rparr>)"

definition tool_success :: "request \<Rightarrow> evidence_item list \<Rightarrow> string \<Rightarrow> tool_result act" where
  "tool_success rq evs summary =
     then_do (check (length summary \<le> 500) validation_error) (\<lambda>_.
       ret \<lparr>tr_tool = request_tool rq, tr_status = TC_OK, tr_evidence = evs, tr_error = None,
            tr_summary = summary, tr_query = dump_request rq\<rparr>)"

definition unexpected_failure :: "tool_name \<Rightarrow> jdict \<Rightarrow> tool_result" where
  "unexpected_failure n query =
     \<lparr>tr_tool = n, tr_status = TC_UPSTREAM_UNAVAILABLE, tr_evidence = [],
      tr_error = Some \<lparr>te_code = TC_UPSTREAM_UNAVAILABLE,
        te_message = ''the evidence tool failed unexpectedly'', te_retriable = True\<rparr>,
      tr_summary = tool_str n @ '': unexpected failure'', tr_query = query\<rparr>"

section \<open>Evidence\<close>

definition evidence_id :: "nat \<Rightarrow> string" where
  "evidence_id n = ''ev_'' @ pad 3 (nat_str n)"

definition next_evidence_id :: "string act" where
  "next_evidence_id =
     then_do (reads (\<lambda>w. Suc (wd_issued w))) (\<lambda>n.
     then_do (writes (\<lambda>w. w\<lparr>wd_issued := n\<rparr>)) (\<lambda>_. ret (evidence_id n)))"

definition remaining_evidence :: "resource_limits \<Rightarrow> rca_world \<Rightarrow> nat" where
  "remaining_evidence l w = rl_evidence l - wd_issued w"

definition build_evidence ::
  "'e rca_env_scheme \<Rightarrow> source_type \<Rightarrow> tool_name \<Rightarrow> string \<Rightarrow> string \<Rightarrow> jdict \<Rightarrow> string option \<Rightarrow>
   datetime option \<Rightarrow> evidence_item act" where
  "build_evidence env src n reference summary content service observed =
     then_do next_evidence_id (\<lambda>i.
     then_do (read_clock env) (\<lambda>now.
     then_do (check (opt_ok (\<lambda>s. length s \<le> 128) service) validation_error) (\<lambda>_.
       ret \<lparr>rv_id = i, rv_source = src, rv_reference = take 500 reference, rv_trust = TRUSTED_SYSTEM,
            rv_tool = tool_str n, rv_service = service, rv_summary = take 2000 summary,
            rv_content = content, rv_observed = observed, rv_collected = now\<rparr>)))"

section \<open>Incident API client\<close>

definition rstrip_slash :: "string \<Rightarrow> string" where
  "rstrip_slash s = rev (dropWhile (\<lambda>c. c = CHR ''/'') (rev s))"

definition get_json :: "'e rca_env_scheme \<Rightarrow> rca_config \<Rightarrow> string \<Rightarrow> (string \<times> string) list \<Rightarrow> jval act" where
  "get_json env cfg path params =
     then_do (http_get env (rstrip_slash (rc_api_base cfg) @ path) params) (\<lambda>reply.
       case reply of
         H_TIMEOUT \<Rightarrow> throw (E_TOOL TC_UPSTREAM_TIMEOUT ''the incident API request timed out'')
       | H_ERROR \<Rightarrow> throw (E_TOOL TC_UPSTREAM_UNAVAILABLE ''could not reach the incident API'')
       | H_RESPONSE status text json \<Rightarrow>
           if status = 404 then throw (E_TOOL TC_NOT_FOUND ''the incident was not found'')
           else if 500 \<le> status then throw (E_TOOL TC_UPSTREAM_UNAVAILABLE ''the incident API returned a server error'')
           else if status \<noteq> 200 then
             throw (E_TOOL TC_UPSTREAM_UNAVAILABLE (''the incident API returned status '' @ int_str status))
           else (case json of
               None \<Rightarrow> throw (E_TOOL TC_MALFORMED_RESPONSE ''the incident API returned a non-JSON response'')
             | Some v \<Rightarrow> ret v))"

definition validated :: "'a option \<Rightarrow> string \<Rightarrow> 'a act" where
  "validated x msg = (case x of None \<Rightarrow> throw (E_TOOL TC_MALFORMED_RESPONSE msg) | Some v \<Rightarrow> ret v)"

definition api_get_incident :: "'e rca_env_scheme \<Rightarrow> rca_config \<Rightarrow> string \<Rightarrow> incident_payload act" where
  "api_get_incident env cfg i =
     then_do (get_json env cfg (''/incidents/'' @ i) []) (\<lambda>v.
       validated (en_incident env v) ''the incident API response did not match the expected shape'')"

definition api_get_evidence :: "'e rca_env_scheme \<Rightarrow> rca_config \<Rightarrow> string \<Rightarrow> anomaly_payload list act" where
  "api_get_evidence env cfg i =
     then_do (get_json env cfg (''/incidents/'' @ i @ ''/evidence'') []) (\<lambda>v.
       validated (en_anomalies env v) ''the incident evidence response was malformed'')"

definition api_get_history :: "'e rca_env_scheme \<Rightarrow> rca_config \<Rightarrow> string \<Rightarrow> transition_payload list act" where
  "api_get_history env cfg i =
     then_do (get_json env cfg (''/incidents/'' @ i @ ''/history'') []) (\<lambda>v.
       validated (en_history env v) ''the incident history response was malformed'')"

definition api_list_incidents ::
  "'e rca_env_scheme \<Rightarrow> rca_config \<Rightarrow> string \<Rightarrow> int \<Rightarrow> string option \<Rightarrow> int \<Rightarrow> related_payload list act" where
  "api_list_incidents env cfg service hours status limit =
     then_do (read_clock env) (\<lambda>now.
     then_do (get_json env cfg ''/incidents''
       ([(''service'', service), (''since'', isoformat (now - hours * 3600000000)), (''limit'', int_str limit)] @
        (case status of None \<Rightarrow> [] | Some s \<Rightarrow> [(''status'', s)]))) (\<lambda>v.
       validated (en_related env v) ''the incident list response was malformed''))"

section \<open>Service clients\<close>

definition unknown_service :: "string \<Rightarrow> exn" where
  "unknown_service service =
     E_TOOL TC_UNSUPPORTED_SERVICE
       (''service '' @ repr_str service @ '' is not in the metrics/health allow-list'')"

definition MAX_BODY_BYTES :: nat where "MAX_BODY_BYTES = 2000000"

definition scrape :: "'e rca_env_scheme \<Rightarrow> rca_config \<Rightarrow> string \<Rightarrow> string list \<Rightarrow> metrics_payload act" where
  "scrape env cfg service names =
     (case map_of (rc_metrics_urls cfg) service of
        None \<Rightarrow> throw (unknown_service service)
      | Some url \<Rightarrow>
          then_do (http_get env url []) (\<lambda>reply.
            case reply of
              H_TIMEOUT \<Rightarrow> throw (E_TOOL TC_UPSTREAM_TIMEOUT (''scraping '' @ service @ '' metrics timed out''))
            | H_ERROR \<Rightarrow> throw (E_TOOL TC_UPSTREAM_UNAVAILABLE (''could not reach '' @ service @ '' metrics''))
            | H_RESPONSE status text json \<Rightarrow>
                if status \<noteq> 200 then
                  throw (E_TOOL TC_UPSTREAM_UNAVAILABLE
                    (service @ '' metrics returned status '' @ int_str status))
                else
                  let found = parse_exposition (take MAX_BODY_BYTES text) (set names) in
                  then_do (read_clock env) (\<lambda>now.
                    ret \<lparr>mp_service = service, mp_scraped = now,
                      mp_note = ''point-in-time scrape; no historical time range is queryable'',
                      mp_series = map (\<lambda>m. \<lparr>ms_name = m, ms_present = map_of found m \<noteq> None,
                        ms_samples = (case map_of found m of None \<Rightarrow> [] | Some b \<Rightarrow> b)\<rparr>) names\<rparr>)))"

definition py_str :: "'e rca_env_scheme \<Rightarrow> jval \<Rightarrow> string" where
  "py_str env v = (case v of JStr s \<Rightarrow> s | JBool b \<Rightarrow> bool_str b | JNull \<Rightarrow> ''None'' | _ \<Rightarrow> en_str env v)"

definition probe :: "'e rca_env_scheme \<Rightarrow> string \<Rightarrow> string \<Rightarrow> (int option \<times> (string, string) dict) act" where
  "probe env base path =
     then_do (http_get env (rstrip_slash base @ path) []) (\<lambda>reply.
       ret (case reply of
          H_RESPONSE status text json \<Rightarrow>
            (Some status, case json of
               Some (JObj kvs) \<Rightarrow> map (\<lambda>(k, v). (k, take 120 (py_str env v))) (take 10 kvs)
             | _ \<Rightarrow> [])
        | _ \<Rightarrow> (None, [])))"

definition health_word :: "int option \<Rightarrow> string" where
  "health_word c = (case c of None \<Rightarrow> ''unknown'' | Some s \<Rightarrow> if s = 200 then ''ok'' else ''down'')"

definition readiness_word :: "int option \<Rightarrow> string" where
  "readiness_word c =
     (case c of None \<Rightarrow> ''unknown''
      | Some s \<Rightarrow> if s = 200 then ''ok'' else if s = 503 then ''not_ready'' else ''down'')"

definition check_health :: "'e rca_env_scheme \<Rightarrow> rca_config \<Rightarrow> string \<Rightarrow> health_payload act" where
  "check_health env cfg service =
     (case map_of (rc_health_urls cfg) service of
        None \<Rightarrow> throw (unknown_service service)
      | Some base \<Rightarrow>
          then_do (probe env base ''/health'') (\<lambda>(health_code, health_detail).
          then_do (probe env base ''/ready'') (\<lambda>(ready_code, ready_detail).
          then_do (read_clock env) (\<lambda>now.
            ret \<lparr>hp_service = service, hp_checked = now, hp_health = health_word health_code,
                 hp_readiness = readiness_word ready_code,
                 hp_detail = foldl (\<lambda>d (k, v). AList.update k v d) health_detail ready_detail\<rparr>))))"

section \<open>Tools\<close>

definition run_get_incident :: "'e rca_env_scheme \<Rightarrow> rca_config \<Rightarrow> string \<Rightarrow> tool_result act" where
  "run_get_incident env cfg i =
     then_do (api_get_incident env cfg i) (\<lambda>p.
     then_do (build_evidence env SRC_INCIDENT T_INCIDENT
        (''incident-api:GET /incidents/'' @ ip_id p)
        (''Incident '' @ ip_id p @ '' on '' @ ip_service p @ '' ('' @ ip_environment p @ ''): '' @ ip_severity p @
          '' '' @ ip_status p @ '', '' @ int_str (ip_anomaly_count p) @ '' anomaly window(s)'')
        (dump_incident env p) (Some (ip_service p)) (Some (ip_started p))) (\<lambda>ev.
       tool_success (RQ_INCIDENT i) [ev] (''loaded incident '' @ ip_id p)))"

definition run_get_timeline :: "'e rca_env_scheme \<Rightarrow> rca_config \<Rightarrow> string \<Rightarrow> tool_result act" where
  "run_get_timeline env cfg i =
     then_do (api_get_history env cfg i) (\<lambda>hs.
     then_do (build_evidence env SRC_INCIDENT T_TIMELINE
        (''incident-api:GET /incidents/'' @ i @ ''/history'')
        (nat_str (length hs) @ '' lifecycle transition(s) for incident '' @ i)
        [(''incident_id'', JStr i), (''transitions'', JList (map (\<lambda>h. JObj (dump_transition env h)) hs))]
        None None) (\<lambda>ev.
       tool_success (RQ_TIMELINE i) [ev] (''loaded '' @ nat_str (length hs) @ '' transition(s)'')))"

definition budget_exhausted :: exn where
  "budget_exhausted = E_TOOL TC_LIMIT_EXCEEDED ''the investigation evidence budget is exhausted''"

definition or_none :: "string list \<Rightarrow> string \<Rightarrow> string" where
  "or_none xs dflt = (if join '', '' xs = [] then dflt else join '', '' xs)"

definition anomaly_evidence :: "'e rca_env_scheme \<Rightarrow> string \<Rightarrow> anomaly_payload \<Rightarrow> evidence_item act" where
  "anomaly_evidence env i p =
     build_evidence env SRC_ANOMALY T_ANOMALY
       (''incident-api:GET /incidents/'' @ i @ ''/evidence#'' @ ay_event_id p)
       (''anomaly '' @ ay_detector p @ '' score='' @ fixed_str 3 (ay_score p) @ '' (threshold '' @
         fixed_str 3 (ay_threshold p) @ ''); abnormal: '' @ or_none (ay_abnormal p) ''none'')
       (dump_anomaly env p) None (Some (ay_window_start p))"

definition run_get_anomalies :: "'e rca_env_scheme \<Rightarrow> rca_config \<Rightarrow> string \<Rightarrow> int \<Rightarrow> tool_result act" where
  "run_get_anomalies env cfg i limit =
     then_do (reads (remaining_evidence (rc_limits cfg))) (\<lambda>budget.
       if budget = 0 then throw budget_exhausted
       else
         then_do (api_get_evidence env cfg i) (\<lambda>items.
         then_do (map_act (anomaly_evidence env i) (take (min (nat limit) budget) items)) (\<lambda>evs.
           tool_success (RQ_ANOMALY i limit) evs
             (''loaded '' @ nat_str (length evs) @ '' of '' @ nat_str (length items) @ '' anomaly window(s)''))))"

definition related_evidence :: "'e rca_env_scheme \<Rightarrow> string \<Rightarrow> related_payload \<Rightarrow> evidence_item act" where
  "related_evidence env service p =
     build_evidence env SRC_RELATED_INCIDENT T_RELATED
       (''incident-api:GET /incidents?service='' @ service @ ''#'' @ rl_id p)
       (''related incident '' @ rl_id p @ '': '' @ rl_severity p @ '' '' @ rl_status p @ '' - '' @ rl_title p)
       (dump_related env p) (Some (rl_service p)) (Some (rl_started p))"

definition run_get_related ::
  "'e rca_env_scheme \<Rightarrow> rca_config \<Rightarrow> string \<Rightarrow> int \<Rightarrow> string option \<Rightarrow> int \<Rightarrow> tool_result act" where
  "run_get_related env cfg service hours status limit =
     then_do (reads (remaining_evidence (rc_limits cfg))) (\<lambda>budget.
       if budget = 0 then throw budget_exhausted
       else
         then_do (api_list_incidents env cfg service hours status limit) (\<lambda>items.
         then_do (map_act (related_evidence env service) (take (min (nat limit) budget) items)) (\<lambda>evs.
           tool_success (RQ_RELATED service hours status limit) evs
             (''found '' @ nat_str (length items) @ '' related incident(s) for '' @ service))))"

definition run_get_metrics :: "'e rca_env_scheme \<Rightarrow> rca_config \<Rightarrow> string \<Rightarrow> string list \<Rightarrow> tool_result act" where
  "run_get_metrics env cfg service names =
     then_do (scrape env cfg service names) (\<lambda>p.
       let present = map ms_name (filter ms_present (mp_series p)) in
       then_do (build_evidence env SRC_METRIC T_METRICS
          (''metrics:'' @ service @ ''/metrics'')
          (service @ '' point-in-time metrics; present: '' @ or_none present ''none of the requested names'')
          (dump_metrics env p) (Some service) (Some (mp_scraped p))) (\<lambda>ev.
         tool_success (RQ_METRICS service names) [ev]
           (''scraped '' @ nat_str (length present) @ ''/'' @ nat_str (length names) @ '' requested metric(s)'')))"

definition run_get_health :: "'e rca_env_scheme \<Rightarrow> rca_config \<Rightarrow> string \<Rightarrow> tool_result act" where
  "run_get_health env cfg service =
     then_do (check_health env cfg service) (\<lambda>p.
     then_do (build_evidence env SRC_SERVICE_HEALTH T_HEALTH
        (''health:'' @ service @ ''/health+/ready'')
        (service @ '': health='' @ hp_health p @ '', readiness='' @ hp_readiness p)
        (dump_health env p) (Some service) (Some (hp_checked p))) (\<lambda>ev.
       tool_success (RQ_HEALTH service) [ev] (''health='' @ hp_health p @ '' readiness='' @ hp_readiness p)))"

text \<open>\<open>_run\<close> of the tool that a request belongs to; the last four tools are refused before it.\<close>

fun run_request :: "'e rca_env_scheme \<Rightarrow> rca_config \<Rightarrow> request \<Rightarrow> tool_result act" where
  "run_request env cfg (RQ_INCIDENT i) = run_get_incident env cfg i"
| "run_request env cfg (RQ_TIMELINE i) = run_get_timeline env cfg i"
| "run_request env cfg (RQ_ANOMALY i l) = run_get_anomalies env cfg i l"
| "run_request env cfg (RQ_RELATED s h st l) = run_get_related env cfg s h st l"
| "run_request env cfg (RQ_METRICS s ms) = run_get_metrics env cfg s ms"
| "run_request env cfg (RQ_HEALTH s) = run_get_health env cfg s"
| "run_request env cfg rq =
     tool_failure (request_tool rq) TC_SOURCE_UNAVAILABLE
       (tool_str (request_tool rq) @ '' has no backing data source in this deployment'') []"

definition unavailable_message :: "tool_name \<Rightarrow> string" where
  "unavailable_message n =
     tool_str n @ '' is not available in this deployment (the backing data source is not deployed)''"

definition invalid_input_message :: "'e rca_env_scheme \<Rightarrow> tool_name \<Rightarrow> jdict \<Rightarrow> string" where
  "invalid_input_message env n d =
     (case en_first_error env n d of (loc, msg) \<Rightarrow> take 500 (''invalid input at '' @ repr_str loc @ '': '' @ msg))"

definition tool_run :: "'e rca_env_scheme \<Rightarrow> rca_config \<Rightarrow> tool_name \<Rightarrow> jdict \<Rightarrow> tool_result act" where
  "tool_run env cfg n raw =
     (if n \<notin> AVAILABLE_TOOLS then tool_failure n TC_SOURCE_UNAVAILABLE (unavailable_message n) raw
      else case parse_request (en_int env) n raw of
        None \<Rightarrow> tool_failure n TC_INVALID_INPUT (invalid_input_message env n raw) raw
      | Some rq \<Rightarrow>
          handle (run_request env cfg rq)
            (\<lambda>e. case e of
               E_TOOL c msg \<Rightarrow> tool_failure n c msg (dump_request rq)
             | _ \<Rightarrow> ret (unexpected_failure n (dump_request rq))))"

end
