(* ===== verification/RcaSynthesis.thy ===== *)
theory RcaSynthesis imports RcaTools begin

text \<open>
  What the model proposes (\<open>llm/base.py\<close>), the infrastructure an investigation closes over
  (\<open>engine/deps.py\<close>), and the deterministic assembly of a report from a proposal
  (\<open>engine/synthesis.py\<close>). A model client is four functions of the number of outside calls made so
  far; it may raise at any of them. The tool catalogue a plan request carries is the same for every
  request and is left out of it.
\<close>

section \<open>Proposals\<close>

record planned_call =
  pc_tool :: string
  pc_arguments :: jdict
  pc_reason :: string

record proposed_finding =
  pf_statement :: string
  pf_type :: finding_type
  pf_evidence :: "string list"
  pf_confidence :: confidence

record proposed_hypothesis =
  ph_statement :: string
  ph_supporting :: "string list"
  ph_contradicting :: "string list"
  ph_assessment :: string

record proposed_root_cause =
  pt_statement :: string
  pt_confidence :: confidence
  pt_evidence :: "string list"
  pt_reasoning :: string

record proposed_action =
  pa_type :: recommended_type
  pa_target :: "string option"
  pa_description :: string
  pa_rationale :: string
  pa_evidence :: "string list"

record proposed_timeline =
  pe_at :: datetime
  pe_description :: string
  pe_evidence :: "string list"

record plan_result =
  pl_calls :: "planned_call list"
  pl_rationale :: string

record analysis_result =
  al_findings :: "proposed_finding list"
  al_hypotheses :: "proposed_hypothesis list"

record verdict_item =
  vi_index :: nat
  vi_verdict :: hypothesis_verdict
  vi_assessment :: string

record verification_result =
  vf_verdicts :: "verdict_item list"
  vf_needs_more :: bool
  vf_calls :: "planned_call list"

datatype conclusion = CONCLUDE_COMPLETED | CONCLUDE_INSUFFICIENT

fun conclusion_str :: "conclusion \<Rightarrow> string" where
  "conclusion_str CONCLUDE_COMPLETED = ''completed''"
| "conclusion_str CONCLUDE_INSUFFICIENT = ''insufficient_evidence''"

record synthesis_result =
  sy_conclusion :: conclusion
  sy_summary :: string
  sy_root_cause :: "proposed_root_cause option"
  sy_factors :: "proposed_finding list"
  sy_action :: proposed_action
  sy_confidence :: confidence
  sy_uncertainty :: string
  sy_timeline :: "proposed_timeline list"

section \<open>Requests to the model\<close>

record plan_request =
  qp_incident :: jdict
  qp_evidence :: "evidence_item list"
  qp_repair :: "string list"

record analyze_request =
  qa_incident :: jdict
  qa_evidence :: "evidence_item list"

record verify_request =
  qv_incident :: jdict
  qv_evidence :: "evidence_item list"
  qv_findings :: "proposed_finding list"
  qv_hypotheses :: "proposed_hypothesis list"
  qv_reanalysis :: bool

record synthesize_request =
  qs_incident :: jdict
  qs_investigation :: string
  qs_evidence :: "evidence_item list"
  qs_findings :: "proposed_finding list"
  qs_hypotheses :: "hypothesis list"
  qs_repair :: "string list"

text \<open>An exception of the client: an \<open>LlmError\<close>, or one of another class, by its name.\<close>

datatype llm_raise = RAISE_LLM llm_error string | RAISE_OTHER string

fun raise_exn :: "llm_raise \<Rightarrow> exn" where
  "raise_exn (RAISE_LLM k m) = E_LLM k m"
| "raise_exn (RAISE_OTHER n) = E_OTHER n"

record llm_client =
  lm_provider :: string
  lm_model :: "string option"
  lm_plan :: "nat \<Rightarrow> plan_request \<Rightarrow> llm_raise + plan_result"
  lm_analyze :: "nat \<Rightarrow> analyze_request \<Rightarrow> llm_raise + analysis_result"
  lm_verify :: "nat \<Rightarrow> verify_request \<Rightarrow> llm_raise + verification_result"
  lm_synthesize :: "nat \<Rightarrow> synthesize_request \<Rightarrow> llm_raise + synthesis_result"

definition ask :: "(nat \<Rightarrow> 'q \<Rightarrow> llm_raise + 'r) \<Rightarrow> 'q \<Rightarrow> 'r act" where
  "ask f q =
     then_do (reads wd_calls) (\<lambda>n.
     then_do (writes (\<lambda>w. w\<lparr>wd_calls := Suc n\<rparr>)) (\<lambda>_.
       case f n q of Inl e \<Rightarrow> throw (raise_exn e) | Inr r \<Rightarrow> ret r))"

record graph_deps =
  dp_incident :: string
  dp_investigation :: string
  dp_mode :: string
  dp_env :: rca_env
  dp_cfg :: rca_config
  dp_llm :: llm_client

abbreviation dp_limits :: "graph_deps \<Rightarrow> resource_limits" where
  "dp_limits d \<equiv> rc_limits (dp_cfg d)"

definition MAX_REPAIR_ATTEMPTS :: nat where "MAX_REPAIR_ATTEMPTS = 1"

abbreviation deps_now :: "graph_deps \<Rightarrow> datetime act" where
  "deps_now d \<equiv> read_clock (dp_env d)"

section \<open>Assembly of a report\<close>

definition known_ids :: "evidence_item list \<Rightarrow> string set" where
  "known_ids evs = set (map rv_id evs)"

definition keep_ids :: "string set \<Rightarrow> string list \<Rightarrow> string list" where
  "keep_ids known ids = filter (\<lambda>i. i \<in> known) ids"

definition finding_id :: "nat \<Rightarrow> string" where
  "finding_id n = ''fi_'' @ pad 3 (nat_str n)"

definition make_finding :: "nat \<Rightarrow> proposed_finding \<Rightarrow> string set \<Rightarrow> finding_type option \<Rightarrow> finding" where
  "make_finding n pf known force =
     (let kept = keep_ids known (pf_evidence pf)
      in \<lparr>fi_id = finding_id n, fi_type = (case force of None \<Rightarrow> pf_type pf | Some t \<Rightarrow> t),
          fi_statement = pf_statement pf, fi_evidence = kept,
          fi_confidence = (if kept \<noteq> [] then pf_confidence pf else C_UNKNOWN)\<rparr>)"

definition next_number :: "finding list \<times> finding list \<Rightarrow> nat" where
  "next_number fc = length (fst fc) + length (snd fc) + 1"

definition add_proposed :: "string set \<Rightarrow> finding list \<times> finding list \<Rightarrow> proposed_finding \<Rightarrow> finding list \<times> finding list" where
  "add_proposed known fc pf =
     (if pf_type pf = F_CONTRIBUTING_FACTOR
      then (fst fc, snd fc @ [make_finding (next_number fc) pf known (Some F_CONTRIBUTING_FACTOR)])
      else (fst fc @ [make_finding (next_number fc) pf known None], snd fc))"

definition add_factor :: "string set \<Rightarrow> finding list \<times> finding list \<Rightarrow> proposed_finding \<Rightarrow> finding list \<times> finding list" where
  "add_factor known fc pf =
     (fst fc, snd fc @ [make_finding (next_number fc) pf known (Some F_CONTRIBUTING_FACTOR)])"

definition tool_description :: "tool_name \<Rightarrow> string" where
  "tool_description n = (case n of
     T_INCIDENT \<Rightarrow> ''Fetch the current state of one incident (status, severity, affected service, aggregated anomaly signals, lifecycle timestamps).''
   | T_TIMELINE \<Rightarrow> ''Fetch the ordered lifecycle-transition history of one incident (who/what moved it between states, and when).''
   | T_ANOMALY \<Rightarrow> ''Fetch the anomaly-detection evidence that formed the incident: per telemetry window, the Phase 2 model's score, threshold, the operational signals it saw, and which signals were abnormal. Does not run detection.''
   | T_RELATED \<Rightarrow> ''List other incidents for the same service within a bounded recent window, for correlation (has this service been unstable, or is this isolated?).''
   | T_METRICS \<Rightarrow> ''Read the current value(s) of named Prometheus metric families from an allow-listed instrumented service's /metrics endpoint. Point-in-time only; no historical range is queryable.''
   | T_HEALTH \<Rightarrow> ''Check the current /health and /ready status of an allow-listed instrumented service.''
   | T_LOGS \<Rightarrow> ''Recent application log lines for a service. UNAVAILABLE: this deployment has no log-aggregation backend (Loki) yet.''
   | T_TRACES \<Rightarrow> ''Distributed traces for a request or operation. UNAVAILABLE: this deployment has no trace backend (Tempo) yet.''
   | T_DEPLOYMENTS \<Rightarrow> ''Recent deployments / configuration changes for a service. UNAVAILABLE: this deployment has no deployment-metadata source yet.''
   | T_DEPENDENCIES \<Rightarrow> ''Upstream / downstream dependencies of a service. UNAVAILABLE: this deployment has no service dependency graph yet.'')"

definition unavailable_sources :: "string list" where
  "unavailable_sources =
     map (\<lambda>t. tool_str t @ '': '' @ tool_description t) (filter (\<lambda>t. t \<notin> AVAILABLE_TOOLS) ALL_TOOLS)"

definition metadata_of :: "graph_deps \<Rightarrow> datetime \<Rightarrow> nat \<Rightarrow> string \<Rightarrow> datetime \<Rightarrow> resource_usage \<Rightarrow> report_metadata" where
  "metadata_of d started count reason now u =
           \<lparr>md_mode = (if dp_mode d = ''mock'' then ''mock'' else ''live''),
            md_provider = Some (lm_provider (dp_llm d)), md_model = lm_model (dp_llm d),
            md_started = started, md_completed = now,
            md_duration = max (of_int (now - started) / 1000000) 0,
            md_tool_calls = us_tool_calls u, md_steps = us_steps u, md_evidence = count,
            md_reason = take 200 reason, md_limits = dp_limits d\<rparr>"

definition build_metadata :: "graph_deps \<Rightarrow> datetime \<Rightarrow> nat \<Rightarrow> string \<Rightarrow> report_metadata act" where
  "build_metadata d started count reason =
     then_do (deps_now d) (\<lambda>now.
     then_do (reads wd_usage) (\<lambda>u. ret (metadata_of d started count reason now u)))"

text \<open>The lengths that the schema classes of a report and its parts enforce.\<close>

definition report_schema_ok :: "rca_report \<Rightarrow> bool" where
  "report_schema_ok r \<longleftrightarrow>
     length (rp_incident r) \<le> 40 \<and> length (rp_investigation r) \<le> 40 \<and>
     rp_status r \<in> {R_COMPLETED, R_INSUFFICIENT} \<and> length (rp_summary r) \<le> 4000 \<and>
     opt_ok (\<lambda>s. length s \<le> 16) (rp_severity r) \<and>
     list_all (\<lambda>t. length (tm_description t) \<le> 1000) (rp_timeline r) \<and>
     list_all (\<lambda>f. length (fi_statement f) \<le> 2000) (all_findings r) \<and>
     opt_ok (\<lambda>c. length (rt_statement c) \<le> 2000 \<and> length (rt_reasoning c) \<le> 4000) (rp_root_cause r) \<and>
     opt_ok (\<lambda>s. length s \<le> 128) (ra_target (rp_action r)) \<and>
     length (ra_description (rp_action r)) \<le> 2000 \<and> length (ra_rationale (rp_action r)) \<le> 2000 \<and>
     length (rp_uncertainty r) \<le> 4000"

definition construct_report :: "rca_report \<Rightarrow> rca_report act" where
  "construct_report r = then_do (check (report_schema_ok r) validation_error) (\<lambda>_. ret r)"

fun truthy :: "jval \<Rightarrow> bool" where
  "truthy JNull = False"
| "truthy (JBool b) = b"
| "truthy (JNum x) = (x \<noteq> 0)"
| "truthy (JStr s) = (s \<noteq> [])"
| "truthy (JList vs) = (vs \<noteq> [])"
| "truthy (JObj kvs) = (kvs \<noteq> [])"

text \<open>\<open>str(incident[k])\<close> where \<open>incident.get(k)\<close> is truthy.\<close>

definition incident_text :: "graph_deps \<Rightarrow> jdict \<Rightarrow> string \<Rightarrow> string option" where
  "incident_text d incident k =
     (case map_of incident k of
        None \<Rightarrow> None
      | Some v \<Rightarrow> if truthy v then Some (py_str (dp_env d) v) else None)"

definition or_text :: "string \<Rightarrow> string \<Rightarrow> string" where
  "or_text s dflt = (if s = [] then dflt else s)"

definition build_root_cause :: "string set \<Rightarrow> synthesis_result \<Rightarrow> root_cause option" where
  "build_root_cause known sy =
     (case sy_root_cause sy of
        None \<Rightarrow> None
      | Some p \<Rightarrow>
          let ids = keep_ids known (pt_evidence p) in
          if sy_conclusion sy = CONCLUDE_COMPLETED \<and> ids \<noteq> []
          then Some \<lparr>rt_statement = pt_statement p, rt_confidence = pt_confidence p, rt_evidence = ids,
                     rt_reasoning = or_text (pt_reasoning p) ''See findings.''\<rparr>
          else None)"

definition clamp_confidence :: "root_cause option \<Rightarrow> confidence \<Rightarrow> confidence" where
  "clamp_confidence rc overall =
     (case rc of
        Some c \<Rightarrow> if confidence_rank (rt_confidence c) < confidence_rank overall then rt_confidence c else overall
      | None \<Rightarrow> if confidence_rank C_LOW < confidence_rank overall then C_LOW else overall)"

definition affected_services :: "graph_deps \<Rightarrow> jdict \<Rightarrow> evidence_item list \<Rightarrow> string list" where
  "affected_services d incident evs =
     sort (remdups
       (filter (\<lambda>s. s \<noteq> []) (List.map_filter rv_service evs) @
        (case incident_text d incident ''service'' of None \<Rightarrow> [] | Some s \<Rightarrow> [s])))"

definition report_status :: "synthesis_result \<Rightarrow> rca_status" where
  "report_status sy = (if sy_conclusion sy = CONCLUDE_COMPLETED then R_COMPLETED else R_INSUFFICIENT)"

definition assemble_report ::
  "graph_deps \<Rightarrow> jdict \<Rightarrow> evidence_item list \<Rightarrow> proposed_finding list \<Rightarrow> hypothesis list \<Rightarrow> synthesis_result \<Rightarrow>
   report_metadata \<Rightarrow> rca_report" where
  "assemble_report d incident evs proposed hyps sy md =
     (let known = known_ids evs;
          fc = foldl (add_factor known) (foldl (add_proposed known) ([], []) proposed) (sy_factors sy);
          rc = build_root_cause known sy;
          a = sy_action sy
      in \<lparr>rp_incident = dp_incident d, rp_investigation = dp_investigation d, rp_status = report_status sy,
          rp_summary = or_text (sy_summary sy) ''Investigation summary unavailable.'',
          rp_severity = incident_text d incident ''severity'',
          rp_services = affected_services d incident evs,
          rp_timeline = map (\<lambda>t. \<lparr>tm_at = pe_at t, tm_description = pe_description t,
             tm_evidence = keep_ids known (pe_evidence t)\<rparr>) (sy_timeline sy),
          rp_findings = fst fc, rp_hypotheses = hyps, rp_root_cause = rc, rp_factors = snd fc,
          rp_action = \<lparr>ra_type = pa_type a, ra_target = pa_target a,
             ra_description = or_text (pa_description a) ''Refer this incident to the service owner for review.'',
             ra_rationale = or_text (pa_rationale a) ''Based on the collected evidence.'',
             ra_evidence = keep_ids known (pa_evidence a), ra_approval = True\<rparr>,
          rp_evidence = evs, rp_confidence = clamp_confidence rc (sy_confidence sy),
          rp_uncertainty = or_text (sy_uncertainty sy) ''Uncertainty was not characterized.'',
          rp_unavailable = unavailable_sources, rp_metadata = md\<rparr>)"

definition build_rca_report ::
  "graph_deps \<Rightarrow> jdict \<Rightarrow> evidence_item list \<Rightarrow> proposed_finding list \<Rightarrow> hypothesis list \<Rightarrow> synthesis_result \<Rightarrow>
   datetime \<Rightarrow> rca_report act" where
  "build_rca_report d incident evs proposed hyps sy started =
     then_do (build_metadata d started (length evs)
       (if report_status sy = R_COMPLETED then ''analysis_complete'' else ''insufficient_evidence'')) (\<lambda>md.
       construct_report (assemble_report d incident evs proposed hyps sy md))"

definition assemble_fallback ::
  "graph_deps \<Rightarrow> jdict \<Rightarrow> evidence_item list \<Rightarrow> hypothesis list \<Rightarrow> string list \<Rightarrow> report_metadata \<Rightarrow> rca_report" where
  "assemble_fallback d incident evs hyps errors md =
     (let service = (case incident_text d incident ''service'' of None \<Rightarrow> ''unknown-service'' | Some s \<Rightarrow> s)
      in \<lparr>rp_incident = dp_incident d, rp_investigation = dp_investigation d, rp_status = R_INSUFFICIENT,
          rp_summary = ''Automated investigation of the '' @ service @
             '' incident did not produce a validated root-cause analysis.'',
          rp_severity = incident_text d incident ''severity'',
          rp_services = (case incident_text d incident ''service'' of None \<Rightarrow> [] | Some s \<Rightarrow> [service]),
          rp_timeline = [], rp_findings = [], rp_hypotheses = hyps, rp_root_cause = None, rp_factors = [],
          rp_action = \<lparr>ra_type = A_INVESTIGATE_FURTHER, ra_target = Some service,
             ra_description = ''A human should review this incident manually.'',
             ra_rationale = ''The automated analysis could not be validated.'',
             ra_evidence = map rv_id (take 1 evs), ra_approval = True\<rparr>,
          rp_evidence = evs, rp_confidence = C_LOW,
          rp_uncertainty = ''The automated analysis failed internal validation and was discarded: '' @
             join ''; '' (take 5 errors),
          rp_unavailable = unavailable_sources, rp_metadata = md\<rparr>)"

definition build_fallback_report ::
  "graph_deps \<Rightarrow> jdict \<Rightarrow> evidence_item list \<Rightarrow> hypothesis list \<Rightarrow> string list \<Rightarrow> datetime \<Rightarrow> rca_report act" where
  "build_fallback_report d incident evs hyps errors started =
     then_do (build_metadata d started (length evs) ''rca_validation_failed'') (\<lambda>md.
       construct_report (assemble_fallback d incident evs hyps errors md))"

section \<open>What is assembled\<close>

text \<open>Every rule of \<open>validate_report\<close> except that uncertainty is stated.\<close>

definition evidence_grounded :: "rca_report \<Rightarrow> string set \<Rightarrow> bool" where
  "evidence_grounded r known \<longleftrightarrow>
     referenced_evidence_ids r \<subseteq> known \<and>
     (\<forall>rc. rp_root_cause r = Some rc \<longrightarrow> rp_status r = R_COMPLETED \<and> rt_evidence rc \<noteq> [] \<and>
        confidence_rank (rp_confidence r) \<le> confidence_rank (rt_confidence rc)) \<and>
     (\<forall>f \<in> set (all_findings r). fi_evidence f = [] \<longrightarrow> fi_confidence f = C_UNKNOWN) \<and>
     (\<forall>f \<in> set (rp_factors r). fi_type f = F_CONTRIBUTING_FACTOR) \<and>
     ra_approval (rp_action r)"

lemma report_grounded_iff:
  "report_grounded r known \<longleftrightarrow> evidence_grounded r known \<and> strip (rp_uncertainty r) \<noteq> []"
  by (auto simp: report_grounded_def evidence_grounded_def)

definition hypotheses_known :: "string set \<Rightarrow> hypothesis list \<Rightarrow> bool" where
  "hypotheses_known known hs \<longleftrightarrow> (\<forall>h \<in> set hs. set (hy_supporting h) \<union> set (hy_contradicting h) \<subseteq> known)"

lemma set_keep_ids [simp]: "set (keep_ids known ids) = set ids \<inter> known"
  by (auto simp: keep_ids_def)

definition findings_ok :: "string set \<Rightarrow> finding list \<times> finding list \<Rightarrow> bool" where
  "findings_ok known fc \<longleftrightarrow>
     (\<forall>f \<in> set (fst fc) \<union> set (snd fc). set (fi_evidence f) \<subseteq> known \<and> (fi_evidence f = [] \<longrightarrow> fi_confidence f = C_UNKNOWN)) \<and>
     (\<forall>f \<in> set (snd fc). fi_type f = F_CONTRIBUTING_FACTOR)"

lemma make_finding_ok:
  "set (fi_evidence (make_finding n pf known t)) \<subseteq> known"
  "fi_evidence (make_finding n pf known t) = [] \<Longrightarrow> fi_confidence (make_finding n pf known t) = C_UNKNOWN"
  "fi_type (make_finding n pf known (Some ft)) = ft"
  by (simp_all add: make_finding_def Let_def)

lemma findings_ok_step:
  assumes "findings_ok known fc"
  shows "findings_ok known (add_proposed known fc pf)" and "findings_ok known (add_factor known fc pf)"
  using assms make_finding_ok unfolding findings_ok_def add_proposed_def add_factor_def by auto

lemma findings_ok_fold:
  "findings_ok known fc \<Longrightarrow> findings_ok known (foldl (add_proposed known) fc pfs)"
  "findings_ok known fc \<Longrightarrow> findings_ok known (foldl (add_factor known) fc pfs)"
  by (induction pfs arbitrary: fc) (simp_all add: findings_ok_step)

lemma findings_ok_assembled:
  "findings_ok known (foldl (add_factor known) (foldl (add_proposed known) ([], []) ps) qs)"
  by (intro findings_ok_fold) (simp add: findings_ok_def)

lemma build_root_cause_some:
  assumes "build_root_cause known sy = Some rc"
  shows "sy_conclusion sy = CONCLUDE_COMPLETED" "rt_evidence rc \<noteq> []" "set (rt_evidence rc) \<subseteq> known"
  using assms by (auto simp: build_root_cause_def Let_def split: option.splits if_splits)

lemma clamp_some: "confidence_rank (clamp_confidence (Some rc) c) \<le> confidence_rank (rt_confidence rc)"
  by (simp add: clamp_confidence_def)

definition assembled_from :: "graph_deps \<Rightarrow> evidence_item list \<Rightarrow> rca_report \<Rightarrow> bool" where
  "assembled_from d evs r \<longleftrightarrow>
     rp_incident r = dp_incident d \<and> rp_investigation r = dp_investigation d \<and> rp_evidence r = evs \<and>
     rp_status r \<in> {R_COMPLETED, R_INSUFFICIENT} \<and> rp_unavailable r = unavailable_sources \<and>
     evidence_grounded r (known_ids evs)"

lemma wp_read_clock [wp_simps]:
  "wp (read_clock env) Q E w = Q (en_clock env (wd_ticks w)) (w\<lparr>wd_ticks := Suc (wd_ticks w)\<rparr>)"
  by (simp add: read_clock_def wp_simps)

abbreviation ticked :: "rca_world \<Rightarrow> rca_world" where
  "ticked w \<equiv> w\<lparr>wd_ticks := Suc (wd_ticks w)\<rparr>"

lemma wp_build_metadata [wp_simps]:
  "wp (build_metadata d st n r) Q E w =
     Q (metadata_of d st n r (en_clock (dp_env d) (wd_ticks w)) (wd_usage w)) (ticked w)"
  by (simp add: build_metadata_def wp_simps)

lemma wp_construct [wp_simps]:
  "wp (construct_report r) Q E w = (if report_schema_ok r then Q r w else E validation_error w)"
  by (simp add: construct_report_def wp_simps)

lemma assemble_report_ok:
  assumes "hypotheses_known (known_ids evs) hs"
  shows "assembled_from d evs (assemble_report d inc evs ps hs sy md)"
proof -
  let ?k = "known_ids evs" and ?r = "assemble_report d inc evs ps hs sy md"
  let ?fc = "foldl (add_factor ?k) (foldl (add_proposed ?k) ([], []) ps) (sy_factors sy)"
  have f: "findings_ok ?k ?fc" by (rule findings_ok_assembled)
  have h: "(\<Union>h \<in> set hs. set (hy_supporting h) \<union> set (hy_contradicting h)) \<subseteq> ?k"
    using assms by (auto simp: hypotheses_known_def)
  have rc: "case build_root_cause ?k sy of None \<Rightarrow> True
      | Some rc \<Rightarrow> report_status sy = R_COMPLETED \<and> rt_evidence rc \<noteq> [] \<and> set (rt_evidence rc) \<subseteq> ?k"
    using build_root_cause_some [of ?k sy] by (simp add: report_status_def split: option.split)
  have "referenced_evidence_ids ?r \<subseteq> ?k"
    unfolding referenced_evidence_ids_def
    using f h rc by (auto simp: assemble_report_def Let_def all_findings_def findings_ok_def split: option.splits)
  moreover have "\<forall>c. rp_root_cause ?r = Some c \<longrightarrow> rp_status ?r = R_COMPLETED \<and> rt_evidence c \<noteq> [] \<and>
      confidence_rank (rp_confidence ?r) \<le> confidence_rank (rt_confidence c)"
    using rc by (auto simp: assemble_report_def Let_def clamp_some)
  ultimately show ?thesis
    using f unfolding assembled_from_def evidence_grounded_def
    by (auto simp: assemble_report_def Let_def all_findings_def findings_ok_def report_status_def)
qed

lemma fallback_ok:
  assumes "hypotheses_known (known_ids evs) hs"
  shows "assembled_from d evs (assemble_fallback d inc evs hs errs md)"
    and "report_grounded (assemble_fallback d inc evs hs errs md) (known_ids evs)"
proof -
  let ?r = "assemble_fallback d inc evs hs errs md"
  have "set (map rv_id (take 1 evs)) \<subseteq> known_ids evs" by (cases evs) (simp_all add: known_ids_def)
  then have "referenced_evidence_ids ?r \<subseteq> known_ids evs"
    using assms unfolding referenced_evidence_ids_def hypotheses_known_def
    by (auto simp: assemble_fallback_def Let_def all_findings_def)
  then show a: "assembled_from d evs ?r"
    unfolding assembled_from_def evidence_grounded_def
    by (simp add: assemble_fallback_def Let_def all_findings_def)
  have "\<not> is_space (CHR ''T'')" by (simp add: is_space_def)
  then have "strip (rp_uncertainty ?r) \<noteq> []"
    by (simp add: assemble_fallback_def Let_def strip_def dropWhile_append dropWhile_eq_Nil_conv)
  with a show "report_grounded ?r (known_ids evs)"
    by (simp add: report_grounded_iff assembled_from_def)
qed

lemma wp_build_rca_report:
  assumes "hypotheses_known (known_ids evs) hs"
    and "\<And>r. assembled_from d evs r \<Longrightarrow> Q r (ticked w)" and "E validation_error (ticked w)"
  shows "wp (build_rca_report d inc evs ps hs sy st) Q E w"
  using assms by (simp add: build_rca_report_def wp_simps assemble_report_ok)

lemma wp_build_fallback:
  assumes "hypotheses_known (known_ids evs) hs"
    and "\<And>r. assembled_from d evs r \<Longrightarrow> report_grounded r (known_ids evs) \<Longrightarrow> rp_status r = R_INSUFFICIENT \<Longrightarrow>
         Q r (ticked w)"
    and "E validation_error (ticked w)"
  shows "wp (build_fallback_report d inc evs hs errs st) Q E w"
proof -
  have "rp_status (assemble_fallback d inc evs hs errs md) = R_INSUFFICIENT" for md
    by (simp add: assemble_fallback_def Let_def)
  then show ?thesis using assms by (simp add: build_fallback_report_def wp_simps fallback_ok)
qed

end
