(* ===== verification/RcaEngine.thy ===== *)
theory RcaEngine imports RcaSynthesis begin

text \<open>
  The investigation graph: validation of a plan (\<open>engine/plan.py\<close>), the trace (\<open>engine/steps.py\<close>), one
  guarded tool call (\<open>engine/tooling.py\<close>), the seven nodes (\<open>engine/nodes.py\<close>) over the channel state
  (\<open>state.py\<close>), and the bounded run of the graph (\<open>engine/graph.py\<close>). A node returns the state with
  its partial update merged, \<open>evidence\<close> and \<open>steps\<close> being appended to and every other channel
  overwritten, as their reducers prescribe.
\<close>

section \<open>Plan validation\<close>

record validated_call =
  vc_tool :: tool_name
  vc_arguments :: jdict

record plan_validation =
  pv_accepted :: "validated_call list"
  pv_rejected :: "string list"
  pv_seen :: "request list"

definition reject :: "plan_validation \<Rightarrow> string \<Rightarrow> plan_validation" where
  "reject v reason = v\<lparr>pv_rejected := pv_rejected v @ [reason]\<rparr>"

definition first_error :: "rca_env \<Rightarrow> tool_name \<Rightarrow> jdict \<Rightarrow> string" where
  "first_error env n d = (case en_first_error env n d of (loc, msg) \<Rightarrow> or_text loc ''argument'' @ '': '' @ msg)"

definition em_dash :: char where "em_dash = CHR 0x97"

text \<open>One round of the loop; the key of a call is its request, whose JSON text determines it.\<close>

definition validate_call :: "rca_env \<Rightarrow> nat \<Rightarrow> plan_validation \<Rightarrow> planned_call \<Rightarrow> plan_validation" where
  "validate_call env max_calls v c =
     (if max_calls \<le> length (pv_accepted v) then
        reject v (pc_tool c @ '': dropped '' @ [em_dash] @ '' plan already has the maximum of '' @
          nat_str max_calls @ '' tool calls'')
      else case parse_tool (pc_tool c) of
        None \<Rightarrow> reject v (repr_str (pc_tool c) @ '': not a registered evidence tool'')
      | Some n \<Rightarrow>
          if n \<notin> AVAILABLE_TOOLS then
            reject v (pc_tool c @ '': evidence source is not available in this deployment'')
          else case parse_request (en_int env) n (pc_arguments c) of
            None \<Rightarrow> reject v (pc_tool c @ '': invalid arguments ('' @ first_error env n (pc_arguments c) @ '')'')
          | Some rq \<Rightarrow>
              if rq \<in> set (pv_seen v) then
                reject v (pc_tool c @ '': duplicate call '' @ [em_dash] @ '' skipped'')
              else v\<lparr>pv_accepted := pv_accepted v @ [\<lparr>vc_tool = n, vc_arguments = dump_request rq\<rparr>],
                     pv_seen := pv_seen v @ [rq]\<rparr>)"

definition validate_plan :: "rca_env \<Rightarrow> nat \<Rightarrow> planned_call list \<Rightarrow> plan_validation" where
  "validate_plan env max_calls calls =
     foldl (validate_call env max_calls) \<lparr>pv_accepted = [], pv_rejected = [], pv_seen = []\<rparr> calls"

section \<open>Trace and tool calls\<close>

definition step ::
  "graph_deps \<Rightarrow> step_kind \<Rightarrow> rca_status \<Rightarrow> string \<Rightarrow> string option \<Rightarrow> string list \<Rightarrow> investigation_step act" where
  "step d kind phase description tool ids =
     then_do (reads (\<lambda>w. Suc (wd_seq w))) (\<lambda>seq.
     then_do (writes (\<lambda>w. w\<lparr>wd_seq := seq, wd_usage := (wd_usage w)\<lparr>us_steps := seq\<rparr>\<rparr>)) (\<lambda>_.
     then_do (deps_now d) (\<lambda>now.
       ret \<lparr>is_seq = seq, is_kind = kind, is_phase = phase, is_description = take 2000 description,
            is_tool = tool, is_evidence = ids, is_at = now\<rparr>)))"

definition limits_checked :: "graph_deps \<Rightarrow> unit act" where
  "limits_checked d =
     then_do (deps_now d) (\<lambda>now.
     then_do (reads (\<lambda>w. check_limits (wd_usage w) (dp_limits d) now)) (\<lambda>r.
       case r of Inl k \<Rightarrow> throw (E_LIMIT k) | Inr _ \<Rightarrow> ret ()))"

definition run_validated_call :: "graph_deps \<Rightarrow> validated_call \<Rightarrow> tool_result act" where
  "run_validated_call d call =
     then_do (limits_checked d) (\<lambda>_.
     then_do (writes (\<lambda>w. w\<lparr>wd_usage := (wd_usage w)\<lparr>us_tool_calls := us_tool_calls (wd_usage w) + 1\<rparr>\<rparr>)) (\<lambda>_.
     then_do (tool_run (dp_env d) (dp_cfg d) (vc_tool call) (vc_arguments call)) (\<lambda>result.
     then_do (writes (\<lambda>w. w\<lparr>wd_usage := (wd_usage w)\<lparr>us_evidence := us_evidence (wd_usage w) + length (tr_evidence result)\<rparr>\<rparr>)) (\<lambda>_.
       ret result))))"

text \<open>\<open>except LimitExceeded\<close> and \<open>except LlmError\<close>.\<close>

definition try_limits :: "'a act \<Rightarrow> (limit_kind + 'a) act" where
  "try_limits m =
     handle (then_do m (\<lambda>x. ret (Inr x))) (\<lambda>e. case e of E_LIMIT k \<Rightarrow> ret (Inl k) | _ \<Rightarrow> throw e)"

definition try_llm :: "'a act \<Rightarrow> ((llm_error \<times> string) + 'a) act" where
  "try_llm m =
     handle (then_do m (\<lambda>x. ret (Inr x))) (\<lambda>e. case e of E_LLM k msg \<Rightarrow> ret (Inl (k, msg)) | _ \<Rightarrow> throw e)"

section \<open>State\<close>

datatype node = N_INITIALIZE | N_PLAN | N_COLLECT | N_ANALYZE | N_VERIFY | N_SYNTHESIZE | N_VALIDATE

fun node_str :: "node \<Rightarrow> string" where
  "node_str N_INITIALIZE = ''initialize''"
| "node_str N_PLAN = ''plan''"
| "node_str N_COLLECT = ''collect''"
| "node_str N_ANALYZE = ''analyze''"
| "node_str N_VERIFY = ''verify''"
| "node_str N_SYNTHESIZE = ''synthesize''"
| "node_str N_VALIDATE = ''validate''"

record inv_state =
  st_status :: rca_status
  st_reason :: "string option"
  st_next :: "node option"
  st_incident :: "jdict option"
  st_rationale :: string
  st_queue :: "validated_call list"
  st_reanalysis :: nat
  st_repair :: nat
  st_repair_errors :: "string list"
  st_evidence :: "evidence_item list"
  st_steps :: "investigation_step list"
  st_findings :: "proposed_finding list"
  st_proposed :: "proposed_hypothesis list"
  st_hypotheses :: "hypothesis list"
  st_synthesis :: "synthesis_result option"
  st_rca :: "rca_report option"

definition initial_state :: inv_state where
  "initial_state =
     \<lparr>st_status = R_PENDING, st_reason = None, st_next = None, st_incident = None, st_rationale = '''',
      st_queue = [], st_reanalysis = 0, st_repair = 0, st_repair_errors = [], st_evidence = [], st_steps = [],
      st_findings = [], st_proposed = [], st_hypotheses = [], st_synthesis = None, st_rca = None\<rparr>"

definition with_steps :: "investigation_step list \<Rightarrow> inv_state \<Rightarrow> inv_state" where
  "with_steps ss s = s\<lparr>st_steps := st_steps s @ ss\<rparr>"

definition with_evidence :: "evidence_item list \<Rightarrow> inv_state \<Rightarrow> inv_state" where
  "with_evidence evs s = s\<lparr>st_evidence := st_evidence s @ evs\<rparr>"

definition go :: "rca_status \<Rightarrow> node \<Rightarrow> inv_state \<Rightarrow> inv_state" where
  "go status n s = s\<lparr>st_status := status, st_next := Some n\<rparr>"

definition the_incident :: "inv_state \<Rightarrow> jdict" where
  "the_incident s = (case st_incident s of None \<Rightarrow> [] | Some i \<Rightarrow> i)"

text \<open>\<open>_terminal\<close> and \<open>_llm_terminal\<close>.\<close>

definition terminal :: "rca_status \<Rightarrow> string \<Rightarrow> inv_state \<Rightarrow> inv_state" where
  "terminal status reason s = s\<lparr>st_status := status, st_reason := Some reason, st_next := None\<rparr>"

definition llm_terminal :: "llm_error \<times> string \<Rightarrow> inv_state \<Rightarrow> inv_state" where
  "llm_terminal km s =
     (case km of (k, msg) \<Rightarrow>
        if k = LLM_TIMEOUT then terminal R_TIMED_OUT (''llm timeout: '' @ msg) s
        else terminal R_FAILED (''llm error: '' @ llm_error_str k @ '': '' @ msg) s)"

fun degrade_next :: "node \<Rightarrow> (node \<times> rca_status) option" where
  "degrade_next N_PLAN = Some (N_SYNTHESIZE, R_VERIFYING)"
| "degrade_next N_COLLECT = Some (N_ANALYZE, R_ANALYZING)"
| "degrade_next N_ANALYZE = Some (N_SYNTHESIZE, R_VERIFYING)"
| "degrade_next N_VERIFY = Some (N_SYNTHESIZE, R_VERIFYING)"
| "degrade_next N_SYNTHESIZE = Some (N_VALIDATE, R_VERIFYING)"
| "degrade_next _ = None"

text \<open>\<open>_guard\<close>: the state to return early with, or the body of the node.\<close>

definition guarded :: "graph_deps \<Rightarrow> node \<Rightarrow> rca_status \<Rightarrow> inv_state \<Rightarrow> inv_state act \<Rightarrow> inv_state act" where
  "guarded d n phase s body =
     then_do (try_limits (limits_checked d)) (\<lambda>r.
       case r of
         Inr _ \<Rightarrow> body
       | Inl k \<Rightarrow>
           if k = L_TIME then ret (terminal R_TIMED_OUT (''investigation timed out ('' @ limit_kind_str k @ '')'') s)
           else case degrade_next n of
             None \<Rightarrow> ret (terminal R_INSUFFICIENT (limit_kind_str k @ '' limit reached'') s)
           | Some (nxt, status) \<Rightarrow>
               then_do (step d K_LIMIT phase (limit_kind_str k @ '' limit reached; advancing to '' @ node_str nxt) None [])
                 (\<lambda>note. ret (go status nxt (with_steps [note] s)\<lparr>st_queue := []\<rparr>)))"

section \<open>Nodes\<close>

definition initialized ::
  "graph_deps \<Rightarrow> investigation_step \<Rightarrow> inv_state \<Rightarrow> limit_kind + tool_result \<Rightarrow> inv_state act" where
  "initialized d started s r =
     (case r of
        Inl k \<Rightarrow>
          ret (terminal R_TIMED_OUT (''limit reached before loading incident: '' @ limit_kind_str k)
            (with_steps [started] s))
      | Inr result \<Rightarrow>
          (if tr_ok result \<and> tr_evidence result \<noteq> [] then
             let ev = hd (tr_evidence result) in
             then_do (step d K_TOOL_CALL R_PLANNING
               (''loaded incident '' @ dp_incident d @ '' via get_incident'')
               (Some (tool_str T_INCIDENT)) [rv_id ev]) (\<lambda>loaded.
               ret (go R_PLANNING N_PLAN (with_evidence [ev] (with_steps [started, loaded] s))
                 \<lparr>st_incident := Some (rv_content ev), st_queue := [], st_reanalysis := 0, st_repair := 0\<rparr>))
           else
             ret (terminal R_FAILED
               (''could not load incident '' @ dp_incident d @ '': '' @
                 (case tr_error result of None \<Rightarrow> ''no incident data returned'' | Some e \<Rightarrow> te_message e))
               (with_steps [started] s))))"

definition initialize :: "graph_deps \<Rightarrow> inv_state \<Rightarrow> inv_state act" where
  "initialize d s =
     then_do (step d K_PLAN R_PENDING
       (''investigation started for incident '' @ dp_incident d @ '' (mode='' @ dp_mode d @ '')'') None []) (\<lambda>started.
     then_do (check (incident_ref_ok (dp_incident d)) validation_error) (\<lambda>_.
     then_do (try_limits (run_validated_call d
         \<lparr>vc_tool = T_INCIDENT, vc_arguments = dump_request (RQ_INCIDENT (dp_incident d))\<rparr>)) (\<lambda>r.
       initialized d started s r)))"

definition plan_text :: "plan_validation \<Rightarrow> string" where
  "plan_text v =
     ''planned '' @ nat_str (length (pv_accepted v)) @ '' evidence tool call(s): '' @
     join '', '' (map (\<lambda>c. tool_str (vc_tool c)) (pv_accepted v)) @
     (if pv_rejected v = [] then [] else ''; rejected: '' @ join ''; '' (pv_rejected v))"

definition remaining_calls :: "graph_deps \<Rightarrow> rca_world \<Rightarrow> nat" where
  "remaining_calls d w = rl_tool_calls (dp_limits d) - us_tool_calls (wd_usage w)"

definition finish_plan :: "graph_deps \<Rightarrow> string \<Rightarrow> plan_validation \<Rightarrow> inv_state \<Rightarrow> inv_state act" where
  "finish_plan d rationale v s =
     then_do (step d K_PLAN R_PLANNING (plan_text v) None []) (\<lambda>note.
       if pv_accepted v = [] then
         ret (terminal R_INSUFFICIENT ''no valid evidence-collection plan could be produced''
           (with_steps [note] s)\<lparr>st_rationale := rationale\<rparr>)
       else
         ret (go R_COLLECTING N_COLLECT (with_steps [note] s)
           \<lparr>st_queue := pv_accepted v, st_rationale := rationale\<rparr>))"

definition plan_query :: "inv_state \<Rightarrow> string list \<Rightarrow> plan_request" where
  "plan_query s errors = \<lparr>qp_incident = the_incident s, qp_evidence = st_evidence s, qp_repair = errors\<rparr>"

definition plan_body :: "graph_deps \<Rightarrow> inv_state \<Rightarrow> inv_state act" where
  "plan_body d s =
     then_do (try_llm (ask (lm_plan (dp_llm d)) (plan_query s []))) (\<lambda>r.
       case r of
         Inl km \<Rightarrow> ret (llm_terminal km s)
       | Inr result \<Rightarrow>
           then_do (reads (remaining_calls d)) (\<lambda>remaining.
             let v = validate_plan (dp_env d) remaining (pl_calls result) in
             if pv_accepted v \<noteq> [] then finish_plan d (pl_rationale result) v s
             else
               then_do (try_llm (ask (lm_plan (dp_llm d)) (plan_query s
                   (if pv_rejected v = [] then [''the plan contained no usable calls''] else pv_rejected v)))) (\<lambda>r'.
                 case r' of
                   Inl km \<Rightarrow> ret (llm_terminal km s)
                 | Inr retry \<Rightarrow>
                     finish_plan d (pl_rationale result)
                       (validate_plan (dp_env d) remaining (pl_calls retry)) s)))"

definition plan :: "graph_deps \<Rightarrow> inv_state \<Rightarrow> inv_state act" where
  "plan d s = guarded d N_PLAN R_PLANNING s (plan_body d s)"

definition call_text :: "validated_call \<Rightarrow> tool_result \<Rightarrow> string" where
  "call_text c r =
     ''called '' @ tool_str (vc_tool c) @ '' -> '' @ tool_code_str (tr_status r) @
     (case tr_error r of None \<Rightarrow> [] | Some e \<Rightarrow> '' ('' @ te_message e @ '')'')"

definition collected ::
  "graph_deps \<Rightarrow> validated_call \<Rightarrow> validated_call list \<Rightarrow> inv_state \<Rightarrow> limit_kind + tool_result \<Rightarrow> inv_state act" where
  "collected d call queue s r =
     (case r of
        Inl k \<Rightarrow>
          if k = L_TIME then
            ret (terminal R_TIMED_OUT ''investigation timed out during evidence collection'' s)
          else
            then_do (step d K_LIMIT R_COLLECTING
              (''stopped collecting evidence: '' @ limit_kind_str k @ '' limit reached'') None []) (\<lambda>note.
              ret (go R_ANALYZING N_ANALYZE (with_steps [note] s)\<lparr>st_queue := []\<rparr>))
      | Inr result \<Rightarrow>
          then_do (step d K_TOOL_CALL R_COLLECTING (call_text call result)
            (Some (tool_str (vc_tool call))) (map rv_id (tr_evidence result))) (\<lambda>note.
          then_do (reads (remaining_evidence (dp_limits d))) (\<lambda>left.
            let s' = (with_evidence (tr_evidence result) (with_steps [note] s))\<lparr>st_queue := queue\<rparr> in
            if queue \<noteq> [] \<and> 0 < left then ret (s'\<lparr>st_next := Some N_COLLECT\<rparr>)
            else ret (go R_ANALYZING N_ANALYZE s'))))"

definition collect_body :: "graph_deps \<Rightarrow> inv_state \<Rightarrow> inv_state act" where
  "collect_body d s =
     (case st_queue s of
        [] \<Rightarrow> ret (go R_ANALYZING N_ANALYZE s)
      | call # queue \<Rightarrow>
          then_do (try_limits (run_validated_call d call)) (\<lambda>r. collected d call queue s r))"

definition collect :: "graph_deps \<Rightarrow> inv_state \<Rightarrow> inv_state act" where
  "collect d s = guarded d N_COLLECT R_COLLECTING s (collect_body d s)"

definition follow_up_text :: "validated_call \<Rightarrow> tool_result \<Rightarrow> string" where
  "follow_up_text c r =
     ''follow-up: called '' @ tool_str (vc_tool c) @ '' -> '' @ tool_code_str (tr_status r)"

fun drain_queue :: "graph_deps \<Rightarrow> validated_call list \<Rightarrow> (investigation_step list \<times> evidence_item list) act" where
  "drain_queue d [] = ret ([], [])"
| "drain_queue d (call # queue) =
     then_do (reads (remaining_evidence (dp_limits d))) (\<lambda>left.
       if left = 0 then ret ([], [])
       else
         then_do (try_limits (run_validated_call d call)) (\<lambda>r.
           case r of
             Inl k \<Rightarrow> ret ([], [])
           | Inr result \<Rightarrow>
               then_do (step d K_TOOL_CALL R_ANALYZING (follow_up_text call result)
                 (Some (tool_str (vc_tool call))) (map rv_id (tr_evidence result))) (\<lambda>note.
               then_do (drain_queue d queue) (\<lambda>(notes, evs).
                 ret (note # notes, tr_evidence result @ evs)))))"

definition analyzed ::
  "graph_deps \<Rightarrow> inv_state \<Rightarrow> investigation_step list \<Rightarrow> evidence_item list \<Rightarrow>
   (llm_error \<times> string) + analysis_result \<Rightarrow> inv_state act" where
  "analyzed d s notes evidence r =
     (case r of
        Inl km \<Rightarrow> ret (llm_terminal km s)
      | Inr result \<Rightarrow>
          let hyps = take (rl_hypotheses (dp_limits d)) (al_hypotheses result) in
          then_do (step d K_ANALYSIS R_ANALYZING
            (''analyzed '' @ nat_str (length evidence) @ '' evidence item(s): '' @
             nat_str (length (al_findings result)) @ '' finding(s), '' @ nat_str (length hyps) @
             '' hypothesis(es)'') None []) (\<lambda>note.
            ret (go R_VERIFYING N_VERIFY (with_steps (notes @ [note]) s)
              \<lparr>st_findings := al_findings result, st_proposed := hyps\<rparr>)))"

definition analyze_body :: "graph_deps \<Rightarrow> inv_state \<Rightarrow> inv_state act" where
  "analyze_body d s =
     then_do (drain_queue d (st_queue s)) (\<lambda>(drained_steps, drained_evidence).
     then_do (try_llm (ask (lm_analyze (dp_llm d))
         \<lparr>qa_incident = the_incident s, qa_evidence = st_evidence s @ drained_evidence\<rparr>)) (\<lambda>r.
       analyzed d s drained_steps (st_evidence s @ drained_evidence) r))"

definition analyze :: "graph_deps \<Rightarrow> inv_state \<Rightarrow> inv_state act" where
  "analyze d s = guarded d N_ANALYZE R_ANALYZING s (analyze_body d s)"

definition default_verdict :: "proposed_hypothesis \<Rightarrow> string set \<Rightarrow> hypothesis_verdict" where
  "default_verdict ph known =
     (let sup = length (keep_ids known (ph_supporting ph)); con = length (keep_ids known (ph_contradicting ph))
      in if sup < con then V_REFUTED
         else if 1 \<le> sup \<and> 1 \<le> con then V_CONFLICTING
         else if 2 \<le> sup then V_SUPPORTED
         else V_UNVERIFIED)"

definition hypothesis_id :: "nat \<Rightarrow> string" where
  "hypothesis_id n = ''hy_'' @ pad 3 (nat_str n)"

text \<open>The verdicts are read into a dict, in which a later item for the same index wins.\<close>

definition verdict_for :: "verdict_item list \<Rightarrow> nat \<Rightarrow> verdict_item option" where
  "verdict_for vs i = find (\<lambda>v. vi_index v = i) (rev vs)"

definition make_hypothesis :: "verdict_item list \<Rightarrow> string set \<Rightarrow> nat \<Rightarrow> proposed_hypothesis \<Rightarrow> hypothesis" where
  "make_hypothesis vs known i ph =
     \<lparr>hy_id = hypothesis_id (i + 1), hy_statement = ph_statement ph,
      hy_supporting = keep_ids known (ph_supporting ph), hy_contradicting = keep_ids known (ph_contradicting ph),
      hy_assessment = (case verdict_for vs i of None \<Rightarrow> ''not assessed'' | Some v \<Rightarrow> or_text (vi_assessment v) ''not assessed''),
      hy_verdict = (case verdict_for vs i of None \<Rightarrow> default_verdict ph known | Some v \<Rightarrow> vi_verdict v)\<rparr>"

definition make_hypotheses :: "verdict_item list \<Rightarrow> string set \<Rightarrow> proposed_hypothesis list \<Rightarrow> hypothesis list" where
  "make_hypotheses vs known phs = map (\<lambda>(i, ph). make_hypothesis vs known i ph) (enumerate 0 phs)"

definition hypotheses_schema_ok :: "hypothesis list \<Rightarrow> bool" where
  "hypotheses_schema_ok hs \<longleftrightarrow>
     list_all (\<lambda>h. length (hy_statement h) \<le> 2000 \<and> length (hy_assessment h) \<le> 2000) hs"

definition finish_verify :: "graph_deps \<Rightarrow> hypothesis list \<Rightarrow> inv_state \<Rightarrow> inv_state act" where
  "finish_verify d hyps s =
     then_do (step d K_VERIFICATION R_VERIFYING
       (''verified '' @ nat_str (length hyps) @ '' hypothesis(es): '' @
        nat_str (length (filter (\<lambda>h. hy_verdict h = V_SUPPORTED) hyps)) @ '' supported, '' @
        nat_str (length (filter (\<lambda>h. hy_verdict h = V_CONFLICTING) hyps)) @ '' conflicting'') None []) (\<lambda>note.
       ret (go R_VERIFYING N_SYNTHESIZE (with_steps [note] s)\<lparr>st_hypotheses := hyps\<rparr>))"

definition verified ::
  "graph_deps \<Rightarrow> inv_state \<Rightarrow> (llm_error \<times> string) + verification_result \<Rightarrow> inv_state act" where
  "verified d s r =
     (case r of
        Inl km \<Rightarrow> ret (llm_terminal km s)
      | Inr result \<Rightarrow>
          let hyps = make_hypotheses (vf_verdicts result) (known_ids (st_evidence s)) (st_proposed s) in
          then_do (check (hypotheses_schema_ok hyps) validation_error) (\<lambda>_.
          then_do (reads (remaining_calls d)) (\<lambda>remaining.
            let extra = pv_accepted (validate_plan (dp_env d) (min remaining 3) (vf_calls result)) in
            if vf_needs_more result \<and> st_reanalysis s < 1 \<and> vf_calls result \<noteq> [] \<and> extra \<noteq> [] then
              then_do (step d K_VERIFICATION R_VERIFYING
                (''verification inconclusive; collecting '' @ nat_str (length extra) @
                 '' more evidence item(s) then re-analyzing'') None []) (\<lambda>note.
                ret (go R_ANALYZING N_ANALYZE (with_steps [note] s)
                  \<lparr>st_hypotheses := hyps, st_queue := extra, st_reanalysis := st_reanalysis s + 1\<rparr>))
            else finish_verify d hyps s)))"

definition verify_body :: "graph_deps \<Rightarrow> inv_state \<Rightarrow> inv_state act" where
  "verify_body d s =
     then_do (try_llm (ask (lm_verify (dp_llm d))
         \<lparr>qv_incident = the_incident s, qv_evidence = st_evidence s, qv_findings = st_findings s,
          qv_hypotheses = st_proposed s, qv_reanalysis = (st_reanalysis s < 1)\<rparr>)) (\<lambda>r. verified d s r)"

definition verify :: "graph_deps \<Rightarrow> inv_state \<Rightarrow> inv_state act" where
  "verify d s = guarded d N_VERIFY R_VERIFYING s (verify_body d s)"

definition synthesized ::
  "graph_deps \<Rightarrow> inv_state \<Rightarrow> (llm_error \<times> string) + synthesis_result \<Rightarrow> inv_state act" where
  "synthesized d s r =
     (case r of
        Inl km \<Rightarrow> ret (llm_terminal km s)
      | Inr sy \<Rightarrow>
          then_do (reads (\<lambda>w. us_started (wd_usage w))) (\<lambda>started.
          then_do (build_rca_report d (the_incident s) (st_evidence s) (st_findings s) (st_hypotheses s) sy started) (\<lambda>report.
          then_do (step d K_RCA R_VERIFYING
            (''synthesized RCA candidate: conclusion='' @ conclusion_str (sy_conclusion sy) @ '', root_cause='' @
             (if rp_root_cause report = None then ''undetermined'' else ''yes'')) None []) (\<lambda>note.
            ret (go R_VERIFYING N_VALIDATE (with_steps [note] s)
              \<lparr>st_synthesis := Some sy, st_rca := Some report\<rparr>)))))"

definition synthesize_body :: "graph_deps \<Rightarrow> inv_state \<Rightarrow> inv_state act" where
  "synthesize_body d s =
     then_do (try_llm (ask (lm_synthesize (dp_llm d))
        \<lparr>qs_incident = the_incident s, qs_investigation = dp_investigation d, qs_evidence = st_evidence s,
         qs_findings = st_findings s, qs_hypotheses = st_hypotheses s, qs_repair = st_repair_errors s\<rparr>)) (\<lambda>r.
       synthesized d s r)"

definition synthesize :: "graph_deps \<Rightarrow> inv_state \<Rightarrow> inv_state act" where
  "synthesize d s = guarded d N_SYNTHESIZE R_VERIFYING s (synthesize_body d s)"

definition fallback_for :: "graph_deps \<Rightarrow> string list \<Rightarrow> inv_state \<Rightarrow> rca_report act" where
  "fallback_for d errors s =
     then_do (reads (\<lambda>w. us_started (wd_usage w))) (\<lambda>started.
       build_fallback_report d (the_incident s) (st_evidence s) (st_hypotheses s) errors started)"

definition validate_missing :: "graph_deps \<Rightarrow> inv_state \<Rightarrow> inv_state act" where
  "validate_missing d s =
     then_do (fallback_for d [''synthesis stage was not reached''] s) (\<lambda>report.
     then_do (step d K_VALIDATION R_INSUFFICIENT
       ''synthesis not reached; returning a safe insufficient-evidence report'' None []) (\<lambda>note.
       case validate_report report (known_ids (st_evidence s)) of
         Inl errors \<Rightarrow>
           ret (terminal R_FAILED (''fallback RCA invalid: '' @ join ''; '' errors) (with_steps [note] s))
       | Inr _ \<Rightarrow>
           ret (terminal R_INSUFFICIENT ''synthesis_not_reached'' (with_steps [note] s)\<lparr>st_rca := Some report\<rparr>)))"

definition validate_repair :: "graph_deps \<Rightarrow> string list \<Rightarrow> inv_state \<Rightarrow> inv_state act" where
  "validate_repair d errors s =
     then_do (step d K_VALIDATION R_VERIFYING
       (''RCA validation failed ('' @ nat_str (length errors) @ '' issue(s)); repairing'') None []) (\<lambda>note.
       ret (go R_VERIFYING N_SYNTHESIZE (with_steps [note] s)
         \<lparr>st_repair := st_repair s + 1, st_repair_errors := errors\<rparr>))"

definition validate_discard :: "graph_deps \<Rightarrow> string list \<Rightarrow> inv_state \<Rightarrow> inv_state act" where
  "validate_discard d errors s =
     then_do (fallback_for d errors s) (\<lambda>fallback.
       case validate_report fallback (known_ids (st_evidence s)) of
         Inl errors' \<Rightarrow>
           ret (terminal R_FAILED (''even the fallback RCA failed validation: '' @ join ''; '' errors') s)
       | Inr _ \<Rightarrow>
           then_do (step d K_VALIDATION R_INSUFFICIENT
             ''RCA validation failed after repair; returning a safe insufficient-evidence report'' None []) (\<lambda>note.
             ret (terminal R_INSUFFICIENT ''rca_validation_failed'' (with_steps [note] s)
               \<lparr>st_rca := Some fallback\<rparr>)))"

definition validate_accept :: "graph_deps \<Rightarrow> rca_report \<Rightarrow> inv_state \<Rightarrow> inv_state act" where
  "validate_accept d report s =
     then_do (step d K_VALIDATION (rp_status report)
       (''RCA validation passed; investigation '' @ map lower_char (rca_status_str (rp_status report))) None []) (\<lambda>note.
       ret (terminal (rp_status report) ''analysis_complete'' (with_steps [note] s)))"

definition validate :: "graph_deps \<Rightarrow> inv_state \<Rightarrow> inv_state act" where
  "validate d s =
     (case st_rca s of
        None \<Rightarrow> validate_missing d s
      | Some report \<Rightarrow>
          (case validate_report report (known_ids (st_evidence s)) of
             Inr _ \<Rightarrow> validate_accept d report s
           | Inl errors \<Rightarrow>
               if st_repair s < MAX_REPAIR_ATTEMPTS then validate_repair d errors s
               else validate_discard d errors s))"

section \<open>Graph\<close>

fun node_body :: "graph_deps \<Rightarrow> node \<Rightarrow> inv_state \<Rightarrow> inv_state act" where
  "node_body d N_INITIALIZE s = initialize d s"
| "node_body d N_PLAN s = plan d s"
| "node_body d N_COLLECT s = collect d s"
| "node_body d N_ANALYZE s = analyze d s"
| "node_body d N_VERIFY s = verify d s"
| "node_body d N_SYNTHESIZE s = synthesize d s"
| "node_body d N_VALIDATE s = validate d s"

definition route :: "inv_state \<Rightarrow> node option" where
  "route s = (if rca_is_terminal (st_status s) then None else st_next s)"

definition recursion_limit :: "resource_limits \<Rightarrow> nat" where
  "recursion_limit l = 3 * (rl_tool_calls l + rl_steps l) + 25"

text \<open>The fuel is the number of nodes that may still run; out of it the graph raises.\<close>

fun run_graph :: "graph_deps \<Rightarrow> nat \<Rightarrow> node \<Rightarrow> inv_state \<Rightarrow> inv_state act" where
  "run_graph d 0 n s = throw E_RECURSION"
| "run_graph d (Suc k) n s =
     then_do (node_body d n s) (\<lambda>s'. case route s' of None \<Rightarrow> ret s' | Some n' \<Rightarrow> run_graph d k n' s')"

definition invoke_graph :: "graph_deps \<Rightarrow> inv_state act" where
  "invoke_graph d = run_graph d (recursion_limit (dp_limits d)) N_INITIALIZE initial_state"

end
