(* ===== verification/RcaToolLaws.thy ===== *)
theory RcaToolLaws imports RcaSynthesis begin

text \<open>
  What a tool call can do to an investigation, whatever the outside answers: it leaves the usage meter
  and the step counter alone, hands out evidence ids in order and within the budget, reports evidence
  only on success, and lets no exception but a \<open>ValidationError\<close> of the failure record escape.
\<close>

section \<open>Frames\<close>

definition spends :: "nat \<Rightarrow> rca_world \<Rightarrow> rca_world \<Rightarrow> bool" where
  "spends k w w' \<longleftrightarrow> wd_seq w' = wd_seq w \<and> wd_usage w' = wd_usage w \<and>
     wd_issued w \<le> wd_issued w' \<and> wd_issued w' \<le> wd_issued w + k"

definition fresh_ids :: "rca_world \<Rightarrow> rca_world \<Rightarrow> string list" where
  "fresh_ids w w' = map evidence_id [Suc (wd_issued w) ..< Suc (wd_issued w')]"

definition issues :: "rca_world \<Rightarrow> evidence_item list \<Rightarrow> rca_world \<Rightarrow> bool" where
  "issues w evs w' \<longleftrightarrow> wd_seq w' = wd_seq w \<and> wd_usage w' = wd_usage w \<and>
     wd_issued w' = wd_issued w + length evs \<and> map rv_id evs = fresh_ids w w'"

lemma spends_refl [simp]: "spends k w w"
  by (simp add: spends_def)

lemma spends_mono: "spends k w w' \<Longrightarrow> k \<le> m \<Longrightarrow> spends m w w'"
  by (simp add: spends_def)

lemma spends_trans: "spends j w w' \<Longrightarrow> spends k w' w'' \<Longrightarrow> spends (j + k) w w''"
  by (simp add: spends_def)

lemma spends_0: "spends 0 w w' \<longleftrightarrow> wd_seq w' = wd_seq w \<and> wd_usage w' = wd_usage w \<and> wd_issued w' = wd_issued w"
  by (auto simp: spends_def)

lemma spends_0_left: "spends 0 w w' \<Longrightarrow> spends k w' w'' = spends k w w''"
  by (auto simp: spends_def)

lemma issues_0_left: "spends 0 w w' \<Longrightarrow> issues w' evs w'' = issues w evs w''"
  by (auto simp: spends_0 issues_def fresh_ids_def)

lemma issues_spends: "issues w evs w' \<Longrightarrow> length evs \<le> k \<Longrightarrow> spends k w w'"
  by (simp add: issues_def spends_def)

lemma issues_Nil: "issues w [] w' \<longleftrightarrow> spends 0 w w'"
  by (auto simp: issues_def spends_0 fresh_ids_def)

lemma issues_Cons:
  assumes "issues w [e] w'" and "issues w' es w''"
  shows "issues w (e # es) w''"
proof -
  have "[Suc (wd_issued w) ..< Suc (wd_issued w'')] =
      Suc (wd_issued w) # [Suc (Suc (wd_issued w)) ..< Suc (wd_issued w'')]"
    by (rule upt_conv_Cons) (use assms in \<open>simp add: issues_def\<close>)
  moreover have i: "wd_issued w' = Suc (wd_issued w)" using assms(1) by (simp add: issues_def)
  moreover have "rv_id e = evidence_id (Suc (wd_issued w))"
    using assms(1) unfolding issues_def fresh_ids_def i by simp
  ultimately show ?thesis using assms unfolding issues_def fresh_ids_def by (simp del: upt_Suc)
qed

section \<open>Evidence and outside calls\<close>

text \<open>No tool raises an error with the code of success.\<close>

fun proper :: "exn \<Rightarrow> bool" where
  "proper (E_TOOL c m) = (c \<noteq> TC_OK)"
| "proper _ = True"

lemma wp_http_get [wp_simps]:
  "wp (http_get env url ps) Q E w = Q (en_get env (wd_calls w) url ps) (w\<lparr>wd_calls := Suc (wd_calls w)\<rparr>)"
  by (simp add: http_get_def wp_simps)

lemma spends_outside [simp]:
  "spends k w (w\<lparr>wd_ticks := n\<rparr>)" "spends k w (w\<lparr>wd_calls := n\<rparr>)"
  by (simp_all add: spends_def)

lemma wp_build_evidence:
  assumes "\<And>e w'. issues w [e] w' \<Longrightarrow> Q e w'" and "\<And>x w'. proper x \<Longrightarrow> spends 1 w w' \<Longrightarrow> E x w'"
  shows "wp (build_evidence env src n ref summary content service observed) Q E w"
  unfolding build_evidence_def next_evidence_id_def wp_simps
  by (auto intro!: assms simp: issues_def spends_def fresh_ids_def)

lemma wp_map_evidence:
  assumes "\<And>x. \<exists>src n ref summary content service observed.
      f x = build_evidence env src n ref summary content service observed"
  shows "wp (map_act f xs) (\<lambda>evs w'. length evs = length xs \<and> issues w evs w') (\<lambda>e w'. proper e \<and> spends (length xs) w w') w"
proof (induction xs arbitrary: w)
  case Nil
  show ?case by (simp add: wp_simps issues_Nil)
next
  case (Cons x xs)
  have "wp (map_act f xs) (\<lambda>es w''. wp (ret (e # es)) (\<lambda>evs w'. length evs = length (x # xs) \<and> issues w evs w')
        (\<lambda>e w'. proper e \<and> spends (length (x # xs)) w w') w'') (\<lambda>e w'. proper e \<and> spends (length (x # xs)) w w') w'"
    if "issues w [e] w'" for e w'
  proof (rule wp_mono [OF Cons.IH])
    fix es w''
    assume "length es = length xs \<and> issues w' es w''"
    then show "wp (ret (e # es)) (\<lambda>evs w'. length evs = length (x # xs) \<and> issues w evs w')
        (\<lambda>e w'. proper e \<and> spends (length (x # xs)) w w') w''"
      using issues_Cons [OF that] by (simp add: wp_simps)
  next
    fix y w''
    assume "proper y \<and> spends (length xs) w' w''"
    then show "proper y \<and> spends (length (x # xs)) w w''"
      using spends_trans [OF issues_spends [OF that, of 1]] by simp
  qed
  moreover obtain src n ref su co se ob where "f x = build_evidence env src n ref su co se ob"
    using assms by blast
  ultimately show ?case
    unfolding map_act.simps wp_then_do
    by (auto intro!: wp_build_evidence elim: spends_mono)
qed

lemma wp_get_json:
  assumes "\<And>v w'. spends 0 w w' \<Longrightarrow> Q v w'" and "\<And>e w'. proper e \<Longrightarrow> spends 0 w w' \<Longrightarrow> E e w'"
  shows "wp (get_json env cfg path ps) Q E w"
  unfolding get_json_def wp_simps
  by (auto simp: wp_simps split: http_reply.split option.split intro!: assms)

lemma wp_validated [wp_simps]:
  "wp (validated x msg) Q E w = (case x of None \<Rightarrow> E (E_TOOL TC_MALFORMED_RESPONSE msg) w | Some v \<Rightarrow> Q v w)"
  by (simp add: validated_def wp_simps split: option.split)

lemma wp_api:
  assumes "\<And>v w'. spends 0 w w' \<Longrightarrow> Q v w'" and "\<And>e w'. proper e \<Longrightarrow> spends 0 w w' \<Longrightarrow> E e w'"
  shows "wp (api_get_incident env cfg i) Q E w"
  unfolding api_get_incident_def wp_simps by (rule wp_get_json) (auto split: option.split intro!: assms)

lemma wp_api_history:
  assumes "\<And>v w'. spends 0 w w' \<Longrightarrow> Q v w'" and "\<And>e w'. proper e \<Longrightarrow> spends 0 w w' \<Longrightarrow> E e w'"
  shows "wp (api_get_history env cfg i) Q E w"
  unfolding api_get_history_def wp_simps by (rule wp_get_json) (auto split: option.split intro!: assms)

lemma wp_api_evidence:
  assumes "\<And>v w'. spends 0 w w' \<Longrightarrow> Q v w'" and "\<And>e w'. proper e \<Longrightarrow> spends 0 w w' \<Longrightarrow> E e w'"
  shows "wp (api_get_evidence env cfg i) Q E w"
  unfolding api_get_evidence_def wp_simps by (rule wp_get_json) (auto split: option.split intro!: assms)

lemma wp_api_list:
  assumes "\<And>v w'. spends 0 w w' \<Longrightarrow> Q v w'" and "\<And>e w'. proper e \<Longrightarrow> spends 0 w w' \<Longrightarrow> E e w'"
  shows "wp (api_list_incidents env cfg s h st l) Q E w"
  unfolding api_list_incidents_def wp_simps
  by (rule wp_get_json) (auto simp: spends_0 split: option.split intro!: assms)

lemma wp_scrape:
  assumes "\<And>v w'. spends 0 w w' \<Longrightarrow> Q v w'" and "\<And>e w'. proper e \<Longrightarrow> spends 0 w w' \<Longrightarrow> E e w'"
  shows "wp (scrape env cfg s ms) Q E w"
  unfolding scrape_def
  by (auto simp: wp_simps spends_0 Let_def unknown_service_def split: option.split http_reply.split intro!: assms)

lemma wp_check_health:
  assumes "\<And>v w'. spends 0 w w' \<Longrightarrow> Q v w'" and "\<And>e w'. proper e \<Longrightarrow> spends 0 w w' \<Longrightarrow> E e w'"
  shows "wp (check_health env cfg s) Q E w"
  unfolding check_health_def probe_def
  by (auto simp: wp_simps spends_0 unknown_service_def split: option.split prod.split intro!: assms)

section \<open>Tools\<close>

text \<open>The most evidence a call can hand out: one item, but for the two tools that list rows.\<close>

definition tool_cost :: "resource_limits \<Rightarrow> rca_world \<Rightarrow> tool_name \<Rightarrow> nat" where
  "tool_cost l w n = (if n \<in> {T_ANOMALY, T_RELATED} then max 1 (remaining_evidence l w) else 1)"

lemma tool_cost_cong: "wd_issued w = wd_issued w' \<Longrightarrow> tool_cost l w n = tool_cost l w' n"
  by (simp add: tool_cost_def remaining_evidence_def)

definition tool_effect :: "nat \<Rightarrow> rca_world \<Rightarrow> tool_result \<Rightarrow> rca_world \<Rightarrow> bool" where
  "tool_effect k w r w' \<longleftrightarrow>
     spends k w w' \<and>
     (if tr_ok r then tr_error r = None \<and> issues w (tr_evidence r) w' else tr_error r \<noteq> None \<and> tr_evidence r = [])"

lemma wp_tool_failure [wp_simps]:
  "wp (tool_failure n c msg q) Q E w =
     (if length msg \<le> 500
      then Q \<lparr>tr_tool = n, tr_status = c, tr_evidence = [],
            tr_error = Some \<lparr>te_code = c, te_message = msg, te_retriable = retriable c\<rparr>,
            tr_summary = tool_str n @ '': '' @ tool_code_str c, tr_query = q\<rparr> w
      else E validation_error w)"
  by (simp add: tool_failure_def wp_simps)

lemma wp_tool_success [wp_simps]:
  "wp (tool_success rq evs su) Q E w =
     (if length su \<le> 500
      then Q \<lparr>tr_tool = request_tool rq, tr_status = TC_OK, tr_evidence = evs, tr_error = None,
            tr_summary = su, tr_query = dump_request rq\<rparr> w
      else E validation_error w)"
  by (simp add: tool_success_def wp_simps)

lemma spends_le: "spends j w w' \<Longrightarrow> j \<le> k \<Longrightarrow> spends k w w'"
  by (rule spends_mono)

text \<open>The common end of the four tools that produce one item.\<close>

lemma wp_one_item:
  assumes "spends 0 w0 w" and k: "1 \<le> k"
  shows "wp (then_do (build_evidence env src n ref su content service observed) (\<lambda>ev. tool_success rq [ev] sm))
    (tool_effect k w0) (\<lambda>e w'. proper e \<and> spends k w0 w') w"
  unfolding wp_simps
proof (rule wp_build_evidence)
  fix e w' assume "issues w [e] w'"
  then have "issues w0 [e] w'" using assms by (simp add: issues_0_left)
  then show "if length sm \<le> 500
      then tool_effect k w0 \<lparr>tr_tool = request_tool rq, tr_status = TC_OK, tr_evidence = [e], tr_error = None,
            tr_summary = sm, tr_query = dump_request rq\<rparr> w'
      else proper validation_error \<and> spends k w0 w'"
    using issues_spends [of w0 "[e]" w' k] k by (simp add: tool_effect_def tr_ok_def)
next
  fix x w' assume "proper x" "spends 1 w w'"
  then show "proper x \<and> spends k w0 w'"
    using assms spends_le [OF _ k] by (simp add: spends_0_left del: One_nat_def)
qed

text \<open>The common end of the two tools that produce one item per row of a list.\<close>

lemma wp_items:
  assumes "spends 0 w0 w" and k: "length xs \<le> k"
    and f: "\<And>x. \<exists>src n ref su content service observed. f x = build_evidence env src n ref su content service observed"
  shows "wp (then_do (map_act f xs) (\<lambda>evs. tool_success rq evs (sm evs)))
    (tool_effect k w0) (\<lambda>e w'. proper e \<and> spends k w0 w') w"
  unfolding wp_simps
proof (rule wp_mono [OF wp_map_evidence [OF f]])
  fix evs w' assume "length evs = length xs \<and> issues w evs w'"
  then have "length evs \<le> k" and "issues w0 evs w'" using assms by (simp_all add: issues_0_left)
  then show "if length (sm evs) \<le> 500
      then tool_effect k w0 \<lparr>tr_tool = request_tool rq, tr_status = TC_OK, tr_evidence = evs, tr_error = None,
            tr_summary = sm evs, tr_query = dump_request rq\<rparr> w'
      else proper validation_error \<and> spends k w0 w'"
    using issues_spends [of w0 evs w' k] by (simp add: tool_effect_def tr_ok_def)
next
  fix x w' assume "proper x \<and> spends (length xs) w w'"
  then show "proper x \<and> spends k w0 w'" using assms spends_le [OF _ k] by (simp add: spends_0_left)
qed

lemma spends_0_le: "spends 0 w w' \<Longrightarrow> spends k w w'"
  by (erule spends_mono) simp

lemma wp_within_budget:
  assumes "wp m (\<lambda>x. wp (f x) Q (\<lambda>e w'. proper e \<and> spends k w w')) (\<lambda>e w'. proper e \<and> spends k w w') w"
  shows "wp (if b = 0 then throw budget_exhausted else then_do m f) Q (\<lambda>e w'. proper e \<and> spends k w w') w"
  using assms by (simp add: wp_throw wp_then_do budget_exhausted_def)

lemma wp_run_request:
  assumes k: "tool_cost (rc_limits cfg) w (request_tool rq) \<le> k"
  shows "wp (run_request env cfg rq) (tool_effect k w) (\<lambda>e w'. proper e \<and> spends k w w') w"
proof (cases rq)
  case (RQ_INCIDENT i)
  show ?thesis
    unfolding RQ_INCIDENT run_request.simps run_get_incident_def wp_then_do [of "api_get_incident env cfg i"]
    by (rule wp_api) (rule wp_one_item, assumption, use k RQ_INCIDENT in \<open>simp_all add: tool_cost_def spends_0_le\<close>)
next
  case (RQ_TIMELINE i)
  show ?thesis
    unfolding RQ_TIMELINE run_request.simps run_get_timeline_def wp_then_do [of "api_get_history env cfg i"]
    by (rule wp_api_history) (rule wp_one_item, assumption, use k RQ_TIMELINE in \<open>simp_all add: tool_cost_def spends_0_le\<close>)
next
  case (RQ_METRICS s ms)
  show ?thesis
    unfolding RQ_METRICS run_request.simps run_get_metrics_def Let_def wp_then_do [of "scrape env cfg s ms"]
    by (rule wp_scrape) (rule wp_one_item, assumption, use k RQ_METRICS in \<open>simp_all add: tool_cost_def spends_0_le\<close>)
next
  case (RQ_HEALTH s)
  show ?thesis
    unfolding RQ_HEALTH run_request.simps run_get_health_def wp_then_do [of "check_health env cfg s"]
    by (rule wp_check_health) (rule wp_one_item, assumption, use k RQ_HEALTH in \<open>simp_all add: tool_cost_def spends_0_le\<close>)
next
  case (RQ_ANOMALY i l)
  have f: "\<exists>src n ref su content service observed. anomaly_evidence env i x =
      build_evidence env src n ref su content service observed" for x
    unfolding anomaly_evidence_def by blast
  show ?thesis
    unfolding RQ_ANOMALY run_request.simps run_get_anomalies_def wp_then_do [of "reads f" for f] wp_reads
    by (rule wp_within_budget [where m = "api_get_evidence env cfg i"])
      (rule wp_api_evidence, rule wp_items [OF _ _ f], assumption,
        use k RQ_ANOMALY in \<open>simp_all add: tool_cost_def spends_0_le min_le_iff_disj\<close>)
next
  case (RQ_RELATED s h st l)
  have f: "\<exists>src n ref su content service observed. related_evidence env s x =
      build_evidence env src n ref su content service observed" for x
    unfolding related_evidence_def by blast
  show ?thesis
    unfolding RQ_RELATED run_request.simps run_get_related_def wp_then_do [of "reads f" for f] wp_reads
    by (rule wp_within_budget [where m = "api_list_incidents env cfg s h st l"])
      (rule wp_api_list, rule wp_items [OF _ _ f], assumption,
        use k RQ_RELATED in \<open>simp_all add: tool_cost_def spends_0_le min_le_iff_disj\<close>)
qed (simp_all add: wp_simps tool_effect_def tr_ok_def)

lemma read_request_tool: "read_request f n d = Some r \<Longrightarrow> request_tool r = n"
  by (cases n) (auto simp: bind_eq_Some_conv split: if_splits)

lemma parse_request_tool: "parse_request f n d = Some r \<Longrightarrow> request_tool r = n"
  by (auto simp: parse_request_def bind_eq_Some_conv read_request_tool split: if_splits)

lemma wp_tool_run:
  assumes k_def: "k = tool_cost (rc_limits cfg) w n"
  shows "wp (tool_run env cfg n raw) (tool_effect k w) (\<lambda>e w'. e = validation_error \<and> spends k w w') w"
proof -
  have "wp (run_request env cfg rq) (tool_effect k w)
      (\<lambda>e w'. wp (case e of E_TOOL c msg \<Rightarrow> tool_failure n c msg (dump_request rq)
          | _ \<Rightarrow> ret (unexpected_failure n (dump_request rq))) (tool_effect k w)
        (\<lambda>e w'. e = validation_error \<and> spends k w w') w') w"
    if "parse_request (en_int env) n raw = Some rq" for rq
    by (rule wp_mono [OF wp_run_request [where k = k]])
      (use parse_request_tool [OF that] in \<open>auto simp: k_def wp_simps tool_effect_def tr_ok_def unexpected_failure_def split: exn.split\<close>)
  then show ?thesis
    unfolding tool_run_def
    by (auto simp: wp_simps tool_effect_def tr_ok_def split: option.split)
qed

end
