(* ===== verification/RcaRun.thy ===== *)
theory RcaRun imports RcaEngine RcaToolLaws begin

text \<open>
  The run of an investigation. \<open>run_inv\<close> is what holds whenever a node is entered, \<open>run_bound\<close> an upper
  bound on the number of nodes that can still run; every node keeps the one and lowers the other, or
  ends the run in a state that satisfies \<open>run_final\<close>. Nothing is assumed of the model client, of the
  outside or of the clock.
\<close>

section \<open>Meters\<close>

definition meter :: "rca_world \<Rightarrow> nat \<times> nat \<times> nat" where
  "meter w = (wd_issued w, wd_seq w, us_tool_calls (wd_usage w))"

lemma meter_outside [simp]:
  "meter (w\<lparr>wd_ticks := n\<rparr>) = meter w" "meter (w\<lparr>wd_calls := n\<rparr>) = meter w"
  by (simp_all add: meter_def)

lemma wp_step:
  assumes "\<And>note w'. is_seq note = Suc (wd_seq w) \<Longrightarrow>
      meter w' = (wd_issued w, Suc (wd_seq w), us_tool_calls (wd_usage w)) \<Longrightarrow> Q note w'"
  shows "wp (step d k ph desc tool ids) Q E w"
  unfolding step_def wp_simps by (rule assms) (simp_all add: meter_def)

lemma wp_limits_checked:
  assumes "\<And>w'. meter w' = meter w \<Longrightarrow> Q () w'" and "\<And>k w'. meter w' = meter w \<Longrightarrow> E (E_LIMIT k) w'"
  shows "wp (limits_checked d) Q E w"
  unfolding limits_checked_def by (auto simp: wp_simps split: sum.split intro!: assms)

lemma wp_try_limits: "wp (try_limits m) Q E w =
    wp m (\<lambda>x. Q (Inr x)) (\<lambda>e w'. case e of E_LIMIT k \<Rightarrow> Q (Inl k) w' | _ \<Rightarrow> E e w') w"
proof -
  have "(\<lambda>e. wp (case e of E_LIMIT k \<Rightarrow> ret (Inl k) | _ \<Rightarrow> throw e) Q E) =
      (\<lambda>e w'. case e of E_LIMIT k \<Rightarrow> Q (Inl k) w' | _ \<Rightarrow> E e w')"
    by (intro ext) (simp add: wp_simps split: exn.split)
  then show ?thesis by (simp add: try_limits_def wp_simps)
qed

lemma wp_try_llm: "wp (try_llm m) Q E w =
    wp m (\<lambda>x. Q (Inr x)) (\<lambda>e w'. case e of E_LLM k msg \<Rightarrow> Q (Inl (k, msg)) w' | _ \<Rightarrow> E e w') w"
proof -
  have "(\<lambda>e. wp (case e of E_LLM k msg \<Rightarrow> ret (Inl (k, msg)) | _ \<Rightarrow> throw e) Q E) =
      (\<lambda>e w'. case e of E_LLM k msg \<Rightarrow> Q (Inl (k, msg)) w' | _ \<Rightarrow> E e w')"
    by (intro ext) (simp add: wp_simps split: exn.split)
  then show ?thesis by (simp add: try_llm_def wp_simps)
qed

lemma wp_ask_llm:
  assumes "\<And>r w'. meter w' = meter w \<Longrightarrow> Q (Inr r) w'" and "\<And>km w'. meter w' = meter w \<Longrightarrow> Q (Inl km) w'"
    and "\<And>x w'. meter w' = meter w \<Longrightarrow> E (E_OTHER x) w'"
  shows "wp (try_llm (ask f q)) Q E w"
  unfolding wp_try_llm ask_def wp_simps
  by (cases "f (wd_calls w) q"; cases "projl (f (wd_calls w) q)") (auto simp: wp_simps intro!: assms)

lemma wp_guarded:
  assumes body: "\<And>w'. meter w' = meter w \<Longrightarrow> wp body Q E w'"
    and time: "\<And>reason w'. meter w' = meter w \<Longrightarrow> Q (terminal R_TIMED_OUT reason s) w'"
    and degrade: "\<And>nxt st note w'. degrade_next n = Some (nxt, st) \<Longrightarrow> is_seq note = Suc (wd_seq w) \<Longrightarrow>
      meter w' = (wd_issued w, Suc (wd_seq w), us_tool_calls (wd_usage w)) \<Longrightarrow>
      Q (go st nxt (with_steps [note] s)\<lparr>st_queue := []\<rparr>) w'"
    and some: "degrade_next n \<noteq> None"
  shows "wp (guarded d n ph s body) Q E w"
proof -
  have m: "wd_issued w' = wd_issued w \<and> wd_seq w' = wd_seq w \<and> us_tool_calls (wd_usage w') = us_tool_calls (wd_usage w)"
    if "meter w' = meter w" for w' using that by (simp add: meter_def)
  obtain nxt st where n: "degrade_next n = Some (nxt, st)" using some by auto
  have "wp (step d K_LIMIT ph (limit_kind_str k @ '' limit reached; advancing to '' @ node_str nxt) None [])
      (\<lambda>note. Q (go st nxt (with_steps [note] s)\<lparr>st_queue := []\<rparr>)) E w'" if "meter w' = meter w" for k w'
    by (rule wp_step) (rule degrade [OF n], use m [OF that] in simp_all)
  then show ?thesis
    unfolding guarded_def wp_then_do wp_try_limits
    by (auto intro!: wp_limits_checked body time simp: n wp_simps split: limit_kind.split)
qed

section \<open>Tool calls\<close>

definition id_run :: "nat \<Rightarrow> nat \<Rightarrow> string list \<Rightarrow> bool" where
  "id_run lo hi ids \<longleftrightarrow> (\<exists>ns. sorted_wrt (<) ns \<and> (\<forall>n \<in> set ns. lo < n \<and> n \<le> hi) \<and> ids = map evidence_id ns)"

lemma id_run_Nil [simp]: "id_run lo hi []"
  unfolding id_run_def by (rule exI [of _ "[]"]) simp

lemma id_run_mono: "id_run lo hi ids \<Longrightarrow> hi \<le> hi' \<Longrightarrow> id_run lo hi' ids"
  unfolding id_run_def by fastforce

lemma id_run_append:
  assumes "id_run lo mid xs" and "id_run mid hi ys" and "lo \<le> mid" and "mid \<le> hi"
  shows "id_run lo hi (xs @ ys)"
proof -
  from assms obtain ms ns where "sorted_wrt (<) ms" "\<forall>n \<in> set ms. lo < n \<and> n \<le> mid" "xs = map evidence_id ms"
    "sorted_wrt (<) ns" "\<forall>n \<in> set ns. mid < n \<and> n \<le> hi" "ys = map evidence_id ns"
    unfolding id_run_def by blast
  then have "sorted_wrt (<) (ms @ ns) \<and> (\<forall>n \<in> set (ms @ ns). lo < n \<and> n \<le> hi) \<and> xs @ ys = map evidence_id (ms @ ns)"
    using assms(3,4) by (fastforce simp: sorted_wrt_append)
  then show ?thesis unfolding id_run_def by blast
qed

lemma fresh_ids_run: "id_run (wd_issued w) (wd_issued w') (fresh_ids w w')"
  unfolding id_run_def fresh_ids_def
  by (rule exI [of _ "[Suc (wd_issued w) ..< Suc (wd_issued w')]"]) (auto simp: sorted_wrt_upt simp del: upt_Suc)

definition call_effect :: "graph_deps \<Rightarrow> tool_name \<Rightarrow> rca_world \<Rightarrow> evidence_item list \<Rightarrow> rca_world \<Rightarrow> bool" where
  "call_effect d n w evs w' \<longleftrightarrow>
     wd_seq w' = wd_seq w \<and> us_tool_calls (wd_usage w') = us_tool_calls (wd_usage w) + 1 \<and>
     wd_issued w \<le> wd_issued w' \<and> wd_issued w' \<le> wd_issued w + tool_cost (dp_limits d) w n \<and>
     id_run (wd_issued w) (wd_issued w') (map rv_id evs)"

lemma call_effect_of_tool:
  assumes "tool_effect (tool_cost (dp_limits d) w n) w r w'" and "w = w0\<lparr>wd_usage := (wd_usage w0)\<lparr>us_tool_calls := us_tool_calls (wd_usage w0) + 1\<rparr>\<rparr>"
    and "meter w0 = meter w1"
    and "w'' = w'\<lparr>wd_usage := (wd_usage w')\<lparr>us_evidence := m\<rparr>\<rparr>"
  shows "call_effect d n w1 (tr_evidence r) w''"
proof -
  have i: "wd_issued w = wd_issued w1" "wd_seq w = wd_seq w1"
    "us_tool_calls (wd_usage w) = us_tool_calls (wd_usage w1) + 1"
    using assms(2,3) by (simp_all add: meter_def)
  have s: "spends (tool_cost (dp_limits d) w n) w w'" using assms(1) by (simp add: tool_effect_def)
  have "map rv_id (tr_evidence r) = [] \<or> map rv_id (tr_evidence r) = fresh_ids w w'"
    using assms(1) by (auto simp: tool_effect_def issues_def split: if_splits)
  then have "id_run (wd_issued w) (wd_issued w') (map rv_id (tr_evidence r))"
    using fresh_ids_run [of w w'] by auto
  then show ?thesis
    using s i assms(4) tool_cost_cong [OF i(1)] by (simp add: call_effect_def spends_def)
qed

lemma wp_call:
  assumes fin: "\<And>r w'. call_effect d (vc_tool c) w (tr_evidence r) w' \<Longrightarrow> Q (Inr r) w'"
    and limit: "\<And>k w'. meter w' = meter w \<Longrightarrow> Q (Inl k) w'"
    and err: "\<And>w'. call_effect d (vc_tool c) w [] w' \<Longrightarrow> E validation_error w'"
  shows "wp (try_limits (run_validated_call d c)) Q E w"
  unfolding wp_try_limits run_validated_call_def wp_then_do
proof (rule wp_limits_checked)
  fix w1 assume m: "meter w1 = meter w"
  let ?w = "w1\<lparr>wd_usage := (wd_usage w1)\<lparr>us_tool_calls := us_tool_calls (wd_usage w1) + 1\<rparr>\<rparr>"
  show "wp (writes (\<lambda>w. w\<lparr>wd_usage := (wd_usage w)\<lparr>us_tool_calls := us_tool_calls (wd_usage w) + 1\<rparr>\<rparr>))
     (\<lambda>x. wp (tool_run (dp_env d) (dp_cfg d) (vc_tool c) (vc_arguments c))
       (\<lambda>x. wp (writes (\<lambda>w. w\<lparr>wd_usage := (wd_usage w)\<lparr>us_evidence := us_evidence (wd_usage w) + length (tr_evidence x)\<rparr>\<rparr>))
           (\<lambda>xa. wp (ret x) (\<lambda>x. Q (Inr x)) (\<lambda>e w'. case e of E_LIMIT k \<Rightarrow> Q (Inl k) w' | _ \<Rightarrow> E e w'))
           (\<lambda>e w'. case e of E_LIMIT k \<Rightarrow> Q (Inl k) w' | _ \<Rightarrow> E e w'))
       (\<lambda>e w'. case e of E_LIMIT k \<Rightarrow> Q (Inl k) w' | _ \<Rightarrow> E e w'))
     (\<lambda>e w'. case e of E_LIMIT k \<Rightarrow> Q (Inl k) w' | _ \<Rightarrow> E e w') w1"
    unfolding wp_writes wp_ret
  proof (rule wp_mono [OF wp_tool_run [OF refl]])
    fix r w' assume "tool_effect (tool_cost (dp_limits d) ?w (vc_tool c)) ?w r w'"
    then show "Q (Inr r) (w'\<lparr>wd_usage := (wd_usage w')\<lparr>us_evidence := us_evidence (wd_usage w') + length (tr_evidence r)\<rparr>\<rparr>)"
      by (intro fin call_effect_of_tool [OF _ refl m refl])
  next
    fix e w' assume e: "e = validation_error \<and> spends (tool_cost (dp_limits d) ?w (vc_tool c)) ?w w'"
    then have "call_effect d (vc_tool c) w [] w'"
      using m tool_cost_cong [of ?w w "dp_limits d" "vc_tool c"] by (simp add: call_effect_def spends_def meter_def)
    then show "case e of E_LIMIT k \<Rightarrow> Q (Inl k) w' | _ \<Rightarrow> E e w'" using e err by simp
  qed
qed (simp add: limit)

section \<open>Invariant and bound\<close>

definition step_run :: "nat \<Rightarrow> investigation_step list \<Rightarrow> bool" where
  "step_run q ss \<longleftrightarrow> sorted_wrt (<) (map is_seq ss) \<and> (\<forall>x \<in> set ss. is_seq x \<le> q)"

lemma step_run_simps [simp]:
  "step_run q []"
  "step_run q (ss @ [x]) \<longleftrightarrow> step_run q ss \<and> (\<forall>y \<in> set ss. is_seq y < is_seq x) \<and> is_seq x \<le> q"
  by (auto simp: step_run_def sorted_wrt_append)

lemma step_run_mono: "step_run q ss \<Longrightarrow> q \<le> q' \<Longrightarrow> step_run q' ss"
  by (auto simp: step_run_def)

lemma step_run_append:
  "step_run q ss \<Longrightarrow> step_run q' ts \<Longrightarrow> \<forall>y \<in> set ts. q < is_seq y \<Longrightarrow> q \<le> q' \<Longrightarrow> step_run q' (ss @ ts)"
  by (fastforce simp: step_run_def sorted_wrt_append)

lemma step_run_note: "step_run q ss \<Longrightarrow> is_seq x = Suc q \<Longrightarrow> step_run (Suc q) (ss @ [x])"
  by (auto simp: step_run_def sorted_wrt_append)

definition spent_ok :: "graph_deps \<Rightarrow> inv_state \<Rightarrow> rca_world \<Rightarrow> bool" where
  "spent_ok d s w \<longleftrightarrow>
     us_tool_calls (wd_usage w) \<le> rl_tool_calls (dp_limits d) \<and> wd_issued w \<le> max 2 (rl_evidence (dp_limits d)) \<and>
     id_run 0 (wd_issued w) (map rv_id (st_evidence s)) \<and> step_run (wd_seq w) (st_steps s)"

definition queue_ok :: "graph_deps \<Rightarrow> node \<Rightarrow> inv_state \<Rightarrow> rca_world \<Rightarrow> bool" where
  "queue_ok d n s w \<longleftrightarrow> (case n of
     N_INITIALIZE \<Rightarrow> us_tool_calls (wd_usage w) = 0 \<and> wd_issued w = 0 \<and> st_evidence s = [] \<and> st_hypotheses s = []
   | N_PLAN \<Rightarrow> us_tool_calls (wd_usage w) = 1 \<and> wd_issued w \<le> 1
   | N_COLLECT \<Rightarrow> us_tool_calls (wd_usage w) + length (st_queue s) \<le> rl_tool_calls (dp_limits d) \<and>
       (wd_issued w \<le> 1 \<or> wd_issued w < rl_evidence (dp_limits d))
   | N_ANALYZE \<Rightarrow> us_tool_calls (wd_usage w) + length (st_queue s) \<le> rl_tool_calls (dp_limits d)
   | _ \<Rightarrow> True)"

definition drafts_ok :: "graph_deps \<Rightarrow> node \<Rightarrow> inv_state \<Rightarrow> bool" where
  "drafts_ok d n s \<longleftrightarrow>
     hypotheses_known (known_ids (st_evidence s)) (st_hypotheses s) \<and> \<not> rca_is_terminal (st_status s) \<and>
     st_repair s \<le> 1 \<and> st_reanalysis s \<le> 1 \<and>
     (n \<noteq> N_VALIDATE \<and> \<not> (n = N_SYNTHESIZE \<and> st_repair s = 1) \<longrightarrow> st_rca s = None) \<and>
     (\<forall>r. st_rca s = Some r \<longrightarrow> assembled_from d (st_evidence s) r)"

definition run_inv :: "graph_deps \<Rightarrow> node \<Rightarrow> inv_state \<Rightarrow> rca_world \<Rightarrow> bool" where
  "run_inv d n s w \<longleftrightarrow> spent_ok d s w \<and> queue_ok d n s w \<and> drafts_ok d n s"

definition run_final :: "graph_deps \<Rightarrow> inv_state \<Rightarrow> rca_world \<Rightarrow> bool" where
  "run_final d s w \<longleftrightarrow>
     spent_ok d s w \<and> rca_is_terminal (st_status s) \<and>
     (\<forall>r. st_rca s = Some r \<longrightarrow> assembled_from d (st_evidence s) r) \<and>
     (st_status s = R_COMPLETED \<longrightarrow> st_rca s \<noteq> None) \<and>
     (\<forall>r. st_rca s = Some r \<and> st_status s \<in> {R_COMPLETED, R_INSUFFICIENT} \<longrightarrow>
        rp_status r = st_status s \<and> report_grounded r (known_ids (st_evidence s)))"

fun tail_bound :: "node \<Rightarrow> nat \<Rightarrow> nat \<Rightarrow> nat" where
  "tail_bound N_VALIDATE rep rea = (if rep = 0 then 3 else 1)"
| "tail_bound N_SYNTHESIZE rep rea = (if rep = 0 then 4 else 2)"
| "tail_bound N_VERIFY rep rea = 5 + (if rea = 0 then 2 else 0)"
| "tail_bound N_ANALYZE rep rea = 6 + (if rea = 0 then 2 else 0)"
| "tail_bound _ rep rea = 8"

definition run_bound :: "graph_deps \<Rightarrow> node \<Rightarrow> inv_state \<Rightarrow> nat" where
  "run_bound d n s = tail_bound n (st_repair s) (st_reanalysis s) +
     (case n of
        N_INITIALIZE \<Rightarrow> rl_tool_calls (dp_limits d) + 2
      | N_PLAN \<Rightarrow> rl_tool_calls (dp_limits d) + 1
      | N_COLLECT \<Rightarrow> max 1 (length (st_queue s))
      | _ \<Rightarrow> 0)"

definition continues :: "graph_deps \<Rightarrow> node \<Rightarrow> inv_state \<Rightarrow> inv_state \<Rightarrow> rca_world \<Rightarrow> bool" where
  "continues d n s s' w \<longleftrightarrow>
     (case route s' of
        None \<Rightarrow> run_final d s' w
      | Some n' \<Rightarrow> run_inv d n' s' w \<and> run_bound d n' s' < run_bound d n s)"

lemmas state_defs = terminal_def go_def with_steps_def with_evidence_def

lemma meter_eq:
  "meter w' = (i, q, c) \<longleftrightarrow> wd_issued w' = i \<and> wd_seq w' = q \<and> us_tool_calls (wd_usage w') = c"
  by (auto simp: meter_def)

lemma spent_ok_meter:
  "meter w' = meter w \<Longrightarrow> spent_ok d s w' = spent_ok d s w"
  "meter w' = meter w \<Longrightarrow> queue_ok d n s w' = queue_ok d n s w"
  "meter w' = meter w \<Longrightarrow> run_inv d n s w' = run_inv d n s w"
  by (simp_all add: meter_def spent_ok_def queue_ok_def run_inv_def split: node.split)

lemma spent_ok_note:
  assumes "spent_ok d s w" and "is_seq note = Suc (wd_seq w)"
    and "meter w' = (wd_issued w, Suc (wd_seq w), us_tool_calls (wd_usage w))"
    and "st_evidence s' = st_evidence s" and "st_steps s' = st_steps s @ [note]"
  shows "spent_ok d s' w'"
  using assms step_run_note [of "wd_seq w" "st_steps s" "note"] by (simp add: spent_ok_def meter_eq)

lemma continues_terminal:
  assumes "run_inv d n s w" and "meter w' = meter w" and "st \<in> {R_FAILED, R_TIMED_OUT}"
  shows "continues d n s (terminal st reason s) w'"
  using assms spent_ok_meter(1) [OF assms(2)]
  by (auto simp: continues_def route_def run_final_def run_inv_def drafts_ok_def terminal_def spent_ok_def)

lemma continues_llm_terminal:
  assumes "run_inv d n s w" and "meter w' = meter w"
  shows "continues d n s (llm_terminal km s) w'"
  using continues_terminal [OF assms] by (auto simp: llm_terminal_def split: prod.split)

lemma continues_degrade:
  assumes "run_inv d n s w" and "degrade_next n = Some (nxt, st)" and "is_seq note = Suc (wd_seq w)"
    and "meter w' = (wd_issued w, Suc (wd_seq w), us_tool_calls (wd_usage w))"
  shows "continues d n s (go st nxt (with_steps [note] s)\<lparr>st_queue := []\<rparr>) w'"
proof -
  let ?s = "go st nxt (with_steps [note] s)\<lparr>st_queue := []\<rparr>"
  have "spent_ok d ?s w'"
    by (rule spent_ok_note [OF _ assms(3,4)]) (use assms in \<open>simp_all add: run_inv_def state_defs\<close>)
  moreover have "drafts_ok d nxt ?s \<and> \<not> rca_is_terminal st"
    using assms(1,2) by (cases n) (auto simp: run_inv_def drafts_ok_def state_defs)
  moreover have "queue_ok d nxt ?s w'"
    using assms by (cases n) (auto simp: run_inv_def queue_ok_def spent_ok_def meter_eq state_defs)
  moreover have "run_bound d nxt ?s < run_bound d n s"
    using assms(1,2) by (cases n) (auto simp: run_bound_def state_defs run_inv_def drafts_ok_def)
  ultimately show ?thesis by (simp add: continues_def route_def run_inv_def state_defs)
qed

lemma wp_guarded_inv:
  assumes "run_inv d n s w" and "degrade_next n \<noteq> None"
    and "\<And>w'. meter w' = meter w \<Longrightarrow> run_inv d n s w' \<Longrightarrow> wp body (continues d n s) E w'"
  shows "wp (guarded d n ph s body) (continues d n s) E w"
proof (rule wp_guarded)
  fix w' assume m: "meter w' = meter w"
  show "wp body (continues d n s) E w'" using assms(3) [OF m] spent_ok_meter(3) [OF m] assms(1) by blast
next
  fix reason w' assume "meter w' = meter w"
  then show "continues d n s (terminal R_TIMED_OUT reason s) w'" by (rule continues_terminal [OF assms(1)]) simp
qed (rule continues_degrade [OF assms(1)], assumption+, rule assms(2))

section \<open>Plans\<close>

lemma validate_call_length:
  "length (pv_accepted v) \<le> m \<Longrightarrow> length (pv_accepted (validate_call env m v c)) \<le> m"
  by (auto simp: validate_call_def reject_def split: option.split)

lemma validate_plan_length: "length (pv_accepted (validate_plan env m cs)) \<le> m"
proof -
  have "length (pv_accepted v) \<le> m \<Longrightarrow> length (pv_accepted (foldl (validate_call env m) v cs)) \<le> m" for v
    by (induction cs arbitrary: v) (simp_all add: validate_call_length)
  then show ?thesis by (simp add: validate_plan_def)
qed

section \<open>Nodes\<close>

abbreviation other_error :: "exn \<Rightarrow> rca_world \<Rightarrow> bool" where
  "other_error e w \<equiv> (\<exists>x. e = E_OTHER x)"

lemma known_ids_append: "known_ids (xs @ ys) = known_ids xs \<union> known_ids ys"
  by (simp add: known_ids_def)

lemma hypotheses_known_mono: "hypotheses_known k hs \<Longrightarrow> k \<subseteq> k' \<Longrightarrow> hypotheses_known k' hs"
  by (auto simp: hypotheses_known_def)

lemma spent_ok_call:
  assumes "spent_ok d s w" and "call_effect d n w evs w1" and "wd_issued w \<le> 1 \<or> wd_issued w < rl_evidence (dp_limits d)"
    and "us_tool_calls (wd_usage w) < rl_tool_calls (dp_limits d)"
    and "is_seq n1 = Suc (wd_seq w1)" and "meter w2 = (wd_issued w1, Suc (wd_seq w1), us_tool_calls (wd_usage w1))"
    and "st_evidence s' = st_evidence s @ evs" and "st_steps s' = st_steps s @ [n1]"
  shows "spent_ok d s' w2"
proof -
  have "id_run 0 (wd_issued w1) (map rv_id (st_evidence s) @ map rv_id evs)"
    by (rule id_run_append) (use assms(1,2) in \<open>auto simp: spent_ok_def call_effect_def\<close>)
  moreover have "step_run (Suc (wd_seq w)) (st_steps s @ [n1])"
    by (rule step_run_note) (use assms(1,2,5) in \<open>auto simp: spent_ok_def call_effect_def\<close>)
  moreover have "wd_issued w1 \<le> max 2 (rl_evidence (dp_limits d))"
    using assms(1,2,3)
    by (auto simp: spent_ok_def call_effect_def tool_cost_def remaining_evidence_def max_def split: if_splits)
  ultimately show ?thesis using assms by (simp add: spent_ok_def call_effect_def meter_eq)
qed

lemma wp_finish_plan:
  assumes inv: "run_inv d N_PLAN s w" and len: "length (pv_accepted v) \<le> rl_tool_calls (dp_limits d) - 1"
    and max: "1 \<le> rl_tool_calls (dp_limits d)"
  shows "wp (finish_plan d ra v s) (continues d N_PLAN s) E w"
  unfolding finish_plan_def wp_then_do
proof (rule wp_step)
  fix n1 :: investigation_step and w'
  assume n1: "is_seq n1 = Suc (wd_seq w)"
    and w': "meter w' = (wd_issued w, Suc (wd_seq w), us_tool_calls (wd_usage w))"
  have sp: "spent_ok d s' w'" if "st_evidence s' = st_evidence s" "st_steps s' = st_steps s @ [n1]" for s'
    by (rule spent_ok_note [OF _ n1 w' that]) (use inv in \<open>simp add: run_inv_def\<close>)
  have "continues d N_PLAN s (terminal R_INSUFFICIENT r (with_steps [n1] s)\<lparr>st_rationale := ra\<rparr>) w'" for r
    using inv sp
    by (simp add: continues_def route_def run_final_def run_inv_def drafts_ok_def state_defs)
  moreover have "continues d N_PLAN s (go R_COLLECTING N_COLLECT (with_steps [n1] s)
      \<lparr>st_queue := pv_accepted v, st_rationale := ra\<rparr>) w'" if "pv_accepted v \<noteq> []"
    using inv sp w' len max that
    by (auto simp: continues_def route_def run_inv_def drafts_ok_def queue_ok_def state_defs meter_eq run_bound_def)
  ultimately show "wp (if pv_accepted v = [] then
         ret (terminal R_INSUFFICIENT ''no valid evidence-collection plan could be produced''
           (with_steps [n1] s)\<lparr>st_rationale := ra\<rparr>)
       else ret (go R_COLLECTING N_COLLECT (with_steps [n1] s)
           \<lparr>st_queue := pv_accepted v, st_rationale := ra\<rparr>)) (continues d N_PLAN s) E w'"
    by (simp add: wp_ret)
qed

lemma wp_plan:
  assumes inv: "run_inv d N_PLAN s w" and max: "1 \<le> rl_tool_calls (dp_limits d)"
  shows "wp (plan d s) (continues d N_PLAN s) other_error w"
  unfolding plan_def
proof (rule wp_guarded_inv [OF inv])
  fix w' assume w': "run_inv d N_PLAN s w'"
  have fin: "wp (finish_plan d ra (validate_plan (dp_env d) (remaining_calls d w1) cs) s)
      (continues d N_PLAN s) other_error w2"
    if "meter w1 = meter w'" "meter w2 = meter w'" for ra cs w1 w2
  proof (rule wp_finish_plan [OF _ _ max])
    show "run_inv d N_PLAN s w2" using w' spent_ok_meter(3) [OF that(2)] by simp
    have "remaining_calls d w1 = rl_tool_calls (dp_limits d) - 1"
      using w' that(1) by (simp add: remaining_calls_def run_inv_def queue_ok_def meter_def)
    then show "length (pv_accepted (validate_plan (dp_env d) (remaining_calls d w1) cs)) \<le> rl_tool_calls (dp_limits d) - 1"
      by (metis validate_plan_length)
  qed
  show "wp (plan_body d s) (continues d N_PLAN s) other_error w'"
    unfolding plan_body_def wp_then_do
    by (rule wp_ask_llm) (auto simp: wp_simps Let_def intro!: wp_ask_llm fin continues_llm_terminal [OF w'])
qed simp

lemma wp_initialized:
  assumes inv: "run_inv d N_INITIALIZE s w"
    and sp: "spent_ok d (with_steps [n1] s) w1"
    and ok: "\<And>r. x = Inr r \<Longrightarrow> wd_issued w1 \<le> 1 \<and> us_tool_calls (wd_usage w1) = 1 \<and>
      id_run 0 (wd_issued w1) (map rv_id (tr_evidence r))"
  shows "wp (initialized d n1 s x) (continues d N_INITIALIZE s) E w1"
proof -
  have fin: "continues d N_INITIALIZE s (terminal st reason (with_steps [n1] s)) w1"
    if "st \<in> {R_FAILED, R_TIMED_OUT}" for st reason
    using inv that sp
    by (auto simp: continues_def route_def run_final_def run_inv_def drafts_ok_def state_defs spent_ok_def)
  have load: "wp (step d K_TOOL_CALL R_PLANNING t tool ids) (\<lambda>n2. continues d N_INITIALIZE s
        (go R_PLANNING N_PLAN (with_evidence [ev] (with_steps [n1, n2] s))
          \<lparr>st_incident := Some (rv_content ev), st_queue := [], st_reanalysis := 0, st_repair := 0\<rparr>)) E w1"
    if r: "x = Inr r" "tr_evidence r = ev # evs" for r ev evs t tool ids
  proof (rule wp_step)
    fix n2 :: investigation_step and w2
    assume n2: "is_seq n2 = Suc (wd_seq w1)"
      and w2: "meter w2 = (wd_issued w1, Suc (wd_seq w1), us_tool_calls (wd_usage w1))"
    let ?s = "go R_PLANNING N_PLAN (with_evidence [ev] (with_steps [n1, n2] s))
      \<lparr>st_incident := Some (rv_content ev), st_queue := [], st_reanalysis := 0, st_repair := 0\<rparr>"
    have c: "wd_issued w1 \<le> 1" "us_tool_calls (wd_usage w1) = 1"
      "id_run 0 (wd_issued w1) (rv_id ev # map rv_id evs)" using ok [OF r(1)] r(2) by simp_all
    have "id_run 0 (wd_issued w1) [rv_id ev]"
      using c(3) unfolding id_run_def by (auto intro: exI [of _ "[_]"])
    moreover have "step_run (Suc (wd_seq w1)) (st_steps s @ [n1, n2])"
      using step_run_note [of "wd_seq w1" "st_steps s @ [n1]" n2] sp n2
      by (simp add: spent_ok_def with_steps_def)
    ultimately have "spent_ok d ?s w2"
      using sp w2 inv by (simp add: spent_ok_def state_defs meter_eq run_inv_def queue_ok_def)
    then show "continues d N_INITIALIZE s ?s w2"
      using inv c(1,2) w2
      by (auto simp: continues_def route_def run_inv_def queue_ok_def drafts_ok_def state_defs meter_eq
          hypotheses_known_def run_bound_def)
  qed
  show ?thesis
  proof (cases x)
    case (Inl k)
    then show ?thesis using fin by (simp add: initialized_def wp_simps)
  next
    case (Inr r)
    then show ?thesis
      using fin load [OF Inr] by (cases "tr_evidence r") (simp_all add: initialized_def wp_simps Let_def)
  qed
qed

lemma wp_initialize:
  assumes inv: "run_inv d N_INITIALIZE s w" and max: "1 \<le> rl_tool_calls (dp_limits d)"
  shows "wp (initialize d s) (continues d N_INITIALIZE s) other_error w"
proof -
  have "wp (try_limits (run_validated_call d \<lparr>vc_tool = T_INCIDENT, vc_arguments = a\<rparr>))
      (\<lambda>r. wp (initialized d n1 s r) (continues d N_INITIALIZE s) other_error) other_error w1"
    if n1: "is_seq n1 = Suc (wd_seq w)"
      and w1: "meter w1 = (wd_issued w, Suc (wd_seq w), us_tool_calls (wd_usage w))"
    for a w1 and n1 :: investigation_step
  proof -
    have sp: "spent_ok d (with_steps [n1] s) w1"
      by (rule spent_ok_note [OF _ n1 w1]) (use inv in \<open>simp_all add: run_inv_def with_steps_def\<close>)
    have zero: "wd_issued w1 = 0" "us_tool_calls (wd_usage w1) = 0" "st_evidence s = []"
      using inv w1 by (simp_all add: run_inv_def queue_ok_def meter_eq)
    show ?thesis
    proof (rule wp_call)
      fix r :: tool_result and w2 assume "call_effect d (vc_tool \<lparr>vc_tool = T_INCIDENT, vc_arguments = a\<rparr>) w1 (tr_evidence r) w2"
      then have c: "wd_seq w2 = wd_seq w1" "us_tool_calls (wd_usage w2) = 1" "wd_issued w2 \<le> 1"
          "id_run 0 (wd_issued w2) (map rv_id (tr_evidence r))"
        using zero by (simp_all add: call_effect_def tool_cost_def)
      have "spent_ok d (with_steps [n1] s) w2"
        using sp c zero max by (simp add: spent_ok_def with_steps_def)
      then show "wp (initialized d n1 s (Inr r)) (continues d N_INITIALIZE s) other_error w2"
        by (rule wp_initialized [OF inv]) (use c in simp)
    next
      fix k w2 assume "meter w2 = meter w1"
      then have "spent_ok d (with_steps [n1] s) w2" using sp spent_ok_meter(1) by blast
      then show "wp (initialized d n1 s (Inl k)) (continues d N_INITIALIZE s) other_error w2"
        by (rule wp_initialized [OF inv]) simp
    qed simp
  qed
  then show ?thesis
    unfolding initialize_def wp_then_do wp_check by (intro wp_step) simp
qed

lemma wp_collected:
  assumes inv: "run_inv d N_COLLECT s w" and q: "st_queue s = call # queue"
    and lim: "\<And>k. x = Inl k \<Longrightarrow> meter w1 = meter w"
    and ok: "\<And>r. x = Inr r \<Longrightarrow> call_effect d (vc_tool call) w (tr_evidence r) w1"
  shows "wp (collected d call queue s x) (continues d N_COLLECT s) E w1"
proof (cases x)
  case (Inl k)
  have m: "meter w1 = meter w" by (rule lim [OF Inl])
  then have m': "wd_issued w1 = wd_issued w" "wd_seq w1 = wd_seq w" "us_tool_calls (wd_usage w1) = us_tool_calls (wd_usage w)"
    by (simp_all add: meter_def)
  have t: "continues d N_COLLECT s (terminal R_TIMED_OUT reason s) w1" for reason
    by (rule continues_terminal [OF inv m]) simp
  have "wp (step d K_LIMIT R_COLLECTING t None []) (\<lambda>n1. continues d N_COLLECT s
      (go R_ANALYZING N_ANALYZE (with_steps [n1] s)\<lparr>st_queue := []\<rparr>)) E w1" for t
    by (rule wp_step) (rule continues_degrade [OF inv], use m' in simp_all)
  then show ?thesis using t by (simp add: collected_def Inl wp_simps)
next
  case (Inr r)
  have c: "call_effect d (vc_tool call) w (tr_evidence r) w1" by (rule ok [OF Inr])
  have b: "wd_issued w \<le> 1 \<or> wd_issued w < rl_evidence (dp_limits d)"
    "us_tool_calls (wd_usage w) + Suc (length queue) \<le> rl_tool_calls (dp_limits d)"
    using inv q by (simp_all add: run_inv_def queue_ok_def)
  have "wp (step d K_TOOL_CALL R_COLLECTING t tool ids) (\<lambda>n1 w2.
      let s' = (with_evidence (tr_evidence r) (with_steps [n1] s))\<lparr>st_queue := queue\<rparr> in
      if queue \<noteq> [] \<and> 0 < remaining_evidence (dp_limits d) w2
      then continues d N_COLLECT s (s'\<lparr>st_next := Some N_COLLECT\<rparr>) w2
      else continues d N_COLLECT s (go R_ANALYZING N_ANALYZE s') w2) E w1" for t tool ids
  proof (rule wp_step)
    fix n1 :: investigation_step and w2
    assume n1: "is_seq n1 = Suc (wd_seq w1)"
      and w2: "meter w2 = (wd_issued w1, Suc (wd_seq w1), us_tool_calls (wd_usage w1))"
    have sp: "spent_ok d s' w2"
      if "st_evidence s' = st_evidence s @ tr_evidence r" "st_steps s' = st_steps s @ [n1]" for s'
      by (rule spent_ok_call [OF _ c b(1) _ n1 w2 that]) (use inv b(2) in \<open>simp_all add: run_inv_def\<close>)
    have calls: "us_tool_calls (wd_usage w2) + length queue \<le> rl_tool_calls (dp_limits d)"
      using b(2) c w2 by (simp add: call_effect_def meter_eq)
    have hyps: "hypotheses_known (known_ids (st_evidence s @ tr_evidence r)) (st_hypotheses s)"
      using inv by (auto simp: run_inv_def drafts_ok_def known_ids_append intro: hypotheses_known_mono)
    have rest: "\<not> rca_is_terminal (st_status s)" "st_repair s \<le> 1" "st_reanalysis s \<le> 1" "st_rca s = None"
      using inv by (auto simp: run_inv_def drafts_ok_def)
    show "let s' = (with_evidence (tr_evidence r) (with_steps [n1] s))\<lparr>st_queue := queue\<rparr> in
      if queue \<noteq> [] \<and> 0 < remaining_evidence (dp_limits d) w2
      then continues d N_COLLECT s (s'\<lparr>st_next := Some N_COLLECT\<rparr>) w2
      else continues d N_COLLECT s (go R_ANALYZING N_ANALYZE s') w2"
      using sp calls hyps rest q
      by (auto simp: Let_def continues_def route_def run_inv_def queue_ok_def drafts_ok_def state_defs run_bound_def
          remaining_evidence_def)
  qed
  from this [of "call_text call r" "Some (tool_str (vc_tool call))" "map rv_id (tr_evidence r)"]
  show ?thesis
    unfolding collected_def Inr sum.case wp_then_do wp_reads
    by (rule wp_mono) (auto simp: Let_def wp_ret split: if_splits)
qed

lemma wp_collect:
  assumes inv: "run_inv d N_COLLECT s w"
  shows "wp (collect d s) (continues d N_COLLECT s) other_error w"
  unfolding collect_def
proof (rule wp_guarded_inv [OF inv])
  fix w' assume w': "run_inv d N_COLLECT s w'"
  show "wp (collect_body d s) (continues d N_COLLECT s) other_error w'"
  proof (cases "st_queue s")
    case Nil
    then have "continues d N_COLLECT s (go R_ANALYZING N_ANALYZE s) w'"
      using w' by (auto simp: continues_def route_def run_inv_def queue_ok_def drafts_ok_def spent_ok_def
          state_defs run_bound_def)
    then show ?thesis by (simp add: collect_body_def Nil wp_simps)
  next
    case (Cons call queue)
    show ?thesis
      unfolding collect_body_def Cons list.case wp_then_do
      by (rule wp_call, (rule wp_collected [OF w' Cons]; simp)+) simp
  qed
qed simp

definition notes_between :: "nat \<Rightarrow> nat \<Rightarrow> investigation_step list \<Rightarrow> bool" where
  "notes_between lo hi ss \<longleftrightarrow> sorted_wrt (<) (map is_seq ss) \<and> (\<forall>x \<in> set ss. lo < is_seq x \<and> is_seq x \<le> hi)"

definition drained :: "graph_deps \<Rightarrow> nat \<Rightarrow> rca_world \<Rightarrow> investigation_step list \<times> evidence_item list \<Rightarrow> rca_world \<Rightarrow> bool" where
  "drained d k w ne w' \<longleftrightarrow>
     us_tool_calls (wd_usage w') \<le> us_tool_calls (wd_usage w) + k \<and> wd_seq w \<le> wd_seq w' \<and>
     wd_issued w \<le> wd_issued w' \<and>
     (wd_issued w \<le> max 2 (rl_evidence (dp_limits d)) \<longrightarrow> wd_issued w' \<le> max 2 (rl_evidence (dp_limits d))) \<and>
     notes_between (wd_seq w) (wd_seq w') (fst ne) \<and> id_run (wd_issued w) (wd_issued w') (map rv_id (snd ne))"

lemma drained_nothing: "meter w' = meter w \<Longrightarrow> drained d k w ([], []) w'"
  by (simp add: drained_def notes_between_def meter_def)

lemma drained_cons:
  assumes c: "call_effect d n w evs w1" and left: "wd_issued w < rl_evidence (dp_limits d)"
    and n1: "is_seq n1 = Suc (wd_seq w1)"
    and w2: "meter w2 = (wd_issued w1, Suc (wd_seq w1), us_tool_calls (wd_usage w1))"
    and r: "drained d k w2 (notes, es) w3"
  shows "drained d (Suc k) w (n1 # notes, evs @ es) w3"
proof -
  have i: "wd_issued w2 = wd_issued w1" "wd_seq w2 = Suc (wd_seq w)" "us_tool_calls (wd_usage w2) = us_tool_calls (wd_usage w) + 1"
    using w2 c by (simp_all add: meter_eq call_effect_def)
  have "wd_issued w1 \<le> rl_evidence (dp_limits d)"
    using c left by (auto simp: call_effect_def tool_cost_def remaining_evidence_def max_def split: if_splits)
  moreover have "id_run (wd_issued w) (wd_issued w3) (map rv_id evs @ map rv_id es)"
    by (rule id_run_append) (use c r i in \<open>auto simp: call_effect_def drained_def\<close>)
  ultimately show ?thesis
    using c r i n1 by (auto simp: drained_def notes_between_def call_effect_def)
qed

lemma wp_drain: "wp (drain_queue d q) (drained d (length q) w) other_error w"
proof (induction q arbitrary: w)
  case Nil
  show ?case by (simp add: wp_simps drained_nothing)
next
  case (Cons call q)
  have loop: "wp (step d K_TOOL_CALL R_ANALYZING t tool ids) (\<lambda>n1. wp (drain_queue d q)
      (\<lambda>(notes, es). drained d (Suc (length q)) w (n1 # notes, tr_evidence r @ es)) other_error) other_error w1"
    if c: "call_effect d (vc_tool call) w (tr_evidence r) w1" and left: "wd_issued w < rl_evidence (dp_limits d)"
    for r w1 t tool ids
  proof (rule wp_step)
    fix n1 :: investigation_step and w2
    assume n1: "is_seq n1 = Suc (wd_seq w1)"
      and w2: "meter w2 = (wd_issued w1, Suc (wd_seq w1), us_tool_calls (wd_usage w1))"
    show "wp (drain_queue d q) (\<lambda>(notes, es). drained d (Suc (length q)) w (n1 # notes, tr_evidence r @ es)) other_error w2"
      by (rule wp_mono [OF Cons.IH]) (auto intro: drained_cons [OF c left n1 w2])
  qed
  have "wp (try_limits (run_validated_call d call)) (\<lambda>x. wp (case x of Inl k \<Rightarrow> ret ([], [])
        | Inr result \<Rightarrow> then_do (step d K_TOOL_CALL R_ANALYZING (follow_up_text call result)
             (Some (tool_str (vc_tool call))) (map rv_id (tr_evidence result))) (\<lambda>n1.
           then_do (drain_queue d q) (\<lambda>(notes, evs). ret (n1 # notes, tr_evidence result @ evs))))
      (drained d (Suc (length q)) w) other_error) other_error w"
    if left: "wd_issued w < rl_evidence (dp_limits d)"
    by (rule wp_call) (use loop [OF _ left] in \<open>simp_all add: wp_simps drained_nothing case_prod_unfold\<close>)
  then show ?case
    unfolding drain_queue.simps wp_then_do [of "reads f" for f] wp_reads
    by (simp add: remaining_evidence_def wp_then_do [of "try_limits m" for m] wp_ret drained_nothing)
qed

lemma wp_analyzed:
  assumes inv: "run_inv d N_ANALYZE s w" and dr: "drained d (length (st_queue s)) w (notes, evs) w1"
    and m: "meter w2 = meter w1"
  shows "wp (analyzed d s notes evidence x) (continues d N_ANALYZE s) E w2"
proof -
  have w2: "wd_issued w2 = wd_issued w1" "wd_seq w2 = wd_seq w1" "us_tool_calls (wd_usage w2) = us_tool_calls (wd_usage w1)"
    using m by (simp_all add: meter_def)
  have calls: "us_tool_calls (wd_usage w1) \<le> rl_tool_calls (dp_limits d)"
    and issued: "wd_issued w1 \<le> max 2 (rl_evidence (dp_limits d))" "wd_issued w \<le> wd_issued w1"
    and seq: "wd_seq w \<le> wd_seq w1" "notes_between (wd_seq w) (wd_seq w1) notes"
    using inv dr by (auto simp: run_inv_def queue_ok_def drained_def spent_ok_def)
  have ids: "id_run 0 (wd_issued w1) (map rv_id (st_evidence s))"
    using inv issued(2) by (auto simp: run_inv_def spent_ok_def intro: id_run_mono)
  have steps0: "step_run (wd_seq w1) (st_steps s)"
    using inv seq(1) by (auto simp: run_inv_def spent_ok_def intro: step_run_mono)
  have steps: "step_run (wd_seq w1) (st_steps s @ notes)"
    by (rule step_run_append [of "wd_seq w"])
      (use inv seq in \<open>auto simp: run_inv_def spent_ok_def notes_between_def step_run_def\<close>)
  show ?thesis
  proof (cases x)
    case (Inl km)
    have "continues d N_ANALYZE s (terminal st reason s) w2" if "st \<in> {R_FAILED, R_TIMED_OUT}" for st reason
      using that inv calls issued ids steps0 w2
      by (auto simp: continues_def route_def run_final_def run_inv_def drafts_ok_def terminal_def spent_ok_def)
    then show ?thesis by (auto simp: Inl analyzed_def wp_ret llm_terminal_def split: prod.split)
  next
    case (Inr r)
    have "wp (step d K_ANALYSIS R_ANALYZING t None []) (\<lambda>n1. continues d N_ANALYZE s
        (go R_VERIFYING N_VERIFY (with_steps (notes @ [n1]) s)\<lparr>st_findings := fs, st_proposed := hs\<rparr>)) E w2" for t fs hs
    proof (rule wp_step)
      fix n1 :: investigation_step and w3
      assume n1: "is_seq n1 = Suc (wd_seq w2)"
        and w3: "meter w3 = (wd_issued w2, Suc (wd_seq w2), us_tool_calls (wd_usage w2))"
      have "step_run (Suc (wd_seq w1)) ((st_steps s @ notes) @ [n1])"
        by (rule step_run_note [OF steps]) (use n1 w2 in simp)
      then show "continues d N_ANALYZE s
          (go R_VERIFYING N_VERIFY (with_steps (notes @ [n1]) s)\<lparr>st_findings := fs, st_proposed := hs\<rparr>) w3"
        using inv calls issued ids w2 w3
        by (auto simp: continues_def route_def run_inv_def drafts_ok_def queue_ok_def spent_ok_def state_defs
            meter_eq run_bound_def simp del: step_run_simps)
    qed
    then show ?thesis by (simp add: Inr analyzed_def wp_simps Let_def)
  qed
qed

lemma wp_analyze:
  assumes inv: "run_inv d N_ANALYZE s w"
  shows "wp (analyze d s) (continues d N_ANALYZE s) other_error w"
  unfolding analyze_def
proof (rule wp_guarded_inv [OF inv])
  fix w' assume w': "run_inv d N_ANALYZE s w'"
  show "wp (analyze_body d s) (continues d N_ANALYZE s) other_error w'"
    unfolding analyze_body_def wp_then_do case_prod_unfold
    by (rule wp_mono [OF wp_drain])
      (auto intro!: wp_ask_llm intro: wp_analyzed [OF w'])
qed simp

lemma make_hypotheses_known: "hypotheses_known known (make_hypotheses vs known phs)"
  by (auto simp: hypotheses_known_def make_hypotheses_def make_hypothesis_def)

lemma wp_finish_verify:
  assumes inv: "run_inv d N_VERIFY s w" and hyps: "hypotheses_known (known_ids (st_evidence s)) hs"
  shows "wp (finish_verify d hs s) (continues d N_VERIFY s) E w"
  unfolding finish_verify_def wp_then_do wp_ret
proof (rule wp_step)
  fix n1 :: investigation_step and w1
  assume n1: "is_seq n1 = Suc (wd_seq w)" and w1: "meter w1 = (wd_issued w, Suc (wd_seq w), us_tool_calls (wd_usage w))"
  have "spent_ok d (go R_VERIFYING N_SYNTHESIZE (with_steps [n1] s)\<lparr>st_hypotheses := hs\<rparr>) w1"
    by (rule spent_ok_note [OF _ n1 w1]) (use inv in \<open>simp_all add: run_inv_def state_defs\<close>)
  then show "continues d N_VERIFY s (go R_VERIFYING N_SYNTHESIZE (with_steps [n1] s)\<lparr>st_hypotheses := hs\<rparr>) w1"
    using inv hyps by (auto simp: continues_def route_def run_inv_def drafts_ok_def queue_ok_def state_defs run_bound_def)
qed

lemma wp_verify_more:
  assumes inv: "run_inv d N_VERIFY s w" and hyps: "hypotheses_known (known_ids (st_evidence s)) hs"
    and len: "length extra \<le> remaining_calls d w" and rea: "st_reanalysis s < 1"
  shows "wp (step d K_VERIFICATION R_VERIFYING t None []) (\<lambda>n1. continues d N_VERIFY s
      (go R_ANALYZING N_ANALYZE (with_steps [n1] s)
        \<lparr>st_hypotheses := hs, st_queue := extra, st_reanalysis := st_reanalysis s + 1\<rparr>)) E w"
proof (rule wp_step)
  fix n1 :: investigation_step and w1
  assume n1: "is_seq n1 = Suc (wd_seq w)" and w1: "meter w1 = (wd_issued w, Suc (wd_seq w), us_tool_calls (wd_usage w))"
  let ?s = "go R_ANALYZING N_ANALYZE (with_steps [n1] s)
        \<lparr>st_hypotheses := hs, st_queue := extra, st_reanalysis := st_reanalysis s + 1\<rparr>"
  have "spent_ok d ?s w1"
    by (rule spent_ok_note [OF _ n1 w1]) (use inv in \<open>simp_all add: run_inv_def state_defs\<close>)
  moreover have "us_tool_calls (wd_usage w1) + length extra \<le> rl_tool_calls (dp_limits d)"
    using len w1 inv by (auto simp: remaining_calls_def meter_eq run_inv_def spent_ok_def)
  ultimately show "continues d N_VERIFY s ?s w1"
    using inv hyps rea
    by (auto simp: continues_def route_def run_inv_def drafts_ok_def queue_ok_def state_defs run_bound_def)
qed

lemma wp_verified:
  assumes inv: "run_inv d N_VERIFY s w"
  shows "wp (verified d s x) (continues d N_VERIFY s) other_error w"
proof (cases x)
  case (Inl km)
  then show ?thesis using continues_llm_terminal [OF inv refl] by (simp add: verified_def wp_ret)
next
  case (Inr r)
  let ?h = "make_hypotheses (vf_verdicts r) (known_ids (st_evidence s)) (st_proposed s)"
  let ?e = "pv_accepted (validate_plan (dp_env d) (min (remaining_calls d w) 3) (vf_calls r))"
  have "length ?e \<le> remaining_calls d w" by (meson validate_plan_length min.boundedE)
  then have "wp (step d K_VERIFICATION R_VERIFYING t None []) (\<lambda>n1. continues d N_VERIFY s
      (go R_ANALYZING N_ANALYZE (with_steps [n1] s)
        \<lparr>st_hypotheses := ?h, st_queue := ?e, st_reanalysis := st_reanalysis s + 1\<rparr>)) other_error w"
    if "st_reanalysis s < 1" for t
    by (rule wp_verify_more [OF inv make_hypotheses_known _ that])
  moreover have "wp (finish_verify d ?h s) (continues d N_VERIFY s) other_error w"
    by (rule wp_finish_verify [OF inv make_hypotheses_known])
  ultimately show ?thesis
    unfolding verified_def Inr sum.case Let_def wp_then_do wp_check wp_reads
    by (simp add: wp_then_do wp_ret)
qed

lemma wp_verify:
  assumes inv: "run_inv d N_VERIFY s w"
  shows "wp (verify d s) (continues d N_VERIFY s) other_error w"
  unfolding verify_def
proof (rule wp_guarded_inv [OF inv])
  fix w' assume w': "run_inv d N_VERIFY s w'"
  show "wp (verify_body d s) (continues d N_VERIFY s) other_error w'"
    unfolding verify_body_def wp_then_do
    by (rule wp_ask_llm) (use w' spent_ok_meter(3) wp_verified in blast)+
qed simp

lemma wp_synthesized:
  assumes inv: "run_inv d N_SYNTHESIZE s w"
  shows "wp (synthesized d s x) (continues d N_SYNTHESIZE s) other_error w"
proof (cases x)
  case (Inl km)
  then show ?thesis using continues_llm_terminal [OF inv refl] by (simp add: synthesized_def wp_ret)
next
  case (Inr sy)
  have hyps: "hypotheses_known (known_ids (st_evidence s)) (st_hypotheses s)"
    using inv by (simp add: run_inv_def drafts_ok_def)
  have "wp (step d K_RCA R_VERIFYING t None []) (\<lambda>n1. continues d N_SYNTHESIZE s
      (go R_VERIFYING N_VALIDATE (with_steps [n1] s)\<lparr>st_synthesis := Some sy, st_rca := Some r\<rparr>)) other_error (ticked w)"
    if r: "assembled_from d (st_evidence s) r" for r t
  proof (rule wp_step)
    fix n1 :: investigation_step and w1
    assume n1: "is_seq n1 = Suc (wd_seq (ticked w))"
      and w1: "meter w1 = (wd_issued (ticked w), Suc (wd_seq (ticked w)), us_tool_calls (wd_usage (ticked w)))"
    let ?s = "go R_VERIFYING N_VALIDATE (with_steps [n1] s)\<lparr>st_synthesis := Some sy, st_rca := Some r\<rparr>"
    have "spent_ok d ?s w1"
      by (rule spent_ok_note [of d s w n1]) (use inv n1 w1 in \<open>simp_all add: run_inv_def state_defs\<close>)
    then show "continues d N_SYNTHESIZE s ?s w1"
      using inv r by (auto simp: continues_def route_def run_inv_def drafts_ok_def queue_ok_def state_defs run_bound_def)
  qed
  then show ?thesis
    unfolding synthesized_def Inr sum.case wp_then_do wp_reads wp_ret
    by (intro wp_build_rca_report [OF hyps]) auto
qed

lemma wp_synthesize:
  assumes inv: "run_inv d N_SYNTHESIZE s w"
  shows "wp (synthesize d s) (continues d N_SYNTHESIZE s) other_error w"
  unfolding synthesize_def
proof (rule wp_guarded_inv [OF inv])
  fix w' assume w': "run_inv d N_SYNTHESIZE s w'"
  show "wp (synthesize_body d s) (continues d N_SYNTHESIZE s) other_error w'"
    unfolding synthesize_body_def wp_then_do
    by (rule wp_ask_llm) (use w' spent_ok_meter(3) wp_synthesized in blast)+
qed simp

lemma wp_fallback_for:
  assumes "run_inv d N_VALIDATE s w"
    and "\<And>r. assembled_from d (st_evidence s) r \<Longrightarrow> report_grounded r (known_ids (st_evidence s)) \<Longrightarrow>
      rp_status r = R_INSUFFICIENT \<Longrightarrow> Q r (ticked w)"
    and "E validation_error (ticked w)"
  shows "wp (fallback_for d errs s) Q E w"
  unfolding fallback_for_def wp_then_do wp_reads
  by (rule wp_build_fallback) (use assms in \<open>auto simp: run_inv_def drafts_ok_def\<close>)

lemma validate_grounded: "report_grounded r known \<Longrightarrow> validate_report r known = Inr ()"
  by (simp add: validate_report_iff)

text \<open>The terminal update that ends every successful validation.\<close>

lemma wp_accepting_step:
  assumes inv: "run_inv d N_VALIDATE s w" and r: "assembled_from d (st_evidence s) r"
    and g: "report_grounded r (known_ids (st_evidence s))" and m: "meter w1 = meter w"
    and f: "\<And>n1. f n1 = terminal (rp_status r) reason (with_steps [n1] s)\<lparr>st_rca := Some r\<rparr>"
  shows "wp (step d k ph t None []) (\<lambda>n1. continues d N_VALIDATE s (f n1)) E w1"
proof (rule wp_step)
  fix n1 :: investigation_step and w2
  assume n1: "is_seq n1 = Suc (wd_seq w1)"
    and w2: "meter w2 = (wd_issued w1, Suc (wd_seq w1), us_tool_calls (wd_usage w1))"
  let ?s = "terminal (rp_status r) reason (with_steps [n1] s)\<lparr>st_rca := Some r\<rparr>"
  have "spent_ok d s w1" using inv spent_ok_meter(1) [OF m] by (simp add: run_inv_def)
  then have "spent_ok d ?s w2"
    by (rule spent_ok_note [OF _ n1 w2]) (simp_all add: state_defs)
  moreover have "rp_status r \<in> {R_COMPLETED, R_INSUFFICIENT}" using r by (simp add: assembled_from_def)
  ultimately have "continues d N_VALIDATE s ?s w2"
    using r g by (auto simp: continues_def route_def run_final_def state_defs)
  then show "continues d N_VALIDATE s (f n1) w2" by (simp add: f)
qed

lemma wp_validate:
  assumes inv: "run_inv d N_VALIDATE s w"
  shows "wp (validate d s) (continues d N_VALIDATE s) other_error w"
proof (cases "st_rca s")
  case None
  have "wp (step d K_VALIDATION R_INSUFFICIENT t None []) (\<lambda>n1. continues d N_VALIDATE s
      (terminal R_INSUFFICIENT reason (with_steps [n1] s)\<lparr>st_rca := Some r\<rparr>)) other_error (ticked w)"
    if "assembled_from d (st_evidence s) r" "report_grounded r (known_ids (st_evidence s))" "rp_status r = R_INSUFFICIENT"
    for r t reason
    by (rule wp_accepting_step [OF inv that(1,2)]) (simp_all add: that(3))
  then show ?thesis
    unfolding validate_def None option.case validate_missing_def wp_then_do
    by (intro wp_fallback_for [OF inv]) (simp_all add: validate_grounded wp_ret)
next
  case (Some r)
  have r: "assembled_from d (st_evidence s) r" using inv Some by (simp add: run_inv_def drafts_ok_def)
  show ?thesis
  proof (cases "validate_report r (known_ids (st_evidence s))")
    case (Inr u)
    have f: "terminal (rp_status r) reason (with_steps [n1] s) =
        terminal (rp_status r) reason (with_steps [n1] s)\<lparr>st_rca := Some r\<rparr>" for reason n1
      using Some by (simp add: state_defs)
    have g: "report_grounded r (known_ids (st_evidence s))" using Inr by (simp add: validate_report_iff)
    show ?thesis
      unfolding validate_def Some option.case Inr sum.case validate_accept_def wp_then_do wp_ret
      by (rule wp_accepting_step [OF inv r g refl]) (rule f)
  next
    case (Inl errs)
    have repair: "wp (validate_repair d errs s) (continues d N_VALIDATE s) other_error w" if "st_repair s < 1"
      unfolding validate_repair_def wp_then_do wp_ret
    proof (rule wp_step)
      fix n1 :: investigation_step and w1
      assume n1: "is_seq n1 = Suc (wd_seq w)"
        and w1: "meter w1 = (wd_issued w, Suc (wd_seq w), us_tool_calls (wd_usage w))"
      let ?s = "go R_VERIFYING N_SYNTHESIZE (with_steps [n1] s)\<lparr>st_repair := st_repair s + 1, st_repair_errors := errs\<rparr>"
      have "spent_ok d ?s w1"
        by (rule spent_ok_note [OF _ n1 w1]) (use inv in \<open>simp_all add: run_inv_def state_defs\<close>)
      then show "continues d N_VALIDATE s ?s w1"
        using inv that by (auto simp: continues_def route_def run_inv_def drafts_ok_def queue_ok_def state_defs run_bound_def)
    qed
    have "wp (step d K_VALIDATION R_INSUFFICIENT t None []) (\<lambda>n1. continues d N_VALIDATE s
        (terminal R_INSUFFICIENT reason (with_steps [n1] s)\<lparr>st_rca := Some q\<rparr>)) other_error (ticked w)"
      if "assembled_from d (st_evidence s) q" "report_grounded q (known_ids (st_evidence s))" "rp_status q = R_INSUFFICIENT"
      for q t reason
      by (rule wp_accepting_step [OF inv that(1,2)]) (simp_all add: that(3))
    then have "wp (validate_discard d errs s) (continues d N_VALIDATE s) other_error w"
      unfolding validate_discard_def wp_then_do
      by (intro wp_fallback_for [OF inv]) (simp_all add: validate_grounded wp_then_do wp_ret)
    with repair show ?thesis
      unfolding validate_def Some option.case Inl sum.case by (simp add: MAX_REPAIR_ATTEMPTS_def)
  qed
qed

section \<open>The run\<close>

lemma wp_node:
  assumes "run_inv d n s w" and "1 \<le> rl_tool_calls (dp_limits d)"
  shows "wp (node_body d n s) (continues d n s) other_error w"
  using assms
  by (cases n) (simp_all add: wp_initialize wp_plan wp_collect wp_analyze wp_verify wp_synthesize wp_validate)

lemma wp_run_graph:
  assumes "run_inv d n s w" and max: "1 \<le> rl_tool_calls (dp_limits d)" and "run_bound d n s \<le> k"
  shows "wp (run_graph d k n s) (run_final d) other_error w"
  using assms(1,3)
proof (induction k arbitrary: n s w)
  case 0
  then show ?case by (cases n) (auto simp: run_bound_def split: if_splits)
next
  case (Suc k)
  have "wp (node_body d n s) (continues d n s) other_error w" by (rule wp_node [OF Suc.prems(1) max])
  then show ?case
    unfolding run_graph.simps wp_then_do
  proof (rule wp_mono)
    fix s' w' assume c: "continues d n s s' w'"
    show "wp (case route s' of None \<Rightarrow> ret s' | Some n' \<Rightarrow> run_graph d k n' s') (run_final d) other_error w'"
    proof (cases "route s'")
      case None
      then show ?thesis using c by (simp add: wp_ret continues_def)
    next
      case (Some n')
      then have n': "run_inv d n' s' w'" "run_bound d n' s' < run_bound d n s" using c by (simp_all add: continues_def)
      then show ?thesis using Suc.IH [OF n'(1)] n'(2) Suc.prems(2) Some by auto
    qed
  qed simp
qed

end
