(* ===== verification/RcaService.thy ===== *)
theory RcaService imports RcaRun begin

text \<open>
  The repository of investigations (\<open>repository.py\<close>, the in-memory implementation that the tests hold
  equivalent to the SQL one), the orchestrator (\<open>engine/service.py\<close>) and its two callers: the API runner
  (\<open>api/runner.py\<close>) and the Kafka handler (\<open>kafka/consumer.py\<close>). The random identifier of an
  investigation and the instants of the repository's clock are arguments. \<open>rca_step\<close> interleaves
  the transactions of all callers: reserving an investigation and storing the outcome of a run are
  one transaction each, and the run between them holds none.
\<close>

section \<open>Repository\<close>

record rca_repo =
  re_investigations :: "(string, investigation) dict"
  re_steps :: "(string, investigation_step list) dict"
  re_evidence :: "(string, evidence_item list) dict"
  re_reports :: "(string, rca_report) dict"
  re_order :: "string list"

definition empty_repo :: rca_repo where
  "empty_repo = \<lparr>re_investigations = [], re_steps = [], re_evidence = [], re_reports = [], re_order = []\<rparr>"

definition is_active_for :: "string \<Rightarrow> investigation \<Rightarrow> bool" where
  "is_active_for incident iv \<longleftrightarrow> iv_incident iv = incident \<and> \<not> rca_is_terminal (iv_status iv)"

definition get_active :: "string \<Rightarrow> rca_repo \<Rightarrow> investigation option" where
  "get_active incident re = find (is_active_for incident) (map snd (re_investigations re))"

definition get_investigation :: "string \<Rightarrow> rca_repo \<Rightarrow> investigation option" where
  "get_investigation i re = map_of (re_investigations re) i"

definition get_latest :: "string \<Rightarrow> rca_repo \<Rightarrow> investigation option" where
  "get_latest incident re =
     find (\<lambda>iv. iv_incident iv = incident)
       (List.map_filter (map_of (re_investigations re)) (rev (re_order re)))"

definition get_steps :: "string \<Rightarrow> rca_repo \<Rightarrow> investigation_step list option" where
  "get_steps i re =
     (case map_of (re_investigations re) i of None \<Rightarrow> None
      | Some _ \<Rightarrow> Some (case map_of (re_steps re) i of None \<Rightarrow> [] | Some ss \<Rightarrow> ss))"

definition get_evidence :: "string \<Rightarrow> rca_repo \<Rightarrow> evidence_item list option" where
  "get_evidence i re =
     (case map_of (re_investigations re) i of None \<Rightarrow> None
      | Some _ \<Rightarrow> Some (case map_of (re_evidence re) i of None \<Rightarrow> [] | Some es \<Rightarrow> es))"

definition get_report :: "string \<Rightarrow> rca_repo \<Rightarrow> rca_report option" where
  "get_report i re = map_of (re_reports re) i"

datatype begin_error = DUPLICATE_ACTIVE | BEGIN_INVALID

definition begin_investigation ::
  "string \<Rightarrow> datetime \<Rightarrow> string \<Rightarrow> rca_trigger \<Rightarrow> string \<Rightarrow> rca_repo \<Rightarrow> begin_error + (investigation \<times> rca_repo)" where
  "begin_investigation new_id now incident trigger mode re =
     (if get_active incident re \<noteq> None then Inl DUPLICATE_ACTIVE
      else if \<not> (length new_id \<le> 40 \<and> length incident \<le> 40 \<and> mode \<in> {''mock'', ''live''}) then Inl BEGIN_INVALID
      else
        let iv = \<lparr>iv_id = new_id, iv_incident = incident, iv_status = R_PENDING, iv_trigger = trigger,
              iv_mode = mode, iv_model = None, iv_reason = None, iv_tool_calls = 0, iv_steps = 0, iv_evidence = 0,
              iv_confidence = C_UNKNOWN, iv_started = Some now, iv_completed = None, iv_created = now, iv_updated = now\<rparr>
        in Inr (iv, re\<lparr>re_investigations := AList.update new_id iv (re_investigations re),
                        re_order := re_order re @ [new_id]\<rparr>))"

text \<open>What a finished run hands over.\<close>

record run_result =
  rr_status :: rca_status
  rr_reason :: string
  rr_report :: "rca_report option"
  rr_steps :: "investigation_step list"
  rr_evidence :: "evidence_item list"

definition completed_row :: "datetime \<Rightarrow> string option \<Rightarrow> run_result \<Rightarrow> investigation \<Rightarrow> investigation" where
  "completed_row now model rr prior =
     prior\<lparr>iv_status := rr_status rr, iv_reason := Some (take 200 (rr_reason rr)),
       iv_confidence := (case rr_report rr of None \<Rightarrow> C_UNKNOWN | Some r \<Rightarrow> rp_confidence r),
       iv_model := model,
       iv_tool_calls := length (filter (\<lambda>s. is_kind s = K_TOOL_CALL) (rr_steps rr)),
       iv_steps := length (rr_steps rr), iv_evidence := length (rr_evidence rr),
       iv_completed := Some now, iv_updated := now\<rparr>"

text \<open>\<open>None\<close> is the \<open>KeyError\<close> of an unknown investigation.\<close>

definition complete_investigation ::
  "string \<Rightarrow> datetime \<Rightarrow> string option \<Rightarrow> run_result \<Rightarrow> rca_repo \<Rightarrow> (investigation \<times> rca_repo) option" where
  "complete_investigation i now model rr re =
     (case map_of (re_investigations re) i of
        None \<Rightarrow> None
      | Some prior \<Rightarrow>
          let row = completed_row now model rr prior in
          Some (row, re\<lparr>re_investigations := AList.update i row (re_investigations re),
             re_steps := AList.update i (rr_steps rr) (re_steps re),
             re_evidence := AList.update i (rr_evidence rr) (re_evidence re),
             re_reports := (case rr_report rr of None \<Rightarrow> re_reports re
                            | Some r \<Rightarrow> AList.update i r (re_reports re))\<rparr>))"

section \<open>Orchestrator\<close>

definition deps_for :: "rca_env \<Rightarrow> rca_config \<Rightarrow> llm_client \<Rightarrow> investigation \<Rightarrow> graph_deps" where
  "deps_for env cfg llm iv =
     \<lparr>dp_incident = iv_incident iv, dp_investigation = iv_id iv, dp_mode = rc_mode cfg,
      dp_env = env, dp_cfg = cfg, dp_llm = llm\<rparr>"

definition fresh_world :: "datetime \<Rightarrow> rca_world" where
  "fresh_world now =
     \<lparr>wd_ticks = 0, wd_calls = 0, wd_issued = 0, wd_seq = 0,
      wd_usage = \<lparr>us_tool_calls = 0, us_steps = 0, us_evidence = 0, us_started = now\<rparr>\<rparr>"

definition aborted :: "rca_status \<Rightarrow> string \<Rightarrow> run_result" where
  "aborted status reason = \<lparr>rr_status = status, rr_reason = reason, rr_report = None, rr_steps = [], rr_evidence = []\<rparr>"

definition graph_result :: "exn + inv_state \<Rightarrow> run_result" where
  "graph_result r =
     (case r of
        Inr s \<Rightarrow> \<lparr>rr_status = st_status s,
          rr_reason = or_text (case st_reason s of None \<Rightarrow> [] | Some t \<Rightarrow> t) ''unknown'',
          rr_report = st_rca s, rr_steps = st_steps s, rr_evidence = st_evidence s\<rparr>
      | Inl E_RECURSION \<Rightarrow> aborted R_TIMED_OUT ''graph recursion limit reached''
      | Inl e \<Rightarrow> aborted R_FAILED (''engine error: '' @ exn_name e))"

definition never_active :: "run_result \<Rightarrow> run_result" where
  "never_active rr =
     (if rca_is_terminal (rr_status rr) then rr
      else rr\<lparr>rr_status := R_FAILED, rr_reason := ''non-terminal status '' @ rca_status_str (rr_status rr)\<rparr>)"

definition engine_result :: "rca_env \<Rightarrow> rca_config \<Rightarrow> llm_client \<Rightarrow> datetime \<Rightarrow> investigation \<Rightarrow> run_result" where
  "engine_result env cfg llm started iv =
     never_active (graph_result (fst (invoke_graph (deps_for env cfg llm iv) (fresh_world started))))"

record outcome =
  oc_investigation :: investigation
  oc_report :: "rca_report option"
  oc_steps :: "investigation_step list"
  oc_evidence :: "evidence_item list"

definition already_running :: "outcome \<Rightarrow> bool" where
  "already_running oc \<longleftrightarrow> oc_report oc = None \<and> \<not> rca_is_terminal (iv_status (oc_investigation oc))"

definition run_to_completion ::
  "rca_env \<Rightarrow> rca_config \<Rightarrow> llm_client \<Rightarrow> datetime \<Rightarrow> datetime \<Rightarrow> investigation \<Rightarrow> rca_repo \<Rightarrow> (outcome \<times> rca_repo) option" where
  "run_to_completion env cfg llm started finished iv re =
     (let rr = engine_result env cfg llm started iv in
      map_option (\<lambda>(row, re'). (\<lparr>oc_investigation = row, oc_report = rr_report rr, oc_steps = rr_steps rr,
                                 oc_evidence = rr_evidence rr\<rparr>, re'))
        (complete_investigation (iv_id iv) finished (lm_model llm) rr re))"

text \<open>\<open>begin\<close> of the service: a new investigation, or the outcome that wraps the active one.\<close>

definition service_begin ::
  "rca_config \<Rightarrow> string \<Rightarrow> datetime \<Rightarrow> string \<Rightarrow> rca_trigger \<Rightarrow> rca_repo \<Rightarrow> begin_error + ((investigation + outcome) \<times> rca_repo)" where
  "service_begin cfg new_id now incident trigger re =
     (case begin_investigation new_id now incident trigger (rc_mode cfg) re of
        Inr (iv, re') \<Rightarrow> Inr (Inl iv, re')
      | Inl BEGIN_INVALID \<Rightarrow> Inl BEGIN_INVALID
      | Inl DUPLICATE_ACTIVE \<Rightarrow>
          (case get_active incident re of
             None \<Rightarrow> Inl DUPLICATE_ACTIVE
           | Some existing \<Rightarrow>
               Inr (Inr \<lparr>oc_investigation = existing, oc_report = None, oc_steps = [], oc_evidence = []\<rparr>, re)))"

section \<open>Callers\<close>

text \<open>\<open>submit\<close> of the API runner reserves, or returns what exists; the run follows in a task of its own.\<close>

definition submit ::
  "rca_config \<Rightarrow> string \<Rightarrow> datetime \<Rightarrow> string \<Rightarrow> rca_trigger \<Rightarrow> rca_repo \<Rightarrow> begin_error + ((investigation \<times> bool) \<times> rca_repo)" where
  "submit cfg new_id now incident trigger re =
     (case get_latest incident re of
        Some existing \<Rightarrow> Inr ((existing, False), re)
      | None \<Rightarrow>
          (case service_begin cfg new_id now incident trigger re of
             Inl e \<Rightarrow> Inl e
           | Inr (Inl iv, re') \<Rightarrow> Inr ((iv, True), re')
           | Inr (Inr oc, re') \<Rightarrow> Inr ((oc_investigation oc, False), re')))"

text \<open>\<open>incident_ref_from_envelope\<close>: the payload, already read into its contract or refused by it.\<close>

record lifecycle_event =
  le_type :: string
  le_version :: int
  le_incident :: "string option"

definition incident_id_rx :: rx where
  "incident_id_rx = cats [lit ''inc_'', Rep is_hex 6 (Some 32), Dollar]"

datatype event_verdict = EV_IGNORED | EV_REJECTED string | EV_INCIDENT string

definition read_event :: "lifecycle_event \<Rightarrow> event_verdict" where
  "read_event e =
     (if le_type e \<noteq> ''incident.opened'' then EV_IGNORED
      else if le_version e \<noteq> 1 then
        EV_REJECTED (''unsupported incident.opened version '' @ int_str (le_version e) @ '' (this service speaks v1)'')
      else case le_incident e of
        None \<Rightarrow> EV_REJECTED ''payload does not match incident.opened v1''
      | Some i \<Rightarrow>
          if \<not> re_match incident_id_rx i then EV_REJECTED (''incident_id '' @ repr_str i @ '' is not a valid id'')
          else EV_INCIDENT i)"

datatype handled = HD_IGNORED | HD_REJECTED string | HD_DUPLICATE | HD_RETRY string | HD_ALREADY_RUNNING | HD_INVESTIGATED rca_status

text \<open>The handler, whose \<open>investigate\<close> runs the two halves in one call; a retry names the class of the exception.\<close>

fun begin_error_name :: "begin_error \<Rightarrow> string" where
  "begin_error_name DUPLICATE_ACTIVE = ''DuplicateActiveInvestigationError''"
| "begin_error_name BEGIN_INVALID = ''ValidationError''"

definition handle_event ::
  "rca_env \<Rightarrow> rca_config \<Rightarrow> llm_client \<Rightarrow> string \<Rightarrow> datetime \<Rightarrow> datetime \<Rightarrow> datetime \<Rightarrow> lifecycle_event \<Rightarrow> rca_repo \<Rightarrow>
   handled \<times> rca_repo" where
  "handle_event env cfg llm new_id now started finished e re =
     (case read_event e of
        EV_IGNORED \<Rightarrow> (HD_IGNORED, re)
      | EV_REJECTED reason \<Rightarrow> (HD_REJECTED reason, re)
      | EV_INCIDENT i \<Rightarrow>
          (case get_latest i re of
             Some existing \<Rightarrow> (HD_DUPLICATE, re)
           | None \<Rightarrow>
               (case service_begin cfg new_id now i TR_EVENT re of
                  Inl err \<Rightarrow> (HD_RETRY (begin_error_name err), re)
                | Inr (Inr oc, re') \<Rightarrow> (HD_ALREADY_RUNNING, re')
                | Inr (Inl iv, re') \<Rightarrow>
                    (case run_to_completion env cfg llm started finished iv re' of
                       None \<Rightarrow> (HD_RETRY ''KeyError'', re')
                     | Some (oc, re'') \<Rightarrow> (HD_INVESTIGATED (iv_status (oc_investigation oc)), re'')))))"

section \<open>Interleaving\<close>

text \<open>
  Any caller reserves with a fresh identifier, after a check of its own that may be stale; the caller
  that reserved an investigation stores its outcome, at any later time. A run that is cancelled, as
  \<open>drain\<close> does on shutdown, is a run whose second step never comes.
\<close>

inductive rca_step :: "rca_repo \<Rightarrow> rca_repo \<Rightarrow> bool" where
  reserve: "begin_investigation new_id now incident trigger mode re = Inr (iv, re') \<Longrightarrow>
     map_of (re_investigations re) new_id = None \<Longrightarrow> rca_step re re'"
| finish: "map_of (re_investigations re) i = Some iv \<Longrightarrow> \<not> rca_is_terminal (iv_status iv) \<Longrightarrow>
     1 \<le> rl_tool_calls (rc_limits cfg) \<Longrightarrow>
     run_to_completion env cfg llm started finished iv re = Some (oc, re') \<Longrightarrow> rca_step re re'"

inductive rca_reachable :: "rca_repo \<Rightarrow> bool" where
  start: "rca_reachable empty_repo"
| more: "rca_reachable re \<Longrightarrow> rca_step re re' \<Longrightarrow> rca_reachable re'"

inductive_cases rca_stepE: "rca_step re re'"

section \<open>Outcome of a run\<close>

lemma run_inv_initial: "run_inv d N_INITIALIZE initial_state (fresh_world t)"
  by (simp add: run_inv_def spent_ok_def queue_ok_def drafts_ok_def initial_state_def fresh_world_def
      hypotheses_known_def)

lemma initial_bound: "run_bound d N_INITIALIZE initial_state = rl_tool_calls (dp_limits d) + 10"
  by (simp add: run_bound_def initial_state_def)

definition result_ok :: "rca_config \<Rightarrow> investigation \<Rightarrow> run_result \<Rightarrow> bool" where
  "result_ok cfg iv rr \<longleftrightarrow>
     rca_is_terminal (rr_status rr) \<and>
     length (rr_evidence rr) \<le> max 2 (rl_evidence (rc_limits cfg)) \<and> distinct (map rv_id (rr_evidence rr)) \<and>
     sorted_wrt (<) (map is_seq (rr_steps rr)) \<and>
     (\<forall>r. rr_report rr = Some r \<longrightarrow>
        rp_incident r = iv_incident iv \<and> rp_investigation r = iv_id iv \<and> rp_evidence r = rr_evidence rr \<and>
        evidence_grounded r (known_ids (rr_evidence rr))) \<and>
     (rr_status rr = R_COMPLETED \<longrightarrow> rr_report rr \<noteq> None) \<and>
     (\<forall>r. rr_report rr = Some r \<and> rr_status rr \<in> {R_COMPLETED, R_INSUFFICIENT} \<longrightarrow>
        rp_status r = rr_status rr \<and> validate_report r (known_ids (rr_evidence rr)) = Inr ())"

section \<open>Identifiers of evidence\<close>

lemma digit_code: "d < 10 \<Longrightarrow> code (digit_char d) = 48 + d"
  by (simp add: digit_char_def)

lemma digits_snoc: "digits_value (ds @ [d]) = 10 * digits_value ds + d"
  by (simp add: digits_value_def)

lemma nat_str_value: "digits_value (map (\<lambda>c. code c - 48) (nat_str n)) = n"
proof (induction n rule: nat_str.induct)
  case (1 n)
  show ?case
  proof (cases "n < 10")
    case True
    then show ?thesis by (subst nat_str.simps) (simp add: digits_value_def digit_code)
  next
    case False
    then show ?thesis using 1 by (subst nat_str.simps) (simp add: digits_snoc digit_code)
  qed
qed

lemma evidence_id_inj: "evidence_id m = evidence_id n \<longleftrightarrow> m = n"
proof -
  have v: "digits_value (map (\<lambda>c. code c - 48) (pad 3 (nat_str n))) = n" for n
  proof -
    have "digits_value (replicate k 0 @ ds) = digits_value ds" for k ds
      by (induction k) (simp_all add: digits_value_def)
    then show ?thesis by (simp add: pad_def nat_str_value)
  qed
  show ?thesis
  proof
    assume "evidence_id m = evidence_id n"
    then have "pad 3 (nat_str m) = pad 3 (nat_str n)" by (simp add: evidence_id_def)
    then show "m = n" by (metis v)
  qed simp
qed

lemma id_run_facts:
  assumes "id_run 0 hi ids"
  shows "distinct ids" and "length ids \<le> hi"
proof -
  obtain ns where ns: "sorted_wrt (<) ns" "\<forall>n \<in> set ns. 0 < n \<and> n \<le> hi" "ids = map evidence_id ns"
    using assms unfolding id_run_def by blast
  have d: "distinct ns" using ns(1) strict_sorted_iff by blast
  then show "distinct ids" using ns(3) by (simp add: distinct_map inj_on_def evidence_id_inj)
  have "card (set ns) \<le> card {1..hi}" using ns(2) by (intro card_mono) auto
  then show "length ids \<le> hi" using d ns(3) by (simp add: distinct_card)
qed

lemma run_final_result:
  assumes "run_final (deps_for env cfg llm iv) s w"
  shows "result_ok cfg iv (graph_result (Inr s))"
proof -
  have f: "id_run 0 (wd_issued w) (map rv_id (st_evidence s))" "wd_issued w \<le> max 2 (rl_evidence (rc_limits cfg))"
    "step_run (wd_seq w) (st_steps s)"
    using assms by (simp_all add: run_final_def spent_ok_def deps_for_def)
  then have e: "length (st_evidence s) \<le> max 2 (rl_evidence (rc_limits cfg))" "distinct (map rv_id (st_evidence s))"
    using id_run_facts [OF f(1)] by auto
  have r: "\<forall>r. st_rca s = Some r \<longrightarrow> assembled_from (deps_for env cfg llm iv) (st_evidence s) r"
    "\<forall>r. st_rca s = Some r \<and> st_status s \<in> {R_COMPLETED, R_INSUFFICIENT} \<longrightarrow>
       rp_status r = st_status s \<and> report_grounded r (known_ids (st_evidence s))"
    "rca_is_terminal (st_status s)" "st_status s = R_COMPLETED \<longrightarrow> st_rca s \<noteq> None"
    using assms unfolding run_final_def by blast+
  show ?thesis
    unfolding result_ok_def graph_result_def sum.case run_result.simps
  proof (intro conjI)
    show "\<forall>r. st_rca s = Some r \<longrightarrow> rp_incident r = iv_incident iv \<and> rp_investigation r = iv_id iv \<and>
        rp_evidence r = st_evidence s \<and> evidence_grounded r (known_ids (st_evidence s))"
      using r(1) by (simp add: assembled_from_def deps_for_def)
    show "\<forall>r. st_rca s = Some r \<and> st_status s \<in> {R_COMPLETED, R_INSUFFICIENT} \<longrightarrow>
        rp_status r = st_status s \<and> validate_report r (known_ids (st_evidence s)) = Inr ()"
      using r(2) unfolding validate_report_iff by blast
  qed (use e r(3,4) f(3) in \<open>simp_all add: step_run_def\<close>)
qed

lemma aborted_result: "st \<in> {R_FAILED, R_TIMED_OUT} \<Longrightarrow> result_ok cfg iv (aborted st reason)"
  by (auto simp: result_ok_def aborted_def)

lemma invoke_graph_wp:
  assumes "1 \<le> rl_tool_calls (dp_limits d)"
  shows "wp (invoke_graph d) (run_final d) other_error (fresh_world t)"
  unfolding invoke_graph_def
  by (rule wp_run_graph [OF run_inv_initial assms]) (simp add: initial_bound recursion_limit_def)

lemma engine_result_ok:
  assumes "1 \<le> rl_tool_calls (rc_limits cfg)"
  shows "result_ok cfg iv (engine_result env cfg llm t iv)"
proof -
  let ?d = "deps_for env cfg llm iv"
  have "wp (invoke_graph ?d) (run_final ?d) other_error (fresh_world t)"
    by (rule invoke_graph_wp) (use assms in \<open>simp add: deps_for_def\<close>)
  then have "result_ok cfg iv (graph_result (fst (invoke_graph ?d (fresh_world t))))"
    using run_final_result aborted_result
    by (auto simp: wp_def graph_result_def split: prod.splits sum.splits)
  moreover from this have "never_active (graph_result (fst (invoke_graph ?d (fresh_world t)))) =
      graph_result (fst (invoke_graph ?d (fresh_world t)))"
    by (simp only: never_active_def result_ok_def simp_thms if_True)
  ultimately show ?thesis by (simp add: engine_result_def)
qed

section \<open>Soundness of the store\<close>

definition stored_result :: "rca_repo \<Rightarrow> string \<Rightarrow> investigation \<Rightarrow> bool" where
  "stored_result re i iv \<longleftrightarrow>
     (\<exists>cfg rr. result_ok cfg iv rr \<and> iv_status iv = rr_status rr \<and>
        iv_steps iv = length (rr_steps rr) \<and> iv_evidence iv = length (rr_evidence rr) \<and>
        map_of (re_steps re) i = Some (rr_steps rr) \<and> map_of (re_evidence re) i = Some (rr_evidence rr) \<and>
        map_of (re_reports re) i = rr_report rr)"

definition row_ok :: "rca_repo \<Rightarrow> string \<Rightarrow> investigation \<Rightarrow> bool" where
  "row_ok re i iv \<longleftrightarrow> iv_id iv = i \<and>
     (if rca_is_terminal (iv_status iv) then stored_result re i iv
      else iv_status iv = R_PENDING \<and> map_of (re_steps re) i = None \<and> map_of (re_evidence re) i = None \<and>
           map_of (re_reports re) i = None)"

definition repo_ok :: "rca_repo \<Rightarrow> bool" where
  "repo_ok re \<longleftrightarrow>
     distinct (map fst (re_investigations re)) \<and> re_order re = map fst (re_investigations re) \<and>
     (\<forall>i iv. map_of (re_investigations re) i = Some iv \<longrightarrow> row_ok re i iv) \<and>
     (\<forall>i. map_of (re_investigations re) i = None \<longrightarrow>
        map_of (re_steps re) i = None \<and> map_of (re_evidence re) i = None \<and> map_of (re_reports re) i = None) \<and>
     (\<forall>i j a b. map_of (re_investigations re) i = Some a \<and> map_of (re_investigations re) j = Some b \<and>
        \<not> rca_is_terminal (iv_status a) \<and> \<not> rca_is_terminal (iv_status b) \<and> iv_incident a = iv_incident b \<longrightarrow> i = j)"

lemma no_active_iff:
  assumes "distinct (map fst (re_investigations re))"
  shows "get_active incident re = None \<longleftrightarrow>
    (\<forall>i iv. map_of (re_investigations re) i = Some iv \<longrightarrow> \<not> is_active_for incident iv)"
  using assms by (auto simp: get_active_def find_None_iff dest: map_of_SomeD)

lemma row_ok_cong:
  assumes "map_of (re_steps re') i = map_of (re_steps re) i" "map_of (re_evidence re') i = map_of (re_evidence re) i"
    "map_of (re_reports re') i = map_of (re_reports re) i"
  shows "row_ok re' i iv = row_ok re i iv"
  using assms by (simp add: row_ok_def stored_result_def)

lemma begin_Inr:
  assumes "begin_investigation new_id now incident trigger mode re = Inr (iv, re')"
  shows "get_active incident re = None" "iv_id iv = new_id" "iv_incident iv = incident" "iv_status iv = R_PENDING"
    "re_investigations re' = AList.update new_id iv (re_investigations re)" "re_order re' = re_order re @ [new_id]"
    "re_steps re' = re_steps re" "re_evidence re' = re_evidence re" "re_reports re' = re_reports re"
  using assms by (auto simp: begin_investigation_def Let_def split: if_splits)

lemma reserve_ok:
  assumes ok: "repo_ok re" and b: "begin_investigation new_id now incident trigger mode re = Inr (iv, re')"
    and fresh: "map_of (re_investigations re) new_id = None"
  shows "repo_ok re'"
proof -
  note f = begin_Inr [OF b]
  have d: "distinct (map fst (re_investigations re))" using ok by (simp add: repo_ok_def)
  have inactive: "map_of (re_investigations re) i = Some a \<Longrightarrow> iv_incident a = incident \<Longrightarrow> rca_is_terminal (iv_status a)" for i a
    using no_active_iff [OF d, of incident] f(1) by (auto simp: is_active_for_def)
  have m: "map_of (re_investigations re') i = (if i = new_id then Some iv else map_of (re_investigations re) i)" for i
    by (simp add: f(5) map_of_update_if)
  have rows: "row_ok re' i a" if "map_of (re_investigations re') i = Some a" for i a
  proof (cases "i = new_id")
    case True
    then have "a = iv" using that by (simp add: m)
    then show ?thesis using True ok fresh f by (simp add: row_ok_def repo_ok_def)
  next
    case False
    then have "row_ok re i a" using ok that by (simp add: m repo_ok_def)
    then show ?thesis using row_ok_cong [of re' i re a] f(7-9) by simp
  qed
  have one: "i = j" if "map_of (re_investigations re') i = Some a" "map_of (re_investigations re') j = Some c"
    "\<not> rca_is_terminal (iv_status a)" "\<not> rca_is_terminal (iv_status c)" "iv_incident a = iv_incident c" for i j a c
    using that ok inactive f(3) unfolding m repo_ok_def by (metis option.inject)
  show ?thesis
    unfolding repo_ok_def
  proof (intro conjI)
    show "distinct (map fst (re_investigations re'))" using d by (simp add: f(5) distinct_keys_update)
    show "re_order re' = map fst (re_investigations re')"
      using ok fresh by (simp add: f(5,6) update_new repo_ok_def)
    show "\<forall>i. map_of (re_investigations re') i = None \<longrightarrow>
        map_of (re_steps re') i = None \<and> map_of (re_evidence re') i = None \<and> map_of (re_reports re') i = None"
      using ok by (simp add: m f(7-9) repo_ok_def)
  qed (use rows one in blast)+
qed

lemma run_to_completion_Some:
  assumes "run_to_completion env cfg llm t0 t1 iv re = Some (oc, re')" "map_of (re_investigations re) (iv_id iv) = Some iv"
  defines "rr \<equiv> engine_result env cfg llm t0 iv"
  shows "oc_investigation oc = completed_row t1 (lm_model llm) rr iv" "oc_report oc = rr_report rr"
    "re_investigations re' = AList.update (iv_id iv) (completed_row t1 (lm_model llm) rr iv) (re_investigations re)"
    "re_order re' = re_order re"
    "map_of (re_steps re') i = (if i = iv_id iv then Some (rr_steps rr) else map_of (re_steps re) i)"
    "map_of (re_evidence re') i = (if i = iv_id iv then Some (rr_evidence rr) else map_of (re_evidence re) i)"
    "map_of (re_reports re') i = (if i = iv_id iv \<and> rr_report rr \<noteq> None then rr_report rr else map_of (re_reports re) i)"
  using assms
  by (auto simp: run_to_completion_def complete_investigation_def Let_def map_of_update_if rr_def split: option.splits)

lemma finish_ok:
  assumes ok: "repo_ok re" and iv: "map_of (re_investigations re) i = Some iv" and act: "\<not> rca_is_terminal (iv_status iv)"
    and lim: "1 \<le> rl_tool_calls (rc_limits cfg)"
    and run: "run_to_completion env cfg llm t0 t1 iv re = Some (oc, re')"
  shows "repo_ok re'"
proof -
  let ?rr = "engine_result env cfg llm t0 iv"
  let ?row = "completed_row t1 (lm_model llm) ?rr iv"
  have i: "iv_id iv = i" using ok iv by (simp add: repo_ok_def row_ok_def)
  have none: "map_of (re_reports re) i = None" using ok iv act by (simp add: repo_ok_def row_ok_def)
  note f = run_to_completion_Some [OF run, unfolded i, OF iv]
  have res: "result_ok cfg iv ?rr" by (rule engine_result_ok [OF lim])
  have m: "map_of (re_investigations re') j = (if j = i then Some ?row else map_of (re_investigations re) j)" for j
    by (simp add: f(3) map_of_update_if)
  have row: "row_ok re' i ?row"
  proof -
    have "result_ok cfg ?row ?rr" using res by (simp add: result_ok_def completed_row_def)
    then have "stored_result re' i ?row"
      unfolding stored_result_def
      by (intro exI [of _ cfg] exI [of _ ?rr]) (simp add: f(5-7) none completed_row_def)
    moreover have "rca_is_terminal (iv_status ?row)" using res by (simp add: result_ok_def completed_row_def)
    ultimately show ?thesis using i by (simp add: row_ok_def completed_row_def)
  qed
  have ended: "rca_is_terminal (iv_status ?row)" using res by (simp add: result_ok_def completed_row_def)
  have rows: "row_ok re' j a" if "map_of (re_investigations re') j = Some a" for j a
  proof (cases "j = i")
    case False
    then have "row_ok re j a" using ok that by (simp add: m repo_ok_def)
    then show ?thesis using row_ok_cong [of re' j re a] f(5-7) False by simp
  qed (use that row in \<open>simp add: m\<close>)
  have one: "j = k" if "map_of (re_investigations re') j = Some a" "map_of (re_investigations re') k = Some c"
    "\<not> rca_is_terminal (iv_status a)" "\<not> rca_is_terminal (iv_status c)" "iv_incident a = iv_incident c" for j k a c
  proof -
    have "j \<noteq> i" "k \<noteq> i" using that ended by (auto simp: m simp del: terminal_iff)
    then show ?thesis using that ok unfolding m repo_ok_def by auto
  qed
  show ?thesis
    unfolding repo_ok_def
  proof (intro conjI)
    show "distinct (map fst (re_investigations re'))" using ok by (simp add: f(3) distinct_keys_update repo_ok_def)
    show "re_order re' = map fst (re_investigations re')"
      using ok iv by (simp add: f(3,4) keys_update_old repo_ok_def)
    show "\<forall>j. map_of (re_investigations re') j = None \<longrightarrow>
        map_of (re_steps re') j = None \<and> map_of (re_evidence re') j = None \<and> map_of (re_reports re') j = None"
      using ok by (simp add: m f(5-7) repo_ok_def)
  qed (use rows one in blast)+
qed

lemma rca_step_ok:
  assumes "rca_step re re'" and ok: "repo_ok re"
  shows "repo_ok re'"
  using assms(1)
proof cases
  case reserve
  then show ?thesis using reserve_ok [OF ok] by blast
next
  case finish
  show ?thesis by (rule finish_ok [OF ok finish])
qed

lemma rca_reachable_ok: "rca_reachable re \<Longrightarrow> repo_ok re"
proof (induction rule: rca_reachable.induct)
  case start
  show ?case by (simp add: repo_ok_def empty_repo_def)
next
  case (more re re')
  then show ?case by (simp add: rca_step_ok)
qed

end
