(* ===== verification/RcaProps.thy ===== *)
theory RcaProps imports RcaService begin

text \<open>
  Properties of the RCA agent: what a run of the graph may return, how long it takes and what it
  spends, what the repository holds under any interleaving of the callers, and the contracts of the
  tools and of the plan gate that the runs rest on.
\<close>

section \<open>Runs\<close>

text \<open>
  Claim C25. Whatever the model answers and whatever the outside replies, a run of the engine ends in a
  terminal status with pairwise distinct evidence, at most the budget of it (two items where the budget
  is one) and steps in increasing order; a report of the run is about its incident and its investigation,
  carries exactly the evidence of the run and cites nothing else; a COMPLETED run has a report, and the
  report of a COMPLETED or INSUFFICIENT_EVIDENCE run has that status and passes validation.
\<close>

theorem investigation_outcome_sound:
  assumes "1 \<le> rl_tool_calls (rc_limits cfg)"
  shows "let rr = engine_result env cfg llm t iv; ids = set (map rv_id (rr_evidence rr)) in
    rca_is_terminal (rr_status rr) \<and>
    length (rr_evidence rr) \<le> max 2 (rl_evidence (rc_limits cfg)) \<and> distinct (map rv_id (rr_evidence rr)) \<and>
    sorted_wrt (<) (map is_seq (rr_steps rr)) \<and>
    (\<forall>r. rr_report rr = Some r \<longrightarrow>
       rp_incident r = iv_incident iv \<and> rp_investigation r = iv_id iv \<and> rp_evidence r = rr_evidence rr \<and>
       referenced_evidence_ids r \<subseteq> ids) \<and>
    (rr_status rr = R_COMPLETED \<longrightarrow> rr_report rr \<noteq> None) \<and>
    (\<forall>r. rr_report rr = Some r \<and> rr_status rr \<in> {R_COMPLETED, R_INSUFFICIENT} \<longrightarrow>
       rp_status r = rr_status rr \<and> validate_report r ids = Inr ())"
proof -
  have k: "set (map rv_id evs) = known_ids evs" for evs by (simp add: known_ids_def)
  have "result_ok cfg iv (engine_result env cfg llm t iv)" by (rule engine_result_ok [OF assms])
  then show ?thesis unfolding result_ok_def k evidence_grounded_def Let_def by blast
qed

text \<open>
  Claim C29. The graph ends by itself: with at least one tool call allowed it is over after at most the
  allowed tool calls plus ten nodes, in a terminal status or with an exception that is no recursion
  error, so the recursion limit of the graph library never decides a run.
\<close>

theorem graph_ends_within_bound:
  assumes "1 \<le> rl_tool_calls (dp_limits d)" and "rl_tool_calls (dp_limits d) + 10 \<le> k"
  shows "(case fst (run_graph d k N_INITIALIZE initial_state (fresh_world t)) of
      Inr s \<Rightarrow> rca_is_terminal (st_status s) | Inl e \<Rightarrow> \<exists>x. e = E_OTHER x) \<and>
    rl_tool_calls (dp_limits d) + 10 \<le> recursion_limit (dp_limits d)"
proof -
  have "wp (run_graph d k N_INITIALIZE initial_state) (run_final d) other_error (fresh_world t)"
    by (rule wp_run_graph [OF run_inv_initial assms(1)]) (use assms(2) in \<open>simp add: initial_bound\<close>)
  then show ?thesis
    unfolding run_final_def recursion_limit_def
    by (auto simp: wp_def simp del: terminal_iff split: prod.splits sum.splits)
qed

text \<open>
  A run never spends more tool calls than its limit allows, and hands out at most its budget of
  evidence identifiers (two where the budget is one); what it keeps of them is in the order of issue.
\<close>

theorem run_stays_within_budget:
  assumes "1 \<le> rl_tool_calls (dp_limits d)" and "invoke_graph d (fresh_world t) = (Inr s, w)"
  shows "us_tool_calls (wd_usage w) \<le> rl_tool_calls (dp_limits d) \<and>
    wd_issued w \<le> max 2 (rl_evidence (dp_limits d)) \<and>
    (\<exists>ns. sorted_wrt (<) ns \<and> set ns \<subseteq> {1..wd_issued w} \<and> map rv_id (st_evidence s) = map evidence_id ns)"
proof -
  have "run_final d s w" by (rule wp_result(1) [OF invoke_graph_wp [OF assms(1)] assms(2)])
  then show ?thesis unfolding run_final_def spent_ok_def id_run_def by fastforce
qed

section \<open>Assembled reports\<close>

text \<open>
  Claim C32. The deterministic assembly keeps the model honest: whatever findings and synthesis it
  proposes, and with hypotheses about collected evidence, the assembled report passes every rule of
  validation exactly when the stated uncertainty is not a non-empty run of white space; it is COMPLETED
  only when the model concluded so, and it always requires a human approval.
\<close>

theorem assembled_report_validates:
  assumes "hypotheses_known (known_ids evs) hyps"
  shows "let r = assemble_report d incident evs proposed hyps sy md in
    (validate_report r (known_ids evs) = Inr () \<longleftrightarrow> sy_uncertainty sy = [] \<or> strip (sy_uncertainty sy) \<noteq> []) \<and>
    (rp_status r = R_COMPLETED \<longleftrightarrow> sy_conclusion sy = CONCLUDE_COMPLETED) \<and> ra_approval (rp_action r)"
proof -
  define r where "r = assemble_report d incident evs proposed hyps sy md"
  have "evidence_grounded r (known_ids evs)"
    using assemble_report_ok [OF assms] unfolding r_def assembled_from_def by blast
  moreover have "rp_uncertainty r = or_text (sy_uncertainty sy) ''Uncertainty was not characterized.''"
    by (simp add: r_def assemble_report_def Let_def)
  moreover have "strip ''Uncertainty was not characterized.'' \<noteq> []"
    by (simp add: strip_def is_space_def)
  ultimately have "validate_report r (known_ids evs) = Inr () \<longleftrightarrow>
      sy_uncertainty sy = [] \<or> strip (sy_uncertainty sy) \<noteq> []"
    unfolding validate_report_iff report_grounded_iff by (simp add: or_text_def)
  then show ?thesis by (simp add: r_def assemble_report_def Let_def report_status_def)
qed

section \<open>Repository\<close>

lemma reachable_row:
  "rca_reachable re \<Longrightarrow> get_investigation i re = Some iv \<Longrightarrow> row_ok re i iv"
  using rca_reachable_ok by (auto simp: repo_ok_def get_investigation_def)

text \<open>
  Claim C31. However the callers interleave, an incident never has two investigations that are still
  active at the same time.
\<close>

theorem one_active_investigation:
  assumes "rca_reachable re" and "get_investigation i re = Some a" and "get_investigation j re = Some b"
    and "\<not> rca_is_terminal (iv_status a)" and "\<not> rca_is_terminal (iv_status b)" and "iv_incident a = iv_incident b"
  shows "i = j"
  using rca_reachable_ok [OF assms(1)] assms(2-)
  by (simp add: repo_ok_def get_investigation_def del: terminal_iff)

text \<open>
  Claim C26. Every report in the repository is the report of a finished investigation and holds up: it is
  about that investigation and its incident, carries exactly the evidence stored for it, cites no other
  evidence, always asks for a human approval, and when the investigation is COMPLETED or
  INSUFFICIENT_EVIDENCE it has that status and passes validation against the stored evidence.
\<close>

theorem stored_reports_sound:
  assumes "rca_reachable re" and "get_report i re = Some r"
  shows "\<exists>iv evs. get_investigation i re = Some iv \<and> get_evidence i re = Some evs \<and> rca_is_terminal (iv_status iv) \<and>
    rp_investigation r = i \<and> rp_incident r = iv_incident iv \<and> rp_evidence r = evs \<and> iv_evidence iv = length evs \<and>
    referenced_evidence_ids r \<subseteq> known_ids evs \<and> ra_approval (rp_action r) \<and>
    (iv_status iv \<in> {R_COMPLETED, R_INSUFFICIENT} \<longrightarrow>
       rp_status r = iv_status iv \<and> validate_report r (known_ids evs) = Inr ())"
proof -
  have ok: "repo_ok re" by (rule rca_reachable_ok [OF assms(1)])
  have rep: "map_of (re_reports re) i = Some r" using assms(2) by (simp add: get_report_def)
  then obtain iv where iv: "map_of (re_investigations re) i = Some iv"
    using ok unfolding repo_ok_def by (metis option.exhaust option.distinct(1))
  then have row: "row_ok re i iv" using ok by (simp add: repo_ok_def)
  then have t: "rca_is_terminal (iv_status iv)" and i: "iv_id iv = i" and "stored_result re i iv"
    using rep by (auto simp: row_ok_def simp del: terminal_iff split: if_splits)
  then obtain cfg rr where ok: "result_ok cfg iv rr" and st: "iv_status iv = rr_status rr"
    and n: "iv_evidence iv = length (rr_evidence rr)" and e: "map_of (re_evidence re) i = Some (rr_evidence rr)"
    and r: "rr_report rr = Some r"
    using rep unfolding stored_result_def by auto
  have q: "rp_incident r = iv_incident iv \<and> rp_investigation r = iv_id iv \<and> rp_evidence r = rr_evidence rr \<and>
      evidence_grounded r (known_ids (rr_evidence rr))"
    "rr_status rr \<in> {R_COMPLETED, R_INSUFFICIENT} \<Longrightarrow>
      rp_status r = rr_status rr \<and> validate_report r (known_ids (rr_evidence rr)) = Inr ()"
    using ok r unfolding result_ok_def by blast+
  show ?thesis
    by (rule exI [of _ iv], rule exI [of _ "rr_evidence rr"])
      (use q iv t i e st n in \<open>auto simp: get_investigation_def get_evidence_def evidence_grounded_def\<close>)
qed

lemma rca_step_keeps_outcome:
  assumes "rca_step re re'" and "rca_reachable re"
    and "get_investigation i re = Some iv" and "rca_is_terminal (iv_status iv)"
  shows "get_investigation i re' = Some iv \<and> get_steps i re' = get_steps i re \<and>
    get_evidence i re' = get_evidence i re \<and> get_report i re' = get_report i re"
  using assms(1)
proof cases
  case (reserve new_id now incident trigger mode iv')
  then have "i \<noteq> new_id" using assms(3) by (auto simp: get_investigation_def)
  then show ?thesis
    using begin_Inr [OF reserve(1)] assms(3)
    by (simp add: get_investigation_def get_steps_def get_evidence_def get_report_def map_of_update_if)
next
  case (finish j iv' cfg env llm started finished oc)
  have j: "iv_id iv' = j" using reachable_row [OF assms(2)] finish(1) by (auto simp: get_investigation_def row_ok_def)
  have ne: "i \<noteq> j" using finish(1,2) assms(3,4) by (auto simp: get_investigation_def)
  note f = run_to_completion_Some [OF finish(4), unfolded j, OF finish(1)]
  show ?thesis
    using ne assms(3)
    by (simp add: get_investigation_def get_steps_def get_evidence_def get_report_def f map_of_update_if)
qed

text \<open>
  The outcome of an investigation is final: once it is terminal, no later step of any caller
  changes its row, its steps, its evidence or its report.
\<close>

theorem outcomes_are_final:
  assumes "rca_step\<^sup>*\<^sup>* re re'" and "rca_reachable re"
    and "get_investigation i re = Some iv" and "rca_is_terminal (iv_status iv)"
  shows "get_investigation i re' = Some iv \<and> get_steps i re' = get_steps i re \<and>
    get_evidence i re' = get_evidence i re \<and> get_report i re' = get_report i re"
proof -
  have "rca_reachable re' \<and> get_investigation i re' = Some iv \<and> get_steps i re' = get_steps i re \<and>
    get_evidence i re' = get_evidence i re \<and> get_report i re' = get_report i re"
    using assms(1)
  proof (induction rule: rtranclp_induct)
    case base
    then show ?case using assms by simp
  next
    case (step y z)
    then show ?case using rca_step_keeps_outcome [OF step.hyps(2), of i iv] assms(4) rca_reachable.more by metis
  qed
  then show ?thesis by blast
qed

section \<open>Events\<close>

lemma get_latest_None:
  "get_latest incident re = None \<longleftrightarrow>
     (\<forall>i \<in> set (re_order re). \<forall>iv. map_of (re_investigations re) i = Some iv \<longrightarrow> iv_incident iv \<noteq> incident)"
  by (auto simp: get_latest_def find_None_iff List.map_filter_def)

lemma handle_event_investigated:
  assumes "handle_event env cfg llm new_id now t0 t1 e re = (HD_INVESTIGATED st, re')" and "read_event e = EV_INCIDENT i"
  shows "get_latest i re' \<noteq> None"
proof -
  obtain iv re1 where b: "begin_investigation new_id now i TR_EVENT (rc_mode cfg) re = Inr (iv, re1)"
    and run: "\<exists>oc. run_to_completion env cfg llm t0 t1 iv re1 = Some (oc, re')"
    using assms
    by (auto simp: handle_event_def service_begin_def split: option.splits sum.splits begin_error.splits prod.splits)
  note f = begin_Inr [OF b]
  have row: "map_of (re_investigations re1) (iv_id iv) = Some iv" by (simp add: f map_of_update_if)
  obtain oc where "run_to_completion env cfg llm t0 t1 iv re1 = Some (oc, re')" using run by blast
  note g = run_to_completion_Some [OF this row]
  have "iv_id iv \<in> set (re_order re')" using f(2,6) g(4) by simp
  moreover have "map_of (re_investigations re') (iv_id iv) =
      Some (completed_row t1 (lm_model llm) (engine_result env cfg llm t0 iv) iv)"
    by (simp add: g(3) map_of_update_if)
  moreover have "iv_incident (completed_row t (lm_model llm) rr iv) = i" for t rr
    using f(3) by (simp add: completed_row_def)
  ultimately show ?thesis unfolding get_latest_None by blast
qed

text \<open>
  Handling an event is idempotent: once a delivery has been handled with any result but a
  retry, a redelivery of the same event changes nothing, whatever the model, the outside, the clock and
  the drawn identifier are by then.
\<close>

theorem redelivered_event_is_noop:
  assumes "handle_event env cfg llm new_id now t0 t1 e re = (h, re')" and "\<And>c. h \<noteq> HD_RETRY c"
  shows "snd (handle_event env' cfg' llm' new_id' now' t0' t1' e re') = re'"
proof (cases "read_event e")
  case (EV_INCIDENT i)
  show ?thesis
  proof (cases "get_latest i re'")
    case (Some existing)
    then show ?thesis using EV_INCIDENT by (simp add: handle_event_def)
  next
    case None
    then have no: "h \<noteq> HD_INVESTIGATED st" for st
      using handle_event_investigated [OF _ EV_INCIDENT] assms(1) by blast
    have "get_active i re' \<noteq> None"
      using assms no None EV_INCIDENT
      by (auto simp: handle_event_def service_begin_def begin_investigation_def Let_def
          split: option.splits sum.splits begin_error.splits prod.splits if_splits)
    then show ?thesis
      using None EV_INCIDENT
      by (auto simp: handle_event_def service_begin_def begin_investigation_def split: option.split)
  qed
qed (simp_all add: handle_event_def)

section \<open>Tools and plans\<close>

text \<open>
  Claim C33. The contract of every evidence tool, whatever the request and whatever the outside replies:
  a successful result has no error and evidence with exactly the next identifiers, any other result has
  an error and no evidence, a call hands out at most one item (or what is left of the budget, for the two
  tools that list rows), and nothing but the validation error of an oversized record escapes.
\<close>

theorem tool_contract:
  "case tool_run env cfg n raw w of
     (Inr r, w') \<Rightarrow>
       (if tr_ok r then tr_error r = None \<and>
          map rv_id (tr_evidence r) = map evidence_id [Suc (wd_issued w) ..< Suc (wd_issued w')] \<and>
          length (tr_evidence r) \<le> tool_cost (rc_limits cfg) w n
        else tr_error r \<noteq> None \<and> tr_evidence r = []) \<and>
       wd_seq w' = wd_seq w \<and> wd_usage w' = wd_usage w
   | (Inl x, w') \<Rightarrow> x = validation_error \<and> wd_seq w' = wd_seq w \<and> wd_usage w' = wd_usage w"
  using wp_tool_run [OF refl, where env = env and cfg = cfg and n = n and raw = raw and w = w]
  by (auto simp: wp_def tool_effect_def issues_def spends_def fresh_ids_def simp del: upt_Suc split: prod.splits sum.splits if_splits)

text \<open>
  Round trip of a tool request: what the gate stores of an accepted call, the JSON dump of its
  request, is read back by the tool as the very same request.
\<close>

theorem request_roundtrip:
  assumes "request_ok r" and "\<And>i. to_int (jint i) = Some i"
  shows "parse_request to_int (request_tool r) (dump_request r) = Some r"
proof -
  have strs: "as_str_list (jstrs ms) = Some ms" for ms
    by (induction ms) (simp_all add: jstrs_def)
  have opt: "as_opt_str (jopt JStr x) = Some x" for x by (cases x) (simp_all add: jopt_def)
  have "read_request to_int (request_tool r) (dump_request r) = Some r"
    by (cases r) (simp_all add: only_fields_def need_def field_def assms(2) strs opt)
  then show ?thesis using assms(1) by (simp add: parse_request_def)
qed

text \<open>The gate, declaratively: the distinct valid requests in the order proposed, as many as fit.\<close>

definition valid_request :: "rca_env \<Rightarrow> planned_call \<Rightarrow> request option" where
  "valid_request env c =
     (case parse_tool (pc_tool c) of
        None \<Rightarrow> None
      | Some n \<Rightarrow> if n \<in> AVAILABLE_TOOLS then parse_request (en_int env) n (pc_arguments c) else None)"

definition first_occurrences :: "'a list \<Rightarrow> 'a list" where
  "first_occurrences xs = rev (remdups (rev xs))"

definition call_of :: "request \<Rightarrow> validated_call" where
  "call_of rq = \<lparr>vc_tool = request_tool rq, vc_arguments = dump_request rq\<rparr>"

lemma first_occurrences_simps [simp]:
  "first_occurrences [] = []"
  "first_occurrences (xs @ [x]) = (if x \<in> set xs then first_occurrences xs else first_occurrences xs @ [x])"
  "set (first_occurrences xs) = set xs"
  by (simp_all add: first_occurrences_def)

lemma validate_call_fits:
  fixes env :: rca_env and c :: planned_call
  assumes "pv_seen v = take m (first_occurrences rqs)" and "pv_accepted v = map call_of (pv_seen v)"
  defines "v' \<equiv> validate_call env m v c"
  shows "pv_seen v' = take m (first_occurrences (rqs @ (case valid_request env c of None \<Rightarrow> [] | Some rq \<Rightarrow> [rq])))"
    and "pv_accepted v' = map call_of (pv_seen v')"
    and "length (pv_accepted v') + length (pv_rejected v') = Suc (length (pv_accepted v) + length (pv_rejected v))"
proof -
  have l: "length (pv_accepted v) = min m (length (first_occurrences rqs))" using assms(1,2) by simp
  have full: "take m (first_occurrences (rqs @ (case x of None \<Rightarrow> [] | Some rq \<Rightarrow> [rq]))) = take m (first_occurrences rqs)"
    if "m \<le> length (first_occurrences rqs)" for x
    using that by (cases x) simp_all
  have room: "length (first_occurrences rqs) < m \<Longrightarrow> set (pv_seen v) = set rqs" using assms(1) by simp
  have tool: "request_tool rq = n" if "parse_request f n d = Some rq" for f n d rq
    using that by (rule parse_request_tool)
  consider "m \<le> length (first_occurrences rqs)" | "length (first_occurrences rqs) < m" by linarith
  then have "pv_seen v' = take m (first_occurrences (rqs @ (case valid_request env c of None \<Rightarrow> [] | Some rq \<Rightarrow> [rq]))) \<and>
    pv_accepted v' = map call_of (pv_seen v') \<and>
    length (pv_accepted v') + length (pv_rejected v') = Suc (length (pv_accepted v) + length (pv_rejected v))"
  proof cases
    case 1
    then show ?thesis using assms full l by (simp add: validate_call_def reject_def)
  next
    case 2
    then show ?thesis
      using assms l room
      by (auto simp: validate_call_def reject_def valid_request_def call_of_def dest: tool split: option.split)
  qed
  then show "pv_seen v' = take m (first_occurrences (rqs @ (case valid_request env c of None \<Rightarrow> [] | Some rq \<Rightarrow> [rq])))"
    and "pv_accepted v' = map call_of (pv_seen v')"
    and "length (pv_accepted v') + length (pv_rejected v') = Suc (length (pv_accepted v) + length (pv_rejected v))"
    by blast+
qed

lemma valid_request_ok:
  assumes "valid_request env c = Some rq"
  shows "request_ok rq" and "request_tool rq \<in> AVAILABLE_TOOLS"
proof -
  obtain n where n: "n \<in> AVAILABLE_TOOLS" "parse_request (en_int env) n (pc_arguments c) = Some rq"
    using assms by (auto simp: valid_request_def split: option.splits if_splits)
  show "request_tool rq \<in> AVAILABLE_TOOLS" using parse_request_tool [OF n(2)] n(1) by simp
  show "request_ok rq" using n(2) by (auto simp: parse_request_def bind_eq_Some_conv split: if_splits)
qed

text \<open>
  Claim C30. The plan gate lets through exactly the distinct valid requests of the plan, in the order the
  model proposed them and as many as the limit allows: each is for an available tool, satisfies the
  request contract of that tool, and is stored in normal form; every other call is rejected with a reason.
\<close>

theorem plan_gate_exact:
  "let v = validate_plan env m calls; rqs = List.map_filter (valid_request env) calls in
   pv_accepted v = map call_of (take m (first_occurrences rqs)) \<and>
   length (pv_accepted v) + length (pv_rejected v) = length calls \<and>
   set rqs \<subseteq> {rq. request_ok rq \<and> request_tool rq \<in> AVAILABLE_TOOLS}"
proof -
  let ?v0 = "\<lparr>pv_accepted = [], pv_rejected = [], pv_seen = []\<rparr>"
  have "pv_seen (foldl (validate_call env m) ?v0 cs) = take m (first_occurrences (List.map_filter (valid_request env) cs)) \<and>
      pv_accepted (foldl (validate_call env m) ?v0 cs) = map call_of (pv_seen (foldl (validate_call env m) ?v0 cs)) \<and>
      length (pv_accepted (foldl (validate_call env m) ?v0 cs)) + length (pv_rejected (foldl (validate_call env m) ?v0 cs)) = length cs" for cs
  proof (induction cs rule: rev_induct)
    case Nil
    then show ?case by (simp add: List.map_filter_def)
  next
    case (snoc c cs)
    then have v: "pv_seen (foldl (validate_call env m) ?v0 cs) = take m (first_occurrences (List.map_filter (valid_request env) cs))"
      and a: "pv_accepted (foldl (validate_call env m) ?v0 cs) = map call_of (pv_seen (foldl (validate_call env m) ?v0 cs))"
      and n: "length (pv_accepted (foldl (validate_call env m) ?v0 cs)) + length (pv_rejected (foldl (validate_call env m) ?v0 cs)) = length cs"
      by blast+
    show ?case
      using validate_call_fits [OF v a, of env c] n
      by (simp add: List.map_filter_def split: option.splits)
  qed
  moreover have "set (List.map_filter (valid_request env) calls) \<subseteq> {rq. request_ok rq \<and> request_tool rq \<in> AVAILABLE_TOOLS}"
    using valid_request_ok by (auto simp: List.map_filter_def)
  ultimately show ?thesis unfolding validate_plan_def Let_def by metis
qed


end
