(* ===== verification/KafkaConsumer.thy ===== *)
theory KafkaConsumer imports PyText begin

text \<open>
  The manual-commit consume loop that every consumer of the platform shares (\<open>libs/sentinelops_common/kafka.py\<close>)
  for one partition. Bytes are character lists. The broker is an environment that says of the \<open>n\<close>-th
  call made to it whether it raises, and what the exception reads like; decoding a message into an
  envelope (\<open>json\<close> and Pydantic behind \<open>parse_envelope\<close>) and UTF-8 are parameters. The handler is any
  function of the envelope, the record and a world of its own. \<open>kc_lost\<close> is the log of the records whose
  dead letter could not be written, \<open>kc_sleeps\<close> the list of the waits.
\<close>

section \<open>Records and outcomes\<close>

record krecord =
  kr_offset :: nat
  kr_value :: "string option"
  kr_key :: "string option"
  kr_headers :: "(string \<times> string) list"

text \<open>How a handler ends; the last constructor carries the class and the text of any other exception.\<close>

datatype handler_exit = HX_OK | HX_REJECTED string | HX_RETRYABLE string | HX_OTHER string string

type_synonym ('e, 'w) handler = "'e \<Rightarrow> krecord \<Rightarrow> 'w \<Rightarrow> 'w \<times> handler_exit"

text \<open>
  A handler awaits in its middle. Its cuts are the worlds it has made at one of those points, beside the one
  it leaves at its end: what is there when the process dies.
\<close>

type_synonym ('e, 'w) handler_cuts = "'e \<Rightarrow> krecord \<Rightarrow> 'w \<Rightarrow> 'w list"

record dead_letter =
  dl_value :: string
  dl_key :: "string option"
  dl_headers :: "(string \<times> string) list"

record consumer_config =
  kf_topic :: string
  kf_max_retries :: nat
  kf_backoff :: rat

record broker =
  br_commit :: "nat \<Rightarrow> (string \<times> string) option"
  br_publish :: "nat \<Rightarrow> (string \<times> string) option"
  br_utf8 :: "string \<Rightarrow> string"

record 'w consumer =
  kc_world :: 'w
  kc_calls :: nat
  kc_committed :: nat
  kc_dlq :: "(krecord \<times> dead_letter) list"
  kc_lost :: "krecord list"
  kc_processed :: nat
  kc_rejected :: nat
  kc_sleeps :: "rat list"

section \<open>The loop\<close>

definition commit_record :: "broker \<Rightarrow> krecord \<Rightarrow> 'w consumer \<Rightarrow> (string \<times> string) option \<times> 'w consumer" where
  "commit_record br r st =
     (case br_commit br (kc_calls st) of
        Some x \<Rightarrow> (Some x, st\<lparr>kc_calls := Suc (kc_calls st)\<rparr>)
      | None \<Rightarrow> (None, st\<lparr>kc_calls := Suc (kc_calls st), kc_committed := kr_offset r + 1\<rparr>))"

definition dead_letter_of :: "consumer_config \<Rightarrow> broker \<Rightarrow> krecord \<Rightarrow> string \<Rightarrow> dead_letter" where
  "dead_letter_of cf br r reason =
     \<lparr>dl_value = (case kr_value r of None \<Rightarrow> [] | Some v \<Rightarrow> v), dl_key = kr_key r,
      dl_headers = kr_headers r @ [(''dlq-reason'', take 512 (br_utf8 br reason)),
        (''dlq-source-topic'', br_utf8 br (kf_topic cf))]\<rparr>"

definition to_dlq :: "consumer_config \<Rightarrow> broker \<Rightarrow> krecord \<Rightarrow> string \<Rightarrow> 'w consumer \<Rightarrow> 'w consumer" where
  "to_dlq cf br r reason st =
     (case br_publish br (kc_calls st) of
        Some x \<Rightarrow> st\<lparr>kc_calls := Suc (kc_calls st), kc_lost := kc_lost st @ [r]\<rparr>
      | None \<Rightarrow> st\<lparr>kc_calls := Suc (kc_calls st), kc_dlq := kc_dlq st @ [(r, dead_letter_of cf br r reason)]\<rparr>)"

text \<open>Dead letter, commit, count: the common end of every refused record.\<close>

definition give_up :: "consumer_config \<Rightarrow> broker \<Rightarrow> krecord \<Rightarrow> string \<Rightarrow> 'w consumer \<Rightarrow> (string \<times> string) option \<times> 'w consumer" where
  "give_up cf br r reason st =
     (case commit_record br r (to_dlq cf br r reason st) of
        (Some x, st') \<Rightarrow> (Some x, st')
      | (None, st') \<Rightarrow> (None, st'\<lparr>kc_rejected := kc_rejected st' + 1\<rparr>))"

text \<open>The commit of a handled record is inside the \<open>try\<close>, so its failure is one more unexpected exception.\<close>

definition accept :: "consumer_config \<Rightarrow> broker \<Rightarrow> krecord \<Rightarrow> 'w consumer \<Rightarrow> (string \<times> string) option \<times> 'w consumer" where
  "accept cf br r st =
     (case commit_record br r st of
        (None, st') \<Rightarrow> (None, st'\<lparr>kc_processed := kc_processed st' + 1\<rparr>)
      | (Some (c, m), st') \<Rightarrow> give_up cf br r (''unexpected: '' @ c @ '': '' @ m) st')"

text \<open>The attempts from number \<open>k\<close> on, \<open>n\<close> of them being left.\<close>

fun attempts ::
  "consumer_config \<Rightarrow> broker \<Rightarrow> ('e, 'w) handler \<Rightarrow> 'e \<Rightarrow> krecord \<Rightarrow> nat \<Rightarrow> nat \<Rightarrow> 'w consumer \<Rightarrow>
   (string \<times> string) option \<times> 'w consumer" where
  "attempts cf br h e r k 0 st = (None, st)"
| "attempts cf br h e r k (Suc n) st =
     (case h e r (kc_world st) of
        (w, HX_OK) \<Rightarrow> accept cf br r (st\<lparr>kc_world := w\<rparr>)
      | (w, HX_REJECTED m) \<Rightarrow> give_up cf br r (''rejected: '' @ m) (st\<lparr>kc_world := w\<rparr>)
      | (w, HX_OTHER c m) \<Rightarrow> give_up cf br r (''unexpected: '' @ c @ '': '' @ m) (st\<lparr>kc_world := w\<rparr>)
      | (w, HX_RETRYABLE m) \<Rightarrow>
          if n = 0 then give_up cf br r (''retries exhausted: '' @ m) (st\<lparr>kc_world := w\<rparr>)
          else attempts cf br h e r (Suc k) n
            (st\<lparr>kc_world := w, kc_sleeps := kc_sleeps st @ [kf_backoff cf * of_nat k]\<rparr>))"

definition process_record ::
  "consumer_config \<Rightarrow> broker \<Rightarrow> (string option \<Rightarrow> string + 'e) \<Rightarrow> ('e, 'w) handler \<Rightarrow> krecord \<Rightarrow> 'w consumer \<Rightarrow>
   (string \<times> string) option \<times> 'w consumer" where
  "process_record cf br decode h r st =
     (case decode (kr_value r) of
        Inl m \<Rightarrow> give_up cf br r (''decode: '' @ m) st
      | Inr e \<Rightarrow> attempts cf br h e r 1 (kf_max_retries cf) st)"

section \<open>Sessions\<close>

text \<open>
  A partition is the list of its records, the offset of a record being its index. A session reads on from
  its position; when an exception leaves \<open>_process_one\<close> the task dies. \<open>crash\<close> is the death of the process
  in the middle or at the end of a handler call for the next record, before any commit; after retries it is
  several such calls in a row. \<open>restart\<close> is a session that begins at the committed offset.
\<close>

definition left_by :: "('e, 'w) handler \<Rightarrow> ('e, 'w) handler_cuts \<Rightarrow> 'e \<Rightarrow> krecord \<Rightarrow> 'w \<Rightarrow> 'w list" where
  "left_by h cuts e r w = fst (h e r w) # cuts e r w"

inductive session ::
  "consumer_config \<Rightarrow> broker \<Rightarrow> (string option \<Rightarrow> string + 'e) \<Rightarrow> ('e, 'w) handler \<Rightarrow> ('e, 'w) handler_cuts \<Rightarrow>
   krecord list \<Rightarrow> 'w \<Rightarrow> nat \<times> 'w consumer \<Rightarrow> bool"
  for cf br decode h cuts part w0 where
  boot: "session cf br decode h cuts part w0 (0, \<lparr>kc_world = w0, kc_calls = 0, kc_committed = 0, kc_dlq = [], kc_lost = [],
      kc_processed = 0, kc_rejected = 0, kc_sleeps = []\<rparr>)"
| deliver: "session cf br decode h cuts part w0 (p, st) \<Longrightarrow> p < length part \<Longrightarrow>
     process_record cf br decode h (part ! p) st = (None, st') \<Longrightarrow> session cf br decode h cuts part w0 (Suc p, st')"
| die: "session cf br decode h cuts part w0 (p, st) \<Longrightarrow> p < length part \<Longrightarrow>
     process_record cf br decode h (part ! p) st = (Some x, st') \<Longrightarrow> session cf br decode h cuts part w0 (kc_committed st', st')"
| crash: "session cf br decode h cuts part w0 (p, st) \<Longrightarrow> p < length part \<Longrightarrow> decode (kr_value (part ! p)) = Inr e \<Longrightarrow>
     w \<in> set (left_by h cuts e (part ! p) (kc_world st)) \<Longrightarrow> session cf br decode h cuts part w0 (p, st\<lparr>kc_world := w\<rparr>)"
| restart: "session cf br decode h cuts part w0 (p, st) \<Longrightarrow> session cf br decode h cuts part w0 (kc_committed st, st)"

section \<open>Frames\<close>

text \<open>What happens to the letters, whatever the handler does.\<close>

definition letters_grow :: "'w consumer \<Rightarrow> 'w consumer \<Rightarrow> bool" where
  "letters_grow st st' \<longleftrightarrow> set (kc_dlq st) \<subseteq> set (kc_dlq st') \<and> set (kc_lost st) \<subseteq> set (kc_lost st')"

definition in_letters :: "krecord \<Rightarrow> 'w consumer \<Rightarrow> bool" where
  "in_letters r st \<longleftrightarrow> r \<in> fst ` set (kc_dlq st) \<union> set (kc_lost st)"

lemma letters_grow_refl [simp]: "letters_grow st st"
  by (simp add: letters_grow_def)

lemma letters_grow_trans: "letters_grow a b \<Longrightarrow> letters_grow b c \<Longrightarrow> letters_grow a c"
  by (auto simp: letters_grow_def)

lemma in_letters_grow: "in_letters r st \<Longrightarrow> letters_grow st st' \<Longrightarrow> in_letters r st'"
  by (auto simp: in_letters_def letters_grow_def)

lemma letters_world [simp]:
  "letters_grow (st\<lparr>kc_world := w\<rparr>) st' = letters_grow st st'"
  "letters_grow (st\<lparr>kc_sleeps := s\<rparr>) st' = letters_grow st st'"
  "in_letters r (st\<lparr>kc_world := w\<rparr>) = in_letters r st"
  by (simp_all add: letters_grow_def in_letters_def)

lemma give_up_facts:
  assumes "give_up cf br r reason st = (x, st')"
  shows "kc_world st' = kc_world st" "letters_grow st st'" "in_letters r st'"
    "kc_committed st' = (if x = None then kr_offset r + 1 else kc_committed st)"
    "kc_processed st' = kc_processed st" "x = None \<Longrightarrow> kc_rejected st' = kc_rejected st + 1"
  using assms
  by (auto simp: give_up_def to_dlq_def commit_record_def letters_grow_def in_letters_def split: option.splits)

lemma accept_facts:
  assumes "accept cf br r st = (x, st')"
  shows "kc_world st' = kc_world st" "letters_grow st st'"
    "kc_committed st' = (if x = None then kr_offset r + 1 else kc_committed st)"
proof -
  obtain y st1 where c: "commit_record br r st = (y, st1)" by fastforce
  have c1: "kc_world st1 = kc_world st" "letters_grow st st1" "kc_committed st1 = (if y = None then kr_offset r + 1 else kc_committed st)"
    using c by (auto simp: commit_record_def letters_grow_def split: option.splits)
  have "kc_world st' = kc_world st \<and> letters_grow st st' \<and>
      kc_committed st' = (if x = None then kr_offset r + 1 else kc_committed st)"
  proof (cases y)
    case None
    then show ?thesis using assms c c1 by (auto simp: accept_def letters_grow_def)
  next
    case (Some cm)
    then obtain a b where "give_up cf br r (''unexpected: '' @ a @ '': '' @ b) st1 = (x, st')"
      using assms c by (cases cm) (simp add: accept_def)
    from give_up_facts [OF this] show ?thesis using c1 Some letters_grow_trans by auto
  qed
  then show "kc_world st' = kc_world st" "letters_grow st st'"
    "kc_committed st' = (if x = None then kr_offset r + 1 else kc_committed st)" by blast+
qed

section \<open>Handlers that tolerate redelivery\<close>

text \<open>
  The contract the loop demands of a handler: \<open>settled e\<close> says that the effect of \<open>e\<close> is in place. A
  handler that returns has settled its event, nothing it does later unsettles one, and handling a settled
  event again leaves the visible state as it is. A handler that is cut leaves a good world too, and
  unsettles nothing.
\<close>

locale idempotent_handler =
  fixes h :: "('e, 'w) handler" and cuts :: "('e, 'w) handler_cuts" and good :: "'w \<Rightarrow> bool" and settled :: "'e \<Rightarrow> 'w \<Rightarrow> bool" and view :: "'w \<Rightarrow> 'v"
  assumes good_step: "good w \<Longrightarrow> good (fst (h e r w))"
    and ok_settles: "good w \<Longrightarrow> snd (h e r w) = HX_OK \<Longrightarrow> settled e (fst (h e r w))"
    and settled_stays: "good w \<Longrightarrow> settled e w \<Longrightarrow> settled e (fst (h e' r' w))"
    and settled_noop: "good w \<Longrightarrow> settled e w \<Longrightarrow> view (fst (h e r w)) = view w"
    and cut_good: "good w \<Longrightarrow> w' \<in> set (cuts e r w) \<Longrightarrow> good w'"
    and cut_stays: "good w \<Longrightarrow> settled e w \<Longrightarrow> w' \<in> set (cuts e' r' w) \<Longrightarrow> settled e w'"
begin

lemma left_good: "good w \<Longrightarrow> w' \<in> set (left_by h cuts e r w) \<Longrightarrow> good w'"
  by (simp add: left_by_def) (metis good_step cut_good)

lemma left_stays: "good w \<Longrightarrow> w' \<in> set (left_by h cuts e' r w) \<Longrightarrow> settled e w \<Longrightarrow> settled e w'"
  by (simp add: left_by_def) (metis settled_stays cut_stays)

lemma attempts_facts:
  assumes "good (kc_world st)" and "attempts cf br h e r k n st = (x, st')"
  shows "good (kc_world st') \<and> (\<forall>e'. settled e' (kc_world st) \<longrightarrow> settled e' (kc_world st')) \<and> letters_grow st st' \<and>
    (x \<noteq> None \<longrightarrow> kc_committed st' = kc_committed st) \<and>
    (x = None \<and> 0 < n \<longrightarrow> kc_committed st' = kr_offset r + 1 \<and> (settled e (kc_world st') \<or> in_letters r st')) \<and>
    (settled e (kc_world st) \<longrightarrow> view (kc_world st') = view (kc_world st))"
  using assms
proof (induction n arbitrary: k st)
  case 0
  then show ?case by simp
next
  case (Suc n)
  obtain w y where h: "h e r (kc_world st) = (w, y)" by fastforce
  have g: "good w" "\<And>e'. settled e' (kc_world st) \<Longrightarrow> settled e' w"
    using good_step [OF Suc.prems(1), of e r] settled_stays [OF Suc.prems(1), of _ e r] h by simp_all
  have no: "settled e (kc_world st) \<Longrightarrow> view w = view (kc_world st)"
    using settled_noop [OF Suc.prems(1), of e r] h by simp
  have s: "y = HX_OK \<Longrightarrow> settled e w" using ok_settles [OF Suc.prems(1), of e r] h by simp
  have up: ?case if "give_up cf br r reason (st\<lparr>kc_world := w\<rparr>) = (x, st')" "y \<noteq> HX_OK" for reason
    using give_up_facts [OF that(1)] g no that(2) by auto
  show ?case
  proof (cases y)
    case HX_OK
    then have "accept cf br r (st\<lparr>kc_world := w\<rparr>) = (x, st')" using Suc.prems(2) h by simp
    from accept_facts [OF this] show ?thesis using g no s HX_OK by auto
  next
    case (HX_RETRYABLE m)
    let ?st = "st\<lparr>kc_world := w, kc_sleeps := kc_sleeps st @ [kf_backoff cf * of_nat k]\<rparr>"
    show ?thesis
    proof (cases "n = 0")
      case True
      then have "give_up cf br r (''retries exhausted: '' @ m) (st\<lparr>kc_world := w\<rparr>) = (x, st')"
        using Suc.prems(2) h HX_RETRYABLE by simp
      then show ?thesis by (rule up) (simp add: HX_RETRYABLE)
    next
      case False
      then have "attempts cf br h e r (Suc k) n ?st = (x, st')" using Suc.prems(2) h HX_RETRYABLE by simp
      from Suc.IH [OF _ this] show ?thesis using g no HX_RETRYABLE False by auto
    qed
  next
    case (HX_REJECTED m)
    then have "give_up cf br r (''rejected: '' @ m) (st\<lparr>kc_world := w\<rparr>) = (x, st')" using Suc.prems(2) h by simp
    then show ?thesis by (rule up) (simp add: HX_REJECTED)
  next
    case (HX_OTHER c m)
    then have "give_up cf br r (''unexpected: '' @ c @ '': '' @ m) (st\<lparr>kc_world := w\<rparr>) = (x, st')"
      using Suc.prems(2) h by simp
    then show ?thesis by (rule up) (simp add: HX_OTHER)
  qed
qed

definition accounted :: "(string option \<Rightarrow> string + 'e) \<Rightarrow> krecord \<Rightarrow> 'w consumer \<Rightarrow> bool" where
  "accounted decode r st \<longleftrightarrow> in_letters r st \<or> (\<exists>e. decode (kr_value r) = Inr e \<and> settled e (kc_world st))"

lemma process_record_facts:
  assumes "good (kc_world st)" and "process_record cf br decode h r st = (x, st')"
  shows "good (kc_world st')" and "accounted decode r' st \<Longrightarrow> accounted decode r' st'"
    and "x \<noteq> None \<Longrightarrow> kc_committed st' = kc_committed st"
    and "x = None \<Longrightarrow> 0 < kf_max_retries cf \<Longrightarrow> kc_committed st' = kr_offset r + 1 \<and> accounted decode r st'"
    and "decode (kr_value r) = Inr e \<Longrightarrow> settled e (kc_world st) \<Longrightarrow> view (kc_world st') = view (kc_world st)"
proof -
  have "good (kc_world st') \<and> (accounted decode r' st \<longrightarrow> accounted decode r' st') \<and>
    (x \<noteq> None \<longrightarrow> kc_committed st' = kc_committed st) \<and>
    (x = None \<and> 0 < kf_max_retries cf \<longrightarrow> kc_committed st' = kr_offset r + 1 \<and> accounted decode r st') \<and>
    (decode (kr_value r) = Inr e \<and> settled e (kc_world st) \<longrightarrow> view (kc_world st') = view (kc_world st))"
  proof (cases "decode (kr_value r)")
    case (Inl m)
    then have "give_up cf br r (''decode: '' @ m) st = (x, st')" using assms(2) by (simp add: process_record_def)
    from give_up_facts [OF this] show ?thesis using assms(1) Inl in_letters_grow by (auto simp: accounted_def)
  next
    case (Inr e1)
    then have "attempts cf br h e1 r 1 (kf_max_retries cf) st = (x, st')" using assms(2) by (simp add: process_record_def)
    from attempts_facts [OF assms(1) this] show ?thesis using Inr in_letters_grow by (auto simp: accounted_def)
  qed
  then show "good (kc_world st')" and "accounted decode r' st \<Longrightarrow> accounted decode r' st'"
    and "x \<noteq> None \<Longrightarrow> kc_committed st' = kc_committed st"
    and "x = None \<Longrightarrow> 0 < kf_max_retries cf \<Longrightarrow> kc_committed st' = kr_offset r + 1 \<and> accounted decode r st'"
    and "decode (kr_value r) = Inr e \<Longrightarrow> settled e (kc_world st) \<Longrightarrow> view (kc_world st') = view (kc_world st)"
    by blast+
qed

lemma session_accounts:
  assumes "session cf br decode h cuts part w0 pst" and "good w0" and "0 < kf_max_retries cf"
    and off: "\<And>i. i < length part \<Longrightarrow> kr_offset (part ! i) = i"
  shows "good (kc_world (snd pst)) \<and> kc_committed (snd pst) \<le> fst pst \<and> fst pst \<le> length part \<and>
    (\<forall>i < fst pst. accounted decode (part ! i) (snd pst))"
  using assms(1)
proof (induction rule: session.induct)
  case boot
  then show ?case using assms(2) by simp
next
  case (deliver p st st')
  note f = process_record_facts [OF _ deliver.hyps(3)]
  from deliver.IH have g: "good (kc_world st)" by simp
  have "accounted decode (part ! i) st'" if "i < Suc p" for i
    using that deliver.IH f(2) [OF g] f(4) [OF g _ assms(3)] by (cases "i = p") auto
  then show ?case using deliver.IH deliver.hyps(2) f(1,4) [OF g] off assms(3) by simp
next
  case (die p st x st')
  note f = process_record_facts [OF _ die.hyps(3)]
  from die.IH have g: "good (kc_world st)" by simp
  then show ?case using die.IH die.hyps(2) f(1,2,3) by auto
next
  case (crash p st e w)
  then have g: "good (kc_world st)" by simp
  have "accounted decode r (st\<lparr>kc_world := w\<rparr>)" if "accounted decode r st" for r
    using that left_stays [OF g crash.hyps(4)] by (auto simp: accounted_def)
  then show ?case using crash.IH crash.hyps(2) left_good [OF g crash.hyps(4)] by simp
next
  case (restart p st)
  then show ?case by simp
qed

lemma session_good:
  assumes "session cf br decode h cuts part w0 pst" and "good w0"
  shows "good (kc_world (snd pst))"
  using assms(1)
proof (induction rule: session.induct)
  case (deliver p st st')
  then show ?case using process_record_facts(1) by fastforce
next
  case (die p st x st')
  then show ?case using process_record_facts(1) by fastforce
next
  case (crash p st e w)
  then show ?case using left_good by simp
qed (simp_all add: assms(2))

end

text \<open>
  A handler that also leaves a trace: what it adds to the world is among the keys of the event it was given,
  so nothing is in the world that was not in the partition.
\<close>

locale traced_handler = idempotent_handler +
  fixes trace :: "'b \<Rightarrow> 'k set" and key :: "'a \<Rightarrow> 'k set"
  assumes trace_step: "good w \<Longrightarrow> trace (fst (h e r w)) \<subseteq> trace w \<union> key e"
    and cut_trace: "good w \<Longrightarrow> w' \<in> set (cuts e r w) \<Longrightarrow> trace w' \<subseteq> trace w \<union> key e"
begin

lemma left_trace: "good w \<Longrightarrow> w' \<in> set (left_by h cuts e r w) \<Longrightarrow> trace w' \<subseteq> trace w \<union> key e"
  by (simp add: left_by_def) (metis trace_step cut_trace)

lemma attempts_trace:
  assumes "good (kc_world st)" and "attempts cf br h e r k n st = (x, st')"
  shows "trace (kc_world st') \<subseteq> trace (kc_world st) \<union> key e"
  using assms
proof (induction n arbitrary: k st)
  case (Suc n)
  obtain w y where h: "h e r (kc_world st) = (w, y)" by fastforce
  have w: "trace w \<subseteq> trace (kc_world st) \<union> key e" "good w"
    using trace_step [OF Suc.prems(1), of e r] good_step [OF Suc.prems(1), of e r] h by simp_all
  have up: "give_up cf br r reason (st\<lparr>kc_world := w\<rparr>) = (x, st') \<Longrightarrow> ?case" for reason
    using give_up_facts(1) w by fastforce
  show ?case
  proof (cases y)
    case HX_OK
    then show ?thesis using Suc.prems(2) h accept_facts(1) w by fastforce
  next
    case (HX_RETRYABLE m)
    let ?st = "st\<lparr>kc_world := w, kc_sleeps := kc_sleeps st @ [kf_backoff cf * of_nat k]\<rparr>"
    show ?thesis
    proof (cases "n = 0")
      case False
      then have "attempts cf br h e r (Suc k) n ?st = (x, st')" using Suc.prems(2) h HX_RETRYABLE by simp
      from Suc.IH [OF _ this] show ?thesis using w by auto
    qed (use up Suc.prems(2) h HX_RETRYABLE in simp)
  qed (use up Suc.prems(2) h in simp_all)
qed simp

definition record_keys :: "(string option \<Rightarrow> string + 'a) \<Rightarrow> krecord \<Rightarrow> 'k set" where
  "record_keys decode r = (case decode (kr_value r) of Inl _ \<Rightarrow> {} | Inr e \<Rightarrow> key e)"

lemma process_record_trace:
  assumes "good (kc_world st)" and "process_record cf br decode h r st = (x, st')"
  shows "trace (kc_world st') \<subseteq> trace (kc_world st) \<union> record_keys decode r"
proof (cases "decode (kr_value r)")
  case (Inl m)
  then show ?thesis using assms(2) give_up_facts(1) by (fastforce simp: process_record_def)
next
  case (Inr e)
  then show ?thesis using assms attempts_trace by (fastforce simp: process_record_def record_keys_def)
qed

lemma session_trace:
  assumes "session cf br decode h cuts part w0 pst" and "good w0"
  shows "trace (kc_world (snd pst)) \<subseteq> trace w0 \<union> \<Union> (record_keys decode ` set part)"
  using assms(1)
proof (induction rule: session.induct)
  case (deliver p st st')
  then have "good (kc_world st)" using session_good [OF deliver.hyps(1) assms(2)] by simp
  from process_record_trace [OF this deliver.hyps(3)] nth_mem [OF deliver.hyps(2)] deliver.IH show ?case by fastforce
next
  case (die p st x st')
  then have "good (kc_world st)" using session_good [OF die.hyps(1) assms(2)] by simp
  from process_record_trace [OF this die.hyps(3)] nth_mem [OF die.hyps(2)] die.IH show ?case by fastforce
next
  case (crash p st e w)
  have "good (kc_world st)" using session_good [OF crash.hyps(1) assms(2)] by simp
  from left_trace [OF this crash.hyps(4)] crash.IH nth_mem [OF crash.hyps(2)] crash.hyps(3)
  show ?case by (fastforce simp: record_keys_def)
qed simp_all

end

section \<open>The fate of one record\<close>

text \<open>The world after some calls of the handler with the same record, and how the call after those ends.\<close>

definition world_after :: "('e, 'w) handler \<Rightarrow> 'e \<Rightarrow> krecord \<Rightarrow> nat \<Rightarrow> 'w \<Rightarrow> 'w" where
  "world_after h e r n w = ((\<lambda>w. fst (h e r w)) ^^ n) w"

definition exit_after :: "('e, 'w) handler \<Rightarrow> 'e \<Rightarrow> krecord \<Rightarrow> nat \<Rightarrow> 'w \<Rightarrow> handler_exit" where
  "exit_after h e r n w = snd (h e r (world_after h e r n w))"

fun retryable :: "handler_exit \<Rightarrow> bool" where
  "retryable (HX_RETRYABLE m) = True"
| "retryable y = False"

text \<open>
  A refused record: the next call to the broker offers its letter, which is in the dead-letter topic if and
  only if that call works, and otherwise in the log; the call after it commits. Only when that works has the
  offset moved and is the record counted.
\<close>

definition refused ::
  "consumer_config \<Rightarrow> broker \<Rightarrow> krecord \<Rightarrow> string \<Rightarrow> 'w consumer \<Rightarrow> (string \<times> string) option \<times> 'w consumer \<Rightarrow> bool" where
  "refused cf br r reason st res \<longleftrightarrow> (case res of (x, st') \<Rightarrow>
     kc_world st' = kc_world st \<and> kc_sleeps st' = kc_sleeps st \<and> kc_processed st' = kc_processed st \<and>
     kc_calls st' = kc_calls st + 2 \<and>
     (if br_publish br (kc_calls st) = None
      then kc_lost st' = kc_lost st \<and>
        kc_dlq st' = kc_dlq st @ [(r, \<lparr>dl_value = (case kr_value r of None \<Rightarrow> [] | Some v \<Rightarrow> v), dl_key = kr_key r,
          dl_headers = kr_headers r @ [(''dlq-reason'', take 512 (br_utf8 br reason)),
            (''dlq-source-topic'', br_utf8 br (kf_topic cf))]\<rparr>)]
      else kc_dlq st' = kc_dlq st \<and> kc_lost st' = kc_lost st @ [r]) \<and>
     x = br_commit br (kc_calls st + 1) \<and>
     (if x = None then kc_committed st' = kr_offset r + 1 \<and> kc_rejected st' = kc_rejected st + 1
      else kc_committed st' = kc_committed st \<and> kc_rejected st' = kc_rejected st))"

text \<open>What the exit of the last attempt leads to.\<close>

definition concluded ::
  "consumer_config \<Rightarrow> broker \<Rightarrow> krecord \<Rightarrow> handler_exit \<Rightarrow> 'w consumer \<Rightarrow> (string \<times> string) option \<times> 'w consumer \<Rightarrow> bool" where
  "concluded cf br r y st res \<longleftrightarrow>
     (case y of
        HX_REJECTED m \<Rightarrow> refused cf br r (''rejected: '' @ m) st res
      | HX_RETRYABLE m \<Rightarrow> refused cf br r (''retries exhausted: '' @ m) st res
      | HX_OTHER c m \<Rightarrow> refused cf br r (''unexpected: '' @ c @ '': '' @ m) st res
      | HX_OK \<Rightarrow>
          (case br_commit br (kc_calls st) of
             None \<Rightarrow> res = (None, st\<lparr>kc_calls := kc_calls st + 1, kc_committed := kr_offset r + 1,
               kc_processed := kc_processed st + 1\<rparr>)
           | Some (c, m) \<Rightarrow> refused cf br r (''unexpected: '' @ c @ '': '' @ m) (st\<lparr>kc_calls := kc_calls st + 1\<rparr>) res))"

lemma give_up_refused: "refused cf br r reason st (give_up cf br r reason st)"
  by (simp add: refused_def give_up_def to_dlq_def commit_record_def dead_letter_of_def split: option.split)

lemma accept_concluded: "concluded cf br r HX_OK st (accept cf br r st)"
  by (simp add: concluded_def accept_def commit_record_def give_up_refused split: option.split prod.split)

lemma after_first:
  assumes "h e r w = (w', y)"
  shows "world_after h e r (Suc n) w = world_after h e r n w'" and "exit_after h e r (Suc n) w = exit_after h e r n w'"
    and "exit_after h e r 0 w = y" and "world_after h e r 0 w = w"
  by (simp_all add: world_after_def exit_after_def funpow_Suc_right assms del: funpow.simps(2))

lemma attempts_fate:
  assumes "0 < n"
  shows "\<exists>j < n. (\<forall>i < j. retryable (exit_after h e r i (kc_world st))) \<and>
    (Suc j = n \<or> \<not> retryable (exit_after h e r j (kc_world st))) \<and>
    concluded cf br r (exit_after h e r j (kc_world st))
      (st\<lparr>kc_world := world_after h e r (Suc j) (kc_world st),
         kc_sleeps := kc_sleeps st @ map (\<lambda>i. kf_backoff cf * of_nat i) [k..<k + j]\<rparr>)
      (attempts cf br h e r k n st)"
  using assms
proof (induction n arbitrary: k st)
  case (Suc n)
  obtain w y where h: "h e r (kc_world st) = (w, y)" by fastforce
  note a = after_first [where h = h and e = e and r = r, OF h]
  show ?case
  proof (cases "retryable y \<and> n \<noteq> 0")
    case True
    then obtain m where y: "y = HX_RETRYABLE m" and n: "0 < n" by (cases y) auto
    let ?st = "st\<lparr>kc_world := w, kc_sleeps := kc_sleeps st @ [kf_backoff cf * of_nat k]\<rparr>"
    have run: "attempts cf br h e r k (Suc n) st = attempts cf br h e r (Suc k) n ?st" using h y n by simp
    from Suc.IH [OF n, of ?st "Suc k"] obtain j where j: "j < n" "\<forall>i < j. retryable (exit_after h e r i w)"
      "Suc j = n \<or> \<not> retryable (exit_after h e r j w)"
      "concluded cf br r (exit_after h e r j w)
        (?st\<lparr>kc_world := world_after h e r (Suc j) w,
           kc_sleeps := kc_sleeps ?st @ map (\<lambda>i. kf_backoff cf * of_nat i) [Suc k..<Suc k + j]\<rparr>)
        (attempts cf br h e r (Suc k) n ?st)" by auto
    have upt: "[k..<k + Suc j] = k # [Suc k..<Suc k + j]" by (simp add: upt_conv_Cons del: upt_Suc)
    have "retryable (exit_after h e r i (kc_world st))" if "i < Suc j" for i
      using that j(2) a(2,3) y by (cases i) auto
    then show ?thesis
      unfolding run using j a upt by (intro exI [of _ "Suc j"]) (simp del: upt_Suc)
  next
    case False
    have one: "world_after h e r (Suc 0) (kc_world st) = w" using a(1) [of 0] by (simp add: world_after_def)
    have "concluded cf br r y (st\<lparr>kc_world := w\<rparr>) (attempts cf br h e r k (Suc n) st)"
      using h False accept_concluded [of cf br r "st\<lparr>kc_world := w\<rparr>"]
      by (cases y) (simp_all add: concluded_def give_up_refused)
    then show ?thesis using False a(3) one by (intro exI [of _ 0]) auto
  qed
qed simp

text \<open>How many attempts are followed by another one: the leading ones that ask for it, the last attempt apart.\<close>

definition retries :: "consumer_config \<Rightarrow> ('e, 'w) handler \<Rightarrow> 'e \<Rightarrow> krecord \<Rightarrow> 'w \<Rightarrow> nat" where
  "retries cf h e r w = length (takeWhile retryable (map (\<lambda>i. exit_after h e r i w) [0..<kf_max_retries cf - 1]))"

lemma retries_eq:
  assumes "j < kf_max_retries cf" "\<forall>i < j. retryable (exit_after h e r i w)"
    and "Suc j = kf_max_retries cf \<or> \<not> retryable (exit_after h e r j w)"
  shows "retries cf h e r w = j"
proof -
  let ?xs = "map (\<lambda>i. exit_after h e r i w) [0..<kf_max_retries cf - 1]"
  have "takeWhile retryable ?xs = take j ?xs"
    by (rule takeWhile_eq_take_P_nth) (use assms in auto)
  then show ?thesis using assms(1) by (simp add: retries_def)
qed

text \<open>
  Claim C23. The fate of a record, exactly, whatever the handler and the broker do. A record that cannot be
  decoded is refused without a call of the handler. A readable one is handled at least once and at most
  \<open>max_retries\<close> times: as long as the handler asks for a retry and attempts are left; the waits between them
  grow linearly. If the last attempt returned and the commit works,
  the record counts as processed, its offset is committed and nothing is written elsewhere. In every other
  case the record is refused for the reason of that exit (or of the failed commit): its letter, which carries
  the record's value, key and headers, the reason and the topic, is in the dead-letter topic if and only if
  the broker takes it, and in the log only if it does not; then the offset is committed and the record
  counted as rejected, unless that commit fails too, which raises and leaves both as they were. With
  \<open>max_retries\<close> at zero a readable record is passed over: no call, no letter, no commit.
\<close>

theorem record_fate:
  "let res = process_record cf br decode h r st in
   case decode (kr_value r) of
     Inl m \<Rightarrow> refused cf br r (''decode: '' @ m) st res
   | Inr e \<Rightarrow>
       if kf_max_retries cf = 0 then res = (None, st)
       else let n = retries cf h e r (kc_world st) in
         concluded cf br r (exit_after h e r n (kc_world st))
           (st\<lparr>kc_world := world_after h e r (n + 1) (kc_world st),
              kc_sleeps := kc_sleeps st @ map (\<lambda>i. kf_backoff cf * of_nat i) [1..<n + 1]\<rparr>) res"
proof (cases "decode (kr_value r)")
  case (Inl m)
  then show ?thesis by (simp add: process_record_def give_up_refused)
next
  case (Inr e)
  show ?thesis
  proof (cases "kf_max_retries cf")
    case 0
    then show ?thesis using Inr by (simp add: process_record_def)
  next
    case (Suc n)
    then obtain j where j: "j < kf_max_retries cf" "\<forall>i < j. retryable (exit_after h e r i (kc_world st))"
      "Suc j = kf_max_retries cf \<or> \<not> retryable (exit_after h e r j (kc_world st))"
      "concluded cf br r (exit_after h e r j (kc_world st))
        (st\<lparr>kc_world := world_after h e r (Suc j) (kc_world st),
           kc_sleeps := kc_sleeps st @ map (\<lambda>i. kf_backoff cf * of_nat i) [1..<1 + j]\<rparr>)
        (attempts cf br h e r 1 (kf_max_retries cf) st)"
      using attempts_fate [of "kf_max_retries cf" h e r st cf br 1] by auto
    then show ?thesis
      using Inr Suc retries_eq [OF j(1-3)] unfolding process_record_def Let_def
      by (simp del: attempts.simps upt_Suc)
  qed
qed

end
