(* ===== verification/RcaDelivery.thy ===== *)
theory RcaDelivery imports RcaProps KafkaConsumer begin

text \<open>
  The Kafka side of the RCA agent: the handler of \<open>kafka/consumer.py\<close> put into the consume loop of the
  shared library. The \<open>n\<close>-th call of the handler has an outside, a model, a clock, a drawn identifier and
  possibly a failing transaction of its own. Reserving the investigation and storing its outcome are two
  transactions with the whole run between them, so a call can be cut there; the identifiers of the
  investigations that were left in between are logged beside the repository.
\<close>

text \<open>
  A database failure names the class (and the text) of its exception; the flag says that the transaction was
  committed all the same, as when the connection is lost before the answer.
\<close>

datatype db_fault = NO_FAULT | LOOKUP_FAILS string string | BEGIN_FAILS string bool | COMPLETE_FAILS string bool

record rca_call =
  ca_env :: rca_env
  ca_llm :: llm_client
  ca_id :: string
  ca_now :: datetime
  ca_started :: datetime
  ca_finished :: datetime
  ca_fault :: db_fault

record rca_agent =
  rg_calls :: nat
  rg_repo :: rca_repo
  rg_abandoned :: "string list"

definition new_agent :: rca_agent where
  "new_agent = \<lparr>rg_calls = 0, rg_repo = empty_repo, rg_abandoned = []\<rparr>"

fun exit_of :: "handled \<Rightarrow> handler_exit" where
  "exit_of HD_IGNORED = HX_OK"
| "exit_of (HD_REJECTED m) = HX_REJECTED m"
| "exit_of HD_DUPLICATE = HX_OK"
| "exit_of (HD_RETRY c) = HX_RETRYABLE (''could not run investigation: '' @ c)"
| "exit_of HD_ALREADY_RUNNING = HX_OK"
| "exit_of (HD_INVESTIGATED s) = HX_OK"

definition left_pending :: "investigation \<Rightarrow> rca_repo \<Rightarrow> rca_agent \<Rightarrow> rca_agent" where
  "left_pending iv re a = a\<lparr>rg_repo := re, rg_abandoned := rg_abandoned a @ [iv_id iv]\<rparr>"

text \<open>The exception of a reservation that was rolled back.\<close>

fun not_begun :: "db_fault \<Rightarrow> string option" where
  "not_begun (BEGIN_FAILS cl False) = Some cl"
| "not_begun _ = None"

text \<open>The call of \<open>investigate\<close>, with what its \<open>except\<close> makes of a failing transaction.\<close>

definition conduct :: "rca_config \<Rightarrow> rca_call \<Rightarrow> string \<Rightarrow> rca_agent \<Rightarrow> rca_agent \<times> handled" where
  "conduct cfg c i a =
     (case not_begun (ca_fault c) of Some cl \<Rightarrow> (a, HD_RETRY cl) | None \<Rightarrow>
      case service_begin cfg (ca_id c) (ca_now c) i TR_EVENT (rg_repo a) of
        Inl err \<Rightarrow> (a, HD_RETRY (begin_error_name err))
      | Inr (Inr oc, re) \<Rightarrow> (a\<lparr>rg_repo := re\<rparr>, HD_ALREADY_RUNNING)
      | Inr (Inl iv, re) \<Rightarrow>
          (case ca_fault c of
             BEGIN_FAILS cl b \<Rightarrow> (left_pending iv re a, HD_RETRY cl)
           | _ \<Rightarrow>
               (case run_to_completion (ca_env c) cfg (ca_llm c) (ca_started c) (ca_finished c) iv re of
                  None \<Rightarrow> (left_pending iv re a, HD_RETRY ''KeyError'')
                | Some (oc, re') \<Rightarrow>
                    (case ca_fault c of
                       COMPLETE_FAILS cl stored \<Rightarrow> (if stored then a\<lparr>rg_repo := re'\<rparr> else left_pending iv re a, HD_RETRY cl)
                     | _ \<Rightarrow> (a\<lparr>rg_repo := re'\<rparr>, HD_INVESTIGATED (iv_status (oc_investigation oc)))))))"

text \<open>
  The headers are decoded before the event is read; \<open>bad\<close> says how that fails. The look-up of an existing
  investigation is outside the \<open>try\<close>.
\<close>

definition rca_handler ::
  "rca_config \<Rightarrow> (nat \<Rightarrow> rca_call) \<Rightarrow> (krecord \<Rightarrow> (string \<times> string) option) \<Rightarrow> (RcaService.lifecycle_event, rca_agent) handler" where
  "rca_handler cfg calls bad e r a =
     (let c = calls (rg_calls a); a' = a\<lparr>rg_calls := Suc (rg_calls a)\<rparr> in
      if read_event e = EV_IGNORED then (a', HX_OK)
      else case bad r of
        Some (cl, m) \<Rightarrow> (a', HX_OTHER cl m)
      | None \<Rightarrow>
          (case read_event e of
             EV_IGNORED \<Rightarrow> (a', HX_OK)
           | EV_REJECTED m \<Rightarrow> (a', HX_REJECTED m)
           | EV_INCIDENT i \<Rightarrow>
               (case ca_fault c of
                  LOOKUP_FAILS cl m \<Rightarrow> (a', HX_OTHER cl m)
                | _ \<Rightarrow>
                    if get_latest i (rg_repo a) \<noteq> None then (a', exit_of HD_DUPLICATE)
                    else case conduct cfg c i a' of (a'', x) \<Rightarrow> (a'', exit_of x))))"

text \<open>The process can die between the two transactions, while the graph runs.\<close>

definition rca_cuts ::
  "rca_config \<Rightarrow> (nat \<Rightarrow> rca_call) \<Rightarrow> (krecord \<Rightarrow> (string \<times> string) option) \<Rightarrow> (RcaService.lifecycle_event, rca_agent) handler_cuts" where
  "rca_cuts cfg calls bad e r a =
     (let c = calls (rg_calls a); a' = a\<lparr>rg_calls := Suc (rg_calls a)\<rparr> in
      case (bad r, read_event e) of
        (None, EV_INCIDENT i) \<Rightarrow>
          if get_latest i (rg_repo a) \<noteq> None then []
          else (case service_begin cfg (ca_id c) (ca_now c) i TR_EVENT (rg_repo a) of
            Inr (Inl iv, re) \<Rightarrow> [left_pending iv re a']
          | _ \<Rightarrow> [])
      | _ \<Rightarrow> [])"

text \<open>Without a failing transaction the handler is \<open>handle_event\<close>.\<close>

lemma completes:
  "begin_investigation new_id now i t mode re = Inr (iv, re1) \<Longrightarrow> run_to_completion env cfg llm t0 t1 iv re1 \<noteq> None"
  using begin_Inr [of new_id now i t mode re iv re1]
  by (auto simp: run_to_completion_def complete_investigation_def map_of_update_if Let_def)

lemma service_begin_new:
  "service_begin cfg new_id now i t re = Inr (Inl iv, re1) \<longleftrightarrow> begin_investigation new_id now i t (rc_mode cfg) re = Inr (iv, re1)"
  by (auto simp: service_begin_def split: sum.splits begin_error.splits option.splits)

lemma calm_handler:
  assumes "ca_fault (calls (rg_calls a)) = NO_FAULT" and "bad r = None"
  shows "rca_handler cfg calls bad e r a =
    (let c = calls (rg_calls a);
         (x, re) = handle_event (ca_env c) cfg (ca_llm c) (ca_id c) (ca_now c) (ca_started c) (ca_finished c) e (rg_repo a)
     in (a\<lparr>rg_calls := Suc (rg_calls a), rg_repo := re\<rparr>, exit_of x))"
proof (cases "read_event e")
  case (EV_INCIDENT i)
  let ?c = "calls (rg_calls a)"
  show ?thesis
  proof (cases "service_begin cfg (ca_id ?c) (ca_now ?c) i TR_EVENT (rg_repo a)")
    case (Inl x)
    then show ?thesis using assms EV_INCIDENT
      by (auto simp: rca_handler_def handle_event_def conduct_def Let_def split: option.split)
  next
    case (Inr y)
    show ?thesis
    proof (cases y)
      case (Pair z re)
      show ?thesis
      proof (cases z)
        case (Inl iv)
        have "run_to_completion (ca_env ?c) cfg (ca_llm ?c) (ca_started ?c) (ca_finished ?c) iv re \<noteq> None"
          using completes service_begin_new Inr Pair Inl by metis
        then obtain oc re' where "run_to_completion (ca_env ?c) cfg (ca_llm ?c) (ca_started ?c) (ca_finished ?c) iv re = Some (oc, re')"
          by auto
        then show ?thesis using assms EV_INCIDENT Inr Pair Inl
          by (auto simp: rca_handler_def handle_event_def conduct_def Let_def split: option.split)
      next
        case (Inr oc)
        then show ?thesis using assms EV_INCIDENT \<open>service_begin _ _ _ _ _ _ = _\<close> Pair
          by (auto simp: rca_handler_def handle_event_def conduct_def Let_def split: option.split)
      qed
    qed
  qed
qed (use assms in \<open>auto simp: rca_handler_def handle_event_def Let_def\<close>)

section \<open>One call\<close>

text \<open>Every stored investigation was left between its transactions and is pending, or it is finished.\<close>

definition finished_or_cut :: "rca_agent \<Rightarrow> string \<Rightarrow> investigation \<Rightarrow> bool" where
  "finished_or_cut a k iv \<longleftrightarrow>
     (if k \<in> set (rg_abandoned a) then iv_status iv = R_PENDING else rca_is_terminal (iv_status iv))"

definition rca_good :: "(nat \<Rightarrow> rca_call) \<Rightarrow> rca_agent \<Rightarrow> bool" where
  "rca_good calls a \<longleftrightarrow> (let rows = re_investigations (rg_repo a) in
     inj (\<lambda>m. ca_id (calls m)) \<and> distinct (map fst rows) \<and>
     set (re_order (rg_repo a)) = set (map fst rows) \<and> set (rg_abandoned a) \<subseteq> set (map fst rows) \<and>
     set (map fst rows) \<subseteq> (\<lambda>m. ca_id (calls m)) ` {..<rg_calls a} \<and>
     (\<forall>k iv. map_of rows k = Some iv \<longrightarrow> finished_or_cut a k iv) \<and>
     (\<forall>k j x y. map_of rows k = Some x \<and> map_of rows j = Some y \<and> iv_incident x = iv_incident y \<longrightarrow> k = j))"

lemma rca_goodD:
  assumes "rca_good calls a"
  shows "inj (\<lambda>m. ca_id (calls m))" "distinct (map fst (re_investigations (rg_repo a)))"
    "set (re_order (rg_repo a)) = set (map fst (re_investigations (rg_repo a)))"
    "set (rg_abandoned a) \<subseteq> set (map fst (re_investigations (rg_repo a)))"
    "set (map fst (re_investigations (rg_repo a))) \<subseteq> (\<lambda>m. ca_id (calls m)) ` {..<rg_calls a}"
    "\<And>k iv. map_of (re_investigations (rg_repo a)) k = Some iv \<Longrightarrow> finished_or_cut a k iv"
    "\<And>k j x y. map_of (re_investigations (rg_repo a)) k = Some x \<Longrightarrow> map_of (re_investigations (rg_repo a)) j = Some y \<Longrightarrow>
       iv_incident x = iv_incident y \<Longrightarrow> k = j"
  using assms unfolding rca_good_def Let_def by blast+

definition rca_settled :: "RcaService.lifecycle_event \<Rightarrow> rca_agent \<Rightarrow> bool" where
  "rca_settled e a \<longleftrightarrow>
     (case read_event e of
        EV_IGNORED \<Rightarrow> True | EV_REJECTED m \<Rightarrow> False | EV_INCIDENT i \<Rightarrow> get_latest i (rg_repo a) \<noteq> None)"

definition investigated_incidents :: "rca_agent \<Rightarrow> string set" where
  "investigated_incidents a = {inc. \<exists>k iv. map_of (re_investigations (rg_repo a)) k = Some iv \<and> iv_incident iv = inc}"

definition event_incidents :: "RcaService.lifecycle_event \<Rightarrow> string set" where
  "event_incidents e = (case read_event e of EV_INCIDENT i \<Rightarrow> {i} | _ \<Rightarrow> {})"

lemma get_latest_mem:
  assumes "set (re_order re) = set (map fst (re_investigations re))" and "distinct (map fst (re_investigations re))"
  shows "get_latest i re \<noteq> None \<longleftrightarrow> (\<exists>k iv. map_of (re_investigations re) k = Some iv \<and> iv_incident iv = i)"
  using assms by (force simp: get_latest_None dest: map_of_SomeD)

text \<open>What a repository looks like that has one more row, and a good world with one.\<close>

definition one_more :: "string \<Rightarrow> investigation \<Rightarrow> rca_repo \<Rightarrow> rca_repo \<Rightarrow> bool" where
  "one_more new row re re' \<longleftrightarrow>
     (\<forall>k. map_of (re_investigations re') k = (if k = new then Some row else map_of (re_investigations re) k)) \<and>
     set (map fst (re_investigations re')) = insert new (set (map fst (re_investigations re))) \<and>
     (distinct (map fst (re_investigations re)) \<longrightarrow> distinct (map fst (re_investigations re'))) \<and>
     re_order re' = re_order re @ [new]"

lemma begun_facts:
  assumes "begin_investigation new_id now i TR_EVENT mode re = Inr (iv, re1)"
  shows "one_more new_id iv re re1" and "iv_id iv = new_id" and "iv_incident iv = i" and "iv_status iv = R_PENDING"
  using begin_Inr [OF assms] dom_update [of new_id iv "re_investigations re"]
  by (simp_all add: one_more_def map_of_update_if distinct_update)

lemma investigated_facts:
  assumes "begin_investigation new_id now i TR_EVENT mode re = Inr (iv, re1)"
    and "run_to_completion env cfg llm t0 t1 iv re1 = Some (oc, re')"
  obtains row where "one_more new_id row re re'" "iv_incident row = i" "rca_is_terminal (iv_status row)"
proof -
  define row where "row = completed_row t1 (lm_model llm) (engine_result env cfg llm t0 iv) iv"
  note b = begin_Inr [OF assms(1)]
  have r: "map_of (re_investigations re1) (iv_id iv) = Some iv" by (simp add: b map_of_update_if)
  note f = run_to_completion_Some [OF assms(2) r]
  have i: "re_investigations re' = AList.update new_id row (AList.update new_id iv (re_investigations re))"
    by (simp add: f(3) b row_def)
  have "one_more new_id row re re'"
    using dom_update [of new_id row "AList.update new_id iv (re_investigations re)"]
      dom_update [of new_id iv "re_investigations re"]
    by (simp add: one_more_def i map_of_update_if distinct_update f(4) b)
  moreover have "iv_incident row = i" by (simp add: row_def completed_row_def b)
  moreover have "rca_is_terminal (iv_status row)"
    by (simp add: row_def completed_row_def engine_result_def never_active_def)
  ultimately show thesis by (rule that)
qed

lemma added_row:
  assumes good: "rca_good calls a" and none: "get_latest i (rg_repo a) = None"
    and more: "one_more (ca_id (calls (rg_calls a))) row (rg_repo a) re'" and row: "iv_incident row = i"
    and ab: "ab = rg_abandoned a \<and> rca_is_terminal (iv_status row) \<or>
      ab = rg_abandoned a @ [ca_id (calls (rg_calls a))] \<and> iv_status row = R_PENDING"
  defines "b \<equiv> \<lparr>rg_calls = Suc (rg_calls a), rg_repo = re', rg_abandoned = ab\<rparr>"
  shows "rca_good calls b" "get_latest i re' \<noteq> None" "get_latest j (rg_repo a) \<noteq> None \<Longrightarrow> get_latest j re' \<noteq> None"
    "investigated_incidents b \<subseteq> investigated_incidents a \<union> {i}"
proof -
  let ?new = "ca_id (calls (rg_calls a))" and ?rows = "re_investigations (rg_repo a)"
  note g = rca_goodD [OF good]
  have m: "map_of (re_investigations re') k = (if k = ?new then Some row else map_of ?rows k)" for k
    using more unfolding one_more_def by blast
  have keys: "set (map fst (re_investigations re')) = insert ?new (set (map fst ?rows))"
    and dist: "distinct (map fst (re_investigations re'))"
    and order: "re_order re' = re_order (rg_repo a) @ [?new]"
    using more g(2) unfolding one_more_def by blast+
  have fresh: "?new \<notin> set (map fst ?rows)"
  proof
    assume "?new \<in> set (map fst ?rows)"
    then obtain n where "n < rg_calls a" "?new = ca_id (calls n)" using g(5) by blast
    then show False using injD [OF g(1), of "rg_calls a" n] by simp
  qed
  have other: "iv_incident x \<noteq> i" if "map_of ?rows k = Some x" for k x
    using none get_latest_mem [OF g(3,2)] that by blast
  have newk: "map_of ?rows ?new = None" using fresh by (simp add: map_of_eq_None_iff)
  have order': "set (re_order re') = set (map fst (re_investigations re'))" unfolding keys order using g(3) by simp
  show "rca_good calls b"
    unfolding rca_good_def Let_def b_def rca_agent.simps
  proof (intro conjI allI impI)
    show "inj (\<lambda>m. ca_id (calls m))" by (rule g(1))
    show "distinct (map fst (re_investigations re'))" by (rule dist)
    show "set (re_order re') = set (map fst (re_investigations re'))" by (rule order')
    show "set ab \<subseteq> set (map fst (re_investigations re'))" unfolding keys using g(4) ab by auto
    show "set (map fst (re_investigations re')) \<subseteq> (\<lambda>m. ca_id (calls m)) ` {..<Suc (rg_calls a)}"
      unfolding keys lessThan_Suc image_insert by (rule insert_mono) (rule g(5))
  next
    fix k iv assume k: "map_of (re_investigations re') k = Some iv"
    show "finished_or_cut \<lparr>rg_calls = Suc (rg_calls a), rg_repo = re', rg_abandoned = ab\<rparr> k iv"
    proof (cases "k = ?new")
      case True
      then have "iv = row" using k by (simp add: m)
      moreover have "?new \<notin> set (rg_abandoned a)" using fresh g(4) by blast
      ultimately show ?thesis using ab True by (auto simp: finished_or_cut_def simp del: terminal_iff)
    next
      case False
      then have "map_of ?rows k = Some iv" using k by (simp add: m)
      from g(6) [OF this] show ?thesis using ab False by (auto simp: finished_or_cut_def simp del: terminal_iff)
    qed
  next
    fix k j x y
    assume a: "map_of (re_investigations re') k = Some x \<and> map_of (re_investigations re') j = Some y \<and> iv_incident x = iv_incident y"
    show "k = j"
    proof (cases "k = ?new \<or> j = ?new")
      case True
      then show ?thesis using a row other unfolding m by (metis option.inject)
    next
      case False
      then show ?thesis using a g(7) unfolding m by auto
    qed
  qed
  note mem = get_latest_mem [OF order' dist] get_latest_mem [OF g(3,2)]
  show "get_latest i re' \<noteq> None" unfolding mem m using row by auto
  show "get_latest j (rg_repo a) \<noteq> None \<Longrightarrow> get_latest j re' \<noteq> None" unfolding mem m using newk by (metis option.distinct(1))
  show "investigated_incidents b \<subseteq> investigated_incidents a \<union> {i}"
    unfolding investigated_incidents_def b_def rca_agent.simps m using row by (auto split: if_splits)
qed

lemma recalled:
  "rca_good calls a \<Longrightarrow> rca_good calls (a\<lparr>rg_calls := Suc (rg_calls a)\<rparr>)"
  "rca_settled e (a\<lparr>rg_calls := n\<rparr>) = rca_settled e a"
  "investigated_incidents (a\<lparr>rg_calls := n\<rparr>) = investigated_incidents a"
proof -
  assume g: "rca_good calls a"
  have sub: "(\<lambda>m. ca_id (calls m)) ` {..<rg_calls a} \<subseteq> (\<lambda>m. ca_id (calls m)) ` {..<Suc (rg_calls a)}" by auto
  have eq: "finished_or_cut (a\<lparr>rg_calls := n\<rparr>) = finished_or_cut a" for n by (simp add: finished_or_cut_def fun_eq_iff)
  note d = rca_goodD [OF g]
  show "rca_good calls (a\<lparr>rg_calls := Suc (rg_calls a)\<rparr>)"
    using d(1-4) d(6,7) order_trans [OF d(5) sub] unfolding rca_good_def Let_def eq by simp blast
qed (simp_all add: rca_settled_def investigated_incidents_def split: event_verdict.split)

text \<open>What a good world is after a step for the event \<open>e\<close>.\<close>

definition stepped :: "(nat \<Rightarrow> rca_call) \<Rightarrow> RcaService.lifecycle_event \<Rightarrow> rca_agent \<Rightarrow> rca_agent \<Rightarrow> bool" where
  "stepped calls e a b \<longleftrightarrow> rca_good calls b \<and> (\<forall>e'. rca_settled e' a \<longrightarrow> rca_settled e' b) \<and>
     investigated_incidents b \<subseteq> investigated_incidents a \<union> event_incidents e"

lemma stepped_same: "rca_good calls a \<Longrightarrow> stepped calls e a (a\<lparr>rg_calls := Suc (rg_calls a)\<rparr>)"
  using recalled by (auto simp: stepped_def)

lemma stepped_more:
  assumes "rca_good calls a" "read_event e = EV_INCIDENT i" "get_latest i (rg_repo a) = None"
    and "one_more (ca_id (calls (rg_calls a))) row (rg_repo a) re'" "iv_incident row = i"
    and "ab = rg_abandoned a \<and> rca_is_terminal (iv_status row) \<or>
      ab = rg_abandoned a @ [ca_id (calls (rg_calls a))] \<and> iv_status row = R_PENDING"
  shows "stepped calls e a \<lparr>rg_calls = Suc (rg_calls a), rg_repo = re', rg_abandoned = ab\<rparr>"
    "rca_settled e \<lparr>rg_calls = Suc (rg_calls a), rg_repo = re', rg_abandoned = ab\<rparr>"
  using added_row [OF assms(1,3-6)] assms(2)
  by (auto simp: stepped_def rca_settled_def event_incidents_def split: event_verdict.split)

lemma never_running:
  assumes "rca_good calls a" "get_latest i (rg_repo a) = None"
  shows "get_active i (rg_repo a) = None"
proof (rule ccontr)
  note g = rca_goodD [OF assms(1)]
  assume "get_active i (rg_repo a) \<noteq> None"
  then obtain iv where "iv \<in> snd ` set (re_investigations (rg_repo a))" "is_active_for i iv"
    by (auto simp: get_active_def find_Some_iff in_set_conv_nth) (metis nth_mem snd_conv image_eqI)
  then obtain k where "map_of (re_investigations (rg_repo a)) k = Some iv" "iv_incident iv = i"
    using g(2) by (auto simp: is_active_for_def)
  then show False using assms(2) get_latest_mem [OF g(3,2)] by blast
qed

lemma left_pending_stepped:
  assumes "rca_good calls a" "read_event e = EV_INCIDENT i" "get_latest i (rg_repo a) = None"
    and "service_begin cfg (ca_id (calls (rg_calls a))) now i TR_EVENT (rg_repo a) = Inr (Inl iv, re)"
  shows "stepped calls e a (left_pending iv re (a\<lparr>rg_calls := Suc (rg_calls a)\<rparr>))"
proof -
  note b = begun_facts [OF assms(4) [unfolded service_begin_new]]
  show ?thesis
    using stepped_more(1) [OF assms(1-3) b(1,3), of "rg_abandoned a @ [ca_id (calls (rg_calls a))]"] b(2,4)
    by (cases a) (simp add: left_pending_def)
qed

lemma conduct_stepped:
  assumes g: "rca_good calls a" and i: "read_event e = EV_INCIDENT i" "get_latest i (rg_repo a) = None"
    and c: "conduct cfg (calls (rg_calls a)) i (a\<lparr>rg_calls := Suc (rg_calls a)\<rparr>) = (b, x)"
  shows "stepped calls e a b \<and> (exit_of x = HX_OK \<longrightarrow> rca_settled e b)"
proof -
  let ?c = "calls (rg_calls a)"
  have same: "stepped calls e a (a\<lparr>rg_calls := Suc (rg_calls a)\<rparr>)" by (rule stepped_same [OF g])
  show ?thesis
  proof (cases "not_begun (ca_fault ?c)")
    case (Some cl)
    then show ?thesis using c same by (auto simp: conduct_def)
  next
    case None
    show ?thesis
    proof (cases "service_begin cfg (ca_id ?c) (ca_now ?c) i TR_EVENT (rg_repo a)")
      case (Inl err)
      then show ?thesis using c same None by (auto simp: conduct_def)
    next
      case (Inr y)
      then obtain iv re where y: "y = (Inl iv, re)"
        using never_running [OF g i(2)]
        by (auto simp: service_begin_def split: sum.splits begin_error.splits prod.splits)
      note begun = Inr [unfolded y]
      note left = left_pending_stepped [OF g i begun]
      have bg: "begin_investigation (ca_id ?c) (ca_now ?c) i TR_EVENT (rc_mode cfg) (rg_repo a) = Inr (iv, re)"
        using begun by (simp add: service_begin_new)
      obtain oc re' where run: "run_to_completion (ca_env ?c) cfg (ca_llm ?c) (ca_started ?c) (ca_finished ?c) iv re = Some (oc, re')"
        using completes [OF bg, of "ca_env ?c" cfg "ca_llm ?c" "ca_started ?c" "ca_finished ?c"] by auto
      obtain row where row: "one_more (ca_id ?c) row (rg_repo a) re'" "iv_incident row = i" "rca_is_terminal (iv_status row)"
        by (rule investigated_facts [OF bg run])
      have "\<lparr>rg_calls = Suc (rg_calls a), rg_repo = re', rg_abandoned = rg_abandoned a\<rparr> =
          a\<lparr>rg_calls := Suc (rg_calls a), rg_repo := re'\<rparr>" by (cases a) simp
      note full = stepped_more [OF g i row(1,2), of "rg_abandoned a", unfolded this]
      show ?thesis
        using c None begun run left full row(3)
        by (auto simp: conduct_def split: db_fault.splits if_splits simp del: terminal_iff)
    qed
  qed
qed

lemma rca_handler_stepped:
  assumes "rca_good calls a" and h: "rca_handler cfg calls bad e r a = (b, y)"
  shows "stepped calls e a b \<and> (y = HX_OK \<longrightarrow> rca_settled e b)"
proof -
  let ?c = "calls (rg_calls a)" and ?a = "a\<lparr>rg_calls := Suc (rg_calls a)\<rparr>"
  have same: "stepped calls e a ?a" by (rule stepped_same [OF assms(1)])
  show ?thesis
  proof (cases "\<exists>i. read_event e = EV_INCIDENT i \<and> bad r = None \<and> get_latest i (rg_repo a) = None \<and>
      (\<forall>cl m. ca_fault ?c \<noteq> LOOKUP_FAILS cl m)")
    case True
    then obtain i where i: "read_event e = EV_INCIDENT i" "bad r = None" "get_latest i (rg_repo a) = None"
      "\<And>cl m. ca_fault ?c \<noteq> LOOKUP_FAILS cl m" by blast
    obtain b' x where c: "conduct cfg ?c i ?a = (b', x)" by fastforce
    have "rca_handler cfg calls bad e r a = (b', exit_of x)"
      using i c by (auto simp: rca_handler_def Let_def split: db_fault.split)
    then show ?thesis using conduct_stepped [OF assms(1) i(1,3) c] h by auto
  next
    case False
    then have "b = ?a \<and> (y = HX_OK \<longrightarrow> rca_settled e a)"
      using h by (auto simp: rca_handler_def Let_def rca_settled_def split: event_verdict.splits option.splits db_fault.splits if_splits prod.splits)
    then show ?thesis using same recalled(2) by auto
  qed
qed

lemma rca_cuts_stepped:
  assumes "rca_good calls a" and "b \<in> set (rca_cuts cfg calls bad e r a)"
  shows "stepped calls e a b"
proof (cases "read_event e")
  case (EV_INCIDENT i)
  show ?thesis
  proof (cases "bad r = None \<and> get_latest i (rg_repo a) = None")
    case True
    obtain y where y: "service_begin cfg (ca_id (calls (rg_calls a))) (ca_now (calls (rg_calls a))) i TR_EVENT (rg_repo a) = y"
      by blast
    obtain iv re where "y = Inr (Inl iv, re)" "b = left_pending iv re (a\<lparr>rg_calls := Suc (rg_calls a)\<rparr>)"
      using assms(2) EV_INCIDENT True by (auto simp: rca_cuts_def Let_def y split: sum.splits)
    then show ?thesis using left_pending_stepped [OF assms(1) EV_INCIDENT] True y by simp
  next
    case False
    then show ?thesis using assms(2) EV_INCIDENT by (auto simp: rca_cuts_def Let_def split: option.splits)
  qed
qed (use assms(2) in \<open>auto simp: rca_cuts_def Let_def split: option.splits\<close>)

lemma rca_handler_silent:
  assumes "rca_settled e a"
  shows "rg_repo (fst (rca_handler cfg calls bad e r a)) = rg_repo a"
  using assms
  by (auto simp: rca_settled_def rca_handler_def Let_def split: event_verdict.splits option.splits db_fault.splits)

interpretation rca_events: traced_handler "rca_handler cfg calls bad" "rca_cuts cfg calls bad" "rca_good calls" rca_settled rg_repo
  investigated_incidents event_incidents for cfg calls bad
proof
  fix w w' e r e' r'
  assume g: "rca_good calls w"
  obtain b y where h: "rca_handler cfg calls bad e r w = (b, y)" by fastforce
  obtain b' y' where h': "rca_handler cfg calls bad e' r' w = (b', y')" by fastforce
  note s = rca_handler_stepped [OF g h] and s' = rca_handler_stepped [OF g h']
  show "rca_good calls (fst (rca_handler cfg calls bad e r w))" using s h by (simp add: stepped_def)
  show "snd (rca_handler cfg calls bad e r w) = HX_OK \<Longrightarrow> rca_settled e (fst (rca_handler cfg calls bad e r w))"
    using s h by simp
  show "rca_settled e w \<Longrightarrow> rca_settled e (fst (rca_handler cfg calls bad e' r' w))" using s' h' by (simp add: stepped_def)
  show "rca_settled e w \<Longrightarrow> rg_repo (fst (rca_handler cfg calls bad e r w)) = rg_repo w" by (rule rca_handler_silent)
  show "investigated_incidents (fst (rca_handler cfg calls bad e r w)) \<subseteq> investigated_incidents w \<union> event_incidents e"
    using s h by (simp add: stepped_def)
  show "w' \<in> set (rca_cuts cfg calls bad e r w) \<Longrightarrow> rca_good calls w'" using rca_cuts_stepped [OF g] by (simp add: stepped_def)
  show "rca_settled e w \<Longrightarrow> w' \<in> set (rca_cuts cfg calls bad e' r' w) \<Longrightarrow> rca_settled e w'"
    using rca_cuts_stepped [OF g] by (simp add: stepped_def)
  show "w' \<in> set (rca_cuts cfg calls bad e r w) \<Longrightarrow>
      investigated_incidents w' \<subseteq> investigated_incidents w \<union> event_incidents e"
    using rca_cuts_stepped [OF g] by (simp add: stepped_def)
qed

section \<open>At most one investigation\<close>

lemma new_agent_good: "inj (\<lambda>m. ca_id (calls m)) \<Longrightarrow> rca_good calls new_agent"
  by (simp add: rca_good_def new_agent_def empty_repo_def)

text \<open>
  Claim C27. From the topic to the store, with redeliveries, crashes in the middle of a call and between the
  call and the commit, failing transactions, broker failures and a different outside at every call: once the
  consumer has committed past an \<open>incident.opened\<close> event that it can read, exactly one investigation of its
  incident is stored, or the record is among the dead letters or in the log of those that could not be
  written. Every stored investigation is finished, unless its run was cut between the transaction that
  reserves it and the one that stores its outcome: then it is pending, and it stays so in every later state,
  because each redelivery takes it for a duplicate. Nothing else is investigated: the incident of each stored
  investigation was named by a record. The consumer is the only caller of the service, identifiers are drawn
  without repetition and at least one attempt is configured.
\<close>

theorem opened_incidents_investigated:
  assumes "session cf br decode (rca_handler cfg calls bad) (rca_cuts cfg calls bad) part new_agent (p, st)"
    and "inj (\<lambda>m. ca_id (calls m))" and "1 \<le> kf_max_retries cf"
    and "\<forall>j < length part. kr_offset (part ! j) = j"
  shows "(\<forall>i < kc_committed st. \<forall>e inc. decode (kr_value (part ! i)) = Inr e \<longrightarrow> read_event e = EV_INCIDENT inc \<longrightarrow>
      part ! i \<in> fst ` set (kc_dlq st) \<union> set (kc_lost st) \<or>
      (\<exists>!k. \<exists>iv. get_investigation k (rg_repo (kc_world st)) = Some iv \<and> iv_incident iv = inc)) \<and>
    (\<forall>k iv. get_investigation k (rg_repo (kc_world st)) = Some iv \<longrightarrow>
      (if k \<in> set (rg_abandoned (kc_world st)) then iv_status iv = R_PENDING else rca_is_terminal (iv_status iv)) \<and>
      (\<exists>r \<in> set part. \<exists>e. decode (kr_value r) = Inr e \<and> read_event e = EV_INCIDENT (iv_incident iv)))"
proof (intro conjI allI impI)
  note g0 = new_agent_good [of calls, OF assms(2)]
  note acc = rca_events.session_accounts [OF assms(1) g0]
  have good: "rca_good calls (kc_world st)" using acc assms(3,4) by simp
  note g = rca_goodD [OF good]
  {
    fix i e inc
    assume i: "i < kc_committed st" and e: "decode (kr_value (part ! i)) = Inr e" "read_event e = EV_INCIDENT inc"
    have a: "rca_events.accounted decode (part ! i) st" using acc assms(3,4) i by auto
    show "part ! i \<in> fst ` set (kc_dlq st) \<union> set (kc_lost st) \<or>
        (\<exists>!k. \<exists>iv. get_investigation k (rg_repo (kc_world st)) = Some iv \<and> iv_incident iv = inc)"
    proof (cases "in_letters (part ! i) st")
      case False
      then have "get_latest inc (rg_repo (kc_world st)) \<noteq> None"
        using a e by (simp add: rca_events.accounted_def rca_settled_def)
      then obtain k iv where k: "map_of (re_investigations (rg_repo (kc_world st))) k = Some iv" "iv_incident iv = inc"
        using get_latest_mem [OF g(3,2)] by blast
      then have "\<exists>!k. \<exists>iv. map_of (re_investigations (rg_repo (kc_world st))) k = Some iv \<and> iv_incident iv = inc"
        using g(7) by (intro ex1I [of _ k]) blast+
      then show ?thesis by (simp add: get_investigation_def)
    qed (simp add: in_letters_def)
  next
    fix k iv assume k: "get_investigation k (rg_repo (kc_world st)) = Some iv"
    then show "if k \<in> set (rg_abandoned (kc_world st)) then iv_status iv = R_PENDING else rca_is_terminal (iv_status iv)"
      using g(6) by (simp add: get_investigation_def finished_or_cut_def del: terminal_iff)
    have "iv_incident iv \<in> investigated_incidents (kc_world st)"
      using k by (auto simp: get_investigation_def investigated_incidents_def)
    moreover have "investigated_incidents new_agent = {}" by (simp add: investigated_incidents_def new_agent_def empty_repo_def)
    ultimately obtain r where "r \<in> set part" "iv_incident iv \<in> rca_events.record_keys decode r"
      using rca_events.session_trace [OF assms(1) g0] by auto
    then show "\<exists>r \<in> set part. \<exists>e. decode (kr_value r) = Inr e \<and> read_event e = EV_INCIDENT (iv_incident iv)"
      by (intro bexI [of _ r]) (auto simp: rca_events.record_keys_def event_incidents_def split: sum.splits event_verdict.splits)
  }
qed

section \<open>Without crashes in the middle and failing transactions\<close>

definition faultless :: "(nat \<Rightarrow> rca_call) \<Rightarrow> bool" where
  "faultless calls \<longleftrightarrow> (\<forall>n. ca_fault (calls n) = NO_FAULT)"

definition rca_calm :: "(nat \<Rightarrow> rca_call) \<Rightarrow> rca_agent \<Rightarrow> bool" where
  "rca_calm calls a \<longleftrightarrow> rca_good calls a \<and> faultless calls \<and> rg_abandoned a = []"

lemma conduct_abandons:
  assumes "ca_fault c = NO_FAULT"
  shows "rg_abandoned (fst (conduct cfg c i a)) = rg_abandoned a"
proof (cases "service_begin cfg (ca_id c) (ca_now c) i TR_EVENT (rg_repo a)")
  case (Inr y)
  obtain z re where y: "y = (z, re)" by fastforce
  show ?thesis
  proof (cases z)
    case (Inl iv)
    then have "begin_investigation (ca_id c) (ca_now c) i TR_EVENT (rc_mode cfg) (rg_repo a) = Inr (iv, re)"
      using Inr y by (simp add: service_begin_new)
    from completes [OF this, of "ca_env c" cfg "ca_llm c" "ca_started c" "ca_finished c"]
    show ?thesis using assms Inr y Inl by (auto simp: conduct_def)
  qed (use assms Inr y in \<open>simp add: conduct_def\<close>)
qed (use assms in \<open>simp add: conduct_def\<close>)

lemma rca_handler_abandons:
  assumes "faultless calls"
  shows "rg_abandoned (fst (rca_handler cfg calls bad e r a)) = rg_abandoned a"
proof -
  have f: "ca_fault (calls n) = NO_FAULT" for n using assms by (simp add: faultless_def)
  have "rg_abandoned (fst (conduct cfg (calls (rg_calls a)) i (a\<lparr>rg_calls := Suc (rg_calls a)\<rparr>))) = rg_abandoned a" for i
    using conduct_abandons [OF f] by simp
  then show ?thesis
    by (simp add: rca_handler_def Let_def case_prod_unfold f split: option.split event_verdict.split)
qed

interpretation calm_events: idempotent_handler "rca_handler cfg calls bad" "\<lambda>e r w. []" "rca_calm calls" rca_settled rg_repo
  for cfg calls bad
proof
  fix w e r e' r'
  assume c: "rca_calm calls w"
  then have g: "rca_good calls w" by (simp add: rca_calm_def)
  show "rca_calm calls (fst (rca_handler cfg calls bad e r w))"
    using c rca_events.good_step [OF g] rca_handler_abandons by (simp add: rca_calm_def)
  show "snd (rca_handler cfg calls bad e r w) = HX_OK \<Longrightarrow> rca_settled e (fst (rca_handler cfg calls bad e r w))"
    by (rule rca_events.ok_settles [OF g])
  show "rca_settled e w \<Longrightarrow> rca_settled e (fst (rca_handler cfg calls bad e' r' w))"
    by (rule rca_events.settled_stays [OF g])
  show "rca_settled e w \<Longrightarrow> rg_repo (fst (rca_handler cfg calls bad e r w)) = rg_repo w"
    by (rule rca_handler_silent)
qed simp_all

text \<open>
  Claim C28. Undisturbed investigations finish: as long as no process dies in the middle of a call and no
  transaction fails, every committed \<open>incident.opened\<close> event that can be read and is not among the dead letters
  or in the log has exactly one finished investigation, under crashes between a call and its commit,
  redelivery and broker failures. Identifiers are drawn without repetition and at least one attempt is
  configured.
\<close>

theorem undisturbed_runs_finish:
  assumes "session cf br decode (rca_handler cfg calls bad) (\<lambda>e r a. []) part new_agent (p, st)"
    and "faultless calls" and "inj (\<lambda>m. ca_id (calls m))" and "1 \<le> kf_max_retries cf"
    and "\<forall>j < length part. kr_offset (part ! j) = j"
    and "i < kc_committed st" and "decode (kr_value (part ! i)) = Inr e" and "read_event e = EV_INCIDENT inc"
  shows "part ! i \<in> fst ` set (kc_dlq st) \<union> set (kc_lost st) \<or>
    (\<exists>!k. \<exists>iv. get_investigation k (rg_repo (kc_world st)) = Some iv \<and> iv_incident iv = inc \<and> rca_is_terminal (iv_status iv))"
proof (cases "in_letters (part ! i) st")
  case False
  have "rca_calm calls new_agent"
    using assms(2) new_agent_good [OF assms(3)] by (simp add: rca_calm_def) (simp add: new_agent_def)
  note acc = calm_events.session_accounts [OF assms(1) this]
  have calm: "rca_calm calls (kc_world st)" and "calm_events.accounted decode (part ! i) st"
    using acc assms(4-6) by auto
  then have s: "get_latest inc (rg_repo (kc_world st)) \<noteq> None"
    using False assms(7,8) by (simp add: calm_events.accounted_def rca_settled_def)
  have good: "rca_good calls (kc_world st)" "rg_abandoned (kc_world st) = []" using calm by (simp_all add: rca_calm_def)
  note g = rca_goodD [OF good(1)]
  obtain k iv where k: "map_of (re_investigations (rg_repo (kc_world st))) k = Some iv" "iv_incident iv = inc"
    using s get_latest_mem [OF g(3,2)] by blast
  have "rca_is_terminal (iv_status iv)" using g(6) [OF k(1)] good(2) by (simp add: finished_or_cut_def del: terminal_iff)
  then have "\<exists>!k. \<exists>iv. map_of (re_investigations (rg_repo (kc_world st))) k = Some iv \<and> iv_incident iv = inc \<and>
      rca_is_terminal (iv_status iv)"
    using k g(7) by (intro ex1I [of _ k]) blast+
  then show ?thesis by (simp add: get_investigation_def del: terminal_iff)
qed (simp add: in_letters_def)

end
