(* ===== verification/RcaWitness.thy ===== *)
theory RcaWitness imports RcaProps begin

text \<open>
  A concrete investigation, used to show that the properties apply: the outside answers every request,
  but after a single step the budget of steps is spent, so that the graph degrades from node to node
  to the fallback report.
\<close>

definition sample_incident_payload :: incident_payload where
  "sample_incident_payload =
     \<lparr>ip_id = ''inc_0123ab'', ip_correlation_key = ''k'', ip_service = ''orders-service'', ip_environment = ''development'',
      ip_status = ''OPEN'', ip_severity = ''HIGH'', ip_title = ''t'', ip_anomaly_count = 2, ip_distinct = 1,
      ip_started = 0, ip_last_evidence = 0, ip_created = 0, ip_updated = 0, ip_resolved = None, ip_acknowledged = None,
      ip_resolution = None, ip_reasons = [], ip_signal_names = [], ip_max_score = 1, ip_max_error_rate = 0,
      ip_max_latency = 0, ip_detector = ''d'', ip_duration = 0\<rparr>"

definition sample_env :: rca_env where
  "sample_env =
     \<lparr>en_clock = (\<lambda>n. 1000 * int n), en_get = (\<lambda>n url params. H_RESPONSE 200 ''up 1'' (Some JNull)),
      en_int = (\<lambda>v. case v of JNum x \<Rightarrow> Some \<lfloor>x\<rfloor> | _ \<Rightarrow> None), en_first_error = (\<lambda>n d. ([], [])),
      en_incident = (\<lambda>v. Some sample_incident_payload), en_anomalies = (\<lambda>v. Some []), en_history = (\<lambda>v. Some []),
      en_related = (\<lambda>v. Some []), en_datetime = (\<lambda>t. int_str t), en_float = (\<lambda>x. JNull), en_str = (\<lambda>v. [])\<rparr>"

definition sample_cfg :: rca_config where
  "sample_cfg = \<lparr>rc_mode = ''mock'', rc_api_base = ''http://api/'', rc_metrics_urls = [],
     rc_health_urls = [(''orders-service'', ''http://orders'')], rc_limits = default_limits\<lparr>rl_steps := 1\<rparr>\<rparr>"

definition sample_llm :: llm_client where
  "sample_llm = \<lparr>lm_provider = ''mock'', lm_model = None, lm_plan = (\<lambda>n q. Inl (RAISE_OTHER [])),
     lm_analyze = (\<lambda>n q. Inl (RAISE_OTHER [])), lm_verify = (\<lambda>n q. Inl (RAISE_OTHER [])),
     lm_synthesize = (\<lambda>n q. Inl (RAISE_OTHER []))\<rparr>"

definition sample_investigation :: investigation where
  "sample_investigation = \<lparr>iv_id = ''rca_1'', iv_incident = ''inc_0123ab'', iv_status = R_PENDING, iv_trigger = TR_EVENT,
     iv_mode = ''mock'', iv_model = None, iv_reason = None, iv_tool_calls = 0, iv_steps = 0, iv_evidence = 0,
     iv_confidence = C_UNKNOWN, iv_started = Some 0, iv_completed = None, iv_created = 0, iv_updated = 0\<rparr>"

abbreviation sample_result :: run_result where
  "sample_result \<equiv> engine_result sample_env sample_cfg sample_llm 0 sample_investigation"

lemma sample_parse: "parse_request to_int T_INCIDENT (dump_request (RQ_INCIDENT ''inc_0123ab'')) = Some (RQ_INCIDENT ''inc_0123ab'')"
  by (simp add: parse_request_def only_fields_def need_def incident_ref_ok_def hex_run_def is_hex_def is_digit_def)

lemma sample_api: "api_get_incident sample_env sample_cfg i w = (Inr sample_incident_payload, w\<lparr>wd_calls := Suc (wd_calls w)\<rparr>)"
  by (simp add: api_get_incident_def get_json_def http_get_def act_defs validated_def sample_env_def)

lemma sample_loads:
  "\<exists>r ev. tool_run sample_env sample_cfg T_INCIDENT (dump_request (RQ_INCIDENT ''inc_0123ab'')) w =
     (Inr r, w\<lparr>wd_calls := Suc (wd_calls w), wd_issued := Suc (wd_issued w), wd_ticks := Suc (wd_ticks w)\<rparr>) \<and>
     tr_ok r \<and> tr_evidence r = [ev] \<and> rv_content ev = dump_incident sample_env sample_incident_payload"
  unfolding tool_run_def sample_parse
  by (simp add: AVAILABLE_TOOLS_def run_get_incident_def act_defs sample_api build_evidence_def next_evidence_id_def
      read_clock_def tool_success_def tr_ok_def opt_ok_def sample_incident_payload_def)

lemma step_run:
  "step d k ph t tool ids w =
     (Inr \<lparr>is_seq = Suc (wd_seq w), is_kind = k, is_phase = ph, is_description = take 2000 t, is_tool = tool,
           is_evidence = ids, is_at = en_clock (dp_env d) (wd_ticks w)\<rparr>,
      w\<lparr>wd_seq := Suc (wd_seq w), wd_usage := (wd_usage w)\<lparr>us_steps := Suc (wd_seq w)\<rparr>, wd_ticks := Suc (wd_ticks w)\<rparr>)"
  by (simp add: step_def act_defs read_clock_def)

abbreviation sample_deps :: graph_deps where
  "sample_deps \<equiv> deps_for sample_env sample_cfg sample_llm sample_investigation"

lemma sample_sel [simp]:
  "dp_env sample_deps = sample_env" "dp_cfg sample_deps = sample_cfg" "dp_incident sample_deps = ''inc_0123ab''"
  "dp_investigation sample_deps = ''rca_1''" "en_clock sample_env n = 1000 * int n"
  "rl_tool_calls (rc_limits sample_cfg) = 12" "rl_steps (rc_limits sample_cfg) = 1" "rl_evidence (rc_limits sample_cfg) = 40"
  "rl_timeout (rc_limits sample_cfg) = 120"
  by (simp_all add: deps_for_def sample_investigation_def sample_env_def sample_cfg_def default_limits_def)

definition spent_early :: "inv_state \<Rightarrow> rca_world \<Rightarrow> bool" where
  "spent_early s w \<longleftrightarrow> 1 < us_steps (wd_usage w) \<and> 1 \<le> wd_seq w \<and> us_tool_calls (wd_usage w) = 1 \<and> st_rca s = None \<and>
     us_started (wd_usage w) = 0 \<and> length (st_evidence s) = 1 \<and> st_hypotheses s = [] \<and>
     st_incident s = Some (dump_incident sample_env sample_incident_payload)"

lemma sample_initialize:
  "\<exists>s w. initialize sample_deps initial_state (fresh_world 0) = (Inr s, w) \<and> route s = Some N_PLAN \<and> spent_early s w"
proof -
  obtain r ev where r: "\<And>w. tool_run sample_env sample_cfg T_INCIDENT (dump_request (RQ_INCIDENT ''inc_0123ab'')) w =
     (Inr (r w), w\<lparr>wd_calls := Suc (wd_calls w), wd_issued := Suc (wd_issued w), wd_ticks := Suc (wd_ticks w)\<rparr>) \<and>
     tr_ok (r w) \<and> tr_evidence (r w) = [ev w] \<and> rv_content (ev w) = dump_incident sample_env sample_incident_payload"
    using sample_loads by metis
  have "incident_ref_ok ''inc_0123ab''" by (simp add: incident_ref_ok_def hex_run_def is_hex_def is_digit_def)
  then show ?thesis
    using r
    by (simp add: initialize_def then_do_def step_run check_def ret_def try_limits_def handle_def run_validated_call_def
        limits_checked_def read_clock_def reads_def writes_def check_limits_def route_def spent_early_def
        fresh_world_def elapsed_seconds_def initialized_def initial_state_def state_defs Let_def del: dump_request.simps)
qed

lemma sample_degrade:
  assumes "spent_early s w" and "degrade_next n = Some (nxt, st)" and "\<not> rca_is_terminal st"
  shows "\<exists>s' w'. guarded sample_deps n ph s body w = (Inr s', w') \<and> route s' = Some nxt \<and> spent_early s' w'"
  using assms
  by (simp add: guarded_def try_limits_def limits_checked_def handle_def then_do_def read_clock_def reads_def writes_def
      check_limits_def throw_def ret_def step_run route_def spent_early_def state_defs)

lemma sample_validate:
  assumes "spent_early s w"
  shows "\<exists>s' w' r. validate sample_deps s w = (Inr s', w') \<and> st_status s' = R_INSUFFICIENT \<and> st_rca s' = Some r"
proof -
  have m: "truthy (JStr ''orders-service'')" "truthy (JStr ''HIGH'')" by simp_all
  have inc: "st_incident s = Some (dump_incident sample_env sample_incident_payload)" "st_hypotheses s = []" "st_rca s = None"
    using assms by (simp_all add: spent_early_def)
  let ?r = "\<lambda>md. assemble_fallback sample_deps (the_incident s) (st_evidence s) (st_hypotheses s) [''synthesis stage was not reached''] md"
  have schema: "report_schema_ok (?r md)" for md
    by (simp add: report_schema_ok_def assemble_fallback_def Let_def inc the_incident_def incident_text_def py_str_def
        dump_incident_def sample_incident_payload_def opt_ok_def all_findings_def)
  have valid: "validate_report (?r md) (known_ids (st_evidence s)) = Inr ()" for md
    unfolding validate_report_iff by (rule fallback_ok(2)) (simp add: inc hypotheses_known_def)
  show ?thesis
    using schema valid
    by (simp add: validate_def inc validate_missing_def fallback_for_def build_fallback_report_def build_metadata_def
        construct_report_def act_defs read_clock_def step_run state_defs)
qed

lemma rca_verifying_active: "\<not> rca_is_terminal R_VERIFYING"
  by simp

lemma sample_run:
  "\<exists>s w r. invoke_graph sample_deps (fresh_world 0) = (Inr s, w) \<and> st_status s = R_INSUFFICIENT \<and> st_rca s = Some r"
proof -
  obtain s1 w1 where 1: "initialize sample_deps initial_state (fresh_world 0) = (Inr s1, w1)" "route s1 = Some N_PLAN" "spent_early s1 w1"
    using sample_initialize by blast
  obtain s2 w2 where 2: "plan sample_deps s1 w1 = (Inr s2, w2)" "route s2 = Some N_SYNTHESIZE" "spent_early s2 w2"
    unfolding plan_def using sample_degrade [OF 1(3) degrade_next.simps(1)] rca_verifying_active by blast
  obtain s3 w3 where 3: "synthesize sample_deps s2 w2 = (Inr s3, w3)" "route s3 = Some N_VALIDATE" "spent_early s3 w3"
    unfolding synthesize_def using sample_degrade [OF 2(3) degrade_next.simps(5)] rca_verifying_active by blast
  obtain s4 w4 r where 4: "validate sample_deps s3 w3 = (Inr s4, w4)" "st_status s4 = R_INSUFFICIENT" "st_rca s4 = Some r"
    using sample_validate [OF 3(3)] by blast
  have k: "recursion_limit (dp_limits sample_deps) = Suc (Suc (Suc (Suc 60)))" by (simp add: recursion_limit_def)
  have "invoke_graph sample_deps (fresh_world 0) = (Inr s4, w4)"
    unfolding invoke_graph_def k run_graph.simps node_body.simps
    using 4(2) by (simp add: then_do_def 1 2 3 4 ret_def route_def [of s4])
  then show ?thesis using 4 by blast
qed

lemma sample_result:
  "rr_status (engine_result sample_env sample_cfg sample_llm 0 sample_investigation) = R_INSUFFICIENT"
  "\<exists>r. rr_report (engine_result sample_env sample_cfg sample_llm 0 sample_investigation) = Some r"
  using sample_run by (auto simp: engine_result_def graph_result_def never_active_def)

section \<open>A reachable repository\<close>

definition sample_pending :: rca_repo where
  "sample_pending = empty_repo\<lparr>re_investigations := [(''rca_1'', sample_investigation)], re_order := [''rca_1'']\<rparr>"

lemma sample_begin: "begin_investigation ''rca_1'' 0 ''inc_0123ab'' TR_EVENT ''mock'' empty_repo = Inr (sample_investigation, sample_pending)"
  by (simp add: begin_investigation_def get_active_def empty_repo_def sample_pending_def sample_investigation_def Let_def)

lemma sample_pending_reachable: "rca_reachable sample_pending"
  by (rule rca_reachable.more [OF rca_reachable.start rca_step.reserve [OF sample_begin]]) (simp add: empty_repo_def)

definition sample_finished :: rca_repo where
  "sample_finished = (case run_to_completion sample_env sample_cfg sample_llm 0 9 sample_investigation sample_pending of
     Some (oc, re) \<Rightarrow> re)"

lemma sample_completes:
  "\<exists>oc. run_to_completion sample_env sample_cfg sample_llm 0 9 sample_investigation sample_pending = Some (oc, sample_finished)"
  by (simp add: sample_finished_def run_to_completion_def complete_investigation_def Let_def sample_pending_def
      sample_investigation_def)

lemma sample_row:
  "map_of (re_investigations sample_pending) ''rca_1'' = Some sample_investigation" "iv_id sample_investigation = ''rca_1''"
  "iv_incident sample_investigation = ''inc_0123ab''" "iv_status sample_investigation = R_PENDING"
  by (simp_all add: sample_pending_def sample_investigation_def)

lemma sample_finished_reachable: "rca_reachable sample_finished"
proof -
  obtain oc where "run_to_completion sample_env sample_cfg sample_llm 0 9 sample_investigation sample_pending = Some (oc, sample_finished)"
    using sample_completes by blast
  then have "rca_step sample_pending sample_finished"
    by (rule rca_step.finish [OF sample_row(1), rotated 2]) (simp_all add: sample_row)
  then show ?thesis by (rule rca_reachable.more [OF sample_pending_reachable])
qed

lemma sample_finished_row:
  "\<exists>iv r. get_investigation ''rca_1'' sample_finished = Some iv \<and> iv_status iv = R_INSUFFICIENT \<and>
     iv_incident iv = ''inc_0123ab'' \<and> get_report ''rca_1'' sample_finished = Some r"
proof -
  obtain oc where run: "run_to_completion sample_env sample_cfg sample_llm 0 9 sample_investigation sample_pending = Some (oc, sample_finished)"
    using sample_completes by blast
  note f = run_to_completion_Some [OF run, unfolded sample_row(2), OF sample_row(1)]
  show ?thesis
    using sample_result sample_row(3)
    by (auto simp: get_investigation_def get_report_def f map_of_update_if completed_row_def)
qed

section \<open>Witnesses\<close>

theorem investigation_outcome_sound_witness:
  "\<exists>r. rr_report (engine_result sample_env sample_cfg sample_llm 0 sample_investigation) = Some r \<and>
     rp_status r = R_INSUFFICIENT \<and>
     validate_report r (set (map rv_id (rr_evidence (engine_result sample_env sample_cfg sample_llm 0 sample_investigation)))) = Inr ()"
  using investigation_outcome_sound [of sample_cfg sample_env sample_llm 0 sample_investigation] sample_result
  by (auto simp: Let_def)

theorem graph_ends_within_bound_witness:
  "case fst (run_graph sample_deps 22 N_INITIALIZE initial_state (fresh_world 0)) of
     Inr s \<Rightarrow> rca_is_terminal (st_status s) | Inl e \<Rightarrow> \<exists>x. e = E_OTHER x"
  using graph_ends_within_bound [of sample_deps 22 0] by (simp del: terminal_iff)

theorem run_stays_within_budget_witness:
  "\<exists>s w. invoke_graph sample_deps (fresh_world 0) = (Inr s, w) \<and> us_tool_calls (wd_usage w) \<le> 12 \<and> wd_issued w \<le> 40"
proof -
  obtain s w where w: "invoke_graph sample_deps (fresh_world 0) = (Inr s, w)" using sample_run by blast
  have "us_tool_calls (wd_usage w) \<le> 12 \<and> wd_issued w \<le> 40"
    using run_stays_within_budget [OF _ w] by simp
  then show ?thesis using w by blast
qed

definition sample_synthesis :: synthesis_result where
  "sample_synthesis = \<lparr>sy_conclusion = CONCLUDE_COMPLETED, sy_summary = ''s'',
     sy_root_cause = Some \<lparr>pt_statement = ''r'', pt_confidence = C_MEDIUM, pt_evidence = [''ev_009''], pt_reasoning = ''w''\<rparr>,
     sy_factors = [],
     sy_action = \<lparr>pa_type = A_INVESTIGATE_FURTHER, pa_target = None, pa_description = [], pa_rationale = [], pa_evidence = [''ev_001'']\<rparr>,
     sy_confidence = C_HIGH, sy_uncertainty = [], sy_timeline = []\<rparr>"

definition sample_metadata :: report_metadata where
  "sample_metadata = metadata_of sample_deps 0 0 [] 0 (wd_usage (fresh_world 0))"

theorem assembled_report_validates_witness:
  "validate_report (assemble_report sample_deps [] [] [] [] sample_synthesis sample_metadata) (known_ids []) = Inr ()"
proof -
  have "hypotheses_known (known_ids []) []" by (simp add: hypotheses_known_def)
  from assembled_report_validates [OF this, of sample_deps "[]" "[]" sample_synthesis sample_metadata]
  show ?thesis by (simp add: Let_def sample_synthesis_def)
qed

theorem one_active_investigation_witness:
  "{j. \<exists>b. get_investigation j sample_pending = Some b \<and> \<not> rca_is_terminal (iv_status b) \<and> iv_incident b = ''inc_0123ab''} =
     {''rca_1''}"
proof -
  have g: "get_investigation ''rca_1'' sample_pending = Some sample_investigation"
    by (simp add: get_investigation_def sample_row)
  have act: "\<not> rca_is_terminal (iv_status sample_investigation)" by (simp add: sample_row)
  have "j = ''rca_1''" if "get_investigation j sample_pending = Some b" "\<not> rca_is_terminal (iv_status b)"
    "iv_incident b = ''inc_0123ab''" for j b
    using one_active_investigation [OF sample_pending_reachable that(1) g that(2) act]
    unfolding that(3) sample_row(3) by blast
  then show ?thesis using g act sample_row(3) by blast
qed

theorem stored_reports_sound_witness:
  "\<exists>r evs. get_report ''rca_1'' sample_finished = Some r \<and> get_evidence ''rca_1'' sample_finished = Some evs \<and>
     rp_status r = R_INSUFFICIENT \<and> validate_report r (known_ids evs) = Inr ()"
proof -
  obtain iv r where r: "get_investigation ''rca_1'' sample_finished = Some iv" "iv_status iv = R_INSUFFICIENT"
    "get_report ''rca_1'' sample_finished = Some r"
    using sample_finished_row by blast
  show ?thesis using stored_reports_sound [OF sample_finished_reachable r(3)] r by fastforce
qed

theorem outcomes_are_final_witness:
  "\<exists>re iv. rca_step sample_finished re \<and> get_investigation ''rca_1'' re = Some iv \<and> iv_status iv = R_INSUFFICIENT"
proof -
  obtain iv where iv: "get_investigation ''rca_1'' sample_finished = Some iv" "iv_status iv = R_INSUFFICIENT"
    "iv_incident iv = ''inc_0123ab''"
    using sample_finished_row by blast
  have k: "map fst (re_investigations sample_finished) = [''rca_1'']"
    by (simp add: sample_finished_def run_to_completion_def complete_investigation_def Let_def sample_pending_def
        sample_investigation_def)
  then have all: "re_investigations sample_finished = [(''rca_1'', iv)]"
    using iv(1) by (cases "re_investigations sample_finished") (auto simp: get_investigation_def)
  have "\<exists>iv' re. begin_investigation ''rca_2'' 0 ''inc_0123cd'' TR_EVENT ''mock'' sample_finished = Inr (iv', re)"
    by (simp add: begin_investigation_def get_active_def all is_active_for_def iv(3) Let_def)
  then obtain iv' re where "begin_investigation ''rca_2'' 0 ''inc_0123cd'' TR_EVENT ''mock'' sample_finished = Inr (iv', re)"
    by blast
  then have s: "rca_step sample_finished re" by (rule rca_step.reserve) (simp add: all)
  then have s': "rca_step\<^sup>*\<^sup>* sample_finished re" by (rule r_into_rtranclp)
  have "get_investigation ''rca_1'' re = Some iv"
    using outcomes_are_final [OF s' sample_finished_reachable iv(1)] iv(2) by simp
  then show ?thesis using s iv(2) by blast
qed

definition sample_event :: lifecycle_event where
  "sample_event = \<lparr>le_type = ''incident.opened'', le_version = 1, le_incident = Some ''inc_0123ab''\<rparr>"

theorem redelivered_event_is_noop_witness:
  "snd (handle_event sample_env sample_cfg sample_llm ''rca_2'' 20 21 22 sample_event
     (snd (handle_event sample_env sample_cfg sample_llm ''rca_1'' 0 0 9 sample_event empty_repo))) =
   snd (handle_event sample_env sample_cfg sample_llm ''rca_1'' 0 0 9 sample_event empty_repo)"
proof -
  have "re_match incident_id_rx ''inc_0123ab''" by code_simp
  then have e: "read_event sample_event = EV_INCIDENT ''inc_0123ab''" by (simp add: read_event_def sample_event_def)
  have "rc_mode sample_cfg = ''mock''" by (simp add: sample_cfg_def)
  then have "fst (handle_event sample_env sample_cfg sample_llm ''rca_1'' 0 0 9 sample_event empty_repo) \<noteq> HD_RETRY c" for c
    using sample_completes
    by (auto simp: handle_event_def e get_latest_def empty_repo_def List.map_filter_def service_begin_def
        sample_begin [unfolded empty_repo_def])
  then show ?thesis
    by (rule redelivered_event_is_noop [OF prod.collapse [symmetric]])
qed

theorem request_roundtrip_witness:
  "parse_request (en_int sample_env) T_RELATED (dump_request (RQ_RELATED ''orders-service'' 24 None 10)) =
     Some (RQ_RELATED ''orders-service'' 24 None 10)"
  using request_roundtrip [of "RQ_RELATED ''orders-service'' 24 None 10" "en_int sample_env"]
  by (simp add: service_ok_def in_range_def opt_ok_def sample_env_def jint_def)

text \<open>Values as the client library prints them: a float with its point, one with an exponent, an infinity.\<close>

lemma sample_literals:
  "parse_float ''3.0'' = Some (Fin 3)" "parse_float ''2.5e-05'' = Some (Fin (1 / 40000))" "parse_float ''+Inf'' = Some Pos_inf"
  by code_simp+

theorem sample_line_exact_witness:
  "map (\<lambda>v. parse_sample {''req''} (sample_line ''req_bucket'' [(''path'', ''a,b} =c''), (''le'', ''+Inf'')] v '' 1700000000''))
       [''3.0'', ''2.5e-05'', ''+Inf'', ''three''] =
     map (map_option (\<lambda>x. (''req'', \<lparr>sm_labels = [(''path'', ''a,b} =c''), (''le'', ''+Inf'')], sm_value = x\<rparr>)))
       [Some (Fin 3), Some (Fin (1 / 40000)), Some Pos_inf, None]"
proof -
  let ?ls = "[(''path'', ''a,b} =c''), (''le'', ''+Inf'')]"
  have m: "''req_bucket'' \<noteq> []" "list_all name_char ''req_bucket''" "distinct (map fst ?ls)" "list_all label_ok ?ls"
    "after_value '' 1700000000''" "metric_base ''req_bucket'' = ''req''"
    by code_simp+
  have v: "list_all value_text [''3.0'', ''2.5e-05'', ''+Inf'', ''three'']" "parse_float ''three'' = None" by code_simp+
  have l: "list_all (\<lambda>v. length (sample_line ''req_bucket'' ?ls v '' 1700000000'') \<le> MAX_LINE_LEN)
      [''3.0'', ''2.5e-05'', ''+Inf'', ''three'']"
    by code_simp
  have "parse_sample {''req''} (sample_line ''req_bucket'' ?ls x '' 1700000000'') =
      map_option (\<lambda>y. (''req'', \<lparr>sm_labels = ?ls, sm_value = y\<rparr>)) (parse_float x)"
    if x: "x \<in> set [''3.0'', ''2.5e-05'', ''+Inf'', ''three'']" for x
  proof -
    have "value_text x" "length (sample_line ''req_bucket'' ?ls x '' 1700000000'') \<le> MAX_LINE_LEN"
      using x v(1) l unfolding list_all_iff by blast+
    then show ?thesis
      using sample_line_exact [OF m(1-4) _ m(5), of x "{''req''}"] by (simp only: m(6)) simp
  qed
  then have "\<forall>x \<in> set [''3.0'', ''2.5e-05'', ''+Inf'', ''three'']. parse_sample {''req''} (sample_line ''req_bucket'' ?ls x '' 1700000000'') =
      map_option (\<lambda>y. (''req'', \<lparr>sm_labels = ?ls, sm_value = y\<rparr>)) (parse_float x)" by blast
  then show ?thesis by (simp add: sample_literals v(2))
qed

end
