(* ===== verification/IncDomain.thy ===== *)
theory IncDomain imports PyText begin

text \<open>
  The incident domain model (\<open>incident_correlator/domain.py\<close>) and the incident lifecycle
  (\<open>incident_correlator/state_machine.py\<close>). Floats are exact rationals: the correlator only compares,
  takes maxima of and prints them, and a NaN is outside the model.
\<close>

section \<open>Enumerations\<close>

datatype inc_status = OPEN | ACKNOWLEDGED | INVESTIGATING | MITIGATING | RESOLVED

fun inc_status_str :: "inc_status \<Rightarrow> string" where
  "inc_status_str OPEN = ''OPEN''"
| "inc_status_str ACKNOWLEDGED = ''ACKNOWLEDGED''"
| "inc_status_str INVESTIGATING = ''INVESTIGATING''"
| "inc_status_str MITIGATING = ''MITIGATING''"
| "inc_status_str RESOLVED = ''RESOLVED''"

definition is_active :: "inc_status \<Rightarrow> bool" where
  "is_active s \<longleftrightarrow> s \<noteq> RESOLVED"

definition all_inc_statuses :: "inc_status list" where
  "all_inc_statuses = [OPEN, ACKNOWLEDGED, INVESTIGATING, MITIGATING, RESOLVED]"

definition INC_ACTIVE_STATUSES :: "inc_status set" where
  "INC_ACTIVE_STATUSES = set (filter is_active all_inc_statuses)"

datatype relation_type = DEPENDENCY | CROSS_SERVICE

fun relation_type_str :: "relation_type \<Rightarrow> string" where
  "relation_type_str DEPENDENCY = ''dependency''"
| "relation_type_str CROSS_SERVICE = ''cross_service''"

datatype severity = INFO | LOW | MEDIUM | HIGH | CRITICAL

fun severity_str :: "severity \<Rightarrow> string" where
  "severity_str INFO = ''INFO''"
| "severity_str LOW = ''LOW''"
| "severity_str MEDIUM = ''MEDIUM''"
| "severity_str HIGH = ''HIGH''"
| "severity_str CRITICAL = ''CRITICAL''"

fun severity_rank :: "severity \<Rightarrow> nat" where
  "severity_rank INFO = 0"
| "severity_rank LOW = 1"
| "severity_rank MEDIUM = 2"
| "severity_rank HIGH = 3"
| "severity_rank CRITICAL = 4"

lemma severity_rank_inj: "severity_rank a = severity_rank b \<Longrightarrow> a = b"
  by (cases a; cases b) auto

instantiation severity :: linorder
begin

definition less_eq_severity :: "severity \<Rightarrow> severity \<Rightarrow> bool" where
  "a \<le> b \<longleftrightarrow> severity_rank a \<le> severity_rank b"

definition less_severity :: "severity \<Rightarrow> severity \<Rightarrow> bool" where
  "a < b \<longleftrightarrow> severity_rank a < severity_rank b"

instance
  by standard (auto simp: less_eq_severity_def less_severity_def intro: severity_rank_inj)

end

section \<open>Value objects\<close>

definition correlation_key :: "string \<Rightarrow> string \<Rightarrow> string" where
  "correlation_key svc env = svc @ '':'' @ env"

record anomaly_signal =
  sg_event_id :: string
  sg_detector :: string
  sg_detector_version :: string
  sg_service :: string
  sg_environment :: string
  sg_window_start :: datetime
  sg_window_end :: datetime
  sg_score :: rat
  sg_threshold :: rat
  sg_signals :: "(string, rat) dict"
  sg_abnormal :: "string list"
  sg_trace_id :: "string option"
  sg_occurred_at :: datetime

definition signal_key :: "anomaly_signal \<Rightarrow> string" where
  "signal_key s = correlation_key (sg_service s) (sg_environment s)"

record evidence_record =
  ev_event_id :: string
  ev_detector :: string
  ev_detector_version :: string
  ev_score :: rat
  ev_threshold :: rat
  ev_window_start :: datetime
  ev_window_end :: datetime
  ev_signals :: "(string, rat) dict"
  ev_abnormal :: "string list"
  ev_trace_id :: "string option"
  ev_occurred_at :: datetime
  ev_reason :: string

record incident_relation =
  il_incident :: string
  il_related :: string
  il_type :: relation_type
  il_reason :: string
  il_created :: datetime

record state_transition =
  tr_from :: "inc_status option"
  tr_to :: inc_status
  tr_actor :: string
  tr_reason :: string
  tr_severity :: "severity option"
  tr_created :: datetime

record incident =
  in_id :: string
  in_key :: string
  in_service :: string
  in_environment :: string
  in_status :: inc_status
  in_severity :: severity
  in_severity_reasons :: "string list"
  in_title :: string
  in_count :: nat
  in_max_score :: rat
  in_max_error :: rat
  in_max_latency :: rat
  in_detector :: string
  in_started :: datetime
  in_last_evidence :: datetime
  in_created :: datetime
  in_updated :: datetime
  in_abnormal :: "string list"
  in_acknowledged :: "datetime option"
  in_resolved_at :: "datetime option"
  in_resolution :: "string option"
  in_evidence :: "evidence_record list"
  in_history :: "state_transition list"

definition distinct_abnormal_signals :: "incident \<Rightarrow> nat" where
  "distinct_abnormal_signals i = length (in_abnormal i)"

text \<open>\<open>timedelta.total_seconds()\<close> of a difference of instants, in seconds.\<close>

definition total_seconds :: "int \<Rightarrow> rat" where
  "total_seconds us = of_int us / 1000000"

definition duration_seconds :: "incident \<Rightarrow> rat" where
  "duration_seconds i = max (total_seconds (in_last_evidence i - in_started i)) 0"

section \<open>Lifecycle\<close>

fun inc_allowed :: "inc_status \<Rightarrow> inc_status set" where
  "inc_allowed OPEN = {ACKNOWLEDGED, INVESTIGATING, RESOLVED}"
| "inc_allowed ACKNOWLEDGED = {INVESTIGATING, RESOLVED}"
| "inc_allowed INVESTIGATING = {MITIGATING, RESOLVED}"
| "inc_allowed MITIGATING = {RESOLVED}"
| "inc_allowed RESOLVED = {}"

definition inc_can_transition :: "inc_status \<Rightarrow> inc_status \<Rightarrow> string \<Rightarrow> bool" where
  "inc_can_transition cur tgt actor \<longleftrightarrow>
     (if actor = ''system'' \<and> tgt = RESOLVED \<and> is_active cur then True else tgt \<in> inc_allowed cur)"

text \<open>\<open>validate_transition\<close> raises \<open>InvalidTransitionError\<close>, the \<open>Inl\<close> here.\<close>

definition inc_validate_transition :: "inc_status \<Rightarrow> inc_status \<Rightarrow> string \<Rightarrow> unit + unit" where
  "inc_validate_transition cur tgt actor = guard (inc_can_transition cur tgt actor) ()"

fun inc_rank :: "inc_status \<Rightarrow> nat" where
  "inc_rank OPEN = 0"
| "inc_rank ACKNOWLEDGED = 1"
| "inc_rank INVESTIGATING = 2"
| "inc_rank MITIGATING = 3"
| "inc_rank RESOLVED = 4"

interpretation inc_life: lifecycle inc_allowed inc_rank
proof
  fix s t assume "t \<in> inc_allowed s" then show "inc_rank s < inc_rank t" by (cases s) auto
qed

text \<open>A MITIGATING incident was INVESTIGATING first.\<close>

interpretation inc_gate: gated_lifecycle inc_allowed inc_rank MITIGATING INVESTIGATING
proof
  fix s assume "MITIGATING \<in> inc_allowed s" then show "s = INVESTIGATING" by (cases s) auto
qed

lemma INC_ACTIVE_iff [simp]: "s \<in> INC_ACTIVE_STATUSES \<longleftrightarrow> s \<noteq> RESOLVED"
  by (cases s) (auto simp: INC_ACTIVE_STATUSES_def all_inc_statuses_def is_active_def)

lemma system_adds_nothing: "inc_can_transition cur tgt actor \<longleftrightarrow> tgt \<in> inc_allowed cur"
  by (cases cur) (auto simp: inc_can_transition_def is_active_def)

lemma resolvable: "RESOLVED \<in> inc_allowed s \<longleftrightarrow> s \<noteq> RESOLVED"
  by (cases s) auto

lemma not_to_open: "OPEN \<notin> inc_allowed s"
  by (cases s) auto

lemma correlation_key_inj:
  assumes "CHR '':'' \<notin> set a" "CHR '':'' \<notin> set c" and "correlation_key a b = correlation_key c d"
  shows "a = c \<and> b = d"
proof -
  have "takeWhile (\<lambda>x. x \<noteq> CHR '':'') (correlation_key a b) = a" "takeWhile (\<lambda>x. x \<noteq> CHR '':'') (correlation_key c d) = c"
    using assms(1,2) unfolding correlation_key_def by (subst takeWhile_append2; auto)+
  then show ?thesis using assms(3) by (simp add: correlation_key_def)
qed

end
