(* ===== verification/Severity.thy ===== *)
theory Severity imports IncDomain begin

text \<open>
  The rule-based severity engine (\<open>severity.py\<close>) and the correlation decision
  (\<open>correlation.py\<close>) of the incident correlator, both pure functions.
\<close>

section \<open>Severity\<close>

record severity_config =
  sc_count_medium :: nat
  sc_signals_medium :: nat
  sc_error_high :: rat
  sc_latency_high :: rat
  sc_duration_high :: rat
  sc_error_critical :: rat
  sc_duration_critical :: rat
  sc_signals_critical :: nat

definition default_severity_config :: severity_config where
  "default_severity_config =
     \<lparr>sc_count_medium = 3, sc_signals_medium = 2, sc_error_high = 1 / 10, sc_latency_high = 500,
      sc_duration_high = 120, sc_error_critical = 3 / 10, sc_duration_critical = 300, sc_signals_critical = 2\<rparr>"

record severity_inputs =
  si_count :: nat
  si_distinct :: nat
  si_score :: rat
  si_error :: rat
  si_latency :: rat
  si_duration :: rat

record severity_verdict =
  sv_level :: severity
  sv_reasons :: "string list"

definition percent_str :: "rat \<Rightarrow> string" where
  "percent_str x = fixed_str 0 (x * 100) @ ''%''"

definition when_fires :: "bool \<Rightarrow> severity \<Rightarrow> string \<Rightarrow> (severity \<times> string) list" where
  "when_fires b l r = (if b then [(l, r)] else [])"

definition fired_rules :: "severity_config \<Rightarrow> severity_inputs \<Rightarrow> (severity \<times> string) list" where
  "fired_rules c i =
     when_fires (1 \<le> si_count i) LOW (nat_str (si_count i) @ '' anomaly window(s)'') @
     when_fires (sc_count_medium c \<le> si_count i) MEDIUM
       (''sustained: >= '' @ nat_str (sc_count_medium c) @ '' anomaly windows'') @
     when_fires (sc_signals_medium c \<le> si_distinct i) MEDIUM
       (nat_str (si_distinct i) @ '' distinct signals abnormal'') @
     when_fires (sc_error_high c \<le> si_error i) HIGH
       (''error rate '' @ percent_str (si_error i) @ '' >= '' @ percent_str (sc_error_high c)) @
     when_fires (sc_latency_high c \<le> si_latency i) HIGH
       (''p95 latency '' @ fixed_str 0 (si_latency i) @ ''ms >= '' @ fixed_str 0 (sc_latency_high c) @ ''ms'') @
     when_fires (sc_duration_high c \<le> si_duration i) HIGH
       (''duration '' @ fixed_str 0 (si_duration i) @ ''s >= '' @ fixed_str 0 (sc_duration_high c) @ ''s'') @
     when_fires (sc_error_critical c \<le> si_error i) CRITICAL
       (''error rate '' @ percent_str (si_error i) @ '' >= '' @ percent_str (sc_error_critical c)) @
     when_fires (sc_duration_critical c \<le> si_duration i \<and> sc_signals_critical c \<le> si_distinct i) CRITICAL
       (''multi-signal degradation sustained >= '' @ fixed_str 0 (sc_duration_critical c) @ ''s'')"

text \<open>\<open>max(..., key=rank)\<close> over the fired levels.\<close>

definition top_level :: "(severity \<times> string) list \<Rightarrow> severity" where
  "top_level fs = fold (\<lambda>f acc. max (fst f) acc) fs INFO"

definition evaluate_severity :: "severity_config \<Rightarrow> severity_inputs \<Rightarrow> severity_verdict" where
  "evaluate_severity c i =
     (let fired = fired_rules c i in
      if fired = [] then \<lparr>sv_level = INFO, sv_reasons = [''no rules fired'']\<rparr>
      else let top = top_level fired in
        \<lparr>sv_level = top, sv_reasons = map snd (filter (\<lambda>f. fst f = top) fired)\<rparr>)"

text \<open>The specification: the level of an incident by its thresholds alone.\<close>

definition severity_spec :: "severity_config \<Rightarrow> severity_inputs \<Rightarrow> severity" where
  "severity_spec c i =
     (if sc_error_critical c \<le> si_error i \<or>
         sc_duration_critical c \<le> si_duration i \<and> sc_signals_critical c \<le> si_distinct i then CRITICAL
      else if sc_error_high c \<le> si_error i \<or> sc_latency_high c \<le> si_latency i \<or> sc_duration_high c \<le> si_duration i then HIGH
      else if sc_count_medium c \<le> si_count i \<or> sc_signals_medium c \<le> si_distinct i then MEDIUM
      else if 1 \<le> si_count i then LOW else INFO)"

definition inputs_le :: "severity_inputs \<Rightarrow> severity_inputs \<Rightarrow> bool" where
  "inputs_le i j \<longleftrightarrow> si_count i \<le> si_count j \<and> si_distinct i \<le> si_distinct j \<and> si_error i \<le> si_error j \<and>
     si_latency i \<le> si_latency j \<and> si_duration i \<le> si_duration j"

lemma top_level_eq: "top_level fs = Max (insert INFO (fst ` set fs))"
  using Max.set_eq_fold [of INFO "map fst fs"]
  by (simp add: top_level_def fold_map comp_def)

lemma severity_cases [simp]:
  "INFO \<le> s" "s \<le> CRITICAL" "LOW \<le> MEDIUM" "LOW \<le> HIGH" "MEDIUM \<le> HIGH"
  "\<not> LOW \<le> INFO" "\<not> MEDIUM \<le> LOW" "\<not> MEDIUM \<le> INFO" "\<not> HIGH \<le> MEDIUM" "\<not> HIGH \<le> LOW" "\<not> HIGH \<le> INFO"
  by (cases s; simp add: less_eq_severity_def)+

lemma fired_levels:
  "fst ` set (fired_rules c i) =
     (if 1 \<le> si_count i then {LOW} else {}) \<union>
     (if sc_count_medium c \<le> si_count i \<or> sc_signals_medium c \<le> si_distinct i then {MEDIUM} else {}) \<union>
     (if sc_error_high c \<le> si_error i \<or> sc_latency_high c \<le> si_latency i \<or> sc_duration_high c \<le> si_duration i then {HIGH} else {}) \<union>
     (if sc_error_critical c \<le> si_error i \<or>
         sc_duration_critical c \<le> si_duration i \<and> sc_signals_critical c \<le> si_distinct i then {CRITICAL} else {})"
  by (auto simp: fired_rules_def when_fires_def)

lemma fired_empty: "fired_rules c i = [] \<Longrightarrow> severity_spec c i = INFO"
  by (auto simp: fired_rules_def when_fires_def severity_spec_def split: if_splits)

lemma Max_insert_INFO: "finite S \<Longrightarrow> x \<in> S \<Longrightarrow> \<forall>y \<in> S. y \<le> x \<Longrightarrow> Max (insert INFO S) = (x :: severity)"
  by (rule Max_eqI) auto

lemma severity_level: "sv_level (evaluate_severity c i) = severity_spec c i"
proof (cases "fired_rules c i = []")
  case True
  then show ?thesis by (simp add: evaluate_severity_def fired_empty)
next
  case False
  then have "sv_level (evaluate_severity c i) = Max (insert INFO (fst ` set (fired_rules c i)))"
    by (simp add: evaluate_severity_def Let_def top_level_eq)
  also have "\<dots> = severity_spec c i"
  proof (cases "severity_spec c i = INFO")
    case True
    then have "fst ` set (fired_rules c i) = {}"
      unfolding fired_levels severity_spec_def by (auto split: if_splits)
    then show ?thesis using True by simp
  next
    case False
    then show ?thesis unfolding fired_levels
      by (intro Max_insert_INFO) (auto simp: severity_spec_def split: if_splits)
  qed
  finally show ?thesis .
qed

lemma fired_reason:
  assumes "fired_rules c i \<noteq> []"
  shows "\<exists>f \<in> set (fired_rules c i). fst f = top_level (fired_rules c i)"
proof -
  let ?L = "fst ` set (fired_rules c i)"
  have ne: "?L \<noteq> {}" using assms by simp
  then have "Max (insert INFO ?L) = Max ?L" by (simp add: max_def)
  moreover have "Max ?L \<in> ?L" using ne by (intro Max_in) simp_all
  ultimately show ?thesis unfolding top_level_eq by (metis (no_types, lifting) imageE)
qed

lemma severity_mono: "inputs_le i j \<Longrightarrow> severity_spec c i \<le> severity_spec c j"
  unfolding inputs_le_def severity_spec_def by (auto intro: order_trans split: if_splits)

section \<open>Correlation decision\<close>

datatype correlation_action = CREATE | APPEND | SUPERSEDE

record correlation_decision =
  cd_action :: correlation_action
  cd_reason :: string

text \<open>\<open>window\<close> is \<open>CorrelationConfig.window_seconds\<close>, 300 by default.\<close>

definition default_window :: rat where
  "default_window = 300"

definition correlation_decide :: "rat \<Rightarrow> anomaly_signal \<Rightarrow> incident option \<Rightarrow> correlation_decision" where
  "correlation_decide window s act =
     (case act of
        None \<Rightarrow> \<lparr>cd_action = CREATE, cd_reason = ''no active incident for this service''\<rparr>
      | Some i \<Rightarrow>
          let gap = total_seconds (sg_occurred_at s - in_last_evidence i) in
          if gap \<le> window
          then \<lparr>cd_action = APPEND,
                cd_reason = ''within correlation window (gap '' @ fixed_str 0 gap @ ''s <= '' @ fixed_str 0 window @ ''s)''\<rparr>
          else \<lparr>cd_action = SUPERSEDE,
                cd_reason = ''previous incident quiet for '' @ fixed_str 0 gap @ ''s (> '' @ fixed_str 0 window @
                  ''s); starting a new one''\<rparr>)"

lemma correlation_action_cases:
  "cd_action (correlation_decide w s act) =
     (case act of None \<Rightarrow> CREATE
      | Some i \<Rightarrow> if total_seconds (sg_occurred_at s - in_last_evidence i) \<le> w then APPEND else SUPERSEDE)"
  by (simp add: correlation_decide_def Let_def split: option.split)

section \<open>Properties\<close>

text \<open>
  Claim C24. The severity engine is exact: the level is the highest whose thresholds are met, as the
  declarative \<open>severity_spec\<close> states it, there is always a reason, and more anomalies, more abnormal signals,
  a higher error rate or latency or a longer duration never lower it.
\<close>
theorem severity_exact:
  "sv_level (evaluate_severity c i) = severity_spec c i \<and> sv_reasons (evaluate_severity c i) \<noteq> [] \<and>
   (inputs_le i j \<longrightarrow> sv_level (evaluate_severity c i) \<le> sv_level (evaluate_severity c j))"
proof -
  have "sv_reasons (evaluate_severity c i) \<noteq> []"
  proof (cases "fired_rules c i = []")
    case False
    then show ?thesis using fired_reason [OF False] by (auto simp: evaluate_severity_def Let_def filter_empty_conv)
  qed (simp add: evaluate_severity_def)
  then show ?thesis by (simp add: severity_level severity_mono)
qed

lemma severity_exact_witness:
  "sv_level (evaluate_severity default_severity_config \<lparr>si_count = 1, si_distinct = 1, si_score = 1, si_error = 0, si_latency = 0, si_duration = 0\<rparr>)
   \<le> sv_level (evaluate_severity default_severity_config \<lparr>si_count = 3, si_distinct = 1, si_score = 1, si_error = 1 / 2, si_latency = 0, si_duration = 0\<rparr>)"
  using severity_exact [of default_severity_config "\<lparr>si_count = 1, si_distinct = 1, si_score = 1, si_error = 0, si_latency = 0, si_duration = 0\<rparr>"
      "\<lparr>si_count = 3, si_distinct = 1, si_score = 1, si_error = 1 / 2, si_latency = 0, si_duration = 0\<rparr>"]
  unfolding inputs_le_def by force

end
