(* ===== verification/Topology.thy ===== *)
theory Topology imports Severity "HOL-Library.Product_Lexorder" begin

text \<open>
  Cross-service correlation over a static dependency graph (\<open>topology.py\<close>). A graph is a Python dict
  from a service to the services it calls; \<open>None\<close> stands for the default graph.
\<close>

type_synonym service_graph = "(string, string list) dict"

definition SERVICE_DEPENDENCY_GRAPH :: service_graph where
  "SERVICE_DEPENDENCY_GRAPH = [(''orders-service'', [''payments-service'', ''inventory-service''])]"

record topology_config =
  tc_window :: rat
  tc_graph :: service_graph

definition default_topology_config :: topology_config where
  "default_topology_config = \<lparr>tc_window = 600, tc_graph = SERVICE_DEPENDENCY_GRAPH\<rparr>"

definition the_graph :: "service_graph option \<Rightarrow> service_graph" where
  "the_graph g = (case g of None \<Rightarrow> SERVICE_DEPENDENCY_GRAPH | Some d \<Rightarrow> d)"

definition dependencies_of :: "string \<Rightarrow> service_graph option \<Rightarrow> string list" where
  "dependencies_of svc g = (case map_of (the_graph g) svc of None \<Rightarrow> [] | Some ds \<Rightarrow> ds)"

definition dependents_of :: "string \<Rightarrow> service_graph option \<Rightarrow> string list" where
  "dependents_of svc g = sort (map fst (filter (\<lambda>(s, ds). svc \<in> set ds) (the_graph g)))"

definition related_services :: "string \<Rightarrow> service_graph option \<Rightarrow> string set" where
  "related_services svc g = set (dependencies_of svc g) \<union> set (dependents_of svc g)"

text \<open>\<open>timedelta(seconds=w)\<close> rounds to whole microseconds.\<close>

definition timedelta :: "rat \<Rightarrow> int" where
  "timedelta w = round_even (w * 1000000)"

definition incidents_overlap :: "incident \<Rightarrow> incident \<Rightarrow> rat \<Rightarrow> bool" where
  "incidents_overlap a b w \<longleftrightarrow>
     in_started a \<le> in_last_evidence b + timedelta w \<and> in_started b \<le> in_last_evidence a + timedelta w"

record incident_correlation =
  ic_incident :: string
  ic_related :: string
  ic_type :: string
  ic_reason :: string

definition order_edge :: "incident \<Rightarrow> incident \<Rightarrow> service_graph option \<Rightarrow> incident \<times> incident" where
  "order_edge i other g = (if in_service other \<in> set (dependencies_of (in_service i) g) then (i, other) else (other, i))"

definition find_related_incidents :: "incident \<Rightarrow> incident list \<Rightarrow> rat \<Rightarrow> service_graph option \<Rightarrow> string list" where
  "find_related_incidents i incs w g =
     (let neighbours = related_services (in_service i) g in
      if neighbours = {} then []
      else map in_id (filter (\<lambda>other. in_id other \<noteq> in_id i \<and> in_service other \<in> neighbours \<and>
             in_environment other = in_environment i \<and> incidents_overlap i other w) incs))"

definition group_of :: "(string, incident list) dict \<Rightarrow> string \<Rightarrow> incident list" where
  "group_of d svc = (case map_of d svc of None \<Rightarrow> [] | Some is \<Rightarrow> is)"

definition by_service :: "incident list \<Rightarrow> (string, incident list) dict" where
  "by_service incs = fold (\<lambda>i d. AList.update (in_service i) (group_of d (in_service i) @ [i]) d) incs []"

definition link_reason :: "string \<Rightarrow> string \<Rightarrow> rat \<Rightarrow> string" where
  "link_reason a b w =
     a @ '' depends on '' @ b @ ''; both had active incidents within '' @ fixed_str 0 w @ ''s''"

definition add_link ::
  "rat \<Rightarrow> service_graph option \<Rightarrow> incident \<Rightarrow> incident \<Rightarrow> (string \<times> string) set \<times> incident_correlation list \<Rightarrow>
   (string \<times> string) set \<times> incident_correlation list" where
  "add_link w g i other acc =
     (if in_environment other \<noteq> in_environment i then acc
      else if \<not> incidents_overlap i other w then acc
      else case order_edge i other g of (dt, dy) \<Rightarrow>
        let key = (in_id dt, in_id dy) in
        if key \<in> fst acc then acc
        else (insert key (fst acc),
              snd acc @ [\<lparr>ic_incident = in_id dt, ic_related = in_id dy, ic_type = ''dependency'',
                          ic_reason = link_reason (in_service dt) (in_service dy) w\<rparr>]))"

definition correlation_pair :: "incident_correlation \<Rightarrow> string \<times> string" where
  "correlation_pair c = (ic_incident c, ic_related c)"

definition correlate_incidents :: "incident list \<Rightarrow> rat \<Rightarrow> service_graph option \<Rightarrow> incident_correlation list" where
  "correlate_incidents incs w g =
     (let groups = by_service incs;
          links = snd (fold (\<lambda>i. fold (\<lambda>dep. fold (add_link w g i) (group_of groups dep)) (dependencies_of (in_service i) g))
                    (concat (map snd groups)) ({}, []))
      in sort_key correlation_pair links)"

section \<open>Facts\<close>

lemma lookup_in_distinct: "distinct (map fst d) \<Longrightarrow> map_of d k = Some v \<longleftrightarrow> (k, v) \<in> set d"
  by (auto intro: map_of_SomeD)

lemma in_dependencies:
  "distinct (map fst (the_graph g)) \<Longrightarrow> t \<in> set (dependencies_of s g) \<longleftrightarrow> (\<exists>ds. (s, ds) \<in> set (the_graph g) \<and> t \<in> set ds)"
  by (cases "map_of (the_graph g) s")
    (auto simp: dependencies_of_def map_of_eq_None_iff image_iff dest: map_of_SomeD eq_key_imp_eq_value)

lemma in_dependents: "s \<in> set (dependents_of t g) \<longleftrightarrow> (\<exists>ds. (s, ds) \<in> set (the_graph g) \<and> t \<in> set ds)"
  by (auto simp: dependents_of_def image_iff)

lemma dependents_iff:
  "distinct (map fst (the_graph g)) \<Longrightarrow> s \<in> set (dependents_of t g) \<longleftrightarrow> t \<in> set (dependencies_of s g)"
  by (simp add: in_dependencies in_dependents)

text \<open>Grouping is a partition by service, whatever the order of the incidents.\<close>

lemma by_service_fold:
  assumes "\<forall>s. group_of d s = filter (\<lambda>i. in_service i = s) xs" "fst ` set d = in_service ` set xs" "distinct (map fst d)"
  shows "let d' = fold (\<lambda>i d. AList.update (in_service i) (group_of d (in_service i) @ [i]) d) ys d in
    (\<forall>s. group_of d' s = filter (\<lambda>i. in_service i = s) (xs @ ys)) \<and>
    fst ` set d' = in_service ` set (xs @ ys) \<and> distinct (map fst d')"
  using assms
proof (induction ys arbitrary: d xs)
  case (Cons y ys)
  let ?d = "AList.update (in_service y) (group_of d (in_service y) @ [y]) d"
  have "\<forall>s. group_of ?d s = filter (\<lambda>i. in_service i = s) (xs @ [y])"
    using Cons.prems(1) by (auto simp: group_of_def map_of_update_if)
  moreover have "fst ` set ?d = in_service ` set (xs @ [y])" using Cons.prems(2) by (simp add: fst_set_update)
  moreover have "distinct (map fst ?d)" using Cons.prems(3) by (rule distinct_keys_update)
  ultimately show ?case using Cons.IH [of ?d "xs @ [y]"] by (simp add: Let_def)
qed simp

lemma by_service_facts:
  "group_of (by_service incs) s = filter (\<lambda>i. in_service i = s) incs"
  "distinct (map fst (by_service incs))"
proof -
  have "\<forall>s. group_of [] s = filter (\<lambda>i. in_service i = s) []" by (simp add: group_of_def)
  from by_service_fold [OF this, of incs]
  show "group_of (by_service incs) s = filter (\<lambda>i. in_service i = s) incs" "distinct (map fst (by_service incs))"
    by (simp_all add: by_service_def Let_def)
qed

lemma set_groups: "distinct (map fst d) \<Longrightarrow> set (concat (map snd d)) = (\<Union>s. set (group_of d s))"
  by (force simp: group_of_def split: option.splits dest: map_of_SomeD map_of_is_SomeI)

lemma set_by_service: "set (concat (map snd (by_service incs))) = set incs"
  unfolding set_groups [OF by_service_facts(2)] by_service_facts(1) by auto

definition linkable :: "rat \<Rightarrow> incident \<Rightarrow> incident \<Rightarrow> bool" where
  "linkable w i other \<longleftrightarrow> in_environment other = in_environment i \<and> incidents_overlap i other w"

definition links_ok :: "(string \<times> string) set \<times> incident_correlation list \<Rightarrow> bool" where
  "links_ok acc \<longleftrightarrow> fst acc = set (map correlation_pair (snd acc)) \<and> distinct (map correlation_pair (snd acc))"

lemma links_fold:
  assumes "\<And>x acc. x \<in> set xs \<Longrightarrow> links_ok acc \<Longrightarrow> links_ok (f x acc) \<and> fst (f x acc) = fst acc \<union> S x" and "links_ok acc"
  shows "links_ok (fold f xs acc) \<and> fst (fold f xs acc) = fst acc \<union> (\<Union>x \<in> set xs. S x)"
  using assms
proof (induction xs arbitrary: acc)
  case (Cons x xs)
  then have "links_ok (f x acc)" "fst (f x acc) = fst acc \<union> S x" by simp_all
  then show ?case using Cons.IH [of "f x acc"] Cons.prems(1) by auto
qed simp

lemma add_link_step:
  assumes "in_service other \<in> set (dependencies_of (in_service i) g)" "links_ok acc"
  shows "links_ok (add_link w g i other acc) \<and>
    fst (add_link w g i other acc) = fst acc \<union> (if linkable w i other then {(in_id i, in_id other)} else {})"
  using assms by (auto simp: add_link_def links_ok_def order_edge_def linkable_def Let_def correlation_pair_def)

lemma correlate_fold:
  "let acc = fold (\<lambda>i. fold (\<lambda>dep. fold (add_link w g i) (group_of (by_service incs) dep)) (dependencies_of (in_service i) g))
               (concat (map snd (by_service incs))) ({}, [])
   in links_ok acc \<and> fst acc = {(in_id i, in_id other) | i other. i \<in> set incs \<and> other \<in> set incs \<and>
        in_service other \<in> set (dependencies_of (in_service i) g) \<and> linkable w i other}"
proof -
  let ?L = "\<lambda>i other. if linkable w i other then {(in_id i, in_id other)} else {}"
  let ?G = "\<lambda>dep. filter (\<lambda>j. in_service j = dep) incs"
  have one: "links_ok (fold (add_link w g i) (?G dep) acc) \<and>
      fst (fold (add_link w g i) (?G dep) acc) = fst acc \<union> (\<Union>other \<in> set (?G dep). ?L i other)"
    if "dep \<in> set (dependencies_of (in_service i) g)" "links_ok acc" for i dep acc
    using that by (intro links_fold add_link_step) auto
  have two: "links_ok (fold (\<lambda>dep. fold (add_link w g i) (?G dep)) (dependencies_of (in_service i) g) acc) \<and>
      fst (fold (\<lambda>dep. fold (add_link w g i) (?G dep)) (dependencies_of (in_service i) g) acc) =
      fst acc \<union> (\<Union>dep \<in> set (dependencies_of (in_service i) g). \<Union>other \<in> set (?G dep). ?L i other)"
    if "links_ok acc" for i acc
    using that by (intro links_fold one) auto
  have "links_ok ({}, [])" by (simp add: links_ok_def)
  note all = links_fold [of "concat (map snd (by_service incs))" _ _ "({}, [])", OF two this]
  have "(\<Union>i \<in> set incs. \<Union>dep \<in> set (dependencies_of (in_service i) g). \<Union>other \<in> set (?G dep). ?L i other) =
    {(in_id i, in_id other) | i other. i \<in> set incs \<and> other \<in> set incs \<and>
        in_service other \<in> set (dependencies_of (in_service i) g) \<and> linkable w i other}" (is "?A = ?B")
  proof (rule set_eqI)
    fix p
    have "p \<in> ?A \<longleftrightarrow> (\<exists>i dep other. i \<in> set incs \<and> dep \<in> set (dependencies_of (in_service i) g) \<and> other \<in> set incs \<and>
      in_service other = dep \<and> linkable w i other \<and> p = (in_id i, in_id other))" by (auto split: if_splits)
    then show "p \<in> ?A \<longleftrightarrow> p \<in> ?B" by auto
  qed
  with all show ?thesis unfolding by_service_facts Let_def set_by_service by simp
qed

section \<open>Properties\<close>

text \<open>
  \<open>correlate_incidents\<close> is exact: its links are, each once and in the order of their pair of
  identifiers, precisely the pairs of incidents in one environment whose services are joined by a declared
  dependency and whose active intervals overlap within the window, and each points from the dependent
  incident to its dependency.
\<close>
theorem correlate_incidents_exact:
  "sorted (map correlation_pair (correlate_incidents incs w g)) \<and>
   distinct (map correlation_pair (correlate_incidents incs w g)) \<and>
   correlation_pair ` set (correlate_incidents incs w g) =
     {(in_id i, in_id other) | i other. {i, other} \<subseteq> set incs \<and>
        in_service other \<in> set (dependencies_of (in_service i) g) \<and>
        in_environment other = in_environment i \<and> incidents_overlap i other w}"
proof -
  define acc where "acc = fold (\<lambda>i. fold (\<lambda>dep. fold (add_link w g i) (group_of (by_service incs) dep)) (dependencies_of (in_service i) g))
               (concat (map snd (by_service incs))) ({}, [])"
  have "links_ok acc" and pairs: "fst acc = {(in_id i, in_id other) | i other. i \<in> set incs \<and> other \<in> set incs \<and>
        in_service other \<in> set (dependencies_of (in_service i) g) \<and> linkable w i other}"
    using correlate_fold [of w g incs] by (simp_all add: acc_def Let_def)
  moreover have "correlate_incidents incs w g = sort_key correlation_pair (snd acc)"
    by (simp only: correlate_incidents_def acc_def Let_def)
  moreover have "distinct (map correlation_pair (sort_key correlation_pair xs)) \<longleftrightarrow> distinct (map correlation_pair xs)" for xs
    by (simp add: distinct_map)
  ultimately show ?thesis by (simp add: links_ok_def linkable_def)
qed

end
