(* ===== verification/IncRepository.thy ===== *)
theory IncRepository imports Topology begin

text \<open>
  The in-memory incident repository (\<open>repository.py\<close>): the store, the unit of work that stages its
  writes and applies them on commit, and the queries. A unit of work reads the store while its body runs
  and does not see its own staged writes, except for the evidence identifiers.
\<close>

section \<open>Store and unit of work\<close>

datatype inc_error =
    DuplicateActiveIncidentError string
  | IncidentKeyError string
  | RetryableError string
  | AnomalyEventError
  | HTTP_NOT_FOUND
  | HTTP_CONFLICT
  | UnreachableAssertion

record inc_store =
  ins_incidents :: "(string, incident) dict"
  ins_evidence_ids :: "string set"
  ins_relations :: "incident_relation list"

definition empty_inc_store :: inc_store where
  "empty_inc_store = \<lparr>ins_incidents = [], ins_evidence_ids = {}, ins_relations = []\<rparr>"

datatype uow_op =
    InsertIncident incident
  | UpdateIncident incident
  | AddEvidence string evidence_record
  | AddTransition string state_transition
  | LinkIncident incident_relation

definition evidence_exists :: "string \<Rightarrow> inc_store \<Rightarrow> bool" where
  "evidence_exists eid st \<longleftrightarrow> eid \<in> ins_evidence_ids st"

definition active_for :: "string \<Rightarrow> incident \<Rightarrow> bool" where
  "active_for key i \<longleftrightarrow> in_key i = key \<and> in_status i \<in> INC_ACTIVE_STATUSES"

definition get_active_incident :: "string \<Rightarrow> inc_store \<Rightarrow> incident option" where
  "get_active_incident key st = find (active_for key) (map snd (ins_incidents st))"

definition active_incidents_in_services :: "string set \<Rightarrow> string \<Rightarrow> inc_store \<Rightarrow> incident list" where
  "active_incidents_in_services services env st =
     filter (\<lambda>i. in_service i \<in> services \<and> in_environment i = env \<and> in_status i \<in> INC_ACTIVE_STATUSES)
       (map snd (ins_incidents st))"

definition relation_pair :: "incident_relation \<Rightarrow> string \<times> string" where
  "relation_pair r = (il_incident r, il_related r)"

definition set_incident :: "string \<Rightarrow> incident \<Rightarrow> inc_store \<Rightarrow> inc_store" where
  "set_incident k i st = st\<lparr>ins_incidents := AList.update k i (ins_incidents st)\<rparr>"

text \<open>The staged write of each operation, run at commit.\<close>

fun apply_op :: "uow_op \<Rightarrow> inc_store \<Rightarrow> inc_error + inc_store" where
  "apply_op (InsertIncident i) st =
     (if list_ex (active_for (in_key i)) (map snd (ins_incidents st)) then Inl (DuplicateActiveIncidentError (in_key i))
      else Inr (set_incident (in_id i) (i\<lparr>in_evidence := [], in_history := []\<rparr>) st))"
| "apply_op (UpdateIncident i) st =
     (case map_of (ins_incidents st) (in_id i) of
        None \<Rightarrow> Inl (IncidentKeyError (in_id i))
      | Some stored \<Rightarrow>
          Inr (set_incident (in_id i) (i\<lparr>in_evidence := in_evidence stored, in_history := in_history stored\<rparr>) st))"
| "apply_op (AddEvidence k e) st =
     (case map_of (ins_incidents st) k of
        None \<Rightarrow> Inl (IncidentKeyError k)
      | Some stored \<Rightarrow>
          Inr ((set_incident k (stored\<lparr>in_evidence := in_evidence stored @ [e]\<rparr>) st)
                 \<lparr>ins_evidence_ids := insert (ev_event_id e) (ins_evidence_ids st)\<rparr>))"
| "apply_op (AddTransition k t) st =
     (case map_of (ins_incidents st) k of
        None \<Rightarrow> Inl (IncidentKeyError k)
      | Some stored \<Rightarrow> Inr (set_incident k (stored\<lparr>in_history := in_history stored @ [t]\<rparr>) st))"
| "apply_op (LinkIncident r) st =
     (if list_ex (\<lambda>x. relation_pair x = relation_pair r) (ins_relations st) then Inr st
      else Inr (st\<lparr>ins_relations := ins_relations st @ [r]\<rparr>))"

declare apply_op.simps [simp del]

text \<open>\<open>commit\<close> runs the staged writes in order; an exception leaves those before it applied.\<close>

fun commit :: "uow_op list \<Rightarrow> inc_store \<Rightarrow> (inc_error + unit) \<times> inc_store" where
  "commit [] st = (Inr (), st)"
| "commit (x # xs) st = (case apply_op x st of Inl e \<Rightarrow> (Inl e, st) | Inr st' \<Rightarrow> commit xs st')"

section \<open>Queries\<close>

definition get_incident :: "string \<Rightarrow> inc_store \<Rightarrow> incident option" where
  "get_incident k st = map_of (ins_incidents st) k"

definition related_ids :: "string \<Rightarrow> inc_store \<Rightarrow> string list" where
  "related_ids k st =
     concat (map (\<lambda>r. if il_incident r = k then [il_related r] else if il_related r = k then [il_incident r] else [])
       (ins_relations st))"

text \<open>Both listings sort by creation time, newest first, stably.\<close>

definition newest_first :: "incident list \<Rightarrow> incident list" where
  "newest_first is = sort_key (\<lambda>i. - in_created i) is"

definition get_related_incidents :: "string \<Rightarrow> inc_store \<Rightarrow> incident list" where
  "get_related_incidents k st =
     newest_first (concat (map (\<lambda>rid. case map_of (ins_incidents st) rid of None \<Rightarrow> [] | Some i \<Rightarrow> [i]) (related_ids k st)))"

definition link_incidents :: "string \<Rightarrow> string \<Rightarrow> relation_type \<Rightarrow> string \<Rightarrow> datetime \<Rightarrow> inc_store \<Rightarrow> inc_store" where
  "link_incidents a b t reason now st =
     (if list_ex (\<lambda>r. relation_pair r = (a, b)) (ins_relations st) then st
      else st\<lparr>ins_relations := ins_relations st @
        [\<lparr>il_incident = a, il_related = b, il_type = t, il_reason = reason, il_created = now\<rparr>]\<rparr>)"

record incident_filter =
  if_status :: "inc_status option"
  if_service :: "string option"
  if_severity :: "severity option"
  if_since :: "datetime option"
  if_limit :: nat
  if_offset :: nat

definition keeps :: "incident_filter \<Rightarrow> incident \<Rightarrow> bool" where
  "keeps f i \<longleftrightarrow>
     (case if_status f of None \<Rightarrow> True | Some s \<Rightarrow> in_status i = s) \<and>
     (case if_service f of None \<Rightarrow> True | Some s \<Rightarrow> in_service i = s) \<and>
     (case if_severity f of None \<Rightarrow> True | Some s \<Rightarrow> in_severity i = s) \<and>
     (case if_since f of None \<Rightarrow> True | Some t \<Rightarrow> t \<le> in_created i)"

definition list_incidents :: "incident_filter \<Rightarrow> inc_store \<Rightarrow> incident list" where
  "list_incidents f st = take (if_limit f) (drop (if_offset f) (newest_first (filter (keeps f) (map snd (ins_incidents st)))))"

definition get_evidence :: "string \<Rightarrow> inc_store \<Rightarrow> evidence_record list option" where
  "get_evidence k st = map_option in_evidence (map_of (ins_incidents st) k)"

definition get_history :: "string \<Rightarrow> inc_store \<Rightarrow> state_transition list option" where
  "get_history k st = map_option in_history (map_of (ins_incidents st) k)"

text \<open>A manual transition: whatever the current status is, the caller has validated.\<close>

definition transitioned :: "inc_status \<Rightarrow> string \<Rightarrow> string \<Rightarrow> datetime \<Rightarrow> incident \<Rightarrow> incident" where
  "transitioned tgt actor reason now i =
     i\<lparr>in_status := tgt, in_updated := now,
       in_acknowledged := (if tgt = ACKNOWLEDGED \<and> in_acknowledged i = None then Some now else in_acknowledged i),
       in_resolved_at := (if tgt = RESOLVED then Some now else in_resolved_at i),
       in_resolution := (if tgt = RESOLVED
         then (case in_resolution i of None \<Rightarrow> Some ''manual'' | Some r \<Rightarrow> Some (if r = [] then ''manual'' else r))
         else in_resolution i),
       in_history := in_history i @
         [\<lparr>tr_from = Some (in_status i), tr_to = tgt, tr_actor = actor, tr_reason = reason,
           tr_severity = Some (in_severity i), tr_created = now\<rparr>]\<rparr>"

definition apply_transition ::
  "string \<Rightarrow> inc_status \<Rightarrow> string \<Rightarrow> string \<Rightarrow> datetime \<Rightarrow> inc_store \<Rightarrow> incident option \<times> inc_store" where
  "apply_transition k tgt actor reason now st =
     (case map_of (ins_incidents st) k of
        None \<Rightarrow> (None, st)
      | Some i \<Rightarrow> let i' = transitioned tgt actor reason now i in (Some i', set_incident k i' st))"

section \<open>Facts\<close>

lemma commit_append:
  "commit (xs @ ys) st = (case commit xs st of (Inl e, st') \<Rightarrow> (Inl e, st') | (Inr u, st') \<Rightarrow> commit ys st')"
  by (induction xs arbitrary: st) (auto split: sum.split)

lemma set_incident_sel [simp]:
  "ins_incidents (set_incident k i st) = AList.update k i (ins_incidents st)"
  "ins_evidence_ids (set_incident k i st) = ins_evidence_ids st"
  "ins_relations (set_incident k i st) = ins_relations st"
  by (simp_all add: set_incident_def)

lemma get_active_Some:
  "get_active_incident key st = Some i \<Longrightarrow> i \<in> snd ` set (ins_incidents st) \<and> in_key i = key \<and> in_status i \<noteq> RESOLVED"
  by (auto simp: get_active_incident_def find_Some_iff active_for_def in_set_conv_nth image_iff)
    (metis length_map nth_map nth_mem snd_conv prod.exhaust_sel)

lemma get_active_None:
  "get_active_incident key st = None \<longleftrightarrow> (\<forall>i \<in> snd ` set (ins_incidents st). \<not> active_for key i)"
  by (auto simp: get_active_incident_def find_None_iff)

end
