(* ===== verification/Processor.thy ===== *)
theory Processor imports IncRepository begin

text \<open>
  The anomaly processor (\<open>processor.py\<close>) with the lifecycle events it publishes (\<open>events.py\<close>). One
  request carries the values the code draws: the random part of a new identifier and the clock readings,
  both numbered by the call that draws them.
\<close>

section \<open>Lifecycle events\<close>

record lifecycle_event =
  le_type :: string
  le_version :: nat
  le_source :: string
  le_incident_id :: string
  le_key :: string
  le_service :: string
  le_environment :: string
  le_status :: string
  le_severity :: string
  le_count :: nat
  le_title :: string
  le_started :: string
  le_updated :: string
  le_change :: string

definition change_to_event_type :: "string \<Rightarrow> string" where
  "change_to_event_type change =
     (case map_of [(''opened'', ''incident.opened''), (''resolved'', ''incident.resolved'')] change of
        None \<Rightarrow> ''incident.updated'' | Some t \<Rightarrow> t)"

definition lifecycle_envelope :: "incident \<Rightarrow> string \<Rightarrow> lifecycle_event" where
  "lifecycle_envelope i change =
     \<lparr>le_type = change_to_event_type change, le_version = 1, le_source = ''incident-correlator'',
      le_incident_id = in_id i, le_key = in_key i, le_service = in_service i, le_environment = in_environment i,
      le_status = inc_status_str (in_status i), le_severity = severity_str (in_severity i), le_count = in_count i,
      le_title = in_title i, le_started = isoformat (in_started i), le_updated = isoformat (in_updated i),
      le_change = change\<rparr>"

section \<open>Processor\<close>

datatype process_result = PR_CREATED | PR_APPENDED | PR_SUPERSEDED | PR_DUPLICATE

record process_outcome =
  po_result :: process_result
  po_incident :: "string option"
  po_reason :: string

record processor_config =
  pc_window :: rat
  pc_severity :: severity_config
  pc_topology :: topology_config
  pc_retries :: nat

definition default_processor_config :: processor_config where
  "default_processor_config =
     \<lparr>pc_window = default_window, pc_severity = default_severity_config,
      pc_topology = default_topology_config, pc_retries = 3\<rparr>"

record draws =
  dr_token :: string
  dr_clock :: "nat \<Rightarrow> datetime"

definition new_incident_id :: "string \<Rightarrow> string" where
  "new_incident_id tok = ''inc_'' @ tok"

definition evidence_of :: "anomaly_signal \<Rightarrow> string \<Rightarrow> evidence_record" where
  "evidence_of s reason =
     \<lparr>ev_event_id = sg_event_id s, ev_detector = sg_detector s, ev_detector_version = sg_detector_version s,
      ev_score = sg_score s, ev_threshold = sg_threshold s, ev_window_start = sg_window_start s,
      ev_window_end = sg_window_end s, ev_signals = sg_signals s, ev_abnormal = sg_abnormal s,
      ev_trace_id = sg_trace_id s, ev_occurred_at = sg_occurred_at s, ev_reason = reason\<rparr>"

definition signal_value :: "(string, rat) dict \<Rightarrow> string \<Rightarrow> rat" where
  "signal_value d k = (case map_of d k of None \<Rightarrow> 0 | Some v \<Rightarrow> v)"

definition severity_inputs_of :: "incident \<Rightarrow> severity_inputs" where
  "severity_inputs_of i =
     \<lparr>si_count = in_count i, si_distinct = distinct_abnormal_signals i, si_score = in_max_score i,
      si_error = in_max_error i, si_latency = in_max_latency i, si_duration = duration_seconds i\<rparr>"

definition title_of :: "severity \<Rightarrow> incident \<Rightarrow> string" where
  "title_of l i =
     severity_str l @ '' - '' @ (let t = join '', '' (in_abnormal i) in if t = [] then ''anomaly'' else t) @
     '' in '' @ in_service i @ '' ('' @ in_environment i @ '')''"

definition absorb :: "severity_config \<Rightarrow> datetime \<Rightarrow> incident \<Rightarrow> anomaly_signal \<Rightarrow> incident" where
  "absorb c now i s =
     (let i1 = i\<lparr>in_count := in_count i + 1,
                 in_last_evidence := max (in_last_evidence i) (sg_window_end s),
                 in_started := min (in_started i) (sg_window_start s),
                 in_updated := now,
                 in_max_score := max (in_max_score i) (sg_score s),
                 in_max_error := max (in_max_error i) (signal_value (sg_signals s) ''error_rate''),
                 in_max_latency := max (in_max_latency i) (signal_value (sg_signals s) ''latency_p95_ms''),
                 in_abnormal := sorted_list_of_set (set (in_abnormal i) \<union> set (sg_abnormal s))\<rparr>;
          v = evaluate_severity c (severity_inputs_of i1)
      in i1\<lparr>in_severity := sv_level v, in_severity_reasons := sv_reasons v, in_title := title_of (sv_level v) i1\<rparr>)"

definition fresh_incident :: "anomaly_signal \<Rightarrow> string \<Rightarrow> datetime \<Rightarrow> incident" where
  "fresh_incident s tok now =
     \<lparr>in_id = new_incident_id tok, in_key = signal_key s, in_service = sg_service s, in_environment = sg_environment s,
      in_status = OPEN, in_severity = INFO, in_severity_reasons = [],
      in_title = ''Anomalous behaviour in '' @ sg_service s @ '' ('' @ sg_environment s @ '')'',
      in_count = 0, in_max_score = 0, in_max_error = 0, in_max_latency = 0, in_detector = sg_detector s,
      in_started = sg_window_start s, in_last_evidence = sg_window_end s, in_created = now, in_updated = now,
      in_abnormal = [], in_acknowledged = None, in_resolved_at = None, in_resolution = None,
      in_evidence = [], in_history = []\<rparr>"

definition new_incident ::
  "severity_config \<Rightarrow> anomaly_signal \<Rightarrow> string \<Rightarrow> draws \<Rightarrow> incident \<times> evidence_record \<times> state_transition" where
  "new_incident c s reason dr =
     (let now = dr_clock dr 0;
          i = absorb c (dr_clock dr 1) (fresh_incident s (dr_token dr) now) s
      in (i, evidence_of s reason,
          \<lparr>tr_from = None, tr_to = OPEN, tr_actor = ''system'', tr_reason = reason,
           tr_severity = Some (in_severity i), tr_created = now\<rparr>))"

definition auto_resolve :: "datetime \<Rightarrow> string \<Rightarrow> incident \<Rightarrow> incident \<times> state_transition" where
  "auto_resolve now reason i =
     (i\<lparr>in_status := RESOLVED, in_resolved_at := Some (in_last_evidence i), in_resolution := Some ''auto:stale'',
        in_updated := now\<rparr>,
      \<lparr>tr_from = Some (in_status i), tr_to = RESOLVED, tr_actor = ''system'', tr_reason = ''auto-resolved: '' @ reason,
       tr_severity = Some (in_severity i), tr_created = now\<rparr>)"

text \<open>The links of one incident: candidates are read from the store, the writes are staged.\<close>

definition link_of :: "topology_config \<Rightarrow> datetime \<Rightarrow> incident \<Rightarrow> incident \<Rightarrow> incident_relation" where
  "link_of tc now i other =
     (let down = in_service other \<in> set (dependencies_of (in_service i) (Some (tc_graph tc)));
          dt = (if down then i else other); dy = (if down then other else i)
      in \<lparr>il_incident = in_id dt, il_related = in_id dy, il_type = DEPENDENCY,
          il_reason = in_service dt @ '' depends on '' @ in_service dy @ ''; concurrent incidents within '' @
            fixed_str 0 (tc_window tc) @ ''s'',
          il_created = now\<rparr>)"

definition related_links :: "topology_config \<Rightarrow> datetime \<Rightarrow> incident \<Rightarrow> inc_store \<Rightarrow> incident_relation list" where
  "related_links tc now i st =
     (let neighbours = related_services (in_service i) (Some (tc_graph tc)) in
      if neighbours = {} then []
      else map (link_of tc now i)
        (filter (\<lambda>other. in_id other \<noteq> in_id i \<and> incidents_overlap i other (tc_window tc))
          (active_incidents_in_services neighbours (in_environment i) st)))"

definition link_related_incidents :: "topology_config \<Rightarrow> datetime \<Rightarrow> incident \<Rightarrow> inc_store \<Rightarrow> uow_op list" where
  "link_related_incidents tc now i st = map LinkIncident (related_links tc now i st)"

text \<open>
  The body of the unit of work: the staged writes, the incident the lifecycle event is about with its
  change, and the outcome.
\<close>

definition opened_ops :: "incident \<times> evidence_record \<times> state_transition \<Rightarrow> uow_op list" where
  "opened_ops n = (case n of (i, e, t) \<Rightarrow> [InsertIncident i, AddEvidence (in_id i) e, AddTransition (in_id i) t])"

definition process_body ::
  "processor_config \<Rightarrow> anomaly_signal \<Rightarrow> draws \<Rightarrow> inc_store \<Rightarrow>
   uow_op list \<times> (incident \<times> string) option \<times> process_outcome" where
  "process_body c s dr st =
     (if evidence_exists (sg_event_id s) st
      then ([], None, \<lparr>po_result = PR_DUPLICATE, po_incident = None, po_reason = ''duplicate event_id''\<rparr>)
      else
        let act = get_active_incident (signal_key s) st;
            d = correlation_decide (pc_window c) s act;
            new = new_incident (pc_severity c) s (cd_reason d) dr;
            link = (\<lambda>i. link_related_incidents (pc_topology c) (dr_clock dr 3) i st)
        in case (cd_action d, act) of
            (APPEND, Some a) \<Rightarrow>
              (let a' = absorb (pc_severity c) (dr_clock dr 1) a s;
                   change = (if in_severity a' \<noteq> in_severity a then ''severity-changed'' else ''evidence-added'')
               in (UpdateIncident a' # AddEvidence (in_id a') (evidence_of s (cd_reason d)) # link a',
                   Some (a', change),
                   \<lparr>po_result = PR_APPENDED, po_incident = Some (in_id a'), po_reason = cd_reason d\<rparr>))
          | (SUPERSEDE, Some a) \<Rightarrow>
              (case auto_resolve (dr_clock dr 2) (cd_reason d) a of (a', t) \<Rightarrow>
                (UpdateIncident a' # AddTransition (in_id a') t # opened_ops new @ link (fst new),
                 Some (fst new, ''opened''),
                 \<lparr>po_result = PR_SUPERSEDED, po_incident = Some (in_id (fst new)), po_reason = cd_reason d\<rparr>))
          | _ \<Rightarrow>
              (opened_ops new @ link (fst new), Some (fst new, ''opened''),
               \<lparr>po_result = PR_CREATED, po_incident = Some (in_id (fst new)), po_reason = cd_reason d\<rparr>))"

text \<open>One attempt: the writes are committed, and only then is the event handed to the producer.\<close>

definition process_once ::
  "processor_config \<Rightarrow> anomaly_signal \<Rightarrow> draws \<Rightarrow> inc_store \<Rightarrow>
   (inc_error + process_outcome \<times> lifecycle_event list) \<times> inc_store" where
  "process_once c s dr st =
     (case process_body c s dr st of
        (ops, pub, outcome) \<Rightarrow>
          (case commit ops st of
             (Inl e, st') \<Rightarrow> (Inl e, st')
           | (Inr _, st') \<Rightarrow>
               (Inr (outcome, case pub of None \<Rightarrow> [] | Some (i, change) \<Rightarrow> [lifecycle_envelope i change]), st')))"

text \<open>
  The retry loop over the draws of each attempt; a lost create race is retried, another exception
  propagates.
\<close>

fun process_attempts ::
  "processor_config \<Rightarrow> anomaly_signal \<Rightarrow> draws list \<Rightarrow> inc_store \<Rightarrow>
   (inc_error + process_outcome \<times> lifecycle_event list) \<times> inc_store" where
  "process_attempts c s [] st = (Inl (RetryableError (signal_key s)), st)"
| "process_attempts c s (dr # drs) st =
     (case process_once c s dr st of
        (Inl (DuplicateActiveIncidentError k), st') \<Rightarrow> process_attempts c s drs st'
      | (r, st') \<Rightarrow> (r, st'))"

definition process ::
  "processor_config \<Rightarrow> anomaly_signal \<Rightarrow> (nat \<Rightarrow> draws) \<Rightarrow> inc_store \<Rightarrow>
   (inc_error + process_outcome \<times> lifecycle_event list) \<times> inc_store" where
  "process c s drs st =
     (if pc_retries c = 0 then (Inl UnreachableAssertion, st)
      else process_attempts c s (map drs [0..<pc_retries c]) st)"

text \<open>\<open>_publish\<close> is best effort: nothing without a ready producer, and a failed send is swallowed.\<close>

definition publish :: "bool \<Rightarrow> bool \<Rightarrow> lifecycle_event list \<Rightarrow> lifecycle_event list \<Rightarrow> lifecycle_event list" where
  "publish ready sent evs topic = (if ready \<and> sent then topic @ evs else topic)"

end
