(* ===== verification/IncApi.thy ===== *)
theory IncApi imports Processor begin

text \<open>
  The transition endpoints of the incident API (\<open>api.py\<close>) and the system they form with the processor.
  A unit of work and a repository call are one transaction each; an endpoint makes two calls, so other
  transactions can run between the validation and the write.
\<close>

section \<open>Handlers\<close>

record transition_request =
  tq_id :: string
  tq_target :: inc_status
  tq_actor :: string
  tq_reason :: string
  tq_now :: datetime

definition load_incident :: "string \<Rightarrow> inc_store \<Rightarrow> inc_error + incident" where
  "load_incident k st = (case get_incident k st of None \<Rightarrow> Inl HTTP_NOT_FOUND | Some i \<Rightarrow> Inr i)"

definition transition_check :: "transition_request \<Rightarrow> inc_store \<Rightarrow> inc_error + incident" where
  "transition_check q st =
     and_then (load_incident (tq_id q) st) (\<lambda>i.
       case inc_validate_transition (in_status i) (tq_target q) (tq_actor q) of
         Inl _ \<Rightarrow> Inl HTTP_CONFLICT
       | Inr _ \<Rightarrow> Inr i)"

definition transition_apply :: "transition_request \<Rightarrow> inc_store \<Rightarrow> incident option \<times> inc_store" where
  "transition_apply q st = apply_transition (tq_id q) (tq_target q) (tq_actor q) (tq_reason q) (tq_now q) st"

text \<open>The endpoint run without interruption.\<close>

definition transition_handler :: "transition_request \<Rightarrow> inc_store \<Rightarrow> (inc_error + incident) \<times> inc_store" where
  "transition_handler q st =
     (case transition_check q st of
        Inl e \<Rightarrow> (Inl e, st)
      | Inr _ \<Rightarrow>
          (case transition_apply q st of
             (None, st') \<Rightarrow> (Inl UnreachableAssertion, st')
           | (Some i, st') \<Rightarrow> (Inr i, st')))"

text \<open>\<open>POST /{id}/acknowledge\<close> and \<open>POST /{id}/resolve\<close>; the user's name is the actor.\<close>

definition acknowledge :: "string \<Rightarrow> string \<Rightarrow> datetime \<Rightarrow> inc_store \<Rightarrow> (inc_error + incident) \<times> inc_store" where
  "acknowledge k user now st =
     transition_handler \<lparr>tq_id = k, tq_target = ACKNOWLEDGED, tq_actor = user, tq_reason = ''acknowledged via API'', tq_now = now\<rparr> st"

definition resolve :: "string \<Rightarrow> string \<Rightarrow> string option \<Rightarrow> datetime \<Rightarrow> inc_store \<Rightarrow> (inc_error + incident) \<times> inc_store" where
  "resolve k user reason now st =
     transition_handler \<lparr>tq_id = k, tq_target = RESOLVED, tq_actor = user,
       tq_reason = (case reason of None \<Rightarrow> ''resolved via API'' | Some r \<Rightarrow> r), tq_now = now\<rparr> st"

section \<open>The system\<close>

record inc_world =
  iw_store :: inc_store
  iw_pending :: "(transition_request \<times> inc_status) list"
  iw_topic :: "lifecycle_event list"

definition initial_inc_world :: inc_world where
  "initial_inc_world = \<lparr>iw_store = empty_inc_store, iw_pending = [], iw_topic = []\<rparr>"

text \<open>
  With \<open>guarded\<close> a validated transition is only applied to the status it was validated against, as it
  would be with the row locked over both calls; without it, as the code has it, to whatever is there.
\<close>

inductive inc_step :: "processor_config \<Rightarrow> bool \<Rightarrow> inc_world \<Rightarrow> inc_world \<Rightarrow> bool"
  for c :: processor_config and guarded :: bool
where
  processed: "process_once c s dr (iw_store w) = (r, st') \<Longrightarrow>
     get_incident (new_incident_id (dr_token dr)) (iw_store w) = None \<Longrightarrow>
     inc_step c guarded w (w\<lparr>iw_store := st',
       iw_topic := publish ready sent (case r of Inl _ \<Rightarrow> [] | Inr (_, evs) \<Rightarrow> evs) (iw_topic w)\<rparr>)"
| validated: "transition_check q (iw_store w) = Inr i \<Longrightarrow>
     inc_step c guarded w (w\<lparr>iw_pending := iw_pending w @ [(q, in_status i)]\<rparr>)"
| applied: "iw_pending w = xs @ (q, seen) # ys \<Longrightarrow>
     (guarded \<Longrightarrow> map_option in_status (get_incident (tq_id q) (iw_store w)) = Some seen) \<Longrightarrow>
     transition_apply q (iw_store w) = (r, st') \<Longrightarrow>
     inc_step c guarded w (w\<lparr>iw_store := st', iw_pending := xs @ ys\<rparr>)"

definition inc_reachable :: "processor_config \<Rightarrow> bool \<Rightarrow> inc_world \<Rightarrow> bool" where
  "inc_reachable c guarded w \<longleftrightarrow> (inc_step c guarded)\<^sup>*\<^sup>* initial_inc_world w"

inductive_cases inc_stepE: "inc_step c guarded w w'"

end
