(* ===== verification/IncCommit.thy ===== *)
theory IncCommit imports IncApi begin

text \<open>
  Closed forms: what one unit of work writes, as one update of the store per outcome, and from them the
  result of \<open>process_once\<close> in each of its branches.
\<close>

section \<open>Closed form of the unit of work\<close>

abbreviation inc_at :: "inc_store \<Rightarrow> string \<Rightarrow> incident option" where
  "inc_at st \<equiv> map_of (ins_incidents st)"

definition add_relation :: "incident_relation \<Rightarrow> incident_relation list \<Rightarrow> incident_relation list" where
  "add_relation r rs = (if list_ex (\<lambda>x. relation_pair x = relation_pair r) rs then rs else rs @ [r])"

definition with_links :: "incident_relation list \<Rightarrow> inc_store \<Rightarrow> inc_store" where
  "with_links ls st = st\<lparr>ins_relations := fold add_relation ls (ins_relations st)\<rparr>"

definition with_event :: "string \<Rightarrow> inc_store \<Rightarrow> inc_store" where
  "with_event eid st = st\<lparr>ins_evidence_ids := insert eid (ins_evidence_ids st)\<rparr>"

lemma with_sel [simp]:
  "ins_incidents (with_links ls st) = ins_incidents st" "ins_evidence_ids (with_links ls st) = ins_evidence_ids st"
  "ins_relations (with_links ls st) = fold add_relation ls (ins_relations st)"
  "ins_incidents (with_event eid st) = ins_incidents st"
  "ins_evidence_ids (with_event eid st) = insert eid (ins_evidence_ids st)"
  "ins_relations (with_event eid st) = ins_relations st"
  by (simp_all add: with_links_def with_event_def)

lemma commit_links: "commit (map LinkIncident ls) st = (Inr (), with_links ls st)"
  by (induction ls arbitrary: st) (auto simp: with_links_def add_relation_def apply_op.simps)

lemma set_incident_twice [simp]: "set_incident k i (set_incident k j st) = set_incident k i st"
  by (simp add: set_incident_def)

lemma set_incident_event [simp]: "set_incident k i (with_event e st) = with_event e (set_incident k i st)"
  by (cases st) (simp add: set_incident_def with_event_def)

lemma apply_update:
  "inc_at st (in_id i) = Some j \<Longrightarrow> in_evidence i = in_evidence j \<Longrightarrow> in_history i = in_history j \<Longrightarrow>
   apply_op (UpdateIncident i) st = Inr (set_incident (in_id i) i st)"
  by (cases i) (simp add: apply_op.simps)

lemma apply_evidence:
  "inc_at st k = Some j \<Longrightarrow> apply_op (AddEvidence k e) st =
     Inr (with_event (ev_event_id e) (set_incident k (j\<lparr>in_evidence := in_evidence j @ [e]\<rparr>) st))"
  by (simp add: apply_op.simps with_event_def)

lemma apply_history:
  "inc_at st k = Some j \<Longrightarrow> apply_op (AddTransition k t) st =
     Inr (set_incident k (j\<lparr>in_history := in_history j @ [t]\<rparr>) st)"
  by (simp add: apply_op.simps)

lemmas apply_rows = apply_update apply_evidence apply_history map_of_update_if

text \<open>Opening an incident.\<close>

definition opened :: "incident \<times> evidence_record \<times> state_transition \<Rightarrow> incident" where
  "opened n = (case n of (i, e, t) \<Rightarrow> i\<lparr>in_evidence := [e], in_history := [t]\<rparr>)"

lemma commit_opened:
  "commit (opened_ops n @ map LinkIncident ls) st =
     (if list_ex (active_for (in_key (fst n))) (map snd (ins_incidents st))
      then (Inl (DuplicateActiveIncidentError (in_key (fst n))), st)
      else (Inr (), with_links ls (with_event (ev_event_id (fst (snd n))) (set_incident (in_id (fst n)) (opened n) st))))"
proof (cases n)
  case (fields i e t)
  have "commit (AddEvidence (in_id i) e # AddTransition (in_id i) t # xs) (set_incident (in_id i) (i\<lparr>in_evidence := [], in_history := []\<rparr>) st) =
    commit xs (with_event (ev_event_id e) (set_incident (in_id i) (i\<lparr>in_evidence := [e], in_history := [t]\<rparr>) st))" for xs
    by (simp add: apply_rows)
  then show ?thesis by (simp add: fields opened_ops_def opened_def commit_links apply_op.simps)
qed

lemma absorb_keeps [simp]:
  "in_id (absorb c now i s) = in_id i" "in_key (absorb c now i s) = in_key i" "in_service (absorb c now i s) = in_service i"
  "in_environment (absorb c now i s) = in_environment i" "in_status (absorb c now i s) = in_status i"
  "in_evidence (absorb c now i s) = in_evidence i" "in_history (absorb c now i s) = in_history i"
  "in_resolved_at (absorb c now i s) = in_resolved_at i" "in_resolution (absorb c now i s) = in_resolution i"
  "in_created (absorb c now i s) = in_created i" "in_acknowledged (absorb c now i s) = in_acknowledged i"
  "in_detector (absorb c now i s) = in_detector i"
  by (simp_all add: absorb_def Let_def)

lemma fresh_incident_sel [simp]:
  "in_id (fresh_incident s tok now) = new_incident_id tok" "in_key (fresh_incident s tok now) = signal_key s"
  "in_service (fresh_incident s tok now) = sg_service s" "in_environment (fresh_incident s tok now) = sg_environment s"
  "in_status (fresh_incident s tok now) = OPEN" "in_resolved_at (fresh_incident s tok now) = None"
  "in_evidence (fresh_incident s tok now) = []" "in_history (fresh_incident s tok now) = []"
  "in_resolution (fresh_incident s tok now) = None"
  by (simp_all add: fresh_incident_def)

definition grown :: "severity_config \<Rightarrow> datetime \<Rightarrow> string \<Rightarrow> anomaly_signal \<Rightarrow> incident \<Rightarrow> incident" where
  "grown c now reason s i = (absorb c now i s)\<lparr>in_evidence := in_evidence i @ [evidence_of s reason]\<rparr>"

definition stale_resolved :: "datetime \<Rightarrow> string \<Rightarrow> incident \<Rightarrow> incident" where
  "stale_resolved now reason i =
     (fst (auto_resolve now reason i))\<lparr>in_history := in_history i @ [snd (auto_resolve now reason i)]\<rparr>"

lemma new_incident_sel [simp]:
  "in_id (fst (new_incident c s r dr)) = new_incident_id (dr_token dr)"
  "in_key (fst (new_incident c s r dr)) = signal_key s"
  "ev_event_id (fst (snd (new_incident c s r dr))) = sg_event_id s"
  "in_environment (fst (new_incident c s r dr)) = sg_environment s"
  "in_service (fst (new_incident c s r dr)) = sg_service s"
  by (simp_all add: new_incident_def Let_def evidence_of_def)

lemma commit_append_case:
  assumes "inc_at st (in_id a) = Some a"
  shows "commit (UpdateIncident (absorb c now a s) # AddEvidence (in_id a) (evidence_of s r) # map LinkIncident ls) st =
    (Inr (), with_links ls (with_event (sg_event_id s) (set_incident (in_id a) (grown c now r s a) st)))"
  using assms apply_update [of st "absorb c now a s" a]
  by (simp add: apply_rows commit_links grown_def) (simp add: evidence_of_def)

lemma commit_supersede_case:
  assumes "inc_at st (in_id a) = Some a" "auto_resolve now r a = (a', t)"
  shows "commit (UpdateIncident a' # AddTransition (in_id a') t # xs) st = commit xs (set_incident (in_id a) (stale_resolved now r a) st)"
  using assms apply_update [of st a' a]
  by (auto simp: auto_resolve_def apply_rows stale_resolved_def)

section \<open>The four outcomes\<close>

declare commit.simps [simp del]

definition keyed :: "inc_store \<Rightarrow> bool" where
  "keyed st \<longleftrightarrow> distinct (map fst (ins_incidents st)) \<and> (\<forall>k i. inc_at st k = Some i \<longrightarrow> in_id i = k)"

lemma values_at: assumes "keyed st" shows "i \<in> snd ` set (ins_incidents st) \<longleftrightarrow> inc_at st (in_id i) = Some i"
proof
  assume "i \<in> snd ` set (ins_incidents st)"
  then obtain j where "inc_at st j = Some i" using assms by (auto simp: keyed_def)
  then show "inc_at st (in_id i) = Some i" using assms by (auto simp: keyed_def)
qed (force dest: map_of_SomeD)

lemma active_at:
  "keyed st \<Longrightarrow> get_active_incident key st = Some a \<Longrightarrow> inc_at st (in_id a) = Some a \<and> in_key a = key \<and> in_status a \<noteq> RESOLVED"
  using get_active_Some [of key st a] values_at by blast

lemma any_active:
  "keyed st \<Longrightarrow> list_ex (active_for key) (map snd (ins_incidents st)) \<longleftrightarrow>
     (\<exists>k i. inc_at st k = Some i \<and> in_key i = key \<and> in_status i \<noteq> RESOLVED)"
  unfolding list_ex_iff set_map active_for_def INC_ACTIVE_iff by (metis (no_types, lifting) keyed_def values_at)

definition quiet_too_long :: "processor_config \<Rightarrow> anomaly_signal \<Rightarrow> incident \<Rightarrow> bool" where
  "quiet_too_long c s a \<longleftrightarrow> pc_window c < total_seconds (sg_occurred_at s - in_last_evidence a)"

abbreviation decision_reason :: "processor_config \<Rightarrow> anomaly_signal \<Rightarrow> incident option \<Rightarrow> string" where
  "decision_reason c s act \<equiv> cd_reason (correlation_decide (pc_window c) s act)"

abbreviation links_for :: "processor_config \<Rightarrow> draws \<Rightarrow> incident \<Rightarrow> inc_store \<Rightarrow> incident_relation list" where
  "links_for c dr i st \<equiv> related_links (pc_topology c) (dr_clock dr 3) i st"

lemma process_duplicate:
  "evidence_exists (sg_event_id s) st \<Longrightarrow>
   process_once c s dr st = (Inr (\<lparr>po_result = PR_DUPLICATE, po_incident = None, po_reason = ''duplicate event_id''\<rparr>, []), st)"
  by (simp add: process_once_def process_body_def commit.simps(1))

lemma process_create:
  assumes "\<not> evidence_exists (sg_event_id s) st" "get_active_incident (signal_key s) st = None"
    and n: "n = new_incident (pc_severity c) s (decision_reason c s None) dr"
  shows "process_once c s dr st =
    (Inr (\<lparr>po_result = PR_CREATED, po_incident = Some (in_id (fst n)), po_reason = decision_reason c s None\<rparr>,
          [lifecycle_envelope (fst n) ''opened'']),
     with_links (links_for c dr (fst n) st) (with_event (sg_event_id s) (set_incident (in_id (fst n)) (opened n) st)))"
proof -
  have "\<not> list_ex (active_for (signal_key s)) (map snd (ins_incidents st))"
    using assms(2) by (auto simp: get_active_None list_ex_iff)
  moreover have "cd_action (correlation_decide (pc_window c) s None) = CREATE" by (simp add: correlation_action_cases)
  ultimately show ?thesis using assms(1,2)
    by (simp add: process_once_def process_body_def n link_related_incidents_def commit_opened Let_def)
qed

lemma process_append:
  assumes "keyed st" "\<not> evidence_exists (sg_event_id s) st" and act: "get_active_incident (signal_key s) st = Some a"
    and near: "\<not> quiet_too_long c s a"
  shows "process_once c s dr st =
    (Inr (\<lparr>po_result = PR_APPENDED, po_incident = Some (in_id a), po_reason = decision_reason c s (Some a)\<rparr>,
          [lifecycle_envelope (absorb (pc_severity c) (dr_clock dr 1) a s)
             (if in_severity (absorb (pc_severity c) (dr_clock dr 1) a s) \<noteq> in_severity a then ''severity-changed'' else ''evidence-added'')]),
     with_links (links_for c dr (absorb (pc_severity c) (dr_clock dr 1) a s) st)
       (with_event (sg_event_id s)
         (set_incident (in_id a) (grown (pc_severity c) (dr_clock dr 1) (decision_reason c s (Some a)) s a) st)))"
proof -
  have at: "inc_at st (in_id a) = Some a" using active_at [OF assms(1) act] by simp
  have "cd_action (correlation_decide (pc_window c) s (Some a)) = APPEND"
    using near by (simp add: correlation_action_cases quiet_too_long_def)
  then show ?thesis using assms(2) act
    by (simp add: process_once_def process_body_def link_related_incidents_def commit_append_case [OF at] Let_def)
qed

lemma process_supersede:
  assumes "keyed st" "\<not> evidence_exists (sg_event_id s) st" and act: "get_active_incident (signal_key s) st = Some a"
    and far: "quiet_too_long c s a" and n: "n = new_incident (pc_severity c) s (decision_reason c s (Some a)) dr"
    and mid: "st1 = set_incident (in_id a) (stale_resolved (dr_clock dr 2) (decision_reason c s (Some a)) a) st"
  shows "process_once c s dr st =
    (if list_ex (active_for (signal_key s)) (map snd (ins_incidents st1))
     then (Inl (DuplicateActiveIncidentError (signal_key s)), st1)
     else (Inr (\<lparr>po_result = PR_SUPERSEDED, po_incident = Some (in_id (fst n)), po_reason = decision_reason c s (Some a)\<rparr>,
          [lifecycle_envelope (fst n) ''opened'']),
     with_links (links_for c dr (fst n) st) (with_event (sg_event_id s) (set_incident (in_id (fst n)) (opened n) st1))))"
proof -
  have at: "inc_at st (in_id a) = Some a" using active_at [OF assms(1) act] by simp
  have sup: "cd_action (correlation_decide (pc_window c) s (Some a)) = SUPERSEDE"
    using far by (simp add: correlation_action_cases quiet_too_long_def)
  obtain a' t where r: "auto_resolve (dr_clock dr 2) (decision_reason c s (Some a)) a = (a', t)" by fastforce
  show ?thesis using assms(2) act sup
    by (simp add: process_once_def process_body_def link_related_incidents_def r commit_supersede_case [OF at r]
        mid [symmetric] commit_opened n Let_def)
qed

end
