(* ===== verification/IncSafety.thy ===== *)
theory IncSafety imports IncCommit begin

text \<open>
  The invariant of the incident store and its proof: it holds in every reachable state of the system of
  \<open>IncApi\<close>, whatever the interleaving. Under the guarded system the lifecycle facts are stronger.
\<close>

section \<open>What an incident says of its evidence\<close>

abbreviation ev_error :: "evidence_record \<Rightarrow> rat" where
  "ev_error e \<equiv> signal_value (ev_signals e) ''error_rate''"

abbreviation ev_latency :: "evidence_record \<Rightarrow> rat" where
  "ev_latency e \<equiv> signal_value (ev_signals e) ''latency_p95_ms''"

text \<open>The aggregates are functions of the set of evidence, so the order of arrival is irrelevant.\<close>

definition summarised :: "severity_config \<Rightarrow> incident \<Rightarrow> bool" where
  "summarised c i \<longleftrightarrow> (let es = in_evidence i; E = set es in
     es \<noteq> [] \<and> in_count i = length es \<and>
     in_started i = Min (ev_window_start ` E) \<and> in_last_evidence i = Max (ev_window_end ` E) \<and>
     in_max_score i = Max (insert 0 (ev_score ` E)) \<and> in_max_error i = Max (insert 0 (ev_error ` E)) \<and>
     in_max_latency i = Max (insert 0 (ev_latency ` E)) \<and>
     in_abnormal i = sorted_list_of_set (\<Union>e \<in> E. set (ev_abnormal e)) \<and>
     in_severity i = severity_spec c (severity_inputs_of i) \<and>
     in_severity_reasons i = sv_reasons (evaluate_severity c (severity_inputs_of i)) \<and>
     in_title i = title_of (in_severity i) i)"

lemma severity_inputs_cong:
  "in_count i = in_count j \<Longrightarrow> in_abnormal i = in_abnormal j \<Longrightarrow> in_max_score i = in_max_score j \<Longrightarrow>
   in_max_error i = in_max_error j \<Longrightarrow> in_max_latency i = in_max_latency j \<Longrightarrow> in_started i = in_started j \<Longrightarrow>
   in_last_evidence i = in_last_evidence j \<Longrightarrow> severity_inputs_of i = severity_inputs_of j"
  by (simp add: severity_inputs_of_def distinct_abnormal_signals_def duration_seconds_def)

lemma title_cong:
  "in_abnormal i = in_abnormal j \<Longrightarrow> in_service i = in_service j \<Longrightarrow> in_environment i = in_environment j \<Longrightarrow>
   title_of l i = title_of l j"
  by (simp add: title_of_def)

lemma absorb_sel:
  "in_count (absorb c now i s) = in_count i + 1"
  "in_last_evidence (absorb c now i s) = max (in_last_evidence i) (sg_window_end s)"
  "in_started (absorb c now i s) = min (in_started i) (sg_window_start s)"
  "in_max_score (absorb c now i s) = max (in_max_score i) (sg_score s)"
  "in_max_error (absorb c now i s) = max (in_max_error i) (signal_value (sg_signals s) ''error_rate'')"
  "in_max_latency (absorb c now i s) = max (in_max_latency i) (signal_value (sg_signals s) ''latency_p95_ms'')"
  "in_abnormal (absorb c now i s) = sorted_list_of_set (set (in_abnormal i) \<union> set (sg_abnormal s))"
  by (simp_all add: absorb_def Let_def)

lemma absorb_severity:
  "in_severity (absorb c now i s) = severity_spec c (severity_inputs_of (absorb c now i s))"
  "in_severity_reasons (absorb c now i s) = sv_reasons (evaluate_severity c (severity_inputs_of (absorb c now i s)))"
  "in_title (absorb c now i s) = title_of (in_severity (absorb c now i s)) (absorb c now i s)"
proof -
  define i1 where "i1 = i\<lparr>in_count := in_count i + 1, in_last_evidence := max (in_last_evidence i) (sg_window_end s),
    in_started := min (in_started i) (sg_window_start s), in_updated := now,
    in_max_score := max (in_max_score i) (sg_score s),
    in_max_error := max (in_max_error i) (signal_value (sg_signals s) ''error_rate''),
    in_max_latency := max (in_max_latency i) (signal_value (sg_signals s) ''latency_p95_ms''),
    in_abnormal := sorted_list_of_set (set (in_abnormal i) \<union> set (sg_abnormal s))\<rparr>"
  define v where "v = evaluate_severity c (severity_inputs_of i1)"
  have ab: "absorb c now i s = i1\<lparr>in_severity := sv_level v, in_severity_reasons := sv_reasons v, in_title := title_of (sv_level v) i1\<rparr>"
    by (simp only: absorb_def Let_def i1_def v_def)
  have inputs: "severity_inputs_of (absorb c now i s) = severity_inputs_of i1"
    by (rule severity_inputs_cong) (simp_all add: ab)
  have "title_of l (absorb c now i s) = title_of l i1" for l by (rule title_cong) (simp_all add: ab)
  then show "in_title (absorb c now i s) = title_of (in_severity (absorb c now i s)) (absorb c now i s)" by (simp add: ab)
  show "in_severity (absorb c now i s) = severity_spec c (severity_inputs_of (absorb c now i s))"
    unfolding inputs by (simp add: ab v_def severity_level)
  show "in_severity_reasons (absorb c now i s) = sv_reasons (evaluate_severity c (severity_inputs_of (absorb c now i s)))"
    unfolding inputs by (simp add: ab v_def)
qed

lemma evidence_of_sel [simp]:
  "ev_event_id (evidence_of s r) = sg_event_id s" "ev_window_start (evidence_of s r) = sg_window_start s"
  "ev_window_end (evidence_of s r) = sg_window_end s" "ev_score (evidence_of s r) = sg_score s"
  "ev_signals (evidence_of s r) = sg_signals s" "ev_abnormal (evidence_of s r) = sg_abnormal s"
  by (simp_all add: evidence_of_def)

lemma summarised_children:
  assumes "summarised c i" "in_evidence j = in_evidence i" "in_count j = in_count i" "in_started j = in_started i"
    "in_last_evidence j = in_last_evidence i" "in_max_score j = in_max_score i" "in_max_error j = in_max_error i"
    "in_max_latency j = in_max_latency i" "in_abnormal j = in_abnormal i" "in_severity j = in_severity i"
    "in_severity_reasons j = in_severity_reasons i" "in_title j = in_title i" "in_service j = in_service i"
    "in_environment j = in_environment i"
  shows "summarised c j"
proof -
  have "severity_inputs_of j = severity_inputs_of i" by (rule severity_inputs_cong) (use assms in simp_all)
  moreover have "title_of l j = title_of l i" for l by (rule title_cong) (use assms in simp_all)
  ultimately show ?thesis using assms by (simp add: summarised_def)
qed

lemma absorbed_summarised:
  assumes es: "in_evidence j = es @ [evidence_of s r]" and same: "j = (absorb c now i s)\<lparr>in_evidence := in_evidence j, in_history := in_history j\<rparr>"
    and old: "es = [] \<Longrightarrow> in_count i = 0 \<and> in_started i = sg_window_start s \<and> in_last_evidence i = sg_window_end s \<and>
      in_max_score i = 0 \<and> in_max_error i = 0 \<and> in_max_latency i = 0 \<and> in_abnormal i = []"
    and more: "es \<noteq> [] \<Longrightarrow> summarised c i \<and> es = in_evidence i"
  shows "summarised c j"
proof -
  let ?a = "absorb c now i s"
  have inputs: "severity_inputs_of j = severity_inputs_of ?a"
    by (rule severity_inputs_cong) (subst same, simp)+
  have title: "title_of l j = title_of l ?a" for l
    by (rule title_cong) (subst same, simp)+
  have sel: "in_count j = in_count ?a" "in_started j = in_started ?a" "in_last_evidence j = in_last_evidence ?a"
    "in_max_score j = in_max_score ?a" "in_max_error j = in_max_error ?a" "in_max_latency j = in_max_latency ?a"
    "in_abnormal j = in_abnormal ?a" "in_severity j = in_severity ?a" "in_severity_reasons j = in_severity_reasons ?a"
    "in_title j = in_title ?a"
    by (subst same, simp)+
  have sev: "in_severity j = severity_spec c (severity_inputs_of j)"
    "in_severity_reasons j = sv_reasons (evaluate_severity c (severity_inputs_of j))" "in_title j = title_of (in_severity j) j"
    unfolding inputs title sel by (rule absorb_severity)+
  show ?thesis
  proof (cases "es = []")
    case True
    with old show ?thesis unfolding summarised_def Let_def es
      by (simp add: sev [symmetric] sel(1-7) absorb_sel max.commute)
  next
    case False
    with more have *: "summarised c i" "es = in_evidence i" by simp_all
    have fin: "finite (\<Union>e \<in> set es. set (ev_abnormal e))" by simp
    show ?thesis using *(1) False unfolding summarised_def Let_def es *(2) [symmetric]
      by (simp add: sev [symmetric] sel(1-7) absorb_sel max.commute max.left_commute min.commute Un_commute fin)
  qed
qed

section \<open>Sound incidents\<close>

fun chained :: "inc_status option \<Rightarrow> state_transition list \<Rightarrow> inc_status option \<Rightarrow> bool" where
  "chained s [] t \<longleftrightarrow> s = t"
| "chained s (h # hs) t \<longleftrightarrow> tr_from h = s \<and> chained (Some (tr_to h)) hs t"

text \<open>The moves of a history, after the opening one.\<close>

fun lawful :: "state_transition list \<Rightarrow> bool" where
  "lawful [] \<longleftrightarrow> False"
| "lawful (h # hs) \<longleftrightarrow> tr_to h = OPEN \<and> walk inc_allowed OPEN (map tr_to hs)"

definition incident_sound :: "severity_config \<Rightarrow> string \<Rightarrow> incident \<Rightarrow> bool" where
  "incident_sound c k i \<longleftrightarrow>
     in_id i = k \<and> in_key i = correlation_key (in_service i) (in_environment i) \<and> summarised c i \<and>
     in_history i \<noteq> [] \<and> tr_to (hd (in_history i)) = OPEN \<and> chained None (in_history i) (Some (in_status i)) \<and>
     (in_status i = RESOLVED \<longrightarrow> in_resolved_at i \<noteq> None \<and> in_resolution i \<noteq> None)"

text \<open>The extra facts of the guarded system.\<close>

definition incident_lawful :: "incident \<Rightarrow> bool" where
  "incident_lawful i \<longleftrightarrow> lawful (in_history i) \<and> (in_status i = RESOLVED \<longleftrightarrow> in_resolved_at i \<noteq> None)"

lemma chained_snoc: "chained s (hs @ [h]) t \<longleftrightarrow> chained s hs (tr_from h) \<and> t = Some (tr_to h)"
  by (induction hs arbitrary: s) auto

lemma chained_last: "chained s hs t \<Longrightarrow> hs \<noteq> [] \<Longrightarrow> t = Some (tr_to (last hs))"
  by (induction hs arbitrary: s) (auto split: if_splits)

lemma lawful_snoc:
  "chained None hs (Some s) \<Longrightarrow> lawful hs \<Longrightarrow> tr_to h \<in> inc_allowed s \<Longrightarrow> lawful (hs @ [h])"
proof (induction hs)
  case (Cons a hs)
  then have "s = tr_to (last (a # hs))" using chained_last [of None "a # hs" "Some s"] by simp
  then have "last (OPEN # map tr_to hs) = s" using Cons.prems by (auto simp: last_map)
  then show ?case using Cons.prems by (auto simp: walk_append)
qed simp

lemma opened_sel [simp]:
  "in_evidence (opened n) = [fst (snd n)]" "in_history (opened n) = [snd (snd n)]" "in_id (opened n) = in_id (fst n)"
  "in_key (opened n) = in_key (fst n)" "in_service (opened n) = in_service (fst n)" "in_environment (opened n) = in_environment (fst n)"
  "in_status (opened n) = in_status (fst n)" "in_resolved_at (opened n) = in_resolved_at (fst n)"
  by (cases n; simp add: opened_def)+

lemma opened_sound:
  assumes "n = new_incident c s r dr"
  shows "incident_sound c (in_id (fst n)) (opened n)" "incident_lawful (opened n)" "in_status (opened n) = OPEN"
    "in_service (opened n) = sg_service s" "in_environment (opened n) = sg_environment s"
    "map ev_event_id (in_evidence (opened n)) = [sg_event_id s]" "in_key (opened n) = signal_key s"
proof -
  let ?f = "fresh_incident s (dr_token dr) (dr_clock dr 0)"
  have "summarised c (opened n)"
    by (rule absorbed_summarised [of _ "[]" s r c "dr_clock dr 1" ?f])
      (simp_all add: assms new_incident_def opened_def Let_def, simp_all add: fresh_incident_def)
  then show "incident_sound c (in_id (fst n)) (opened n)"
    by (simp add: incident_sound_def assms signal_key_def) (simp add: new_incident_def Let_def)
qed (simp_all add: assms incident_lawful_def, simp_all add: new_incident_def Let_def)

lemma grown_sel [simp]:
  "in_id (grown c now r s i) = in_id i" "in_key (grown c now r s i) = in_key i" "in_service (grown c now r s i) = in_service i"
  "in_environment (grown c now r s i) = in_environment i" "in_status (grown c now r s i) = in_status i"
  "in_evidence (grown c now r s i) = in_evidence i @ [evidence_of s r]" "in_history (grown c now r s i) = in_history i"
  "in_resolved_at (grown c now r s i) = in_resolved_at i" "in_resolution (grown c now r s i) = in_resolution i"
  by (simp_all add: grown_def)

lemma evidence_only: "j = i\<lparr>in_evidence := es\<rparr> \<Longrightarrow> j = i\<lparr>in_evidence := in_evidence j, in_history := in_history j\<rparr>"
  by (cases i) simp

lemma grown_sound:
  assumes "incident_sound c k i"
  shows "incident_sound c k (grown c now r s i)"
proof -
  have i: "summarised c i" "in_evidence i \<noteq> []" using assms by (auto simp: incident_sound_def summarised_def Let_def)
  have same: "grown c now r s i = (absorb c now i s)\<lparr>in_evidence := in_evidence (grown c now r s i), in_history := in_history (grown c now r s i)\<rparr>"
    by (rule evidence_only) (simp add: grown_def)
  have "summarised c (grown c now r s i)"
    by (rule absorbed_summarised [of _ "in_evidence i" s r c now i, OF _ same]) (use i in simp_all)
  then show ?thesis using assms by (simp add: incident_sound_def)
qed

lemma grown_lawful: "incident_lawful i \<Longrightarrow> incident_lawful (grown c now r s i)"
  by (simp add: incident_lawful_def)

lemma stale_sel [simp]:
  "in_id (stale_resolved now r i) = in_id i" "in_key (stale_resolved now r i) = in_key i" "in_service (stale_resolved now r i) = in_service i"
  "in_environment (stale_resolved now r i) = in_environment i" "in_status (stale_resolved now r i) = RESOLVED"
  "in_evidence (stale_resolved now r i) = in_evidence i" "in_resolved_at (stale_resolved now r i) = Some (in_last_evidence i)"
  "in_resolution (stale_resolved now r i) = Some ''auto:stale''"
  by (simp_all add: stale_resolved_def auto_resolve_def)

lemma stale_history:
  "\<exists>t. in_history (stale_resolved now r i) = in_history i @ [t] \<and> tr_from t = Some (in_status i) \<and> tr_to t = RESOLVED"
  by (simp add: stale_resolved_def auto_resolve_def)

lemma stale_summarised: "summarised c i \<Longrightarrow> summarised c (stale_resolved now r i)"
  by (erule summarised_children) (simp_all add: stale_resolved_def auto_resolve_def)

lemma stale_sound: "incident_sound c k i \<Longrightarrow> incident_sound c k (stale_resolved now r i)"
  using stale_history [of now r i] by (auto simp: incident_sound_def stale_summarised chained_snoc)

lemma stale_lawful:
  assumes "incident_sound c k i" "incident_lawful i" "in_status i \<noteq> RESOLVED"
  shows "incident_lawful (stale_resolved now r i)"
proof -
  obtain t where t: "in_history (stale_resolved now r i) = in_history i @ [t]" "tr_to t = RESOLVED"
    using stale_history by blast
  have "lawful (in_history i @ [t])"
    by (rule lawful_snoc [of _ "in_status i"]) (use assms t in \<open>simp_all add: incident_sound_def incident_lawful_def resolvable\<close>)
  then show ?thesis by (simp add: incident_lawful_def t(1))
qed

lemma transitioned_sel [simp]:
  "in_id (transitioned t a r now i) = in_id i" "in_key (transitioned t a r now i) = in_key i"
  "in_service (transitioned t a r now i) = in_service i" "in_environment (transitioned t a r now i) = in_environment i"
  "in_status (transitioned t a r now i) = t" "in_evidence (transitioned t a r now i) = in_evidence i"
  "in_resolved_at (transitioned t a r now i) = (if t = RESOLVED then Some now else in_resolved_at i)"
  by (simp_all add: transitioned_def)

lemma transitioned_history:
  "\<exists>h. in_history (transitioned t a r now i) = in_history i @ [h] \<and> tr_from h = Some (in_status i) \<and> tr_to h = t"
  by (simp add: transitioned_def)

lemma transitioned_sound: "incident_sound c k i \<Longrightarrow> incident_sound c k (transitioned t a r now i)"
proof -
  assume i: "incident_sound c k i"
  then have "summarised c i" by (simp add: incident_sound_def)
  then have "summarised c (transitioned t a r now i)"
    by (rule summarised_children) (simp_all add: transitioned_def)
  moreover have "t = RESOLVED \<Longrightarrow> in_resolution (transitioned t a r now i) \<noteq> None"
    by (simp add: transitioned_def split: option.split)
  ultimately show ?thesis using i transitioned_history [of t a r now i]
    by (auto simp: incident_sound_def chained_snoc)
qed

lemma transitioned_lawful:
  assumes "incident_sound c k i" "incident_lawful i" "t \<in> inc_allowed (in_status i)"
  shows "incident_lawful (transitioned t a r now i)"
proof -
  obtain h where h: "in_history (transitioned t a r now i) = in_history i @ [h]" "tr_to h = t"
    using transitioned_history by blast
  have "lawful (in_history i @ [h])"
    by (rule lawful_snoc [of _ "in_status i"]) (use assms h in \<open>simp_all add: incident_sound_def incident_lawful_def\<close>)
  moreover have "in_status i \<noteq> RESOLVED" using assms(3) by (cases "in_status i") auto
  ultimately show ?thesis using assms(2) by (auto simp: incident_lawful_def h(1))
qed

section \<open>Sound stores\<close>

abbreviation event_ids :: "incident \<Rightarrow> string list" where
  "event_ids i \<equiv> map ev_event_id (in_evidence i)"

definition ids_at :: "inc_store \<Rightarrow> string \<Rightarrow> string list" where
  "ids_at st k = (case inc_at st k of None \<Rightarrow> [] | Some i \<Rightarrow> event_ids i)"

text \<open>Each event is evidence of one incident, once, and the index of events is exact.\<close>

definition partitioned :: "(string \<Rightarrow> string list) \<Rightarrow> string set \<Rightarrow> bool" where
  "partitioned f E \<longleftrightarrow> (\<forall>k. distinct (f k)) \<and> (\<forall>k k'. k \<noteq> k' \<longrightarrow> set (f k) \<inter> set (f k') = {}) \<and> E = (\<Union>k. set (f k))"

lemma partitioned_snoc:
  assumes "partitioned f E" "e \<notin> E"
  shows "partitioned (f(k := f k @ [e])) (insert e E)"
proof -
  have "e \<notin> set (f k')" for k' using assms by (auto simp: partitioned_def)
  moreover have "insert e (\<Union>k. set (f k)) = (\<Union>k'. set ((f(k := f k @ [e])) k'))" by (auto split: if_splits)
  ultimately show ?thesis using assms unfolding partitioned_def by auto
qed

abbreviation deduped :: "inc_store \<Rightarrow> bool" where
  "deduped st \<equiv> partitioned (ids_at st) (ins_evidence_ids st)"

lemma ids_at_put: "ids_at (set_incident k i st) = (ids_at st)(k := event_ids i)"
  by (auto simp: ids_at_def map_of_update_if)

lemma ids_at_same [simp]: "ids_at (with_event e st) = ids_at st" "ids_at (with_links ls st) = ids_at st"
  by (auto simp: ids_at_def)

definition relation_ok :: "processor_config \<Rightarrow> inc_store \<Rightarrow> incident_relation \<Rightarrow> bool" where
  "relation_ok c st r \<longleftrightarrow> (\<exists>a b. inc_at st (il_incident r) = Some a \<and> inc_at st (il_related r) = Some b \<and>
     il_incident r \<noteq> il_related r \<and> in_environment a = in_environment b \<and>
     in_service b \<in> set (dependencies_of (in_service a) (Some (tc_graph (pc_topology c)))))"

definition store_sound :: "processor_config \<Rightarrow> inc_store \<Rightarrow> bool" where
  "store_sound c st \<longleftrightarrow> distinct (map fst (ins_incidents st)) \<and>
     (\<forall>k i. inc_at st k = Some i \<longrightarrow> incident_sound (pc_severity c) k i) \<and> deduped st \<and>
     (\<forall>r \<in> set (ins_relations st). relation_ok c st r) \<and> distinct (map relation_pair (ins_relations st))"

definition keeps_place :: "inc_store \<Rightarrow> string \<Rightarrow> incident \<Rightarrow> bool" where
  "keeps_place st k i \<longleftrightarrow> (\<forall>j. inc_at st k = Some j \<longrightarrow> in_service i = in_service j \<and> in_environment i = in_environment j)"

lemma sound_keyed: "store_sound c st \<Longrightarrow> keyed st"
  by (simp add: store_sound_def keyed_def incident_sound_def)

lemma relation_ok_put:
  "relation_ok c st r \<Longrightarrow> keeps_place st k i \<Longrightarrow> relation_ok c (set_incident k i st) r"
  unfolding relation_ok_def keeps_place_def by (auto simp: map_of_update_if)

lemma relation_ok_event [simp]: "relation_ok c (with_event e st) r \<longleftrightarrow> relation_ok c st r"
  by (simp add: relation_ok_def)

lemma relation_ok_links [simp]: "relation_ok c (with_links ls st) r \<longleftrightarrow> relation_ok c st r"
  by (simp add: relation_ok_def)

lemma sound_put:
  assumes "store_sound c st" "incident_sound (pc_severity c) k i" "keeps_place st k i"
    and "partitioned ((ids_at st)(k := event_ids i)) E"
  shows "store_sound c ((set_incident k i st)\<lparr>ins_evidence_ids := E\<rparr>)"
proof -
  have "\<forall>r \<in> set (ins_relations st). relation_ok c (set_incident k i st) r"
    using assms(1,3) by (simp add: store_sound_def relation_ok_put)
  moreover have "relation_ok c ((set_incident k i st)\<lparr>ins_evidence_ids := E\<rparr>) r \<longleftrightarrow> relation_ok c (set_incident k i st) r" for r
    by (simp add: relation_ok_def)
  moreover have "ids_at ((set_incident k i st)\<lparr>ins_evidence_ids := E\<rparr>) = (ids_at st)(k := event_ids i)"
    unfolding ids_at_put [symmetric] by (auto simp: ids_at_def)
  ultimately show ?thesis using assms(1,2,4) by (auto simp: store_sound_def map_of_update_if distinct_keys_update)
qed

lemma sound_touch:
  assumes "store_sound c st" "incident_sound (pc_severity c) k i" "keeps_place st k i" and "inc_at st k = Some j" "event_ids i = event_ids j"
  shows "store_sound c (set_incident k i st)"
proof -
  have "(ids_at st)(k := event_ids i) = ids_at st" using assms(4,5) by (auto simp: ids_at_def)
  then have "partitioned ((ids_at st)(k := event_ids i)) (ins_evidence_ids st)" using assms(1) by (simp add: store_sound_def)
  then show ?thesis using sound_put [OF assms(1-3)] by (metis set_incident_sel(2) inc_store.surjective inc_store.update_convs(2) inc_store.select_convs(2))
qed

lemma sound_extend:
  assumes "store_sound c st" "incident_sound (pc_severity c) k i" "keeps_place st k i" "e \<notin> ins_evidence_ids st"
    and ids: "event_ids i = ids_at st k @ [e]"
  shows "store_sound c (with_event e (set_incident k i st))"
proof -
  have "partitioned ((ids_at st)(k := event_ids i)) (insert e (ins_evidence_ids st))"
    unfolding ids by (rule partitioned_snoc) (use assms in \<open>simp_all add: store_sound_def\<close>)
  then show ?thesis using sound_put [OF assms(1-3)] by (simp add: with_event_def)
qed

lemma add_relation_subset: "set (fold add_relation ls rs) \<subseteq> set rs \<union> set ls"
proof (induction ls arbitrary: rs)
  case (Cons l ls)
  have "set (add_relation l rs) \<subseteq> insert l (set rs)" by (auto simp: add_relation_def)
  then show ?case using Cons [of "add_relation l rs"] by auto
qed simp

lemma add_relation_distinct:
  "distinct (map relation_pair rs) \<Longrightarrow> distinct (map relation_pair (fold add_relation ls rs))"
proof (induction ls arbitrary: rs)
  case (Cons l ls)
  then have "distinct (map relation_pair (add_relation l rs))" by (auto simp: add_relation_def list_ex_iff)
  then show ?case using Cons.IH by simp
qed simp

lemma sound_links:
  assumes "store_sound c st" "\<forall>r \<in> set ls. relation_ok c st r"
  shows "store_sound c (with_links ls st)"
proof -
  have "\<forall>r \<in> set (fold add_relation ls (ins_relations st)). relation_ok c st r"
    using assms add_relation_subset [of ls "ins_relations st"] unfolding store_sound_def by blast
  then show ?thesis using assms(1) by (simp add: store_sound_def add_relation_distinct)
qed

section \<open>Every transaction keeps the store sound\<close>

definition config_ok :: "processor_config \<Rightarrow> bool" where
  "config_ok c \<longleftrightarrow> distinct (map fst (tc_graph (pc_topology c)))"

definition places_kept :: "inc_store \<Rightarrow> inc_store \<Rightarrow> bool" where
  "places_kept st st' \<longleftrightarrow> (\<forall>k j. inc_at st k = Some j \<longrightarrow>
     (\<exists>j'. inc_at st' k = Some j' \<and> in_service j' = in_service j \<and> in_environment j' = in_environment j))"

lemma places_kept_put: "places_kept st st1 \<Longrightarrow> keeps_place st1 k i \<Longrightarrow> places_kept st (set_incident k i st1)"
  unfolding places_kept_def keeps_place_def by (fastforce simp: map_of_update_if)

lemma places_kept_refl: "places_kept st st"
  by (simp add: places_kept_def)

lemma places_kept_event [simp]: "places_kept st (with_event e st1) \<longleftrightarrow> places_kept st st1"
  by (simp add: places_kept_def)

lemma candidates_at:
  "keyed st \<Longrightarrow> other \<in> set (active_incidents_in_services sv env st) \<Longrightarrow>
   inc_at st (in_id other) = Some other \<and> in_service other \<in> sv \<and> in_environment other = env \<and> in_status other \<noteq> RESOLVED"
  using values_at [of st other] by (auto simp: active_incidents_in_services_def)

lemma related_links_ok:
  assumes "config_ok c" "keyed st" "places_kept st st'"
    and at: "inc_at st' (in_id i) = Some i'" "in_service i' = in_service i" "in_environment i' = in_environment i"
  shows "\<forall>r \<in> set (related_links (pc_topology c) now i st). relation_ok c st' r"
proof
  let ?g = "Some (tc_graph (pc_topology c))"
  fix r assume "r \<in> set (related_links (pc_topology c) now i st)"
  then obtain other where r: "r = link_of (pc_topology c) now i other" and ne: "in_id other \<noteq> in_id i"
    and mem: "other \<in> set (active_incidents_in_services (related_services (in_service i) ?g) (in_environment i) st)"
    by (auto simp: related_links_def Let_def split: if_splits)
  have other: "inc_at st (in_id other) = Some other" "in_service other \<in> related_services (in_service i) ?g"
    "in_environment other = in_environment i"
    using candidates_at [OF assms(2) mem] by auto
  obtain o' where o': "inc_at st' (in_id other) = Some o'" "in_service o' = in_service other" "in_environment o' = in_environment other"
    using assms(3) other(1) unfolding places_kept_def by blast
  have "in_service other \<notin> set (dependencies_of (in_service i) ?g) \<Longrightarrow> in_service i \<in> set (dependencies_of (in_service other) ?g)"
    using other(2) assms(1) dependents_iff [of ?g] by (auto simp: related_services_def config_ok_def the_graph_def)
  then show "relation_ok c st' r" using o' other(3) at ne unfolding relation_ok_def r link_of_def Let_def by auto
qed

lemma process_sound:
  assumes ok: "config_ok c" "store_sound c st" and new: "inc_at st (new_incident_id (dr_token dr)) = None"
  shows "store_sound c (snd (process_once c s dr st)) \<and> places_kept st (snd (process_once c s dr st))"
proof (cases "evidence_exists (sg_event_id s) st")
  case True
  then show ?thesis using ok by (simp add: process_duplicate places_kept_refl)
next
  case fresh: False
  note k = sound_keyed [OF ok(2)]
  have e: "sg_event_id s \<notin> ins_evidence_ids st" using fresh by (simp add: evidence_exists_def)
  have open_new: "store_sound c (with_links (links_for c dr (fst n) st) (with_event (sg_event_id s) (set_incident (in_id (fst n)) (opened n) st1))) \<and>
      places_kept st (with_links (links_for c dr (fst n) st) (with_event (sg_event_id s) (set_incident (in_id (fst n)) (opened n) st1)))"
    if n: "n = new_incident (pc_severity c) s r dr" and st1: "store_sound c st1" "places_kept st st1"
      "inc_at st1 (in_id (fst n)) = None" "sg_event_id s \<notin> ins_evidence_ids st1" for n r st1
  proof -
    note o = opened_sound [OF n]
    have keeps: "keeps_place st1 (in_id (fst n)) (opened n)" using st1(3) by (simp add: keeps_place_def)
    let ?st2 = "with_event (sg_event_id s) (set_incident (in_id (fst n)) (opened n) st1)"
    have s2: "store_sound c ?st2"
      by (rule sound_extend [OF st1(1) o(1) keeps st1(4)]) (use o(6) st1(3) in \<open>simp add: ids_at_def\<close>)
    have p2: "places_kept st ?st2" using places_kept_put [OF st1(2) keeps] by simp
    have "\<forall>r \<in> set (links_for c dr (fst n) st). relation_ok c ?st2 r"
      by (rule related_links_ok [where i' = "opened n", OF ok(1) k p2]) (simp_all add: map_of_update_if)
    then show ?thesis using sound_links [OF s2] p2 by (simp add: places_kept_def)
  qed
  show ?thesis
  proof (cases "get_active_incident (signal_key s) st")
    case None
    then show ?thesis using open_new [OF refl ok(2) places_kept_refl _ e] new
      by (simp add: process_create [OF fresh None refl])
  next
    case (Some a)
    have a: "inc_at st (in_id a) = Some a" "in_status a \<noteq> RESOLVED" "incident_sound (pc_severity c) (in_id a) a"
      using active_at [OF k Some] ok(2) by (auto simp: store_sound_def)
    show ?thesis
    proof (cases "quiet_too_long c s a")
      case False
      let ?a = "absorb (pc_severity c) (dr_clock dr 1) a s"
      let ?g = "grown (pc_severity c) (dr_clock dr 1) (decision_reason c s (Some a)) s a"
      let ?st2 = "with_event (sg_event_id s) (set_incident (in_id a) ?g st)"
      have keeps: "keeps_place st (in_id a) ?g" using a(1) by (simp add: keeps_place_def)
      have s2: "store_sound c ?st2"
        by (rule sound_extend [OF ok(2) grown_sound [OF a(3)] keeps e]) (simp add: ids_at_def a(1))
      have p2: "places_kept st ?st2" using places_kept_put [OF places_kept_refl keeps] by simp
      have "\<forall>r \<in> set (links_for c dr ?a st). relation_ok c ?st2 r"
        by (rule related_links_ok [where i' = ?g, OF ok(1) k p2]) (simp_all add: map_of_update_if)
      then show ?thesis using sound_links [OF s2] p2
        by (simp add: process_append [OF k fresh Some False] places_kept_def)
    next
      case True
      let ?d = "stale_resolved (dr_clock dr 2) (decision_reason c s (Some a)) a"
      let ?st1 = "set_incident (in_id a) ?d st"
      have keeps: "keeps_place st (in_id a) ?d" using a(1) by (simp add: keeps_place_def)
      have s1: "store_sound c ?st1" by (rule sound_touch [OF ok(2) stale_sound [OF a(3)] keeps a(1)]) simp
      have p1: "places_kept st ?st1" by (rule places_kept_put [OF places_kept_refl keeps])
      have "in_id a \<noteq> new_incident_id (dr_token dr)" using a(1) new by auto
      then have "inc_at ?st1 (new_incident_id (dr_token dr)) = None" using new by (simp add: map_of_update_if)
      then show ?thesis using open_new [OF refl s1 p1] e s1 p1
        by (simp add: process_supersede [OF k fresh Some True refl refl])
    qed
  qed
qed

lemma transition_sound:
  assumes "store_sound c st" "transition_apply q st = (r, st')"
  shows "store_sound c st' \<and> places_kept st st'"
proof (cases "inc_at st (tq_id q)")
  case None
  then show ?thesis using assms by (auto simp: transition_apply_def apply_transition_def places_kept_def)
next
  case (Some i)
  let ?i = "transitioned (tq_target q) (tq_actor q) (tq_reason q) (tq_now q) i"
  have st': "st' = set_incident (tq_id q) ?i st"
    using assms(2) Some by (simp add: transition_apply_def apply_transition_def Let_def)
  have i: "incident_sound (pc_severity c) (tq_id q) i" using assms(1) Some by (simp add: store_sound_def)
  have keeps: "keeps_place st (tq_id q) ?i" using Some by (simp add: keeps_place_def)
  show ?thesis unfolding st'
    using sound_touch [OF assms(1) transitioned_sound [OF i] keeps Some] places_kept_put [OF places_kept_refl keeps] by simp
qed

lemma empty_sound: "store_sound c empty_inc_store"
  by (simp add: store_sound_def empty_inc_store_def partitioned_def ids_at_def)

lemma inc_step_sound:
  assumes "inc_step c g w w'" "config_ok c" "store_sound c (iw_store w)"
  shows "store_sound c (iw_store w') \<and> places_kept (iw_store w) (iw_store w')"
  using assms(1)
proof cases
  case (processed s dr r st' ready sent)
  then show ?thesis using process_sound [OF assms(2,3), of dr s] by (simp add: get_incident_def)
next
  case (validated q i)
  then show ?thesis using assms(3) by (simp add: places_kept_refl)
next
  case (applied xs q seen ys r st')
  then show ?thesis using transition_sound [OF assms(3)] by simp
qed

lemma reachable_sound:
  assumes "config_ok c" "inc_reachable c g w"
  shows "store_sound c (iw_store w)"
  using assms(2) unfolding inc_reachable_def
proof induction
  case base
  then show ?case by (simp add: initial_inc_world_def empty_sound)
next
  case (step w w')
  then show ?case using inc_step_sound [OF _ assms(1)] by blast
qed

end
