(* ===== verification/IncProps.thy ===== *)
theory IncProps imports IncSafety begin

text \<open>
  The properties of the incident correlator over the reachable states of its system: what holds under
  every interleaving, what holds when a validated transition is applied to the status it was validated
  against, and the run that shows the difference.
\<close>

section \<open>The guarded system\<close>

definition one_active :: "inc_store \<Rightarrow> bool" where
  "one_active st \<longleftrightarrow> (\<forall>k k' i i'. inc_at st k = Some i \<longrightarrow> inc_at st k' = Some i' \<longrightarrow> in_key i = in_key i' \<longrightarrow>
     in_status i \<noteq> RESOLVED \<longrightarrow> in_status i' \<noteq> RESOLVED \<longrightarrow> k = k')"

definition lawful_store :: "inc_store \<Rightarrow> bool" where
  "lawful_store st \<longleftrightarrow> (\<forall>k i. inc_at st k = Some i \<longrightarrow> incident_lawful i) \<and> one_active st"

lemma lawful_put:
  assumes "lawful_store st" "incident_lawful i"
    and "in_status i \<noteq> RESOLVED \<Longrightarrow> (\<forall>k' i'. inc_at st k' = Some i' \<longrightarrow> in_key i' = in_key i \<longrightarrow> in_status i' \<noteq> RESOLVED \<longrightarrow> k' = k)"
  shows "lawful_store (set_incident k i st)"
  unfolding lawful_store_def one_active_def set_incident_sel map_of_update_if
proof (intro conjI allI impI)
  show "(if k' = k then Some i else inc_at st k') = Some i' \<Longrightarrow> incident_lawful i'" for k' i'
    using assms(1,2) by (auto simp: lawful_store_def split: if_splits)
  fix k1 k2 i1 i2
  assume 1: "(if k1 = k then Some i else inc_at st k1) = Some i1" and 2: "(if k2 = k then Some i else inc_at st k2) = Some i2"
    and same: "in_key i1 = in_key i2" and act: "in_status i1 \<noteq> RESOLVED" "in_status i2 \<noteq> RESOLVED"
  consider "k1 = k" "k2 = k" | "k1 = k" "k2 \<noteq> k" | "k1 \<noteq> k" "k2 = k" | "k1 \<noteq> k" "k2 \<noteq> k" by blast
  then show "k1 = k2"
  proof cases
    case 4
    then have "inc_at st k1 = Some i1" "inc_at st k2 = Some i2" using 1 2 by simp_all
    then show ?thesis using assms(1) same act unfolding lawful_store_def one_active_def by blast
  qed (use 1 2 same act assms(3) in auto)
qed

lemma lawful_same [simp]:
  "lawful_store (with_event e st) \<longleftrightarrow> lawful_store st" "lawful_store (with_links ls st) \<longleftrightarrow> lawful_store st"
  by (simp_all add: lawful_store_def one_active_def)

lemma process_lawful:
  assumes ok: "store_sound c st" "lawful_store st"
  shows "lawful_store (snd (process_once c s dr st)) \<and> (\<exists>y. fst (process_once c s dr st) = Inr y)"
proof (cases "evidence_exists (sg_event_id s) st")
  case True
  then show ?thesis using ok by (simp add: process_duplicate)
next
  case fresh: False
  note k = sound_keyed [OF ok(1)]
  have open_new: "lawful_store (set_incident (in_id (fst n)) (opened n) st1)"
    if n: "n = new_incident (pc_severity c) s r dr" and st1: "lawful_store st1"
      "\<not> (\<exists>k i. inc_at st1 k = Some i \<and> in_key i = signal_key s \<and> in_status i \<noteq> RESOLVED)" for n r st1
    by (rule lawful_put [OF st1(1)]) (use opened_sound [OF n] st1(2) in auto)
  show ?thesis
  proof (cases "get_active_incident (signal_key s) st")
    case None
    then have "\<not> (\<exists>k i. inc_at st k = Some i \<and> in_key i = signal_key s \<and> in_status i \<noteq> RESOLVED)"
      using any_active [OF k, of "signal_key s"] by (auto simp: get_active_None list_ex_iff)
    then show ?thesis using open_new [OF refl ok(2)] by (simp add: process_create [OF fresh None refl])
  next
    case (Some a)
    have a: "inc_at st (in_id a) = Some a" "in_status a \<noteq> RESOLVED" "in_key a = signal_key s"
      using active_at [OF k Some] by auto
    have law: "incident_lawful a" "incident_sound (pc_severity c) (in_id a) a"
      using ok a(1) by (auto simp: lawful_store_def store_sound_def)
    have only: "k' = in_id a" if "inc_at st k' = Some i'" "in_key i' = signal_key s" "in_status i' \<noteq> RESOLVED" for k' i'
      using ok(2) a that unfolding lawful_store_def one_active_def by metis
    show ?thesis
    proof (cases "quiet_too_long c s a")
      case False
      have "lawful_store (set_incident (in_id a) (grown (pc_severity c) (dr_clock dr 1) (decision_reason c s (Some a)) s a) st)"
        by (rule lawful_put [OF ok(2) grown_lawful [OF law(1)]]) (use only a(3) in auto)
      then show ?thesis by (simp add: process_append [OF k fresh Some False])
    next
      case True
      let ?d = "stale_resolved (dr_clock dr 2) (decision_reason c s (Some a)) a"
      let ?st1 = "set_incident (in_id a) ?d st"
      have st1: "lawful_store ?st1" by (rule lawful_put [OF ok(2) stale_lawful [OF law(2,1) a(2)]]) simp
      have none: "\<not> (\<exists>k i. inc_at ?st1 k = Some i \<and> in_key i = signal_key s \<and> in_status i \<noteq> RESOLVED)"
        using only by (auto simp: map_of_update_if split: if_splits)
      have "keyed ?st1" using k by (simp add: keyed_def map_of_update_if distinct_keys_update)
      then have "\<not> list_ex (active_for (signal_key s)) (map snd (ins_incidents ?st1))" using any_active none by blast
      then show ?thesis using open_new [OF refl st1 none]
        by (simp add: process_supersede [OF k fresh Some True refl refl])
    qed
  qed
qed

lemma transition_lawful:
  assumes "store_sound c st" "lawful_store st" "transition_apply q st = (r, st')"
    and seen: "map_option in_status (inc_at st (tq_id q)) = Some s" "tq_target q \<in> inc_allowed s"
  shows "lawful_store st'"
proof -
  obtain i where i: "inc_at st (tq_id q) = Some i" "in_status i = s" using seen(1) by auto
  let ?i = "transitioned (tq_target q) (tq_actor q) (tq_reason q) (tq_now q) i"
  have st': "st' = set_incident (tq_id q) ?i st"
    using assms(3) i(1) by (simp add: transition_apply_def apply_transition_def Let_def)
  have law: "incident_lawful i" "incident_sound (pc_severity c) (tq_id q) i"
    using assms(1,2) i(1) by (auto simp: lawful_store_def store_sound_def)
  have "in_status i \<noteq> RESOLVED" using seen(2) i(2) by (cases s) auto
  then have "k' = tq_id q" if "inc_at st k' = Some i'" "in_key i' = in_key i" "in_status i' \<noteq> RESOLVED" for k' i'
    using assms(2) i(1) that unfolding lawful_store_def one_active_def by metis
  moreover have "incident_lawful ?i" by (rule transitioned_lawful [OF law(2,1)]) (use seen i in simp)
  ultimately show ?thesis unfolding st' by (intro lawful_put [OF assms(2)]) auto
qed

definition world_lawful :: "inc_world \<Rightarrow> bool" where
  "world_lawful w \<longleftrightarrow> lawful_store (iw_store w) \<and> (\<forall>(q, seen) \<in> set (iw_pending w). tq_target q \<in> inc_allowed seen)"

lemma transition_check_Inr:
  "transition_check q st = Inr i \<longleftrightarrow> inc_at st (tq_id q) = Some i \<and> tq_target q \<in> inc_allowed (in_status i)"
  by (auto simp: transition_check_def load_incident_def get_incident_def inc_validate_transition_def system_adds_nothing
      guard_def split: option.splits if_splits)

lemma guarded_step:
  assumes "inc_step c True w w'" "store_sound c (iw_store w)" "world_lawful w"
  shows "world_lawful w'"
  using assms(1)
proof cases
  case (processed s dr r st' ready sent)
  then show ?thesis using process_lawful [OF assms(2), of s dr] assms(3) by (simp add: world_lawful_def)
next
  case (validated q i)
  then show ?thesis using assms(3) by (auto simp: world_lawful_def transition_check_Inr)
next
  case (applied xs q seen ys r st')
  have "lawful_store st'"
    by (rule transition_lawful [OF assms(2) _ applied(4)]) (use applied assms(3) in \<open>auto simp: world_lawful_def get_incident_def\<close>)
  then show ?thesis using applied assms(3) by (auto simp: world_lawful_def)
qed

lemma guarded_reachable:
  assumes "config_ok c" "inc_reachable c True w"
  shows "world_lawful w"
  using assms(2) unfolding inc_reachable_def
proof induction
  case base
  then show ?case by (simp add: initial_inc_world_def world_lawful_def lawful_store_def one_active_def empty_inc_store_def)
next
  case (step w w')
  then show ?case using guarded_step reachable_sound [OF assms(1)] by (simp add: inc_reachable_def)
qed

section \<open>Incidents only grow\<close>

definition grows :: "incident \<Rightarrow> incident \<Rightarrow> bool" where
  "grows i i' \<longleftrightarrow> in_id i' = in_id i \<and> in_key i' = in_key i \<and> in_service i' = in_service i \<and> in_environment i' = in_environment i \<and>
     prefix (in_evidence i) (in_evidence i') \<and> prefix (in_history i) (in_history i') \<and>
     in_severity i \<le> in_severity i' \<and> in_count i \<le> in_count i'"

definition store_grows :: "inc_store \<Rightarrow> inc_store \<Rightarrow> bool" where
  "store_grows st st' \<longleftrightarrow> ins_evidence_ids st \<subseteq> ins_evidence_ids st' \<and>
     (\<forall>k i. inc_at st k = Some i \<longrightarrow> (\<exists>i'. inc_at st' k = Some i' \<and> grows i i'))"

lemma grows_refl [simp]: "grows i i"
  by (simp add: grows_def)

lemma grows_trans: "grows i j \<Longrightarrow> grows j k \<Longrightarrow> grows i k"
  unfolding grows_def by auto

lemma store_grows_refl [simp]: "store_grows st st"
  by (simp add: store_grows_def)

lemma store_grows_trans: "store_grows st st1 \<Longrightarrow> store_grows st1 st2 \<Longrightarrow> store_grows st st2"
  unfolding store_grows_def by (meson grows_trans subset_trans)

lemma store_grows_put:
  "store_grows st st1 \<Longrightarrow> (\<And>j. inc_at st1 k = Some j \<Longrightarrow> grows j i) \<Longrightarrow> store_grows st (set_incident k i st1)"
  unfolding store_grows_def by (auto simp: map_of_update_if) (metis grows_trans)+

lemma store_grows_links [simp]: "store_grows st (with_links ls st1) \<longleftrightarrow> store_grows st st1"
  by (simp add: store_grows_def)

lemma store_grows_event: "store_grows st st1 \<Longrightarrow> store_grows st (with_event e st1)"
  by (auto simp: store_grows_def)

lemma absorb_inputs_le:
  assumes "in_abnormal i = sorted_list_of_set (set (in_abnormal i))"
  shows "inputs_le (severity_inputs_of i) (severity_inputs_of (absorb c now i s))"
proof -
  have "length (in_abnormal i) = card (set (in_abnormal i))" by (subst assms) (simp add: distinct_card [symmetric])
  also have "\<dots> \<le> card (set (in_abnormal i) \<union> set (sg_abnormal s))" by (rule card_mono) auto
  finally have "length (in_abnormal i) \<le> length (sorted_list_of_set (set (in_abnormal i) \<union> set (sg_abnormal s)))" by simp
  moreover have "duration_seconds i \<le> duration_seconds (absorb c now i s)"
    unfolding duration_seconds_def total_seconds_def absorb_sel
    by (intro max.mono divide_right_mono) auto
  ultimately show ?thesis by (simp add: inputs_le_def severity_inputs_of_def distinct_abnormal_signals_def absorb_sel)
qed

lemma grown_grows:
  assumes "summarised c i"
  shows "grows i (grown c now r s i)"
proof -
  have ab: "in_abnormal i = sorted_list_of_set (set (in_abnormal i))" and sev: "in_severity i = severity_spec c (severity_inputs_of i)"
    using assms unfolding summarised_def Let_def by simp_all
  have "in_severity i \<le> in_severity (absorb c now i s)"
    unfolding sev absorb_severity(1) by (rule severity_mono [OF absorb_inputs_le [OF ab]])
  then show ?thesis by (simp add: grows_def) (simp add: grown_def absorb_sel)
qed

lemma stale_grows: "grows i (stale_resolved now r i)"
  by (simp add: grows_def stale_resolved_def auto_resolve_def)

lemma transitioned_grows: "grows i (transitioned t a r now i)"
  by (simp add: grows_def transitioned_def)

lemma process_grows:
  assumes "store_sound c st" "inc_at st (new_incident_id (dr_token dr)) = None"
  shows "store_grows st (snd (process_once c s dr st))"
proof (cases "evidence_exists (sg_event_id s) st")
  case fresh: False
  note k = sound_keyed [OF assms(1)]
  show ?thesis
  proof (cases "get_active_incident (signal_key s) st")
    case None
    show ?thesis unfolding process_create [OF fresh None refl]
      using assms(2) by (auto intro!: store_grows_event store_grows_put)
  next
    case (Some a)
    have a: "inc_at st (in_id a) = Some a" using active_at [OF k Some] by simp
    then have sm: "summarised (pc_severity c) a" using assms(1) by (auto simp: store_sound_def incident_sound_def)
    show ?thesis
    proof (cases "quiet_too_long c s a")
      case False
      show ?thesis unfolding process_append [OF k fresh Some False]
        using a by (auto intro!: store_grows_event store_grows_put grown_grows [OF sm])
    next
      case True
      let ?st1 = "set_incident (in_id a) (stale_resolved (dr_clock dr 2) (decision_reason c s (Some a)) a) st"
      have "store_grows st ?st1" using a by (auto intro!: store_grows_put stale_grows)
      moreover have "inc_at ?st1 (new_incident_id (dr_token dr)) = None" using a assms(2) by (auto simp: map_of_update_if)
      ultimately show ?thesis unfolding process_supersede [OF k fresh Some True refl refl]
        by (auto intro!: store_grows_event store_grows_put)
    qed
  qed
qed (simp add: process_duplicate)

lemma inc_step_grows:
  assumes "inc_step c g w w'" "store_sound c (iw_store w)"
  shows "store_grows (iw_store w) (iw_store w')"
  using assms(1)
proof cases
  case (processed s dr r st' ready sent)
  then show ?thesis using process_grows [OF assms(2), of dr s] by (simp add: get_incident_def)
next
  case (applied xs q seen ys r st')
  have "store_grows (iw_store w) st'"
    using applied(4) by (auto simp: transition_apply_def apply_transition_def Let_def split: option.splits
        intro!: store_grows_put transitioned_grows)
  then show ?thesis using applied(1) by simp
qed simp

lemma inc_steps_grow:
  assumes "config_ok c" "inc_reachable c g w" "(inc_step c g)\<^sup>*\<^sup>* w w'"
  shows "store_grows (iw_store w) (iw_store w') \<and> inc_reachable c g w'"
  using assms(3)
proof induction
  case (step w1 w2)
  then have "inc_reachable c g w1" by simp
  then have "store_sound c (iw_store w1)" by (rule reachable_sound [OF assms(1)])
  then show ?case using step inc_step_grows store_grows_trans
    by (meson inc_reachable_def rtranclp.rtrancl_into_rtrancl)
qed (simp add: assms(2))

section \<open>Published events\<close>

definition describes :: "inc_store \<Rightarrow> lifecycle_event \<Rightarrow> bool" where
  "describes st ev \<longleftrightarrow> (\<exists>i. get_incident (le_incident_id ev) st = Some i \<and> le_key ev = in_key i \<and>
     le_service ev = in_service i \<and> le_environment ev = in_environment i \<and> le_count ev \<le> in_count i)"

lemma describes_later: "describes st ev \<Longrightarrow> store_grows st st' \<Longrightarrow> describes st' ev"
  unfolding describes_def store_grows_def grows_def get_incident_def by fastforce

lemma envelope_describes:
  "inc_at st (in_id i) = Some j \<Longrightarrow> in_key i = in_key j \<Longrightarrow> in_service i = in_service j \<Longrightarrow> in_environment i = in_environment j \<Longrightarrow>
   in_count i = in_count j \<Longrightarrow> describes st (lifecycle_envelope i change)"
  by (simp add: describes_def lifecycle_envelope_def get_incident_def)

lemma opened_count: "in_count (opened n) = in_count (fst n)"
  by (cases n) (simp add: opened_def)

lemma process_describes:
  assumes "store_sound c st" "process_once c s dr st = (Inr (out, evs), st')"
  shows "\<forall>ev \<in> set evs. describes st' ev"
proof (cases "evidence_exists (sg_event_id s) st")
  case True
  then show ?thesis using assms(2) by (simp add: process_duplicate)
next
  case fresh: False
  note k = sound_keyed [OF assms(1)]
  have new: "describes (with_links ls (with_event e (set_incident (new_incident_id (dr_token dr)) (opened (new_incident cf s r dr)) st1)))
      (lifecycle_envelope (fst (new_incident cf s r dr)) x)" for ls e cf r st1 x
    by (rule envelope_describes [where j = "opened (new_incident cf s r dr)"]) (simp_all add: map_of_update_if opened_count)
  show ?thesis
  proof (cases "get_active_incident (signal_key s) st")
    case None
    show ?thesis using assms(2) new unfolding process_create [OF fresh None refl] by auto
  next
    case (Some a)
    have old: "describes (with_links ls (with_event e (set_incident (in_id a) (grown cf now r s a) st1))) (lifecycle_envelope (absorb cf now a s) x)" for ls e cf now r st1 x
      by (rule envelope_describes [where j = "grown cf now r s a"]) (simp_all add: map_of_update_if, simp add: grown_def)
    show ?thesis
    proof (cases "quiet_too_long c s a")
      case False
      show ?thesis using assms(2) old unfolding process_append [OF k fresh Some False] by auto
    next
      case True
      show ?thesis using assms(2) new unfolding process_supersede [OF k fresh Some True refl refl] by (auto split: if_splits)
    qed
  qed
qed

lemma topic_step:
  assumes "inc_step c g w w'" "store_sound c (iw_store w)" "\<forall>ev \<in> set (iw_topic w). describes (iw_store w) ev"
  shows "\<forall>ev \<in> set (iw_topic w'). describes (iw_store w') ev"
proof -
  have later: "\<forall>ev \<in> set (iw_topic w). describes (iw_store w') ev"
    using assms(3) describes_later inc_step_grows [OF assms(1,2)] by blast
  show ?thesis using assms(1)
  proof cases
    case (processed s dr r st' ready sent)
    have "\<forall>ev \<in> set (case r of Inl _ \<Rightarrow> [] | Inr (_, evs) \<Rightarrow> evs). describes st' ev"
      using process_describes [OF assms(2)] processed(2) by (auto split: sum.splits)
    then show ?thesis using later processed(1) by (auto simp: publish_def)
  qed (use later in auto)
qed

lemma topic_reachable:
  assumes "config_ok c" "inc_reachable c g w"
  shows "\<forall>ev \<in> set (iw_topic w). describes (iw_store w) ev"
  using assms(2) unfolding inc_reachable_def
proof induction
  case (step w w')
  then show ?case using topic_step reachable_sound [OF assms(1)] by (metis inc_reachable_def)
qed (simp add: initial_inc_world_def)

lemma process_knows_event:
  assumes "store_sound c st" "process_once c s dr st = (Inr (out, evs), st')"
  shows "sg_event_id s \<in> ins_evidence_ids st'"
proof (cases "evidence_exists (sg_event_id s) st")
  case True
  then show ?thesis using assms(2) by (simp add: process_duplicate evidence_exists_def)
next
  case fresh: False
  note k = sound_keyed [OF assms(1)]
  show ?thesis
  proof (cases "get_active_incident (signal_key s) st")
    case None
    then show ?thesis using assms(2) by (auto simp: process_create [OF fresh None refl])
  next
    case (Some a)
    then show ?thesis using assms(2)
      by (cases "quiet_too_long c s a")
        (auto simp: process_append [OF k fresh Some] process_supersede [OF k fresh Some _ refl refl] split: if_splits)
  qed
qed

section \<open>Properties\<close>

lemma reachable_incident:
  assumes "config_ok c" "inc_reachable c g w" "get_incident k (iw_store w) = Some i"
  shows "incident_sound (pc_severity c) k i \<and> distinct (event_ids i) \<and> set (event_ids i) \<subseteq> ins_evidence_ids (iw_store w)"
proof -
  have *: "store_sound c (iw_store w)" by (rule reachable_sound [OF assms(1,2)])
  then have "distinct (ids_at (iw_store w) k)" "set (ids_at (iw_store w) k) \<subseteq> ins_evidence_ids (iw_store w)"
    by (auto simp: store_sound_def partitioned_def)
  then show ?thesis using * assms(3) by (simp add: ids_at_def get_incident_def store_sound_def)
qed

text \<open>
  Claim C18. An incident is exactly the summary of its evidence, in every reachable state and under every
  interleaving of the processor with the API: its count, interval, maxima, abnormal signals and severity
  are functions of the set of its evidence, so they do not depend on the order in which the anomalies
  arrived, and its severity is the one the thresholds call for.
\<close>
theorem incidents_mirror_evidence:
  assumes "config_ok c" "inc_reachable c guarded w" "get_incident k (iw_store w) = Some i"
  shows "let es = in_evidence i; E = set es in
    es \<noteq> [] \<and> in_count i = card (ev_event_id ` E) \<and>
    in_started i = Min (ev_window_start ` E) \<and> in_last_evidence i = Max (ev_window_end ` E) \<and>
    in_max_score i = Max (insert 0 (ev_score ` E)) \<and>
    in_max_error i = Max (insert 0 ((\<lambda>e. signal_value (ev_signals e) ''error_rate'') ` E)) \<and>
    in_max_latency i = Max (insert 0 ((\<lambda>e. signal_value (ev_signals e) ''latency_p95_ms'') ` E)) \<and>
    in_abnormal i = sorted_list_of_set (\<Union>e \<in> E. set (ev_abnormal e)) \<and>
    in_severity i = severity_spec (pc_severity c) (severity_inputs_of i)"
proof -
  have *: "summarised (pc_severity c) i" "distinct (event_ids i)"
    using reachable_incident [OF assms] by (simp_all add: incident_sound_def)
  have "length (in_evidence i) = card (ev_event_id ` set (in_evidence i))"
    using distinct_card [OF *(2)] by simp
  then show ?thesis using *(1) unfolding summarised_def Let_def by simp
qed

text \<open>
  Every accepted event is counted exactly once: in every reachable state the events the store
  knows are the disjoint union of the evidence of its incidents, and the counts of all incidents add up to
  their number.
\<close>
theorem events_counted_once:
  assumes "config_ok c" "inc_reachable c guarded w"
  shows "(\<Sum>(k, i) \<leftarrow> ins_incidents (iw_store w). in_count i) = card (ins_evidence_ids (iw_store w)) \<and>
    (\<forall>e \<in> ins_evidence_ids (iw_store w). \<exists>!k. \<exists>i. get_incident k (iw_store w) = Some i \<and> e \<in> ev_event_id ` set (in_evidence i))"
proof -
  let ?st = "iw_store w"
  have s: "store_sound c ?st" by (rule reachable_sound [OF assms])
  have keys: "distinct (map fst (ins_incidents ?st))" using s by (simp add: store_sound_def)
  have part: "partitioned (ids_at ?st) (ins_evidence_ids ?st)" using s by (simp add: store_sound_def)
  have row: "in_count i = card (set (ids_at ?st k))" if "(k, i) \<in> set (ins_incidents ?st)" for k i
  proof -
    have at: "inc_at ?st k = Some i" using that keys by simp
    then have "summarised (pc_severity c) i" using s by (simp add: store_sound_def incident_sound_def)
    then have "in_count i = length (event_ids i)" by (simp add: summarised_def Let_def)
    moreover have "ids_at ?st k = event_ids i" using at by (simp add: ids_at_def)
    moreover have "distinct (ids_at ?st k)" using part by (simp add: partitioned_def)
    ultimately show ?thesis by (metis distinct_card)
  qed
  have only: "ids_at ?st k = []" if "k \<notin> fst ` set (ins_incidents ?st)" for k
    using that by (simp add: ids_at_def map_of_eq_None_iff [THEN iffD2])
  have "(\<Sum>(k, i) \<leftarrow> ins_incidents ?st. in_count i) = (\<Sum>x \<leftarrow> ins_incidents ?st. card (set (ids_at ?st (fst x))))"
    by (rule arg_cong [where f = sum_list], rule map_cong [OF refl]) (use row in \<open>auto split: prod.split\<close>)
  also have "\<dots> = sum_list (map (\<lambda>k. card (set (ids_at ?st k))) (map fst (ins_incidents ?st)))" by (simp add: comp_def)
  also have "\<dots> = (\<Sum>k \<in> fst ` set (ins_incidents ?st). card (set (ids_at ?st k)))"
    using sum_list_distinct_conv_sum_set [OF keys] by simp
  also have "\<dots> = card (\<Union>k \<in> fst ` set (ins_incidents ?st). set (ids_at ?st k))"
    by (rule card_UN_disjoint [symmetric]) (use part in \<open>auto simp: partitioned_def\<close>)
  also have "(\<Union>k \<in> fst ` set (ins_incidents ?st). set (ids_at ?st k)) = ins_evidence_ids ?st"
    using part only unfolding partitioned_def by fastforce
  finally have sum: "(\<Sum>(k, i) \<leftarrow> ins_incidents ?st. in_count i) = card (ins_evidence_ids ?st)" .
  have at: "(\<exists>i. get_incident k ?st = Some i \<and> e \<in> ev_event_id ` set (in_evidence i)) \<longleftrightarrow> e \<in> set (ids_at ?st k)" for k e
    by (cases "inc_at ?st k") (auto simp: ids_at_def get_incident_def)
  have "\<exists>!k. e \<in> set (ids_at ?st k)" if e: "e \<in> ins_evidence_ids ?st" for e
  proof -
    obtain k where "e \<in> set (ids_at ?st k)" using e part by (auto simp: partitioned_def)
    moreover have "k' = k" if "e \<in> set (ids_at ?st k')" for k'
      using that part \<open>e \<in> set (ids_at ?st k)\<close> unfolding partitioned_def by blast
    ultimately show ?thesis by blast
  qed
  then show ?thesis unfolding at by (intro conjI sum ballI)
qed

text \<open>
  Claim C21. The relation graph follows the dependency graph: in every reachable state each link joins two
  stored incidents of one environment, from a service to one it is declared to depend on, no pair is linked
  twice, and the links are acyclic whenever the dependency graph is.
\<close>
theorem links_follow_graph:
  assumes "config_ok c" "inc_reachable c guarded w"
  shows "(\<forall>r \<in> set (ins_relations (iw_store w)). \<exists>a b. get_incident (il_incident r) (iw_store w) = Some a \<and>
        get_incident (il_related r) (iw_store w) = Some b \<and> il_incident r \<noteq> il_related r \<and> in_environment a = in_environment b \<and>
        in_service b \<in> set (dependencies_of (in_service a) (Some (tc_graph (pc_topology c))))) \<and>
    distinct (map relation_pair (ins_relations (iw_store w))) \<and>
    (acyclic {(s, t). t \<in> set (dependencies_of s (Some (tc_graph (pc_topology c))))} \<longrightarrow>
     acyclic (relation_pair ` set (ins_relations (iw_store w))))"
proof -
  let ?st = "iw_store w"
  let ?D = "{(s, t). t \<in> set (dependencies_of s (Some (tc_graph (pc_topology c))))}"
  let ?svc = "\<lambda>k. case inc_at ?st k of None \<Rightarrow> [] | Some i \<Rightarrow> in_service i"
  have s: "store_sound c ?st" by (rule reachable_sound [OF assms])
  have ok: "relation_ok c ?st r" if "r \<in> set (ins_relations ?st)" for r using s that by (simp add: store_sound_def)
  have edge: "(?svc a, ?svc b) \<in> ?D" if "(a, b) \<in> relation_pair ` set (ins_relations ?st)" for a b
    using that ok by (fastforce simp: relation_pair_def relation_ok_def)
  have path: "(?svc a, ?svc b) \<in> ?D\<^sup>+" if "(a, b) \<in> (relation_pair ` set (ins_relations ?st))\<^sup>+" for a b
    using that
  proof (induction rule: trancl.induct)
    case (r_into_trancl a b)
    show ?case by (rule trancl.r_into_trancl [OF edge [OF r_into_trancl]])
  next
    case (trancl_into_trancl a b d)
    show ?case by (rule trancl.trancl_into_trancl [OF trancl_into_trancl.IH edge [OF trancl_into_trancl.hyps(2)]])
  qed
  have "acyclic ?D \<longrightarrow> acyclic (relation_pair ` set (ins_relations ?st))"
    using path unfolding acyclic_def by metis
  moreover have "\<forall>r \<in> set (ins_relations ?st). \<exists>a b. get_incident (il_incident r) ?st = Some a \<and>
        get_incident (il_related r) ?st = Some b \<and> il_incident r \<noteq> il_related r \<and> in_environment a = in_environment b \<and>
        in_service b \<in> set (dependencies_of (in_service a) (Some (tc_graph (pc_topology c))))"
    using ok unfolding relation_ok_def get_incident_def by blast
  moreover have "distinct (map relation_pair (ins_relations ?st))" using s by (simp add: store_sound_def)
  ultimately show ?thesis by blast
qed

text \<open>
  Claim C19. One operational problem is one incident: as long as a validated API transition is applied to the
  status it was validated against, at most one incident per service and environment key is ever active, every
  history is a run of the lifecycle from OPEN, an incident is resolved exactly when it has a resolution time,
  and processing an anomaly never fails, so no retry is ever needed.
\<close>
theorem one_active_incident:
  assumes "config_ok c" "inc_reachable c True w"
  shows "(\<forall>k i k' i'. get_incident k (iw_store w) = Some i \<and> get_incident k' (iw_store w) = Some i' \<and>
        in_key i = in_key i' \<and> is_active (in_status i) \<and> is_active (in_status i') \<longrightarrow> k = k') \<and>
    (\<forall>k i. get_incident k (iw_store w) = Some i \<longrightarrow> lawful (in_history i) \<and>
        (in_status i = RESOLVED \<longleftrightarrow> in_resolved_at i \<noteq> None) \<and> tr_to (last (in_history i)) = in_status i) \<and>
    (\<forall>s dr. \<exists>out evs st'. process_once c s dr (iw_store w) = (Inr (out, evs), st'))"
proof (intro conjI allI impI)
  have sound: "store_sound c (iw_store w)" by (rule reachable_sound [OF assms])
  have law: "lawful_store (iw_store w)" using guarded_reachable [OF assms] by (simp add: world_lawful_def)
  show "k = k'" if "get_incident k (iw_store w) = Some i \<and> get_incident k' (iw_store w) = Some i' \<and>
      in_key i = in_key i' \<and> is_active (in_status i) \<and> is_active (in_status i')" for k i k' i'
    using law that unfolding lawful_store_def one_active_def get_incident_def is_active_def by blast
  fix k i assume i: "get_incident k (iw_store w) = Some i"
  show "lawful (in_history i)" "in_status i = RESOLVED \<longleftrightarrow> in_resolved_at i \<noteq> None"
    using law i by (auto simp: lawful_store_def get_incident_def incident_lawful_def)
  have "incident_sound (pc_severity c) k i" using reachable_incident [OF assms i] by blast
  then show "tr_to (last (in_history i)) = in_status i"
    using chained_last [of None "in_history i" "Some (in_status i)"] by (simp add: incident_sound_def)
next
  fix s dr
  have "store_sound c (iw_store w)" "lawful_store (iw_store w)"
    using reachable_sound [OF assms] guarded_reachable [OF assms] by (simp_all add: world_lawful_def)
  then show "\<exists>out evs st'. process_once c s dr (iw_store w) = (Inr (out, evs), st')"
    using process_lawful [of c "iw_store w" s dr] by (metis prod.collapse)
qed

text \<open>
  Incidents never lose anything: after any further steps, under every interleaving, an incident is
  still stored under its identifier with the same service and environment, its evidence and its history have
  only been extended, its count has not decreased and its severity has not been lowered.
\<close>
theorem incidents_only_grow:
  assumes "config_ok c" "inc_reachable c guarded w" "(inc_step c guarded)\<^sup>*\<^sup>* w w'" "get_incident k (iw_store w) = Some i"
  shows "\<exists>i'. get_incident k (iw_store w') = Some i' \<and> in_key i' = in_key i \<and> in_service i' = in_service i \<and>
    in_environment i' = in_environment i \<and> prefix (in_evidence i) (in_evidence i') \<and>
    prefix (in_history i) (in_history i') \<and> in_severity i \<le> in_severity i' \<and> in_count i \<le> in_count i'"
  using inc_steps_grow [OF assms(1-3)] assms(4) unfolding store_grows_def grows_def get_incident_def by blast

text \<open>
  Redelivery is harmless: once an anomaly event has been processed successfully, in every later
  state, whatever ran in between, processing an event with the same identifier reports a duplicate, writes
  nothing and publishes nothing.
\<close>
theorem redelivery_is_noop:
  assumes "config_ok c" "inc_reachable c guarded w" "process_once c s dr (iw_store w) = (Inr (out, evs), st')"
    and "get_incident (new_incident_id (dr_token dr)) (iw_store w) = None"
    and later: "(inc_step c guarded)\<^sup>*\<^sup>* (w\<lparr>iw_store := st', iw_topic := publish ready sent evs (iw_topic w)\<rparr>) w'"
    and "sg_event_id s' = sg_event_id s"
  shows "process_once c s' dr' (iw_store w') =
    (Inr (\<lparr>po_result = PR_DUPLICATE, po_incident = None, po_reason = ''duplicate event_id''\<rparr>, []), iw_store w')"
proof -
  let ?w = "w\<lparr>iw_store := st', iw_topic := publish ready sent evs (iw_topic w)\<rparr>"
  have sound: "store_sound c (iw_store w)" by (rule reachable_sound [OF assms(1,2)])
  have "inc_step c guarded w ?w"
    using inc_step.processed [OF assms(3,4), of guarded ready sent] by simp
  then have reach: "inc_reachable c guarded ?w" using assms(2) by (simp add: inc_reachable_def)
  have "sg_event_id s \<in> ins_evidence_ids st'"
    using process_knows_event [OF sound assms(3)] .
  then have "sg_event_id s \<in> ins_evidence_ids (iw_store w')"
    using inc_steps_grow [OF assms(1) reach later] by (auto simp: store_grows_def)
  then show ?thesis using assms(6) by (simp add: process_duplicate evidence_exists_def)
qed

text \<open>
  The lifecycle stream never runs ahead of the database: in every reachable state each published
  event describes a committed incident, with its key, service and environment and a count it has reached.
\<close>
theorem published_is_committed:
  assumes "config_ok c" "inc_reachable c guarded w" "ev \<in> set (iw_topic w)"
  shows "\<exists>i. get_incident (le_incident_id ev) (iw_store w) = Some i \<and> le_key ev = in_key i \<and>
    le_service ev = in_service i \<and> le_environment ev = in_environment i \<and> le_count ev \<le> in_count i"
  using topic_reachable [OF assms(1,2)] assms(3) by (simp add: describes_def)

text \<open>
  Claim C20. Processing is exact. In every state of the guarded system the first attempt succeeds, and it does
  one of four things: it skips a known event; it opens an incident when the key has no active one; it folds
  the anomaly into the active incident while that is within the correlation window; or it resolves the
  active incident as stale and opens a new one. The event, the new or grown incident, its evidence, history
  and links are written together, and the lifecycle event is the one of the incident written.
\<close>
theorem process_outcomes:
  assumes "config_ok c" "inc_reachable c True w" "0 < pc_retries c"
  shows "process c s drs (iw_store w) =
    (let st = iw_store w; dr = drs 0; act = get_active_incident (signal_key s) st;
         reason = cd_reason (correlation_decide (pc_window c) s act);
         new = new_incident (pc_severity c) s reason dr;
         linked = (\<lambda>i st'. with_links (related_links (pc_topology c) (dr_clock dr 3) i st) (with_event (sg_event_id s) st'));
         add_new = (\<lambda>st'. linked (fst new) (set_incident (new_incident_id (dr_token dr)) (opened new) st'))
     in if evidence_exists (sg_event_id s) st
        then (Inr (\<lparr>po_result = PR_DUPLICATE, po_incident = None, po_reason = ''duplicate event_id''\<rparr>, []), st)
        else case act of
          None \<Rightarrow>
            (Inr (\<lparr>po_result = PR_CREATED, po_incident = Some (new_incident_id (dr_token dr)), po_reason = reason\<rparr>,
                  [lifecycle_envelope (fst new) ''opened'']), add_new st)
        | Some a \<Rightarrow>
            if total_seconds (sg_occurred_at s - in_last_evidence a) \<le> pc_window c
            then let a' = absorb (pc_severity c) (dr_clock dr 1) a s in
              (Inr (\<lparr>po_result = PR_APPENDED, po_incident = Some (in_id a), po_reason = reason\<rparr>,
                    [lifecycle_envelope a' (if in_severity a' \<noteq> in_severity a then ''severity-changed'' else ''evidence-added'')]),
               linked a' (set_incident (in_id a) (grown (pc_severity c) (dr_clock dr 1) reason s a) st))
            else
              (Inr (\<lparr>po_result = PR_SUPERSEDED, po_incident = Some (new_incident_id (dr_token dr)), po_reason = reason\<rparr>,
                    [lifecycle_envelope (fst new) ''opened'']),
               add_new (set_incident (in_id a) (stale_resolved (dr_clock dr 2) reason a) st)))"
proof -
  let ?st = "iw_store w" and ?dr = "drs 0"
  have sound: "store_sound c ?st" "lawful_store ?st"
    using reachable_sound [OF assms(1,2)] guarded_reachable [OF assms(1,2)] by (simp_all add: world_lawful_def)
  note k = sound_keyed [OF sound(1)]
  obtain y where y: "fst (process_once c s ?dr ?st) = Inr y" using process_lawful [OF sound] by blast
  then have first: "process c s drs ?st = process_once c s ?dr ?st"
    using assms(3) by (cases "process_once c s ?dr ?st") (simp add: process_def upt_conv_Cons)
  show ?thesis
  proof (cases "evidence_exists (sg_event_id s) ?st")
    case True
    then show ?thesis unfolding first by (simp add: process_duplicate Let_def)
  next
    case fresh: False
    show ?thesis
    proof (cases "get_active_incident (signal_key s) ?st")
      case None
      then show ?thesis using fresh unfolding first process_create [OF fresh None refl] by (simp add: Let_def)
    next
      case (Some a)
      show ?thesis
      proof (cases "quiet_too_long c s a")
        case False
        then have "total_seconds (sg_occurred_at s - in_last_evidence a) \<le> pc_window c" by (simp add: quiet_too_long_def)
        then show ?thesis using fresh Some unfolding first process_append [OF k fresh Some False] by (simp add: Let_def)
      next
        case True
        then have "\<not> total_seconds (sg_occurred_at s - in_last_evidence a) \<le> pc_window c" by (simp add: quiet_too_long_def)
        then show ?thesis using fresh Some y unfolding first process_supersede [OF k fresh Some True refl refl]
          by (simp add: Let_def split: if_splits)
      qed
    qed
  qed
qed

end
