(* ===== verification/Envelope.thy ===== *)
theory Envelope imports KafkaConsumer begin

text \<open>
  The event envelope of the platform (\<open>libs/sentinelops_common/events.py\<close>) and the JSON producer around the
  Kafka client (\<open>KafkaJsonProducer\<close> in \<open>kafka.py\<close>). JSON, Pydantic's validation of the envelope and UTF-8
  are parameters.
\<close>

record 'p envelope =
  ee_id :: string
  ee_type :: string
  ee_version :: int
  ee_occurred :: datetime
  ee_source :: string
  ee_trace :: "string option"
  ee_payload :: 'p

record ('j, 'p) envelope_codec =
  ec_loads :: "string option \<Rightarrow> string + 'j"
  ec_validate :: "'j \<Rightarrow> string + 'p envelope"
  ec_dump :: "'p envelope \<Rightarrow> string"
  ec_utf8 :: "string \<Rightarrow> string"

definition parse_envelope :: "('j, 'p) envelope_codec \<Rightarrow> string option \<Rightarrow> string + 'p envelope" where
  "parse_envelope ec raw =
     (case ec_loads ec raw of
        Inl m \<Rightarrow> Inl (''not valid JSON: '' @ m)
      | Inr d \<Rightarrow>
          (case ec_validate ec d of
             Inl m \<Rightarrow> Inl (''does not match the event envelope: '' @ m)
           | Inr e \<Rightarrow> Inr e))"

definition kafka_headers :: "('j, 'p) envelope_codec \<Rightarrow> 'p envelope \<Rightarrow> (string \<times> string) list" where
  "kafka_headers ec e =
     [(''event-type'', ec_utf8 ec (ee_type e)), (''event-id'', ec_utf8 ec (ee_id e)),
      (''event-version'', ec_utf8 ec (int_str (ee_version e)))]"

text \<open>
  What the client says to one send: it is written, it raises a \<open>KafkaError\<close>, or it raises something else.
\<close>

datatype send_result = SENT | KAFKA_ERROR string | OTHER_ERROR string string

datatype producer_error = PE_RUNTIME string | PE_RETRYABLE string | PE_OTHER string string

record message =
  ms_topic :: string
  ms_key :: string
  ms_value :: string
  ms_headers :: "(string \<times> string) list"

definition producer_publish ::
  "('j, 'p) envelope_codec \<Rightarrow> bool \<Rightarrow> send_result \<Rightarrow> string \<Rightarrow> 'p envelope \<Rightarrow> string \<Rightarrow> (string \<times> string) list \<Rightarrow>
   message list \<Rightarrow> (producer_error + unit) \<times> message list" where
  "producer_publish ec ready sr topic e key extra sent =
     (if \<not> ready then (Inl (PE_RUNTIME ''producer not started''), sent)
      else case sr of
        KAFKA_ERROR m \<Rightarrow> (Inl (PE_RETRYABLE (''kafka publish to '' @ repr_str topic @ '' failed: '' @ m)), sent)
      | OTHER_ERROR c m \<Rightarrow> (Inl (PE_OTHER c m), sent)
      | SENT \<Rightarrow> (Inr (), sent @ [\<lparr>ms_topic = topic, ms_key = ec_utf8 ec key, ms_value = ec_dump ec e,
          ms_headers = kafka_headers ec e @ extra\<rparr>]))"

section \<open>What is published is read back\<close>

text \<open>
  The library reads back what it dumps: the documented behaviour of \<open>model_dump_json\<close> and
  \<open>model_validate\<close> on the envelopes in question.
\<close>

definition reads_back :: "('j, 'p) envelope_codec \<Rightarrow> 'p envelope \<Rightarrow> bool" where
  "reads_back ec e \<longleftrightarrow> (\<exists>d. ec_loads ec (Some (ec_dump ec e)) = Inr d \<and> ec_validate ec d = Inr e)"

lemma published_reads_back:
  assumes "producer_publish ec ready sr topic e key extra sent = (Inr u, sent')" and "reads_back ec e"
  shows "\<exists>ms. sent' = sent @ [ms] \<and> parse_envelope ec (Some (ms_value ms)) = Inr e \<and>
    take 3 (ms_headers ms) = kafka_headers ec e"
  using assms
  by (auto simp: producer_publish_def parse_envelope_def reads_back_def kafka_headers_def split: if_splits send_result.splits)

end
