(* ===== verification/IncDelivery.thy ===== *)
theory IncDelivery imports IncProps Envelope begin

text \<open>
  The Kafka side of the incident correlator: from the envelope to the signal (\<open>events.py\<close>), the handler of
  \<open>consumer.py\<close>, and that handler in the consume loop of the shared library. The \<open>n\<close>-th call of the handler
  draws identifiers and clock readings of its own, and finds the producer of lifecycle events in some
  condition.
\<close>

section \<open>From the envelope to the signal\<close>

record anomaly_detected =
  ap_detector :: string
  ap_detector_version :: string
  ap_service :: string
  ap_environment :: string
  ap_window_start :: string
  ap_window_end :: string
  ap_score :: rat
  ap_threshold :: rat
  ap_is_anomaly :: bool
  ap_signals :: "(string, rat) dict"
  ap_abnormal :: "string list"
  ap_detection_latency :: "rat option"
  ap_scrape_latency :: "rat option"
  ap_inference_latency :: "rat option"

text \<open>Pydantic's reading of the payload and \<open>datetime.fromisoformat\<close>: the local reading and, when the text has one, its offset.\<close>

record 'p anomaly_codec =
  ac_payload :: "'p \<Rightarrow> string + anomaly_detected"
  ac_iso :: "string \<Rightarrow> string + datetime \<times> datetime option"

definition ANOMALY_DETECTED :: string where
  "ANOMALY_DETECTED = ''anomaly.detected''"

definition ANOMALY_DETECTED_VERSION :: int where
  "ANOMALY_DETECTED_VERSION = 1"

definition parse_ts :: "'p anomaly_codec \<Rightarrow> string \<Rightarrow> string + datetime" where
  "parse_ts ac v =
     (case ac_iso ac v of
        Inl m \<Rightarrow> Inl m
      | Inr (t, None) \<Rightarrow> Inr t
      | Inr (t, Some off) \<Rightarrow> Inr (t - off))"

definition anomaly_signal_from_envelope :: "'p anomaly_codec \<Rightarrow> 'p envelope \<Rightarrow> string + anomaly_signal" where
  "anomaly_signal_from_envelope ac e =
     (if ee_type e \<noteq> ANOMALY_DETECTED then Inl (''unexpected event_type '' @ repr_str (ee_type e))
      else if ee_version e \<noteq> ANOMALY_DETECTED_VERSION
      then Inl (''unsupported '' @ ANOMALY_DETECTED @ '' version '' @ int_str (ee_version e) @
        '' (this service speaks v'' @ int_str ANOMALY_DETECTED_VERSION @ '')'')
      else case ac_payload ac (ee_payload e) of
        Inl m \<Rightarrow> Inl (''payload does not match '' @ ANOMALY_DETECTED @ '' v1: '' @ m)
      | Inr p \<Rightarrow>
          if \<not> ap_is_anomaly p then Inl ''event is not flagged as an anomaly (is_anomaly=false)''
          else case parse_ts ac (ap_window_start p) of
            Inl m \<Rightarrow> Inl (''bad field value: '' @ m)
          | Inr t0 \<Rightarrow> (case parse_ts ac (ap_window_end p) of
              Inl m \<Rightarrow> Inl (''bad field value: '' @ m)
            | Inr t1 \<Rightarrow> Inr \<lparr>sg_event_id = ee_id e, sg_detector = ap_detector p, sg_detector_version = ap_detector_version p,
                sg_service = ap_service p, sg_environment = ap_environment p, sg_window_start = t0, sg_window_end = t1,
                sg_score = ap_score p, sg_threshold = ap_threshold p, sg_signals = ap_signals p, sg_abnormal = ap_abnormal p,
                sg_trace_id = ee_trace e, sg_occurred_at = ee_occurred e\<rparr>))"

lemma signal_of_envelope:
  assumes "anomaly_signal_from_envelope ac e = Inr s"
  shows "sg_event_id s = ee_id e"
  using assms by (auto simp: anomaly_signal_from_envelope_def split: if_splits sum.splits)

section \<open>The handler\<close>

record inc_call =
  ic_draws :: "nat \<Rightarrow> draws"
  ic_ready :: bool
  ic_sent :: bool

record inc_service =
  iv_calls :: nat
  iv_store :: inc_store
  iv_topic :: "Processor.lifecycle_event list"

text \<open>The exception an error of the processor is, as the consume loop reports it.\<close>

fun inc_exit :: "inc_error \<Rightarrow> handler_exit" where
  "inc_exit (RetryableError k) = HX_RETRYABLE (''lost the create race repeatedly for '' @ repr_str k)"
| "inc_exit UnreachableAssertion = HX_OTHER ''AssertionError'' ''unreachable''"
| "inc_exit (IncidentKeyError k) = HX_OTHER ''KeyError'' (repr_str k)"
| "inc_exit (DuplicateActiveIncidentError k) = HX_OTHER ''DuplicateActiveIncidentError'' k"
| "inc_exit AnomalyEventError = HX_OTHER ''AnomalyEventError'' ''''"
| "inc_exit HTTP_NOT_FOUND = HX_OTHER ''HTTPException'' ''404''"
| "inc_exit HTTP_CONFLICT = HX_OTHER ''HTTPException'' ''409''"

definition inc_handler ::
  "processor_config \<Rightarrow> 'p anomaly_codec \<Rightarrow> (nat \<Rightarrow> inc_call) \<Rightarrow> (krecord \<Rightarrow> (string \<times> string) option) \<Rightarrow>
   ('p envelope, inc_service) handler" where
  "inc_handler c ac calls bad e r w =
     (let n = iv_calls w; w' = w\<lparr>iv_calls := Suc n\<rparr> in
      case bad r of
        Some (cl, m) \<Rightarrow> (w', HX_OTHER cl m)
      | None \<Rightarrow> (case anomaly_signal_from_envelope ac e of
          Inl m \<Rightarrow> (w', HX_REJECTED m)
        | Inr s \<Rightarrow> (case process c s (ic_draws (calls n)) (iv_store w) of
            (Inl x, st) \<Rightarrow> (w'\<lparr>iv_store := st\<rparr>, inc_exit x)
          | (Inr (out, evs), st) \<Rightarrow>
              (w'\<lparr>iv_store := st, iv_topic := publish (ic_ready (calls n)) (ic_sent (calls n)) evs (iv_topic w)\<rparr>, HX_OK))))"

text \<open>The incident is committed before its events are published, so the process can die between the two.\<close>

definition inc_cuts ::
  "processor_config \<Rightarrow> 'p anomaly_codec \<Rightarrow> (nat \<Rightarrow> inc_call) \<Rightarrow> (krecord \<Rightarrow> (string \<times> string) option) \<Rightarrow>
   ('p envelope, inc_service) handler_cuts" where
  "inc_cuts c ac calls bad e r w =
     (case (bad r, anomaly_signal_from_envelope ac e) of
        (None, Inr s) \<Rightarrow>
          [w\<lparr>iv_calls := Suc (iv_calls w), iv_store := snd (process c s (ic_draws (calls (iv_calls w))) (iv_store w))\<rparr>]
      | _ \<Rightarrow> [])"

text \<open>A cut leaves the world the whole call leaves, without its events.\<close>

lemma inc_cut_unpublished:
  assumes "w' \<in> set (inc_cuts c ac calls bad e r w)"
  shows "w' = (fst (inc_handler c ac calls bad e r w))\<lparr>iv_topic := iv_topic w\<rparr>"
proof (cases "bad r")
  case None
  obtain s where s: "anomaly_signal_from_envelope ac e = Inr s"
    using assms None by (cases "anomaly_signal_from_envelope ac e") (simp_all add: inc_cuts_def)
  obtain x st where p: "process c s (ic_draws (calls (iv_calls w))) (iv_store w) = (x, st)" by fastforce
  show ?thesis
    using assms None s p by (cases x) (auto simp: inc_cuts_def inc_handler_def Let_def)
qed (use assms in \<open>simp add: inc_cuts_def\<close>)

section \<open>One call\<close>

lemma incident_keys: "fst ` set (ins_incidents st) = {k. inc_at st k \<noteq> None}"
  by (metis dom_def dom_map_of_conv_image_fst)

lemma process_keys:
  assumes "keyed st"
  shows "fst ` set (ins_incidents (snd (process_once c s dr st))) \<subseteq>
    insert (new_incident_id (dr_token dr)) (fst ` set (ins_incidents st))"
  unfolding incident_keys
proof (cases "evidence_exists (sg_event_id s) st")
  case True
  then show "{k. inc_at (snd (process_once c s dr st)) k \<noteq> None} \<subseteq> insert (new_incident_id (dr_token dr)) {k. inc_at st k \<noteq> None}"
    by (auto simp: process_duplicate)
next
  case fresh: False
  show "{k. inc_at (snd (process_once c s dr st)) k \<noteq> None} \<subseteq> insert (new_incident_id (dr_token dr)) {k. inc_at st k \<noteq> None}"
  proof (cases "get_active_incident (signal_key s) st")
    case None
    then show ?thesis by (auto simp: process_create [OF fresh None refl] map_of_update_if split: if_splits)
  next
    case (Some a)
    have a: "inc_at st (in_id a) = Some a" using active_at [OF assms Some] by simp
    then show ?thesis
      by (cases "quiet_too_long c s a")
        (auto simp: process_append [OF assms fresh Some] process_supersede [OF assms fresh Some _ refl refl] map_of_update_if
          split: if_splits)
  qed
qed

lemma process_first:
  assumes "store_sound c st" "lawful_store st" "0 < pc_retries c"
  obtains out evs st' where "process c s drs st = (Inr (out, evs), st')" "process_once c s (drs 0) st = (Inr (out, evs), st')"
proof -
  obtain y where "fst (process_once c s (drs 0) st) = Inr y" using process_lawful [OF assms(1,2)] by blast
  then obtain out evs st' where p: "process_once c s (drs 0) st = (Inr (out, evs), st')" by (metis prod.collapse)
  then have "process c s drs st = (Inr (out, evs), st')"
    using assms(3) by (simp add: process_def upt_conv_Cons)
  then show thesis using p by (rule that)
qed

definition inc_good :: "processor_config \<Rightarrow> (nat \<Rightarrow> inc_call) \<Rightarrow> inc_service \<Rightarrow> bool" where
  "inc_good c calls w \<longleftrightarrow> config_ok c \<and> 0 < pc_retries c \<and> inj (\<lambda>n. dr_token (ic_draws (calls n) 0)) \<and>
     store_sound c (iv_store w) \<and> lawful_store (iv_store w) \<and>
     fst ` set (ins_incidents (iv_store w)) \<subseteq> (\<lambda>n. new_incident_id (dr_token (ic_draws (calls n) 0))) ` {..<iv_calls w}"

definition inc_settled :: "'p anomaly_codec \<Rightarrow> 'p envelope \<Rightarrow> inc_service \<Rightarrow> bool" where
  "inc_settled ac e w \<longleftrightarrow>
     (case anomaly_signal_from_envelope ac e of Inl m \<Rightarrow> False | Inr s \<Rightarrow> sg_event_id s \<in> ins_evidence_ids (iv_store w))"

text \<open>What a call does in a good world: nothing but count itself, or one successful attempt.\<close>

lemma inc_handler_cases:
  assumes "inc_good c calls w" and "inc_handler c ac calls bad e r w = (w', y)"
  obtains (refused) "w' = w\<lparr>iv_calls := Suc (iv_calls w)\<rparr>" "y \<noteq> HX_OK"
  | (accepted) s out evs st' where "anomaly_signal_from_envelope ac e = Inr s"
      "process_once c s (ic_draws (calls (iv_calls w)) 0) (iv_store w) = (Inr (out, evs), st')" "y = HX_OK"
      "iv_calls w' = Suc (iv_calls w)" "iv_store w' = st'"
      "iv_topic w' = publish (ic_ready (calls (iv_calls w))) (ic_sent (calls (iv_calls w))) evs (iv_topic w)"
proof (cases "bad r")
  case (Some x)
  then show thesis using assms(2) refused by (auto simp: inc_handler_def Let_def split: prod.splits)
next
  case None
  show thesis
  proof (cases "anomaly_signal_from_envelope ac e")
    case (Inl m)
    then show thesis using assms(2) None refused by (auto simp: inc_handler_def Let_def)
  next
    case (Inr s)
    have g: "store_sound c (iv_store w)" "lawful_store (iv_store w)" "0 < pc_retries c"
      using assms(1) by (simp_all add: inc_good_def)
    obtain out evs st' where p: "process c s (ic_draws (calls (iv_calls w))) (iv_store w) = (Inr (out, evs), st')"
      "process_once c s (ic_draws (calls (iv_calls w)) 0) (iv_store w) = (Inr (out, evs), st')"
      by (rule process_first [OF g])
    show thesis
      by (rule accepted [OF Inr p(2)]) (use assms(2) None Inr p(1) in \<open>auto simp: inc_handler_def Let_def\<close>)
  qed
qed

lemma inc_handler_good:
  assumes "inc_good c calls w"
  shows "inc_good c calls (fst (inc_handler c ac calls bad e r w)) \<and>
    (inc_settled ac e' w \<longrightarrow> inc_settled ac e' (fst (inc_handler c ac calls bad e r w)))"
proof -
  let ?id = "\<lambda>n. new_incident_id (dr_token (ic_draws (calls n) 0))"
  have g: "config_ok c" "0 < pc_retries c" "inj (\<lambda>n. dr_token (ic_draws (calls n) 0))" "store_sound c (iv_store w)"
    "lawful_store (iv_store w)" "fst ` set (ins_incidents (iv_store w)) \<subseteq> ?id ` {..<iv_calls w}"
    using assms by (simp_all add: inc_good_def)
  obtain w' y where h: "inc_handler c ac calls bad e r w = (w', y)" by fastforce
  have more: "?id ` {..<iv_calls w} \<subseteq> ?id ` {..<Suc (iv_calls w)}" by auto
  from assms h show ?thesis
  proof (cases rule: inc_handler_cases)
    case refused
    then show ?thesis using g more h by (auto simp: inc_good_def inc_settled_def split: sum.split)
  next
    case (accepted s out evs st')
    let ?dr = "ic_draws (calls (iv_calls w)) 0"
    have st': "snd (process_once c s ?dr (iv_store w)) = st'" using accepted(2) by simp
    have fresh: "inc_at (iv_store w) (?id (iv_calls w)) = None"
    proof (rule ccontr)
      assume "inc_at (iv_store w) (?id (iv_calls w)) \<noteq> None"
      then have "?id (iv_calls w) \<in> fst ` set (ins_incidents (iv_store w))" by (metis map_of_eq_None_iff)
      then obtain m where "m < iv_calls w" "?id (iv_calls w) = ?id m" using g(6) by blast
      then show False using injD [OF g(3), of "iv_calls w" m] by (simp add: new_incident_id_def)
    qed
    have "store_sound c st'" using process_sound [OF g(1,4) fresh, of s] st' by simp
    moreover have "lawful_store st'" using process_lawful [OF g(4,5), of s ?dr] st' by simp
    moreover have "fst ` set (ins_incidents st') \<subseteq> ?id ` {..<Suc (iv_calls w)}"
      using process_keys [OF sound_keyed [OF g(4)], of c s ?dr] g(6) more unfolding st'
      by (meson imageI insert_subset lessThan_iff lessI order_trans subset_trans)
    ultimately have "inc_good c calls w'" using g accepted by (simp add: inc_good_def)
    moreover have "ins_evidence_ids (iv_store w) \<subseteq> ins_evidence_ids st'"
      using process_grows [OF g(4) fresh, of s] st' by (simp add: store_grows_def)
    ultimately show ?thesis using h accepted by (auto simp: inc_settled_def split: sum.splits)
  qed
qed

lemma process_event_ids:
  assumes "store_sound c st"
  shows "ins_evidence_ids (snd (process_once c s dr st)) \<subseteq> insert (sg_event_id s) (ins_evidence_ids st)"
proof (cases "evidence_exists (sg_event_id s) st")
  case True
  then show ?thesis by (auto simp: process_duplicate)
next
  case fresh: False
  note k = sound_keyed [OF assms]
  show ?thesis
  proof (cases "get_active_incident (signal_key s) st")
    case None
    then show ?thesis by (simp add: process_create [OF fresh None refl])
  next
    case (Some a)
    then show ?thesis
      by (cases "quiet_too_long c s a")
        (auto simp: process_append [OF k fresh Some] process_supersede [OF k fresh Some _ refl refl])
  qed
qed

definition envelope_events :: "'p anomaly_codec \<Rightarrow> 'p envelope \<Rightarrow> string set" where
  "envelope_events ac e = (case anomaly_signal_from_envelope ac e of Inl m \<Rightarrow> {} | Inr s \<Rightarrow> {sg_event_id s})"

lemma inc_topic_free [simp]:
  "inc_good c calls (w\<lparr>iv_topic := t\<rparr>) = inc_good c calls w"
  "inc_settled ac e (w\<lparr>iv_topic := t\<rparr>) = inc_settled ac e w"
  by (simp_all add: inc_good_def inc_settled_def split: sum.split)

interpretation inc_events: traced_handler "inc_handler c ac calls bad" "inc_cuts c ac calls bad" "inc_good c calls" "inc_settled ac"
  "\<lambda>w. (iv_store w, iv_topic w)" "\<lambda>w. ins_evidence_ids (iv_store w)" "envelope_events ac" for c ac calls bad
proof
  fix w w' e r e' r'
  assume g: "inc_good c calls w"
  have sound: "store_sound c (iv_store w)" using g by (simp add: inc_good_def)
  obtain w1 y where h: "inc_handler c ac calls bad e r w = (w1, y)" by fastforce
  show "inc_good c calls (fst (inc_handler c ac calls bad e r w))" using inc_handler_good [OF g] by blast
  show "w' \<in> set (inc_cuts c ac calls bad e r w) \<Longrightarrow> inc_good c calls w'"
    using inc_cut_unpublished inc_handler_good [OF g] by fastforce
  show "inc_settled ac e w \<Longrightarrow> w' \<in> set (inc_cuts c ac calls bad e' r' w) \<Longrightarrow> inc_settled ac e w'"
    using inc_cut_unpublished [of w' c ac calls bad e' r' w] inc_handler_good [OF g, of ac bad e' r' e] by auto
  show "inc_settled ac e w \<Longrightarrow> inc_settled ac e (fst (inc_handler c ac calls bad e' r' w))"
    using inc_handler_good [OF g] by blast
  show "snd (inc_handler c ac calls bad e r w) = HX_OK \<Longrightarrow> inc_settled ac e (fst (inc_handler c ac calls bad e r w))"
    using g h
  proof (cases rule: inc_handler_cases)
    case (accepted s out evs st')
    then show ?thesis using process_knows_event [OF sound accepted(2)] h by (simp add: inc_settled_def)
  qed (use h in simp)
  show "inc_settled ac e w \<Longrightarrow> (iv_store (fst (inc_handler c ac calls bad e r w)), iv_topic (fst (inc_handler c ac calls bad e r w))) =
      (iv_store w, iv_topic w)"
    using g h
  proof (cases rule: inc_handler_cases)
    case (accepted s out evs st')
    assume "inc_settled ac e w"
    then have "evidence_exists (sg_event_id s) (iv_store w)" using accepted(1) by (simp add: inc_settled_def evidence_exists_def)
    then show ?thesis using accepted h by (auto simp: process_duplicate publish_def)
  qed (use h in simp)
  show adds: "ins_evidence_ids (iv_store (fst (inc_handler c ac calls bad e r w))) \<subseteq> ins_evidence_ids (iv_store w) \<union> envelope_events ac e"
    using g h
  proof (cases rule: inc_handler_cases)
    case (accepted s out evs st')
    then show ?thesis using process_event_ids [OF sound, of s "ic_draws (calls (iv_calls w)) 0"] h by (auto simp: envelope_events_def)
  qed (use h in simp)
  show "w' \<in> set (inc_cuts c ac calls bad e r w) \<Longrightarrow>
      ins_evidence_ids (iv_store w') \<subseteq> ins_evidence_ids (iv_store w) \<union> envelope_events ac e"
    using inc_cut_unpublished [of w' c ac calls bad e r w] adds by simp
qed

section \<open>Exactly one piece of evidence\<close>

definition held_events :: "inc_store \<Rightarrow> string list" where
  "held_events st = concat (map (\<lambda>x. ids_at st (fst x)) (ins_incidents st))"

lemma ids_of_row:
  assumes "store_sound c st" and "x \<in> set (ins_incidents st)"
  shows "ids_at st (fst x) = event_ids (snd x)" and "in_count (snd x) = length (ids_at st (fst x))"
proof -
  have at: "inc_at st (fst x) = Some (snd x)" using assms by (simp add: store_sound_def)
  then have "summarised (pc_severity c) (snd x)" using assms(1) unfolding store_sound_def incident_sound_def by blast
  with at show "ids_at st (fst x) = event_ids (snd x)" "in_count (snd x) = length (ids_at st (fst x))"
    by (simp_all add: ids_at_def summarised_def Let_def)
qed

lemma held_events_eq:
  assumes "store_sound c st"
  shows "held_events st = map ev_event_id (concat (map (in_evidence \<circ> snd) (ins_incidents st)))"
  using ids_of_row(1) [OF assms] by (simp add: held_events_def map_concat comp_def cong: map_cong)

lemma held_distinct:
  assumes "partitioned f E" and "distinct (map fst xs)"
  shows "distinct (concat (map (\<lambda>x. f (fst x)) xs))"
  using assms(2)
proof (induction xs)
  case (Cons x xs)
  have "set (f (fst x)) \<inter> set (f (fst y)) = {}" if "y \<in> set xs" for y
  proof -
    have "fst x \<noteq> fst y" using that Cons.prems by force
    then show ?thesis using assms(1) unfolding partitioned_def by blast
  qed
  moreover have "distinct (f (fst x))" using assms(1) unfolding partitioned_def by blast
  ultimately show ?case using Cons by auto
qed simp

lemma held_set:
  assumes "store_sound c st"
  shows "set (held_events st) = ins_evidence_ids st"
proof -
  have part: "ins_evidence_ids st = (\<Union>k. set (ids_at st k))"
    using assms unfolding store_sound_def partitioned_def by blast
  have row: "\<exists>y \<in> set (ins_incidents st). fst y = k" if k: "x \<in> set (ids_at st k)" for x k
  proof -
    obtain i where "inc_at st k = Some i" using k by (cases "inc_at st k") (simp_all add: ids_at_def)
    then have "(k, i) \<in> set (ins_incidents st)" by (rule map_of_SomeD)
    then show ?thesis by force
  qed
  show ?thesis
  proof (rule set_eqI)
    fix x
    have "x \<in> set (held_events st) \<longleftrightarrow> (\<exists>y \<in> set (ins_incidents st). x \<in> set (ids_at st (fst y)))"
      by (simp add: held_events_def)
    also have "\<dots> \<longleftrightarrow> (\<exists>k. x \<in> set (ids_at st k))" using row by metis
    finally show "x \<in> set (held_events st) \<longleftrightarrow> x \<in> ins_evidence_ids st" by (simp add: part)
  qed
qed

lemma held_counts:
  assumes "store_sound c st"
  shows "(\<Sum>(k, i) \<leftarrow> ins_incidents st. in_count i) = length (held_events st)"
  unfolding held_events_def length_concat map_map
  by (rule arg_cong [where f = sum_list], rule map_cong [OF refl])
    (use ids_of_row(2) [OF assms] in \<open>auto simp: comp_def\<close>)

text \<open>
  Claim C22. From the anomaly topic to the database, with redeliveries, crashes between the database and the
  publication of the events or between the handler and the commit, and broker failures: once the consumer
  has committed past an anomaly that it can read, exactly one incident holds the event as evidence, exactly
  once, or the record is among the dead letters or in the log of those that could not be written. Nothing is
  made up: every piece of evidence comes from a record of the partition. The counts of the incidents add up to the number of distinct events in evidence. Tokens are
  drawn without repetition, at least one attempt is configured on either level, and the dependency graph
  names no service twice.
\<close>

theorem anomalies_become_evidence:
  assumes "session cf br decode (inc_handler c ac calls bad) (inc_cuts c ac calls bad) part \<lparr>iv_calls = 0, iv_store = empty_inc_store, iv_topic = []\<rparr> (p, st)"
    and "config_ok c" and "0 < pc_retries c" and "inj (\<lambda>n. dr_token (ic_draws (calls n) 0))"
    and "1 \<le> kf_max_retries cf" and "\<forall>j < length part. kr_offset (part ! j) = j"
  shows "let rows = ins_incidents (iv_store (kc_world st)); held = map ev_event_id (concat (map (in_evidence \<circ> snd) rows)) in
    distinct held \<and> (\<Sum>(k, i) \<leftarrow> rows. in_count i) = length held \<and>
    (\<forall>j < kc_committed st. \<forall>e s. decode (kr_value (part ! j)) = Inr e \<longrightarrow> anomaly_signal_from_envelope ac e = Inr s \<longrightarrow>
       part ! j \<in> fst ` set (kc_dlq st) \<union> set (kc_lost st) \<or> ee_id e \<in> set held) \<and>
    (\<forall>x \<in> set held. \<exists>r \<in> set part. \<exists>e s. decode (kr_value r) = Inr e \<and> anomaly_signal_from_envelope ac e = Inr s \<and> ee_id e = x)"
proof -
  let ?w0 = "\<lparr>iv_calls = 0, iv_store = empty_inc_store, iv_topic = []\<rparr>" and ?st = "iv_store (kc_world st)"
  have g0: "inc_good c calls ?w0"
    using assms(2-4) by (simp add: inc_good_def empty_sound lawful_store_def one_active_def) (simp add: empty_inc_store_def)
  have acc: "inc_good c calls (kc_world st)" "\<And>j. j < kc_committed st \<Longrightarrow> inc_events.accounted ac decode (part ! j) st"
    using inc_events.session_accounts [OF assms(1) g0] assms(5,6) by auto
  have sound: "store_sound c ?st" using acc(1) by (simp add: inc_good_def)
  define held where "held = held_events ?st"
  have h: "distinct held" "set held = ins_evidence_ids ?st" "(\<Sum>(k, i) \<leftarrow> ins_incidents ?st. in_count i) = length held"
    using sound held_set [OF sound] held_counts [OF sound] held_distinct [of "ids_at ?st" "ins_evidence_ids ?st" "ins_incidents ?st"]
    by (simp_all add: held_def held_events_def store_sound_def)
  have "\<forall>x \<in> set held. \<exists>r \<in> set part. \<exists>e s. decode (kr_value r) = Inr e \<and> anomaly_signal_from_envelope ac e = Inr s \<and> ee_id e = x"
  proof
    fix x assume "x \<in> set held"
    then have "x \<in> ins_evidence_ids ?st" using h(2) by simp
    moreover have "ins_evidence_ids (iv_store ?w0) = {}" by (simp add: empty_inc_store_def)
    ultimately obtain r where r: "r \<in> set part" "x \<in> inc_events.record_keys ac decode r"
      using inc_events.session_trace [OF assms(1) g0] by auto
    then show "\<exists>r \<in> set part. \<exists>e s. decode (kr_value r) = Inr e \<and> anomaly_signal_from_envelope ac e = Inr s \<and> ee_id e = x"
      by (intro bexI [of _ r])
        (auto simp: inc_events.record_keys_def envelope_events_def signal_of_envelope split: sum.splits)
  qed
  moreover have "part ! j \<in> fst ` set (kc_dlq st) \<union> set (kc_lost st) \<or> ee_id e \<in> set held"
    if "j < kc_committed st" "decode (kr_value (part ! j)) = Inr e" "anomaly_signal_from_envelope ac e = Inr s" for j e s
    using acc(2) [OF that(1)] that(2,3) signal_of_envelope [OF that(3)] h(2)
    by (auto simp: inc_events.accounted_def inc_settled_def in_letters_def)
  ultimately show ?thesis unfolding Let_def using h(1,3) unfolding held_def held_events_eq [OF sound] by blast
qed


end
