(* ===== verification/IncWitness.thy ===== *)
theory IncWitness imports IncProps begin

text \<open>
  A sample run of the incident correlator in its default configuration: one anomaly of \<open>orders-service\<close>
  opens an incident, and one of \<open>payments-service\<close> opens a second one that is linked to it.
  The properties of \<open>IncProps\<close> are applied to it, and a second run shows a stale API transition.
\<close>

definition sample_signal :: "string \<Rightarrow> string \<Rightarrow> anomaly_signal" where
  "sample_signal eid svc =
     \<lparr>sg_event_id = eid, sg_detector = ''isolation_forest'', sg_detector_version = ''1'', sg_service = svc,
      sg_environment = ''production'', sg_window_start = 0, sg_window_end = 10000000, sg_score = 3 / 4, sg_threshold = 1 / 2,
      sg_signals = [(''error_rate'', 1 / 5)], sg_abnormal = [''error_rate''], sg_trace_id = None, sg_occurred_at = 11000000\<rparr>"

definition sample_draws :: "string \<Rightarrow> draws" where
  "sample_draws tok = \<lparr>dr_token = tok, dr_clock = (\<lambda>_. 12000000)\<rparr>"

abbreviation cfg :: processor_config where
  "cfg \<equiv> default_processor_config"

definition sample_store :: inc_store where
  "sample_store = snd (process_once cfg (sample_signal ''e1'' ''orders-service'') (sample_draws ''a'') empty_inc_store)"

definition sample_world :: inc_world where
  "sample_world = initial_inc_world\<lparr>iw_store := sample_store,
     iw_topic := (case fst (process_once cfg (sample_signal ''e1'' ''orders-service'') (sample_draws ''a'') empty_inc_store) of
       Inl _ \<Rightarrow> [] | Inr (_, evs) \<Rightarrow> evs)\<rparr>"

abbreviation first_new :: "incident \<times> evidence_record \<times> state_transition" where
  "first_new \<equiv> new_incident (pc_severity cfg) (sample_signal ''e1'' ''orders-service'')
     (decision_reason cfg (sample_signal ''e1'' ''orders-service'') None) (sample_draws ''a'')"

lemma sample_config_ok: "config_ok cfg"
  by (simp add: config_ok_def default_processor_config_def default_topology_config_def SERVICE_DEPENDENCY_GRAPH_def)

lemma sample_signal_sel [simp]:
  "sg_event_id (sample_signal e v) = e" "sg_service (sample_signal e v) = v" "sg_environment (sample_signal e v) = ''production''"
  "sg_occurred_at (sample_signal e v) = 11000000" "dr_token (sample_draws t) = t"
  by (simp_all add: sample_signal_def sample_draws_def)

lemma empty_facts: "\<not> evidence_exists e empty_inc_store" "get_active_incident k empty_inc_store = None"
  by (simp_all add: evidence_exists_def empty_inc_store_def get_active_incident_def)

lemmas sample_first = process_create [OF empty_facts(1) empty_facts(2) refl, where s = "sample_signal ''e1'' ''orders-service''" and dr = "sample_draws ''a''"
    and c = cfg]

lemma sample_step: "inc_step cfg g initial_inc_world sample_world"
  using inc_step.processed [of cfg "sample_signal ''e1'' ''orders-service''" "sample_draws ''a''" initial_inc_world _ sample_store g True True]
  by (simp add: sample_world_def initial_inc_world_def sample_store_def publish_def get_incident_def empty_inc_store_def prod_eq_iff)

lemma sample_reachable: "inc_reachable cfg g sample_world"
  unfolding inc_reachable_def using sample_step by blast

lemma new_incident_open [simp]: "in_status (fst (new_incident c s r dr)) = OPEN" "in_resolved_at (fst (new_incident c s r dr)) = None"
  by (simp_all add: new_incident_def Let_def)

lemma sample_incident:
  "get_incident ''inc_a'' (iw_store sample_world) = Some (opened first_new)"
  by (simp add: sample_world_def sample_store_def sample_first get_incident_def new_incident_id_def map_of_update_if)

lemma incidents_mirror_evidence_witness:
  "\<exists>w i. inc_reachable cfg False w \<and> get_incident ''inc_a'' (iw_store w) = Some i \<and> in_count i = 1 \<and>
     in_severity i = severity_spec (pc_severity cfg) (severity_inputs_of i)"
proof (intro exI conjI)
  from incidents_mirror_evidence [OF sample_config_ok sample_reachable sample_incident]
  show "in_count (opened first_new) = 1"
    "in_severity (opened first_new) = severity_spec (pc_severity cfg) (severity_inputs_of (opened first_new))"
    by (simp_all add: Let_def)
qed (rule sample_reachable sample_incident)+

lemma events_counted_once_witness:
  "\<exists>w. inc_reachable cfg False w \<and> card (ins_evidence_ids (iw_store w)) = 1 \<and>
     (\<Sum>(k, i) \<leftarrow> ins_incidents (iw_store w). in_count i) = 1"
proof (intro exI conjI)
  have "ins_evidence_ids (iw_store sample_world) = {''e1''}"
    by (simp add: sample_world_def sample_store_def sample_first) (simp add: empty_inc_store_def)
  then show "card (ins_evidence_ids (iw_store sample_world)) = 1" by simp
  then show "(\<Sum>(k, i) \<leftarrow> ins_incidents (iw_store sample_world). in_count i) = 1"
    using events_counted_once [OF sample_config_ok sample_reachable] by simp
qed (rule sample_reachable)

lemma one_active_incident_witness:
  "\<exists>w i. inc_reachable cfg True w \<and> get_incident ''inc_a'' (iw_store w) = Some i \<and> is_active (in_status i) \<and>
     (\<exists>out evs st'. process_once cfg (sample_signal ''e2'' ''orders-service'') (sample_draws ''b'') (iw_store w) = (Inr (out, evs), st'))"
proof (intro exI [of _ sample_world] exI [of _ "opened first_new"] conjI)
  show "is_active (in_status (opened first_new))" by (simp add: is_active_def)
qed (use one_active_incident [OF sample_config_ok sample_reachable] sample_reachable sample_incident in blast)+

lemma incidents_only_grow_witness:
  "\<exists>w w' i'. inc_reachable cfg False w \<and> (inc_step cfg False)\<^sup>*\<^sup>* w w' \<and> get_incident ''inc_a'' (iw_store w') = Some i' \<and>
     in_service i' = ''orders-service''"
proof -
  from incidents_only_grow [OF sample_config_ok sample_reachable rtranclp.rtrancl_refl sample_incident]
  obtain i' where "get_incident ''inc_a'' (iw_store sample_world) = Some i'" "in_service i' = in_service (opened first_new)"
    by blast
  then show ?thesis using sample_reachable opened_sound(4) [OF refl, of "pc_severity cfg"]
    by (intro exI [of _ sample_world] exI [of _ i']) simp
qed

lemma redelivery_is_noop_witness:
  "process_once cfg (sample_signal ''e1'' ''payments-service'') (sample_draws ''b'') sample_store =
    (Inr (\<lparr>po_result = PR_DUPLICATE, po_incident = None, po_reason = ''duplicate event_id''\<rparr>, []), sample_store)"
proof -
  obtain out evs where p: "process_once cfg (sample_signal ''e1'' ''orders-service'') (sample_draws ''a'') (iw_store initial_inc_world) = (Inr (out, evs), sample_store)"
    using sample_first by (simp add: sample_store_def initial_inc_world_def)
  have "inc_reachable cfg False initial_inc_world" by (simp add: inc_reachable_def)
  moreover have "get_incident (new_incident_id (dr_token (sample_draws ''a''))) (iw_store initial_inc_world) = None"
    by (simp add: get_incident_def initial_inc_world_def empty_inc_store_def)
  ultimately show ?thesis
    using redelivery_is_noop [OF sample_config_ok _ p _ rtranclp.rtrancl_refl, where s' = "sample_signal ''e1'' ''payments-service''"]
    by simp
qed

lemma published_is_committed_witness:
  "\<exists>w ev i. inc_reachable cfg False w \<and> ev \<in> set (iw_topic w) \<and> get_incident (le_incident_id ev) (iw_store w) = Some i \<and>
     le_count ev \<le> in_count i"
proof -
  have ev: "lifecycle_envelope (fst first_new) ''opened'' \<in> set (iw_topic sample_world)"
    by (simp add: sample_world_def sample_first)
  from published_is_committed [OF sample_config_ok sample_reachable ev] show ?thesis using ev sample_reachable by blast
qed

lemma process_outcomes_witness:
  "\<exists>st' evs. process cfg (sample_signal ''e1'' ''orders-service'') (\<lambda>_. sample_draws ''a'') empty_inc_store =
     (Inr (\<lparr>po_result = PR_CREATED, po_incident = Some ''inc_a'', po_reason = ''no active incident for this service''\<rparr>, evs), st')"
proof -
  have "inc_reachable cfg True initial_inc_world" by (simp add: inc_reachable_def)
  from process_outcomes [OF sample_config_ok this, of "sample_signal ''e1'' ''orders-service''" "\<lambda>_. sample_draws ''a''"] empty_facts
  show ?thesis by (simp add: default_processor_config_def initial_inc_world_def new_incident_id_def correlation_decide_def Let_def)
qed

section \<open>A link\<close>

definition linked_store :: inc_store where
  "linked_store = snd (process_once cfg (sample_signal ''e2'' ''payments-service'') (sample_draws ''b'') sample_store)"

abbreviation second_new :: "incident \<times> evidence_record \<times> state_transition" where
  "second_new \<equiv> new_incident (pc_severity cfg) (sample_signal ''e2'' ''payments-service'')
     (decision_reason cfg (sample_signal ''e2'' ''payments-service'') None) (sample_draws ''b'')"

lemma no_links: "related_links tc now i empty_inc_store = []"
  by (simp add: related_links_def Let_def active_incidents_in_services_def empty_inc_store_def)

lemma sample_rows:
  "ins_incidents sample_store = [(''inc_a'', opened first_new)]" "ins_evidence_ids sample_store = {''e1''}"
  "ins_relations sample_store = []"
  by (simp_all add: sample_store_def sample_first no_links) (simp_all add: new_incident_id_def empty_inc_store_def)

lemma sample_second:
  "linked_store = with_links (links_for cfg (sample_draws ''b'') (fst second_new) sample_store)
     (with_event ''e2'' (set_incident ''inc_b'' (opened second_new) sample_store))"
proof -
  have "\<not> evidence_exists (sg_event_id (sample_signal ''e2'' ''payments-service'')) sample_store"
    by (simp add: evidence_exists_def sample_rows)
  moreover have "get_active_incident (signal_key (sample_signal ''e2'' ''payments-service'')) sample_store = None"
    by (simp add: get_active_None sample_rows active_for_def signal_key_def correlation_key_def)
  ultimately show ?thesis unfolding linked_store_def by (simp add: process_create [OF _ _ refl] new_incident_id_def)
qed

lemma payments_related: "related_services ''payments-service'' (Some (tc_graph (pc_topology cfg))) = {''orders-service''}"
  by (simp add: related_services_def dependents_of_def dependencies_of_def the_graph_def default_processor_config_def
      default_topology_config_def SERVICE_DEPENDENCY_GRAPH_def)

lemma sample_linked: "length (links_for cfg (sample_draws ''b'') (fst second_new) sample_store) = 1"
proof -
  have "in_started (fst first_new) = 0" "in_last_evidence (fst first_new) = 10000000" "in_started (fst second_new) = 0"
    "in_last_evidence (fst second_new) = 10000000"
    by (simp_all add: new_incident_def Let_def absorb_sel fresh_incident_def sample_signal_def)
  moreover have "in_started (opened n) = in_started (fst n)" "in_last_evidence (opened n) = in_last_evidence (fst n)" for n
    by (cases n; simp add: opened_def)+
  moreover have "timedelta (tc_window (pc_topology cfg)) = 600000000" by code_simp
  ultimately show ?thesis
    by (simp add: related_links_def payments_related active_incidents_in_services_def sample_rows incidents_overlap_def
        new_incident_id_def)
qed

lemma links_follow_graph_witness:
  "\<exists>w. inc_reachable cfg False w \<and> length (ins_relations (iw_store w)) = 1 \<and>
     acyclic (relation_pair ` set (ins_relations (iw_store w)))"
proof -
  let ?w = "sample_world\<lparr>iw_store := linked_store\<rparr>"
  have step: "inc_step cfg False sample_world ?w"
    using inc_step.processed [of cfg "sample_signal ''e2'' ''payments-service''" "sample_draws ''b''" sample_world _ linked_store False False False]
    by (simp add: linked_store_def sample_world_def publish_def get_incident_def sample_rows new_incident_id_def prod_eq_iff initial_inc_world_def)
  then have reach: "inc_reachable cfg False ?w"
    using sample_reachable unfolding inc_reachable_def by (rule rtranclp.rtrancl_into_rtrancl [rotated])
  obtain l where "links_for cfg (sample_draws ''b'') (fst second_new) sample_store = [l]"
    using sample_linked by (auto simp: length_Suc_conv)
  then have "length (ins_relations linked_store) = 1"
    unfolding sample_second by (simp add: add_relation_def sample_rows)
  moreover have "acyclic {(s, t). t \<in> set (dependencies_of s (Some (tc_graph (pc_topology cfg))))}"
  proof -
    have "{(s, t). t \<in> set (dependencies_of s (Some (tc_graph (pc_topology cfg))))} \<subseteq>
      {(s, t). s = ''orders-service'' \<and> t \<noteq> ''orders-service''}"
      by (auto simp: dependencies_of_def the_graph_def default_processor_config_def default_topology_config_def
          SERVICE_DEPENDENCY_GRAPH_def split: if_splits)
    moreover have "acyclic {(s, t). s = ''orders-service'' \<and> t \<noteq> ''orders-service''}"
      by (rule acyclicI_order [where f = "\<lambda>s. if s = ''orders-service'' then 1 else (0 :: nat)"]) auto
    ultimately show ?thesis by (rule acyclic_subset [rotated])
  qed
  ultimately show ?thesis using links_follow_graph [OF sample_config_ok reach] reach by (intro exI [of _ ?w]) simp
qed

section \<open>A stale transition\<close>

text \<open>
  A resolved incident can be reopened, although the lifecycle has no such move: two API requests,
  an acknowledgement and a resolution, are validated against the same OPEN status and then applied one after
  the other. The run ends with an active incident that has a resolution time and an unlawful history.
\<close>
theorem stale_transition_reopens:
  "\<exists>w i. inc_reachable default_processor_config False w \<and> get_incident ''inc_a'' (iw_store w) = Some i \<and>
     in_status i = ACKNOWLEDGED \<and> in_resolved_at i \<noteq> None \<and> \<not> lawful (in_history i) \<and>
     map tr_to (in_history i) = [OPEN, RESOLVED, ACKNOWLEDGED]"
proof -
  let ?q = "\<lambda>t. \<lparr>tq_id = ''inc_a'', tq_target = t, tq_actor = ''ann'', tq_reason = ''r'', tq_now = 13000000\<rparr>"
  let ?i0 = "opened first_new"
  let ?i1 = "transitioned RESOLVED ''ann'' ''r'' 13000000 ?i0"
  let ?i2 = "transitioned ACKNOWLEDGED ''ann'' ''r'' 13000000 ?i1"
  define st where "st = iw_store sample_world"
  define tp where "tp = iw_topic sample_world"
  let ?w = "\<lambda>p s. \<lparr>iw_store = s, iw_pending = p, iw_topic = tp\<rparr>"
  let ?a = "(?q ACKNOWLEDGED, OPEN)" and ?r = "(?q RESOLVED, OPEN)"
  have w: "sample_world = ?w [] st" by (simp add: st_def tp_def sample_world_def initial_inc_world_def)
  have at: "inc_at st ''inc_a'' = Some ?i0" using sample_incident by (simp add: get_incident_def st_def)
  have check: "transition_check (?q t) st = Inr ?i0" if "t \<in> {ACKNOWLEDGED, RESOLVED}" for t
    using that at by (auto simp: transition_check_Inr)
  have "inc_step cfg False (?w [] st) (?w [?a] st)"
    using inc_step.validated [of "?q ACKNOWLEDGED" "?w [] st" ?i0 cfg False] check [of ACKNOWLEDGED] by simp
  moreover have "inc_step cfg False (?w [?a] st) (?w [?a, ?r] st)"
    using inc_step.validated [of "?q RESOLVED" "?w [?a] st" ?i0 cfg False] check [of RESOLVED] by simp
  moreover have "inc_step cfg False (?w [?a, ?r] st) (?w [?a] (set_incident ''inc_a'' ?i1 st))"
    using inc_step.applied [of "?w [?a, ?r] st" "[?a]" "?q RESOLVED" OPEN "[]" False "Some ?i1" _ cfg] at
    by (simp add: transition_apply_def apply_transition_def Let_def)
  moreover have "inc_step cfg False (?w [?a] (set_incident ''inc_a'' ?i1 st)) (?w [] (set_incident ''inc_a'' ?i2 st))"
    using inc_step.applied [of "?w [?a] (set_incident ''inc_a'' ?i1 st)" "[]" "?q ACKNOWLEDGED" OPEN "[]" False "Some ?i2" _ cfg]
    by (simp add: transition_apply_def apply_transition_def Let_def map_of_update_if)
  ultimately have "inc_reachable cfg False (?w [] (set_incident ''inc_a'' ?i2 st))"
    using sample_reachable [of False] unfolding inc_reachable_def w by (meson rtranclp.rtrancl_into_rtrancl)
  moreover have "map tr_to (in_history ?i2) = [OPEN, RESOLVED, ACKNOWLEDGED]"
    by (simp add: transitioned_def) (simp add: new_incident_def Let_def)
  moreover from this have "\<not> lawful (in_history ?i2)" by (cases "in_history ?i2") auto
  ultimately show ?thesis
    by (intro exI [of _ "?w [] (set_incident ''inc_a'' ?i2 st)"] exI [of _ ?i2]) (simp add: get_incident_def map_of_update_if)
qed

end
