(* ===== verification/DeliveryWitness.thy ===== *)
theory DeliveryWitness imports RcaDelivery RcaWitness IncDelivery IncWitness begin

text \<open>
  Sample deliveries: a partition of one record that is handled and committed, by the incident correlator
  and by the RCA agent.
\<close>

definition calm_broker :: broker where
  "calm_broker = \<lparr>br_commit = (\<lambda>n. None), br_publish = (\<lambda>n. None), br_utf8 = (\<lambda>s. s)\<rparr>"

definition sample_consumer :: consumer_config where
  "sample_consumer = \<lparr>kf_topic = ''topic'', kf_max_retries = 3, kf_backoff = 2\<rparr>"

definition sample_record :: krecord where
  "sample_record = \<lparr>kr_offset = 0, kr_value = Some ''{}'', kr_key = None, kr_headers = []\<rparr>"

definition sample_token :: "nat \<Rightarrow> string" where
  "sample_token n = replicate n (CHR ''a'')"

lemma sample_token_inj: "inj (\<lambda>n. sample_token n)"
  by (rule injI) (metis length_replicate sample_token_def)

definition idle_consumer :: "'w \<Rightarrow> 'w consumer" where
  "idle_consumer w = \<lparr>kc_world = w, kc_calls = 0, kc_committed = 0, kc_dlq = [], kc_lost = [], kc_processed = 0, kc_rejected = 0,
     kc_sleeps = []\<rparr>"

definition done_consumer :: "'w \<Rightarrow> 'w consumer" where
  "done_consumer w = \<lparr>kc_world = w, kc_calls = 1, kc_committed = 1, kc_dlq = [], kc_lost = [], kc_processed = 1, kc_rejected = 0,
     kc_sleeps = []\<rparr>"

lemma done_simps [simp]:
  "kc_world (done_consumer w) = w" "kc_committed (done_consumer w) = 1" "kc_dlq (done_consumer w) = []" "kc_lost (done_consumer w) = []"
  by (simp_all add: done_consumer_def)

lemma idle_start: "session sample_consumer calm_broker decode h cuts [sample_record] w0 (0, idle_consumer w0)"
  unfolding idle_consumer_def by (rule session.boot)

lemma idle_crash:
  assumes "session sample_consumer calm_broker decode h cuts [sample_record] w0 (0, idle_consumer w1)"
    and "decode (Some ''{}'') = Inr e" and "w \<in> set (cuts e sample_record w1)"
  shows "session sample_consumer calm_broker decode h cuts [sample_record] w0 (0, idle_consumer w)"
  using session.crash [OF assms(1), of e w] assms(2,3) by (simp add: idle_consumer_def left_by_def sample_record_def)

lemma calm_delivery:
  assumes "session sample_consumer calm_broker decode h cuts [sample_record] w0 (0, idle_consumer w1)"
    and "decode (Some ''{}'') = Inr e" and "h e sample_record w1 = (w, HX_OK)"
  shows "session sample_consumer calm_broker decode h cuts [sample_record] w0 (1, done_consumer w)"
proof -
  have r: "kf_max_retries sample_consumer = Suc 2" "kr_value sample_record = Some ''{}''" "kr_offset sample_record = 0"
    by (simp_all add: sample_consumer_def sample_record_def)
  have w: "kc_world (idle_consumer w1) = w1" by (simp add: idle_consumer_def)
  have "process_record sample_consumer calm_broker decode h sample_record (idle_consumer w1) = (None, done_consumer w)"
    unfolding process_record_def r(1,2) assms(2) sum.case attempts.simps w assms(3)
    by (simp add: accept_def commit_record_def calm_broker_def r(3) idle_consumer_def done_consumer_def)
  then show ?thesis using session.deliver [OF assms(1)] by simp
qed

definition sample_envelope :: "unit envelope" where
  "sample_envelope = \<lparr>ee_id = ''e1'', ee_type = ''anomaly.detected'', ee_version = 1, ee_occurred = 11000000,
     ee_source = ''anomaly-detector'', ee_trace = None, ee_payload = ()\<rparr>"

definition sample_payload :: anomaly_detected where
  "sample_payload = \<lparr>ap_detector = ''isolation_forest'', ap_detector_version = ''1'', ap_service = ''orders-service'',
     ap_environment = ''production'', ap_window_start = ''s'', ap_window_end = ''e'', ap_score = 3 / 4, ap_threshold = 1 / 2,
     ap_is_anomaly = True, ap_signals = [], ap_abnormal = [], ap_detection_latency = None, ap_scrape_latency = None,
     ap_inference_latency = None\<rparr>"

definition sample_codec :: "unit anomaly_codec" where
  "sample_codec = \<lparr>ac_payload = (\<lambda>u. Inr sample_payload), ac_iso = (\<lambda>v. Inr (0, None))\<rparr>"

definition sample_calls :: "nat \<Rightarrow> inc_call" where
  "sample_calls n = \<lparr>ic_draws = (\<lambda>m. sample_draws (sample_token n)), ic_ready = True, ic_sent = True\<rparr>"

lemma sample_envelope_signal: "\<exists>s. anomaly_signal_from_envelope sample_codec sample_envelope = Inr s"
  by (simp add: anomaly_signal_from_envelope_def sample_envelope_def sample_codec_def sample_payload_def parse_ts_def
      ANOMALY_DETECTED_def ANOMALY_DETECTED_VERSION_def)

theorem anomalies_become_evidence_witness:
  "\<exists>st. session sample_consumer calm_broker (\<lambda>v. Inr sample_envelope) (inc_handler cfg sample_codec sample_calls (\<lambda>r. None))
      (inc_cuts cfg sample_codec sample_calls (\<lambda>r. None)) [sample_record] \<lparr>iv_calls = 0, iv_store = empty_inc_store, iv_topic = []\<rparr> (1, st) \<and>
    ''e1'' \<in> set (map ev_event_id (concat (map (in_evidence \<circ> snd) (ins_incidents (iv_store (kc_world st))))))"
proof -
  let ?w0 = "\<lparr>iv_calls = 0, iv_store = empty_inc_store, iv_topic = []\<rparr>"
  let ?h = "inc_handler cfg sample_codec sample_calls (\<lambda>r. None)" and ?cuts = "inc_cuts cfg sample_codec sample_calls (\<lambda>r. None)"
  obtain s where s: "anomaly_signal_from_envelope sample_codec sample_envelope = Inr s" using sample_envelope_signal by blast
  have c: "store_sound cfg empty_inc_store" "lawful_store empty_inc_store" "0 < pc_retries cfg"
    by (simp_all add: empty_sound lawful_store_def one_active_def default_processor_config_def) (simp_all add: empty_inc_store_def)
  obtain out evs st' where "process cfg s (ic_draws (sample_calls 0)) empty_inc_store = (Inr (out, evs), st')"
    by (rule process_first [OF c])
  then obtain w where h: "?h sample_envelope sample_record ?w0 = (w, HX_OK)"
    using s by (simp add: inc_handler_def Let_def)
  let ?st = "done_consumer w"
  have run: "session sample_consumer calm_broker (\<lambda>v. Inr sample_envelope) ?h ?cuts [sample_record] ?w0 (1, ?st)"
    by (rule calm_delivery [where h = ?h, OF idle_start refl h])
  have "inj (\<lambda>n. dr_token (ic_draws (sample_calls n) 0))" using sample_token_inj by (simp add: sample_calls_def)
  from anomalies_become_evidence [OF run sample_config_ok c(3) this]
  have "ee_id sample_envelope \<in> set (map ev_event_id (concat (map (in_evidence \<circ> snd) (ins_incidents (iv_store (kc_world ?st))))))"
    using s by (simp add: sample_consumer_def sample_record_def Let_def)
  moreover have "ee_id sample_envelope = ''e1''" by (simp add: sample_envelope_def)
  ultimately show ?thesis using run by metis
qed

definition sample_rca_calls :: "nat \<Rightarrow> rca_call" where
  "sample_rca_calls n = \<lparr>ca_env = sample_env, ca_llm = sample_llm, ca_id = sample_token n, ca_now = 0, ca_started = 0, ca_finished = 9,
     ca_fault = NO_FAULT\<rparr>"

lemma sample_rca_sel [simp]:
  "ca_id (sample_rca_calls n) = sample_token n" "ca_now (sample_rca_calls n) = 0" "ca_fault (sample_rca_calls n) = NO_FAULT"
  by (simp_all add: sample_rca_calls_def)

lemma sample_reads: "read_event sample_event = EV_INCIDENT ''inc_0123ab''"
proof -
  have "re_match incident_id_rx ''inc_0123ab''" by code_simp
  then show ?thesis by (simp add: read_event_def sample_event_def)
qed

lemma sample_begins:
  "\<exists>iv re. begin_investigation (sample_token 0) 0 ''inc_0123ab'' TR_EVENT (rc_mode sample_cfg) empty_repo = Inr (iv, re)"
  by (simp add: begin_investigation_def get_active_def empty_repo_def Let_def sample_token_def sample_cfg_def)

lemma none_latest: "get_latest i empty_repo = None"
  by (simp add: get_latest_def empty_repo_def List.map_filter_def)

text \<open>The process dies while the graph of the first delivery runs; the redelivered record is a duplicate.\<close>

theorem opened_incidents_investigated_witness:
  "\<exists>st. session sample_consumer calm_broker (\<lambda>v. Inr sample_event) (rca_handler sample_cfg sample_rca_calls (\<lambda>r. None))
      (rca_cuts sample_cfg sample_rca_calls (\<lambda>r. None)) [sample_record] new_agent (1, st) \<and>
    kc_committed st = 1 \<and> kc_dlq st = [] \<and> kc_lost st = [] \<and>
    (\<exists>!k. \<exists>iv. get_investigation k (rg_repo (kc_world st)) = Some iv \<and> iv_incident iv = ''inc_0123ab'') \<and>
    (\<exists>k iv. get_investigation k (rg_repo (kc_world st)) = Some iv \<and> iv_status iv = R_PENDING)"
proof -
  let ?h = "rca_handler sample_cfg sample_rca_calls (\<lambda>r. None)" and ?cuts = "rca_cuts sample_cfg sample_rca_calls (\<lambda>r. None)"
  obtain iv re where b: "begin_investigation (sample_token 0) 0 ''inc_0123ab'' TR_EVENT (rc_mode sample_cfg) empty_repo = Inr (iv, re)"
    using sample_begins by blast
  note f = begun_facts [OF b]
  have m: "get_investigation (sample_token 0) re = Some iv" using f(1) by (simp add: one_more_def get_investigation_def)
  let ?cut = "left_pending iv re (new_agent\<lparr>rg_calls := Suc (rg_calls new_agent)\<rparr>)"
  have cut: "?cut \<in> set (?cuts sample_event sample_record new_agent)"
    using b service_begin_new [of sample_cfg "sample_token 0" 0 "''inc_0123ab''" TR_EVENT empty_repo iv re]
    by (simp add: rca_cuts_def sample_reads Let_def new_agent_def none_latest)
  have "re_order re = [sample_token 0]" using f(1) by (simp add: one_more_def empty_repo_def)
  then have "get_latest ''inc_0123ab'' re \<noteq> None"
    using m f(3) by (simp add: get_latest_def get_investigation_def List.map_filter_def)
  then have "?h sample_event sample_record ?cut = (?cut\<lparr>rg_calls := Suc (rg_calls ?cut)\<rparr>, HX_OK)"
    by (simp add: rca_handler_def sample_reads Let_def left_pending_def)
  note run = calm_delivery [where h = ?h and cuts = ?cuts and decode = "\<lambda>v. Inr sample_event",
      OF idle_crash [where cuts = ?cuts and h = ?h and decode = "\<lambda>v. Inr sample_event", OF idle_start refl cut] refl this]
  let ?st = "done_consumer (?cut\<lparr>rg_calls := Suc (rg_calls ?cut)\<rparr>)"
  have inj: "inj (\<lambda>m. ca_id (sample_rca_calls m))" using sample_token_inj by simp
  have "(\<exists>!k. \<exists>iv. get_investigation k (rg_repo (kc_world ?st)) = Some iv \<and> iv_incident iv = ''inc_0123ab'')"
    using opened_incidents_investigated [OF run inj] sample_reads by (simp add: sample_consumer_def sample_record_def)
  moreover have "get_investigation (sample_token 0) (rg_repo (kc_world ?st)) = Some iv" using m by (simp add: left_pending_def)
  ultimately show ?thesis using run f(4) by (intro exI [of _ ?st]) auto
qed

theorem undisturbed_runs_finish_witness:
  "\<exists>st. session sample_consumer calm_broker (\<lambda>v. Inr sample_event) (rca_handler sample_cfg sample_rca_calls (\<lambda>r. None))
      (\<lambda>e r a. []) [sample_record] new_agent (1, st) \<and>
    (\<exists>!k. \<exists>iv. get_investigation k (rg_repo (kc_world st)) = Some iv \<and> iv_incident iv = ''inc_0123ab'' \<and>
      rca_is_terminal (iv_status iv))"
proof -
  let ?h = "rca_handler sample_cfg sample_rca_calls (\<lambda>r. None)"
  obtain iv re where b: "begin_investigation (sample_token 0) 0 ''inc_0123ab'' TR_EVENT (rc_mode sample_cfg) empty_repo = Inr (iv, re)"
    using sample_begins by blast
  obtain oc re' where c: "run_to_completion sample_env sample_cfg sample_llm 0 9 iv re = Some (oc, re')"
    using completes [OF b, of sample_env sample_cfg sample_llm 0 9] by auto
  obtain w where h: "?h sample_event sample_record new_agent = (w, HX_OK)"
    using b c service_begin_new [of sample_cfg "sample_token 0" 0 "''inc_0123ab''" TR_EVENT empty_repo iv re]
    by (simp add: calm_handler handle_event_def sample_reads Let_def new_agent_def none_latest sample_rca_calls_def)
  note run = calm_delivery [where h = ?h and cuts = "\<lambda>e r a. []" and decode = "\<lambda>v. Inr sample_event", OF idle_start refl h]
  have inj: "inj (\<lambda>m. ca_id (sample_rca_calls m))" using sample_token_inj by simp
  have "faultless sample_rca_calls" by (simp add: faultless_def)
  from undisturbed_runs_finish [OF run this inj, of 0 sample_event "''inc_0123ab''"]
  have "\<exists>!k. \<exists>iv. get_investigation k (rg_repo (kc_world (done_consumer w))) = Some iv \<and> iv_incident iv = ''inc_0123ab'' \<and>
      rca_is_terminal (iv_status iv)"
    using sample_reads by (simp add: sample_consumer_def sample_record_def del: terminal_iff)
  then show ?thesis using run by blast
qed

end
