(* ===== verification/DetSignals.thy ===== *)
theory DetSignals imports PyText begin

text \<open>
  From the metrics text of a service to the operational signals of one telemetry window
  (\<open>ml/data/prometheus_parse.py\<close>, \<open>window_signals\<close> of \<open>ml/data/prepare.py\<close>, \<open>triage.py\<close> of the anomaly
  detector). The parser of \<open>prometheus_client\<close> and \<open>float\<close> on the text of a bucket bound are parameters.
  Counters are exact rationals; a NaN counter is outside the model.
\<close>

section \<open>One scrape\<close>

text \<open>An upper bound of a histogram bucket: a number or infinity.\<close>

datatype bucket = Le rat | LeInf

instantiation bucket :: linorder
begin

fun less_eq_bucket :: "bucket \<Rightarrow> bucket \<Rightarrow> bool" where
  "less_eq_bucket a LeInf = True"
| "less_eq_bucket LeInf (Le y) = False"
| "less_eq_bucket (Le x) (Le y) = (x \<le> y)"

definition less_bucket :: "bucket \<Rightarrow> bucket \<Rightarrow> bool" where
  "a < (b :: bucket) \<longleftrightarrow> a \<le> b \<and> \<not> b \<le> a"

instance
proof
  fix a b c :: bucket
  show "a \<le> a" by (cases a) simp_all
  show "a \<le> b \<Longrightarrow> b \<le> c \<Longrightarrow> a \<le> c" by (cases a; cases b; cases c) simp_all
  show "a \<le> b \<Longrightarrow> b \<le> a \<Longrightarrow> a = b" by (cases a; cases b) simp_all
  show "a \<le> b \<or> b \<le> a" by (cases a; cases b) auto
qed (rule less_bucket_def)

end

record metric_sample =
  mt_name :: string
  mt_labels :: "(string \<times> string) list"
  mt_value :: rat

record metric_snapshot =
  sn_total :: rat
  sn_2xx :: rat
  sn_4xx :: rat
  sn_5xx :: rat
  sn_lat_sum :: rat
  sn_lat_count :: rat
  sn_buckets :: "(bucket, rat) dict"
  sn_created :: rat
  sn_pub_ok :: rat
  sn_pub_fail :: rat
  sn_pub_lat_sum :: rat
  sn_pub_lat_count :: rat
  sn_dbg_sim :: rat
  sn_dbg_pub :: rat
  sn_dbg_inj :: rat

definition empty_snapshot :: metric_snapshot where
  "empty_snapshot =
     \<lparr>sn_total = 0, sn_2xx = 0, sn_4xx = 0, sn_5xx = 0, sn_lat_sum = 0, sn_lat_count = 0, sn_buckets = [], sn_created = 0,
      sn_pub_ok = 0, sn_pub_fail = 0, sn_pub_lat_sum = 0, sn_pub_lat_count = 0, sn_dbg_sim = 0, sn_dbg_pub = 0, sn_dbg_inj = 0\<rparr>"

definition dict_get :: "('k, rat) dict \<Rightarrow> 'k \<Rightarrow> rat" where
  "dict_get d k = (case map_of d k of None \<Rightarrow> 0 | Some v \<Rightarrow> v)"

definition status_class :: "string \<Rightarrow> string" where
  "status_class sc =
     (if take 1 sc \<in> {''1'', ''2'', ''3'', ''4'', ''5''} then take 1 sc @ ''xx'' else ''other'')"

definition is_orders_post :: "(string \<times> string) list \<Rightarrow> bool" where
  "is_orders_post ls \<longleftrightarrow> map_of ls ''http_target'' = Some ''/orders'' \<and> map_of ls ''http_method'' = Some ''POST''"

text \<open>Counts of classes other than 2xx, 4xx and 5xx are kept by the code and never read.\<close>

definition count_status :: "string \<Rightarrow> rat \<Rightarrow> metric_snapshot \<Rightarrow> metric_snapshot" where
  "count_status cls v sn =
     (let sn = sn\<lparr>sn_total := sn_total sn + v\<rparr> in
      if cls = ''2xx'' then sn\<lparr>sn_2xx := sn_2xx sn + v\<rparr>
      else if cls = ''4xx'' then sn\<lparr>sn_4xx := sn_4xx sn + v\<rparr>
      else if cls = ''5xx'' then sn\<lparr>sn_5xx := sn_5xx sn + v\<rparr>
      else sn)"

definition bucket_of :: "(string \<Rightarrow> string + bucket) \<Rightarrow> (string \<times> string) list \<Rightarrow> string + bucket" where
  "bucket_of flt ls =
     (case map_of ls ''le'' of
        None \<Rightarrow> Inr LeInf
      | Some t \<Rightarrow> if t = ''+Inf'' then Inr LeInf else flt t)"

definition count_bucket :: "bucket \<Rightarrow> rat \<Rightarrow> metric_snapshot \<Rightarrow> metric_snapshot" where
  "count_bucket le v sn =
     (let bs = AList.update le (dict_get (sn_buckets sn) le + v) (sn_buckets sn); sn = sn\<lparr>sn_buckets := bs\<rparr> in
      if le = LeInf then sn\<lparr>sn_lat_count := max (sn_lat_count sn) (dict_get bs le)\<rparr> else sn)"

definition read_sample :: "(string \<Rightarrow> string + bucket) \<Rightarrow> metric_sample \<Rightarrow> metric_snapshot \<Rightarrow> string + metric_snapshot" where
  "read_sample flt s sn =
     (let n = mt_name s; ls = mt_labels s; v = mt_value s in
      if n = ''http_server_duration_milliseconds_count'' \<and> is_orders_post ls
      then Inr (count_status (status_class (case map_of ls ''http_status_code'' of None \<Rightarrow> '''' | Some c \<Rightarrow> c)) v sn)
      else if n = ''http_server_duration_milliseconds_sum'' \<and> is_orders_post ls
      then Inr (sn\<lparr>sn_lat_sum := sn_lat_sum sn + v\<rparr>)
      else if n = ''http_server_duration_milliseconds_bucket'' \<and> is_orders_post ls
      then (case bucket_of flt ls of Inl m \<Rightarrow> Inl m | Inr le \<Rightarrow> Inr (count_bucket le v sn))
      else if n = ''orders_created_total'' then Inr (sn\<lparr>sn_created := sn_created sn + v\<rparr>)
      else if n = ''orders_publish_total'' then
        Inr (if map_of ls ''outcome'' = Some ''success'' then sn\<lparr>sn_pub_ok := sn_pub_ok sn + v\<rparr>
             else if map_of ls ''outcome'' = Some ''failure'' then sn\<lparr>sn_pub_fail := sn_pub_fail sn + v\<rparr>
             else sn)
      else if n = ''orders_publish_duration_seconds_sum'' then Inr (sn\<lparr>sn_pub_lat_sum := sn_pub_lat_sum sn + v\<rparr>)
      else if n = ''orders_publish_duration_seconds_count'' then Inr (sn\<lparr>sn_pub_lat_count := sn_pub_lat_count sn + v\<rparr>)
      else if n = ''orders_request_failed_total'' then
        Inr (if map_of ls ''reason'' = Some ''simulated_error'' then sn\<lparr>sn_dbg_sim := sn_dbg_sim sn + v\<rparr>
             else if map_of ls ''reason'' = Some ''publish_failed'' then sn\<lparr>sn_dbg_pub := sn_dbg_pub sn + v\<rparr>
             else sn)
      else if n = ''orders_failure_injection_total'' then Inr (sn\<lparr>sn_dbg_inj := sn_dbg_inj sn + v\<rparr>)
      else Inr sn)"

fun read_samples :: "(string \<Rightarrow> string + bucket) \<Rightarrow> metric_sample list \<Rightarrow> metric_snapshot \<Rightarrow> string + metric_snapshot" where
  "read_samples flt [] sn = Inr sn"
| "read_samples flt (s # ss) sn =
     (case read_sample flt s sn of Inl m \<Rightarrow> Inl m | Inr sn' \<Rightarrow> read_samples flt ss sn')"

text \<open>\<open>fams\<close> is the library's parser: the samples of all families, or the message of what it raises.\<close>

definition parse_metrics ::
  "(string \<Rightarrow> string + metric_sample list) \<Rightarrow> (string \<Rightarrow> string + bucket) \<Rightarrow> string \<Rightarrow> string + metric_snapshot" where
  "parse_metrics fams flt text =
     (case fams text of Inl m \<Rightarrow> Inl m | Inr ss \<Rightarrow> read_samples flt ss empty_snapshot)"

section \<open>Quantiles\<close>

fun quantile_walk :: "rat \<Rightarrow> rat \<Rightarrow> rat \<Rightarrow> bucket \<Rightarrow> (bucket \<times> rat) list \<Rightarrow> bucket" where
  "quantile_walk target prev_le prev_count final [] = final"
| "quantile_walk target prev_le prev_count final ((le, cum) # rest) =
     (if target \<le> cum then
        (case le of
           LeInf \<Rightarrow> Le prev_le
         | Le b \<Rightarrow>
             let span = cum - prev_count in
             if span \<le> 0 then Le b else Le (prev_le + (b - prev_le) * (target - prev_count) / span))
      else quantile_walk target (case le of Le b \<Rightarrow> b | LeInf \<Rightarrow> prev_le) cum final rest)"

text \<open>\<open>None\<close> is NaN. The infinite bound, when there is one, is the last of the sorted bounds.\<close>

definition estimate_quantile :: "(bucket, rat) dict \<Rightarrow> rat \<Rightarrow> bucket option" where
  "estimate_quantile deltas q =
     (if deltas = [] then None
      else let ordered = sort_key fst deltas; total = snd (last ordered) in
        if total \<le> 0 then None else Some (quantile_walk (q * total) 0 0 (fst (last ordered)) ordered))"

text \<open>The infinite result is never returned for a quantile up to 1 (lemma \<open>quantile_finite\<close>).\<close>

definition safe_q :: "(bucket, rat) dict \<Rightarrow> rat \<Rightarrow> rat" where
  "safe_q deltas q = (case estimate_quantile deltas q of Some (Le x) \<Rightarrow> x | _ \<Rightarrow> 0)"

section \<open>The signals of a window\<close>

definition CUMULATIVE_FIELDS :: "(metric_snapshot \<Rightarrow> rat) list" where
  "CUMULATIVE_FIELDS = [sn_total, sn_2xx, sn_4xx, sn_5xx, sn_lat_sum, sn_created, sn_pub_ok, sn_pub_fail, sn_pub_lat_sum,
     sn_pub_lat_count]"

definition bucket_deltas :: "metric_snapshot \<Rightarrow> metric_snapshot \<Rightarrow> (bucket, rat) dict" where
  "bucket_deltas prev cur =
     map (\<lambda>le. (le, max (dict_get (sn_buckets cur) le - dict_get (sn_buckets prev) le) 0))
       (remdups (map fst (sn_buckets prev) @ map fst (sn_buckets cur)))"

definition window_signals :: "metric_snapshot \<Rightarrow> metric_snapshot \<Rightarrow> rat \<Rightarrow> (string, rat) dict option" where
  "window_signals prev cur dt =
     (if dt \<le> 0 then None
      else if \<exists>f \<in> set CUMULATIVE_FIELDS. f cur - f prev < - (1 / 1000000) then None
      else
        let req = max (sn_total cur - sn_total prev) 0;
            denom = (if 0 < req then req else 1);
            d_5xx = max (sn_5xx cur - sn_5xx prev) 0;
            d_2xx = max (sn_2xx cur - sn_2xx prev) 0;
            d_lat_sum = sn_lat_sum cur - sn_lat_sum prev;
            deltas = bucket_deltas prev cur;
            pub_ok = sn_pub_ok cur - sn_pub_ok prev;
            pub_fail = sn_pub_fail cur - sn_pub_fail prev;
            pub_attempts = max (pub_ok + pub_fail) 0;
            pub_denom = (if 0 < pub_attempts then pub_attempts else 1);
            d_pub_lat_count = max (sn_pub_lat_count cur - sn_pub_lat_count prev) 0;
            d_pub_lat_sum = sn_pub_lat_sum cur - sn_pub_lat_sum prev;
            d_created = max (sn_created cur - sn_created prev) 0
        in Some
          [(''request_rate'', req / dt), (''error_rate'', d_5xx / denom), (''success_rate'', d_2xx / denom),
           (''latency_mean_ms'', if 0 < req then d_lat_sum / denom else 0),
           (''latency_p50_ms'', safe_q deltas (1 / 2)), (''latency_p90_ms'', safe_q deltas (9 / 10)),
           (''latency_p95_ms'', safe_q deltas (19 / 20)),
           (''publish_rate'', pub_attempts / dt), (''publish_error_rate'', max pub_fail 0 / pub_denom),
           (''publish_latency_mean_ms'', if 0 < d_pub_lat_count then 1000 * d_pub_lat_sum / d_pub_lat_count else 0),
           (''orders_created_rate'', d_created / dt)])"

definition SIGNAL_COLUMNS :: "string list" where
  "SIGNAL_COLUMNS = [''request_rate'', ''error_rate'', ''success_rate'', ''latency_mean_ms'', ''latency_p50_ms'',
     ''latency_p90_ms'', ''latency_p95_ms'', ''publish_rate'', ''publish_error_rate'', ''publish_latency_mean_ms'',
     ''orders_created_rate'']"

section \<open>Triage\<close>

definition BANDS :: "(string \<times> rat) list" where
  "BANDS = [(''error_rate'', 1 / 20), (''latency_p95_ms'', 400), (''latency_mean_ms'', 250),
     (''publish_error_rate'', 1 / 20), (''publish_latency_mean_ms'', 500)]"

definition abnormal_signals :: "(string, rat) dict \<Rightarrow> string list" where
  "abnormal_signals signals = map fst (filter (\<lambda>(n, limit). limit \<le> dict_get signals n) BANDS)"

section \<open>Quantiles lie in their bucket\<close>

definition histogram :: "(bucket, rat) dict \<Rightarrow> bool" where
  "histogram d \<longleftrightarrow> distinct (map fst d) \<and> (\<forall>(b, c) \<in> set d. 0 \<le> c \<and> Le 0 \<le> b) \<and>
     (\<forall>(a, x) \<in> set d. \<forall>(b, y) \<in> set d. a \<le> b \<longrightarrow> x \<le> y)"

definition ascending :: "(bucket \<times> rat) list \<Rightarrow> bool" where
  "ascending bs \<longleftrightarrow> sorted_wrt (\<lambda>x y. fst x \<le> fst y \<and> snd x \<le> snd y) bs"

lemma ascending_Cons [simp]:
  "ascending ((a, x) # bs) \<longleftrightarrow> (\<forall>(b, y) \<in> set bs. a \<le> b \<and> x \<le> y) \<and> ascending bs"
  by (auto simp: ascending_def)

lemma interpolate:
  fixes p b t c0 c :: rat
  assumes "p \<le> b" "c0 \<le> t" "t \<le> c" "c0 < c"
  shows "p \<le> p + (b - p) * (t - c0) / (c - c0)" and "p + (b - p) * (t - c0) / (c - c0) \<le> b"
proof -
  have r: "0 \<le> (t - c0) / (c - c0)" "(t - c0) / (c - c0) \<le> 1" using assms by simp_all
  have e: "(b - p) * (t - c0) / (c - c0) = (b - p) * ((t - c0) / (c - c0))" by simp
  show "p \<le> p + (b - p) * (t - c0) / (c - c0)" unfolding e using assms r(1) by simp
  have "(b - p) * ((t - c0) / (c - c0)) \<le> (b - p) * 1" by (rule mult_left_mono [OF r(2)]) (use assms in simp)
  then show "p + (b - p) * (t - c0) / (c - c0) \<le> b" unfolding e by simp
qed

lemma interpolate_mono:
  fixes p b t c0 c :: rat
  assumes "p \<le> b" "t \<le> u" "c0 < c"
  shows "p + (b - p) * (t - c0) / (c - c0) \<le> p + (b - p) * (u - c0) / (c - c0)"
  using assms by (simp add: divide_right_mono mult_left_mono)

text \<open>The estimate is not below a bound whose count misses the target, nor above one whose count meets it.\<close>

lemma quantile_walk_bounds:
  assumes "ascending bs" "bs \<noteq> []" "\<forall>(b, c) \<in> set bs. Le p \<le> b" "c0 \<le> t" "t \<le> snd (last bs)"
  shows "\<exists>x. quantile_walk t p c0 fin bs = Le x \<and> p \<le> x \<and>
    (\<forall>b c. (Le b, c) \<in> set bs \<longrightarrow> (t \<le> c \<longrightarrow> x \<le> b) \<and> (c < t \<longrightarrow> b \<le> x))"
  using assms
proof (induction t p c0 fin bs rule: quantile_walk.induct)
  case (2 t p c0 fin le cum rest)
  show ?case
  proof (cases "t \<le> cum")
    case True
    then have all: "t \<le> c" if "(b, c) \<in> set ((le, cum) # rest)" for b c using that "2.prems"(1) by auto
    show ?thesis
    proof (cases le)
      case LeInf
      then show ?thesis using True all "2.prems"(3) by fastforce
    next
      case (Le b0)
      have b0: "p \<le> b0" "\<And>b c. (bucket.Le b, c) \<in> set ((le, cum) # rest) \<Longrightarrow> b0 \<le> b"
        using "2.prems"(1,3) Le by auto
      show ?thesis
      proof (cases "cum - c0 \<le> 0")
        case True
        then show ?thesis using Le \<open>t \<le> cum\<close> all b0 by force
      next
        case False
        then have "c0 < cum" by simp
        note i = interpolate [OF b0(1) "2.prems"(4) \<open>t \<le> cum\<close> this]
        then show ?thesis using Le \<open>t \<le> cum\<close> False all b0(2) by (force simp: Let_def)
      qed
    qed
  next
    case False
    let ?p = "case le of bucket.Le b \<Rightarrow> b | LeInf \<Rightarrow> p"
    have p: "p \<le> ?p" using "2.prems"(3) by (auto split: bucket.split)
    have ne: "rest \<noteq> []" using "2.prems"(5) False by auto
    have low: "\<forall>(b, c) \<in> set rest. bucket.Le ?p \<le> b" using "2.prems"(1,3) by (auto split: bucket.split)
    have asc: "ascending rest" and last: "t \<le> snd (last rest)" and c0: "cum \<le> t"
      using "2.prems"(1,5) ne False by simp_all
    obtain x where x: "quantile_walk t ?p cum fin rest = bucket.Le x" "?p \<le> x"
      "\<And>b c. (bucket.Le b, c) \<in> set rest \<Longrightarrow> (t \<le> c \<longrightarrow> x \<le> b) \<and> (c < t \<longrightarrow> b \<le> x)"
      using "2.IH" [OF False asc ne low c0 last] by blast
    show ?thesis
      by (rule exI [of _ x]) (use x p False in \<open>auto split: bucket.splits\<close>)
  qed
qed simp

lemma quantile_walk_mono:
  assumes "ascending bs" "bs \<noteq> []" "\<forall>(b, c) \<in> set bs. Le p \<le> b" "c0 \<le> t" "t \<le> u" "u \<le> snd (last bs)"
  shows "quantile_walk t p c0 fin bs \<le> quantile_walk u p c0 fin bs"
  using assms
proof (induction t p c0 fin bs rule: quantile_walk.induct)
  case (2 t p c0 fin le cum rest)
  have u: "\<exists>x. quantile_walk u p c0 fin ((le, cum) # rest) = bucket.Le x \<and> p \<le> x \<and>
    (\<forall>b c. (bucket.Le b, c) \<in> set ((le, cum) # rest) \<longrightarrow> (u \<le> c \<longrightarrow> x \<le> b) \<and> (c < u \<longrightarrow> b \<le> x))"
    by (rule quantile_walk_bounds [OF "2.prems"(1-3) _ "2.prems"(6)]) (use "2.prems" in simp)
  have t: "\<exists>x. quantile_walk t p c0 fin ((le, cum) # rest) = bucket.Le x \<and> p \<le> x \<and>
    (\<forall>b c. (bucket.Le b, c) \<in> set ((le, cum) # rest) \<longrightarrow> (t \<le> c \<longrightarrow> x \<le> b) \<and> (c < t \<longrightarrow> b \<le> x))"
    by (rule quantile_walk_bounds [OF "2.prems"(1-4)]) (use "2.prems" in simp)
  consider "cum < t" | "t \<le> cum" "u \<le> cum" | "t \<le> cum" "cum < u" by fastforce
  then show ?case
  proof cases
    case 1
    let ?p = "case le of bucket.Le b \<Rightarrow> b | LeInf \<Rightarrow> p"
    have ne: "rest \<noteq> []" using "2.prems"(5,6) 1 by auto
    have "quantile_walk t ?p cum fin rest \<le> quantile_walk u ?p cum fin rest"
      by (rule "2.IH") (use "2.prems" 1 ne in \<open>auto split: bucket.split\<close>)
    then show ?thesis using 1 "2.prems"(5) by simp
  next
    case 2
    then show ?thesis
      using "2.prems" interpolate_mono [of p _ t u c0 cum] by (auto simp: Let_def split: bucket.split)
  next
    case 3
    show ?thesis
    proof (cases le)
      case LeInf
      then show ?thesis using u 3 by auto
    next
      case (Le b0)
      from t 3 Le obtain x where x: "quantile_walk t p c0 fin ((le, cum) # rest) = bucket.Le x" "x \<le> b0" by fastforce
      from u 3 Le obtain y where y: "quantile_walk u p c0 fin ((le, cum) # rest) = bucket.Le y" "b0 \<le> y" by fastforce
      show ?thesis unfolding x y using x(2) y(2) by simp
    qed
  qed
qed simp

lemma histogram_sorted:
  assumes "histogram d"
  shows "ascending (sort_key fst d)" and "\<forall>(b, c) \<in> set (sort_key fst d). Le 0 \<le> b"
    and "(m, n) \<in> set d \<Longrightarrow> \<forall>(b, c) \<in> set d. b \<le> m \<Longrightarrow> last (sort_key fst d) = (m, n)"
proof -
  have "sorted_wrt (\<lambda>x y. fst x \<le> fst y) (sort_key fst d)" using sorted_sort_key [of fst d] by (simp add: sorted_map)
  moreover have "snd x \<le> snd y" if "x \<in> set d" "y \<in> set d" "fst x \<le> fst y" for x y
    using assms that unfolding histogram_def by fastforce
  ultimately show "ascending (sort_key fst d)"
    unfolding ascending_def by (elim sorted_wrt_mono_rel [rotated]) simp
  show "\<forall>(b, c) \<in> set (sort_key fst d). Le 0 \<le> b" using assms by (auto simp: histogram_def)
  assume m: "(m, n) \<in> set d" "\<forall>(b, c) \<in> set d. b \<le> m"
  then have ne: "sort_key fst d \<noteq> []" by (metis empty_iff list.set(1) set_sort)
  then have l: "last (sort_key fst d) \<in> set d" by (metis last_in_set set_sort)
  have "m \<le> fst (last (sort_key fst d))"
  proof -
    obtain i where i: "i < length (sort_key fst d)" "sort_key fst d ! i = (m, n)" using m(1) by (metis in_set_conv_nth set_sort)
    have "map fst (sort_key fst d) ! i \<le> map fst (sort_key fst d) ! (length (sort_key fst d) - 1)"
      by (rule sorted_nth_mono [OF sorted_sort_key]) (use i in auto)
    then show ?thesis using i ne by (simp add: last_conv_nth)
  qed
  then have "fst (last (sort_key fst d)) = m" using m(2) l by (metis case_prod_conv order_antisym prod.collapse)
  then show "last (sort_key fst d) = (m, n)"
    using l m(1) assms eq_key_imp_eq_value [of d m n] unfolding histogram_def by (metis prod.collapse)
qed

lemma quantile_between:
  assumes h: "histogram d" and "d \<noteq> []" "0 < snd (last (sort_key fst d))" "0 \<le> q" "q \<le> 1"
  shows "\<exists>x. estimate_quantile d q = Some (Le x) \<and> 0 \<le> x \<and>
    (\<forall>b c. (Le b, c) \<in> set d \<longrightarrow> (q * snd (last (sort_key fst d)) \<le> c \<longrightarrow> x \<le> b) \<and> (c < q * snd (last (sort_key fst d)) \<longrightarrow> b \<le> x))"
proof -
  let ?bs = "sort_key fst d" and ?n = "snd (last (sort_key fst d))"
  have ne: "?bs \<noteq> []" using assms(2) by (metis length_0_conv length_sort)
  have t: "0 \<le> q * ?n" "q * ?n \<le> ?n" using assms by (simp_all add: mult_le_cancel_right1)
  from quantile_walk_bounds [OF histogram_sorted(1) [OF h] ne histogram_sorted(2) [OF h] t]
  show ?thesis using assms(2,3) by (auto simp: estimate_quantile_def Let_def)
qed

lemma quantile_mono:
  assumes h: "histogram d" and "d \<noteq> []" "0 < snd (last (sort_key fst d))" "0 \<le> q" "q \<le> r" "r \<le> 1"
  shows "the (estimate_quantile d q) \<le> the (estimate_quantile d r)"
proof -
  let ?bs = "sort_key fst d" and ?n = "snd (last (sort_key fst d))"
  have ne: "?bs \<noteq> []" using assms(2) by (metis length_0_conv length_sort)
  have t: "0 \<le> q * ?n" "q * ?n \<le> r * ?n" "r * ?n \<le> ?n" using assms by (simp_all add: mult_le_cancel_right1)
  from quantile_walk_mono [OF histogram_sorted(1) [OF h] ne histogram_sorted(2) [OF h] t]
  show ?thesis using assms(2,3) by (simp add: estimate_quantile_def Let_def)
qed

lemma safe_q_mono:
  assumes "histogram d" "0 \<le> q" "q \<le> r" "r \<le> 1"
  shows "0 \<le> safe_q d q" and "safe_q d q \<le> safe_q d r"
proof -
  have "0 \<le> safe_q d q \<and> safe_q d q \<le> safe_q d r"
  proof (cases "d \<noteq> [] \<and> 0 < snd (last (sort_key fst d))")
    case True
    have "q \<le> 1" "0 \<le> r" using assms by simp_all
    obtain x where "estimate_quantile d q = Some (Le x)" "0 \<le> x"
      using quantile_between [OF assms(1), of q] True assms(2) \<open>q \<le> 1\<close> by blast
    moreover obtain y where "estimate_quantile d r = Some (Le y)"
      using quantile_between [OF assms(1), of r] True assms(4) \<open>0 \<le> r\<close> by blast
    ultimately show ?thesis using quantile_mono [OF assms(1) _ _ assms(2-4)] True by (simp add: safe_q_def)
  next
    case False
    then show ?thesis by (auto simp: safe_q_def estimate_quantile_def Let_def)
  qed
  then show "0 \<le> safe_q d q" and "safe_q d q \<le> safe_q d r" by simp_all
qed

section \<open>Properties\<close>

text \<open>
  Claim C40. The latency quantiles are estimated in the right bucket and in the right order: for a histogram
  whose cumulative counts do not fall, with a positive total, the estimate of a quantile up to 1 is a finite
  number that is at least every bound whose count falls short of the rank and at most every bound whose
  count reaches it, and a larger quantile never has a smaller estimate.
\<close>

theorem quantile_estimates_sound:
  assumes "histogram d" and "(m, n) \<in> set d" "\<forall>(b, c) \<in> set d. b \<le> m" "0 < n" and "0 \<le> q" "q \<le> r" "r \<le> 1"
  shows "\<exists>x y. estimate_quantile d q = Some (Le x) \<and> estimate_quantile d r = Some (Le y) \<and> 0 \<le> x \<and> x \<le> y \<and>
    (\<forall>b c. (Le b, c) \<in> set d \<longrightarrow> (q * n \<le> c \<longrightarrow> x \<le> b) \<and> (c < q * n \<longrightarrow> b \<le> x))"
proof -
  have last: "snd (last (sort_key fst d)) = n" by (simp add: histogram_sorted(3) [OF assms(1-3)])
  have d: "d \<noteq> []" "0 < snd (last (sort_key fst d))" "q \<le> 1" "0 \<le> r" using assms last by auto
  obtain x where x: "estimate_quantile d q = Some (Le x)" "0 \<le> x"
    "\<forall>b c. (Le b, c) \<in> set d \<longrightarrow> (q * n \<le> c \<longrightarrow> x \<le> b) \<and> (c < q * n \<longrightarrow> b \<le> x)"
    using quantile_between [OF assms(1) d(1,2) assms(5) d(3)] unfolding last by blast
  obtain y where y: "estimate_quantile d r = Some (Le y)" using quantile_between [OF assms(1) d(1,2,4) assms(7)] by blast
  show ?thesis using x y quantile_mono [OF assms(1) d(1,2) assms(5-7)] by auto
qed

theorem quantile_estimates_sound_witness:
  "\<exists>x y. estimate_quantile [(Le 100, 6), (Le 50, 2), (LeInf, 8)] (1 / 2) = Some (Le x) \<and>
     estimate_quantile [(Le 100, 6), (Le 50, 2), (LeInf, 8)] (3 / 4) = Some (Le y) \<and> 50 \<le> x \<and> x \<le> y \<and> x \<le> 100"
proof -
  let ?d = "[(Le 100, 6), (Le 50, 2), (LeInf, 8)] :: (bucket, rat) dict"
  have "histogram ?d" "(LeInf, 8) \<in> set ?d" "\<forall>(b, c) \<in> set ?d. b \<le> LeInf" by (auto simp: histogram_def)
  from quantile_estimates_sound [OF this, of "1 / 2" "3 / 4"] show ?thesis by simp (elim exE conjE, force)
qed

definition window_row :: "metric_snapshot \<Rightarrow> metric_snapshot \<Rightarrow> rat \<Rightarrow> rat list" where
  "window_row prev cur dt =
     (let d = \<lambda>f. f cur - f prev; req = max (d sn_total) 0; denom = (if 0 < req then req else 1);
          att = max (d sn_pub_ok + d sn_pub_fail) 0; lat = max (d sn_pub_lat_count) 0; bs = bucket_deltas prev cur
      in [req / dt, max (d sn_5xx) 0 / denom, max (d sn_2xx) 0 / denom, if 0 < req then d sn_lat_sum / denom else 0,
          safe_q bs (1 / 2), safe_q bs (9 / 10), safe_q bs (19 / 20), att / dt,
          max (d sn_pub_fail) 0 / (if 0 < att then att else 1), if 0 < lat then 1000 * d sn_pub_lat_sum / lat else 0,
          max (d sn_created) 0 / dt])"

lemma window_signals_row:
  "window_signals prev cur dt =
     (if dt \<le> 0 \<or> (\<exists>f \<in> set CUMULATIVE_FIELDS. f cur - f prev < - (1 / 1000000)) then None
      else Some (zip SIGNAL_COLUMNS (window_row prev cur dt)))"
  unfolding window_signals_def window_row_def Let_def SIGNAL_COLUMNS_def
  by (cases "dt \<le> 0"; cases "\<exists>f \<in> set CUMULATIVE_FIELDS. f cur - f prev < - (1 / 1000000)")
    (simp_all only: zip_Cons_Cons zip_Nil if_True if_False simp_thms)

lemma window_None:
  "window_signals prev cur dt = None \<longleftrightarrow> dt \<le> 0 \<or> (\<exists>f \<in> set CUMULATIVE_FIELDS. f cur - f prev < - (1 / 1000000))"
  unfolding window_signals_row by simp

lemma row_values:
  "dict_get (zip SIGNAL_COLUMNS [a0, a1, a2, a3, a4, a5, a6, a7, a8, a9, a10]) ''error_rate'' = a1"
  "dict_get (zip SIGNAL_COLUMNS [a0, a1, a2, a3, a4, a5, a6, a7, a8, a9, a10]) ''success_rate'' = a2"
  "dict_get (zip SIGNAL_COLUMNS [a0, a1, a2, a3, a4, a5, a6, a7, a8, a9, a10]) ''latency_p50_ms'' = a4"
  "dict_get (zip SIGNAL_COLUMNS [a0, a1, a2, a3, a4, a5, a6, a7, a8, a9, a10]) ''latency_p90_ms'' = a5"
  "dict_get (zip SIGNAL_COLUMNS [a0, a1, a2, a3, a4, a5, a6, a7, a8, a9, a10]) ''latency_p95_ms'' = a6"
  "dict_get (zip SIGNAL_COLUMNS [a0, a1, a2, a3, a4, a5, a6, a7, a8, a9, a10]) ''publish_error_rate'' = a8"
  by (simp_all add: dict_get_def SIGNAL_COLUMNS_def)

definition not_reset :: "metric_snapshot \<Rightarrow> metric_snapshot \<Rightarrow> bool" where
  "not_reset prev cur \<longleftrightarrow> (\<forall>f \<in> set CUMULATIVE_FIELDS. f prev \<le> f cur)"

definition consistent_delta :: "metric_snapshot \<Rightarrow> metric_snapshot \<Rightarrow> bool" where
  "consistent_delta prev cur \<longleftrightarrow>
     (sn_2xx cur - sn_2xx prev) + (sn_5xx cur - sn_5xx prev) \<le> sn_total cur - sn_total prev"

lemma row_in_range:
  assumes "not_reset prev cur" "consistent_delta prev cur" "histogram (bucket_deltas prev cur)" "0 < dt"
    and row: "window_row prev cur dt = [a0, a1, a2, a3, a4, a5, a6, a7, a8, a9, a10]"
  shows "\<forall>v \<in> {a0, a1, a2, a3, a4, a5, a6, a7, a8, a9, a10}. 0 \<le> v" and "a1 + a2 \<le> 1" and "a8 \<le> 1" and "a4 \<le> a5 \<and> a5 \<le> a6"
proof -
  define req where "req = sn_total cur - sn_total prev"
  define att where "att = (sn_pub_ok cur - sn_pub_ok prev) + (sn_pub_fail cur - sn_pub_fail prev)"
  have d: "0 \<le> req" "0 \<le> sn_5xx cur - sn_5xx prev" "0 \<le> sn_2xx cur - sn_2xx prev" "0 \<le> sn_lat_sum cur - sn_lat_sum prev"
    "0 \<le> sn_pub_ok cur - sn_pub_ok prev" "0 \<le> sn_pub_fail cur - sn_pub_fail prev" "0 \<le> sn_pub_lat_count cur - sn_pub_lat_count prev"
    "0 \<le> sn_pub_lat_sum cur - sn_pub_lat_sum prev" "0 \<le> sn_created cur - sn_created prev" "0 \<le> att"
    using assms(1) by (simp_all add: not_reset_def CUMULATIVE_FIELDS_def req_def att_def)
  note m = d [THEN max_absorb1]
  have r: "a0 = req / dt" "a1 = (sn_5xx cur - sn_5xx prev) / (if 0 < req then req else 1)"
    "a2 = (sn_2xx cur - sn_2xx prev) / (if 0 < req then req else 1)"
    "a3 = (if 0 < req then (sn_lat_sum cur - sn_lat_sum prev) / (if 0 < req then req else 1) else 0)"
    "a4 = safe_q (bucket_deltas prev cur) (1 / 2)" "a5 = safe_q (bucket_deltas prev cur) (9 / 10)"
    "a6 = safe_q (bucket_deltas prev cur) (19 / 20)" "a7 = att / dt"
    "a8 = (sn_pub_fail cur - sn_pub_fail prev) / (if 0 < att then att else 1)"
    "a9 = (if 0 < sn_pub_lat_count cur - sn_pub_lat_count prev
       then 1000 * (sn_pub_lat_sum cur - sn_pub_lat_sum prev) / (sn_pub_lat_count cur - sn_pub_lat_count prev) else 0)"
    "a10 = (sn_created cur - sn_created prev) / dt"
    using row unfolding window_row_def Let_def req_def [symmetric] att_def [symmetric] m list.inject by blast+
  show "a4 \<le> a5 \<and> a5 \<le> a6" unfolding r using safe_q_mono(2) [OF assms(3)] by simp
  have q: "0 \<le> a4" "0 \<le> a5" "0 \<le> a6" unfolding r using safe_q_mono(1) [OF assms(3), of _ 1] by simp_all
  have "0 \<le> a0" "0 \<le> a1" "0 \<le> a2" "0 \<le> a3" "0 \<le> a7" "0 \<le> a8" "0 \<le> a9" "0 \<le> a10"
    unfolding r using d assms(4) by simp_all
  then show "\<forall>v \<in> {a0, a1, a2, a3, a4, a5, a6, a7, a8, a9, a10}. 0 \<le> v" using q by blast
  have "sn_2xx cur - sn_2xx prev + (sn_5xx cur - sn_5xx prev) \<le> req" using assms(2) by (simp add: consistent_delta_def req_def)
  then show "a1 + a2 \<le> 1" unfolding r using d by (simp add: add_divide_distrib [symmetric])
  show "a8 \<le> 1" unfolding r using d by (simp add: att_def)
qed

text \<open>
  Claim C39. The signals of a window are meaningful: between two scrapes with no counter reset, whose 2xx and
  5xx counts are part of the total and whose latency buckets grew like a cumulative histogram (no bound
  twice, no bound or growth negative, a larger bound never growing less), there is a window as soon as time
  has passed, it has exactly the columns the model is trained on, no signal is negative, the error and
  success rates add up to at most 1, the publish error rate is at most 1, and the latency percentiles are
  ordered. (When there is no window at all is lemma \<open>window_None\<close>.) The arithmetic is exact.
\<close>

theorem window_signals_sound:
  assumes "not_reset prev cur" "consistent_delta prev cur" "histogram (bucket_deltas prev cur)" "0 < dt"
  shows "\<exists>s. window_signals prev cur dt = Some s \<and> map fst s = SIGNAL_COLUMNS \<and> (\<forall>(n, v) \<in> set s. 0 \<le> v) \<and>
    dict_get s ''error_rate'' + dict_get s ''success_rate'' \<le> 1 \<and> dict_get s ''publish_error_rate'' \<le> 1 \<and>
    dict_get s ''latency_p50_ms'' \<le> dict_get s ''latency_p90_ms'' \<and>
    dict_get s ''latency_p90_ms'' \<le> dict_get s ''latency_p95_ms''"
proof -
  let ?s = "zip SIGNAL_COLUMNS (window_row prev cur dt)"
  obtain a0 a1 a2 a3 a4 a5 a6 a7 a8 a9 a10 where row: "window_row prev cur dt = [a0, a1, a2, a3, a4, a5, a6, a7, a8, a9, a10]"
    unfolding window_row_def Let_def by blast
  have still: "\<not> f cur - f prev < - (1 / 1000000)" if "f \<in> set CUMULATIVE_FIELDS" for f
    using assms(1) that unfolding not_reset_def by fastforce
  have "window_signals prev cur dt = Some (zip SIGNAL_COLUMNS (window_row prev cur dt))"
    using assms(4) still unfolding window_signals_row by (simp del: zip_Cons_Cons)
  moreover have "map fst (zip SIGNAL_COLUMNS (window_row prev cur dt)) = SIGNAL_COLUMNS" by (simp add: row SIGNAL_COLUMNS_def)
  moreover have "\<forall>(n, v) \<in> set (zip SIGNAL_COLUMNS (window_row prev cur dt)). 0 \<le> v"
  proof (clarify)
    fix n v assume "(n, v) \<in> set (zip SIGNAL_COLUMNS (window_row prev cur dt))"
    then have "v \<in> set (window_row prev cur dt)" by (rule set_zip_rightD)
    then show "0 \<le> v" using row_in_range(1) [OF assms row] unfolding row by (simp only: list.set)
  qed
  moreover have "dict_get ?s ''error_rate'' + dict_get ?s ''success_rate'' \<le> 1" "dict_get ?s ''publish_error_rate'' \<le> 1"
    "dict_get ?s ''latency_p50_ms'' \<le> dict_get ?s ''latency_p90_ms''" "dict_get ?s ''latency_p90_ms'' \<le> dict_get ?s ''latency_p95_ms''"
    using row_in_range(2-4) [OF assms row] unfolding row row_values by simp_all
  ultimately show ?thesis by (intro exI [of _ ?s] conjI)
qed

definition busy_snapshot :: metric_snapshot where
  "busy_snapshot = empty_snapshot\<lparr>sn_total := 10, sn_2xx := 7, sn_5xx := 2, sn_buckets := [(LeInf, 10), (Le 100, 6)]\<rparr>"

theorem window_signals_sound_witness:
  "\<exists>s. window_signals empty_snapshot busy_snapshot 10 = Some s \<and> map fst s = SIGNAL_COLUMNS"
proof -
  have "not_reset empty_snapshot busy_snapshot" "consistent_delta empty_snapshot busy_snapshot"
    by (simp_all add: not_reset_def consistent_delta_def CUMULATIVE_FIELDS_def busy_snapshot_def empty_snapshot_def)
  moreover have "histogram (bucket_deltas empty_snapshot busy_snapshot)"
    by (simp add: bucket_deltas_def histogram_def dict_get_def busy_snapshot_def empty_snapshot_def)
  ultimately show ?thesis using window_signals_sound [of empty_snapshot busy_snapshot 10] by (meson zero_less_numeral)
qed

end
