(* ===== verification/DetFeatures.thy ===== *)
theory DetFeatures imports DetSignals "HOL-Library.List_Lexorder" "HOL-Library.Char_ord" begin

text \<open>
  Feature construction (\<open>ml/features/engineering.py\<close>) and the streaming featurizer
  (\<open>ml/inference/featurizer.py\<close>). A row is one window: its start, its end and its signals. What pandas computes on a
  trailing window of a column (\<open>rolling(k).mean()\<close>, \<open>rolling(k).std()\<close>) is a parameter, a function of the last
  values of the column; \<open>diff\<close> and \<open>shift\<close> look at the last two. All rows of the stream are of one run.
\<close>

record win_row =
  wr_start :: string
  wr_end :: string
  wr_signals :: "(string, rat) dict"

record rolling =
  ro_mean :: "rat list \<Rightarrow> rat"
  ro_std :: "rat list \<Rightarrow> rat"

definition EPS :: rat where
  "EPS = 1"

text \<open>The last \<open>n\<close> elements.\<close>

definition trailing :: "nat \<Rightarrow> 'a list \<Rightarrow> 'a list" where
  "trailing n xs = drop (length xs - n) xs"

definition column :: "string \<Rightarrow> win_row list \<Rightarrow> rat list" where
  "column c rows = map (\<lambda>r. dict_get (wr_signals r) c) rows"

text \<open>The engineered features of the last of the rows, the rows before it being its past.\<close>

definition roll_mean :: "rolling \<Rightarrow> nat \<Rightarrow> string \<Rightarrow> win_row list \<Rightarrow> rat" where
  "roll_mean ro k c past = ro_mean ro (trailing k (column c past))"

definition roll_std :: "rolling \<Rightarrow> nat \<Rightarrow> string \<Rightarrow> win_row list \<Rightarrow> rat" where
  "roll_std ro k c past = (let w = trailing k (column c past) in if length w < 2 then 0 else ro_std ro w)"

definition delta :: "string \<Rightarrow> win_row list \<Rightarrow> rat" where
  "delta c past = (case trailing 2 (column c past) of [x, y] \<Rightarrow> y - x | _ \<Rightarrow> 0)"

definition traffic_growth :: "win_row list \<Rightarrow> rat" where
  "traffic_growth past = (case trailing 2 (column ''request_rate'' past) of [x, y] \<Rightarrow> (y - x) / max x EPS | _ \<Rightarrow> 0)"

definition engineer_row :: "rolling \<Rightarrow> nat \<Rightarrow> win_row list \<Rightarrow> (string, rat) dict" where
  "engineer_row ro k past =
     map (\<lambda>c. (c, dict_get (wr_signals (last past)) c)) SIGNAL_COLUMNS @
     [(''request_rate_roll_mean'', roll_mean ro k ''request_rate'' past),
      (''request_rate_roll_std'', roll_std ro k ''request_rate'' past),
      (''request_rate_delta'', delta ''request_rate'' past),
      (''error_rate_roll_mean'', roll_mean ro k ''error_rate'' past),
      (''error_rate_delta'', delta ''error_rate'' past),
      (''latency_mean_ms_roll_mean'', roll_mean ro k ''latency_mean_ms'' past),
      (''latency_mean_ms_roll_std'', roll_std ro k ''latency_mean_ms'' past),
      (''latency_mean_ms_delta'', delta ''latency_mean_ms'' past),
      (''latency_p95_ms_roll_mean'', roll_mean ro k ''latency_p95_ms'' past),
      (''publish_error_rate_roll_mean'', roll_mean ro k ''publish_error_rate'' past),
      (''publish_latency_mean_ms_roll_mean'', roll_mean ro k ''publish_latency_mean_ms'' past),
      (''traffic_growth_rate'', traffic_growth past)]"

text \<open>\<open>build_features\<close>: the rows in the order of their start text, each with the rows up to it as its past.\<close>

definition build_features :: "rolling \<Rightarrow> nat \<Rightarrow> win_row list \<Rightarrow> (string, rat) dict list" where
  "build_features ro k rows =
     (let ordered = sort_key wr_start rows in map (\<lambda>i. engineer_row ro k (take (Suc i) ordered)) [0..<length ordered])"

section \<open>The stream\<close>

text \<open>A \<open>deque\<close> of bounded length: the oldest rows fall out.\<close>

definition push_row :: "nat \<Rightarrow> win_row \<Rightarrow> win_row list \<Rightarrow> win_row list" where
  "push_row k r buffer = trailing k (buffer @ [r])"

definition missing_columns :: "win_row \<Rightarrow> string list" where
  "missing_columns r = filter (\<lambda>c. c \<notin> fst ` set (wr_signals r)) SIGNAL_COLUMNS"

definition featurizer_push ::
  "rolling \<Rightarrow> nat \<Rightarrow> win_row \<Rightarrow> win_row list \<Rightarrow> (string + (string, rat) dict) \<times> win_row list" where
  "featurizer_push ro k r buffer =
     (if missing_columns r \<noteq> [] then (Inl (''signal record missing columns: '' @ repr_str_list (missing_columns r)), buffer)
      else let buffer' = push_row k r buffer in (Inr (last (build_features ro k buffer')), buffer'))"

fun push_all :: "rolling \<Rightarrow> nat \<Rightarrow> win_row list \<Rightarrow> win_row list \<Rightarrow> (string + (string, rat) dict) list" where
  "push_all ro k [] buffer = []"
| "push_all ro k (r # rs) buffer =
     (case featurizer_push ro k r buffer of (x, buffer') \<Rightarrow> x # push_all ro k rs buffer')"

section \<open>Streaming equals batch\<close>

lemma length_trailing: "length (trailing n xs) = min n (length xs)"
  by (simp add: trailing_def)

lemma trailing_map: "trailing n (map f xs) = map f (trailing n xs)"
  by (simp add: trailing_def drop_map)

lemma trailing_trailing: "m \<le> n \<Longrightarrow> trailing m (trailing n xs) = trailing m xs"
  by (cases "length xs \<le> n") (simp_all add: trailing_def)

lemma trailing_snoc: "0 < n \<Longrightarrow> trailing n (xs @ [x]) = trailing (n - 1) xs @ [x]"
  by (cases n) (simp_all add: trailing_def)

lemma last_trailing: "0 < n \<Longrightarrow> xs \<noteq> [] \<Longrightarrow> last (trailing n xs) = last xs"
  by (simp add: trailing_def last_drop)

lemma push_trailing: "0 < k \<Longrightarrow> push_row k r (trailing k xs) = trailing k (xs @ [r])"
  by (cases "length xs \<le> k") (simp_all add: push_row_def trailing_def Suc_diff_le)

lemma sorted_trailing: "sorted (map f xs) \<Longrightarrow> sorted (map f (trailing n xs))"
  by (simp add: trailing_def sorted_wrt_drop drop_map [symmetric])

text \<open>The features of a row depend on a trailing window of two or more rows only.\<close>

lemma engineer_trailing:
  assumes "2 \<le> k" and "past \<noteq> []"
  shows "engineer_row ro k (trailing k past) = engineer_row ro k past"
proof -
  have "trailing 2 (column c (trailing k past)) = trailing 2 (column c past)"
    "trailing k (column c (trailing k past)) = trailing k (column c past)" for c
    using assms(1) by (simp_all add: column_def trailing_map trailing_trailing)
  moreover have "last (trailing k past) = last past" using assms by (simp add: last_trailing)
  ultimately show ?thesis
    by (simp only: engineer_row_def roll_mean_def roll_std_def delta_def traffic_growth_def)
qed

lemma build_last:
  assumes "sorted (map wr_start rows)" and "rows \<noteq> []"
  shows "last (build_features ro k rows) = engineer_row ro k rows"
proof -
  have "sort_key wr_start rows = rows" using assms(1) by (simp add: sort_key_id_if_sorted)
  moreover have "[0..<length rows] \<noteq> []" using assms(2) by simp
  ultimately show ?thesis using assms(2) by (simp add: build_features_def Let_def last_map)
qed

lemma push_all_batch:
  assumes "2 \<le> k" and "sorted (map wr_start (seen @ rs))" and "\<forall>r \<in> set rs. missing_columns r = []"
  shows "push_all ro k rs (trailing k seen) =
    map (\<lambda>i. Inr (engineer_row ro k (seen @ take (Suc i) rs))) [0..<length rs]"
  using assms(2,3)
proof (induction rs arbitrary: seen)
  case (Cons r rs)
  let ?b = "trailing k (seen @ [r])"
  have b: "push_row k r (trailing k seen) = ?b" using assms(1) by (simp add: push_trailing)
  have "sorted (map wr_start (seen @ [r]))" using Cons.prems(1) by (simp add: sorted_append)
  then have "last (build_features ro k ?b) = engineer_row ro k ?b"
    by (intro build_last sorted_trailing) (use assms(1) in \<open>auto simp: trailing_def\<close>)
  also have "\<dots> = engineer_row ro k (seen @ [r])" by (rule engineer_trailing [OF assms(1)]) simp
  finally have f: "featurizer_push ro k r (trailing k seen) = (Inr (engineer_row ro k (seen @ [r])), ?b)"
    using Cons.prems(2) by (simp add: featurizer_push_def b Let_def)
  have "push_all ro k rs ?b = map (\<lambda>i. Inr (engineer_row ro k ((seen @ [r]) @ take (Suc i) rs))) [0..<length rs]"
    by (rule Cons.IH) (use Cons.prems in simp_all)
  moreover have "[0..<length (r # rs)] = 0 # map Suc [0..<length rs]" by (simp add: map_Suc_upt upt_conv_Cons del: upt_Suc)
  ultimately show ?case by (simp add: f comp_def del: upt_Suc)
qed simp

text \<open>
  Claim C38. Live features equal training features: feeding the windows of a run to the stream one by one,
  with a buffer of only \<open>rolling_window\<close> rows, gives row for row the features that the batch code computes
  over the whole run, provided the starts of the windows ascend.
\<close>

theorem streaming_equals_batch:
  assumes "2 \<le> k" and "sorted_wrt (<) (map wr_start rows)" and "\<forall>r \<in> set rows. missing_columns r = []"
  shows "push_all ro k rows [] = map Inr (build_features ro k rows)"
proof -
  have s: "sorted (map wr_start rows)" using assms(2) by (simp add: strict_sorted_iff)
  have "push_all ro k rows (trailing k []) = map (\<lambda>i. Inr (engineer_row ro k ([] @ take (Suc i) rows))) [0..<length rows]"
    by (rule push_all_batch) (use assms s in simp_all)
  then show ?thesis using sort_key_id_if_sorted [OF s] by (simp add: build_features_def trailing_def comp_def del: upt_Suc)
qed

text \<open>With a clock that steps back the two differ: the stream answers with the features of an older window.\<close>

definition plain_row :: "string \<Rightarrow> rat \<Rightarrow> win_row" where
  "plain_row t v = \<lparr>wr_start = t, wr_end = t, wr_signals = map (\<lambda>c. (c, v)) SIGNAL_COLUMNS\<rparr>"

definition first_value :: "rolling" where
  "first_value = \<lparr>ro_mean = hd, ro_std = hd\<rparr>"

theorem streaming_equals_batch_witness:
  "push_all first_value 3 [plain_row ''10:00'' 1, plain_row ''10:10'' 2] [] =
     map Inr (build_features first_value 3 [plain_row ''10:00'' 1, plain_row ''10:10'' 2])"
proof -
  have "''10:00'' \<le> (''10:10'' :: string)" by (simp add: less_eq_char_def)
  then show ?thesis
    by (intro streaming_equals_batch) (simp_all add: plain_row_def missing_columns_def SIGNAL_COLUMNS_def)
qed

lemma stepping_back_repeats_window:
  "push_all first_value 3 [plain_row ''10:10'' 1, plain_row ''10:00'' 2] [] =
     [Inr (engineer_row first_value 3 [plain_row ''10:10'' 1]),
      Inr (engineer_row first_value 3 [plain_row ''10:00'' 2, plain_row ''10:10'' 1])]"
proof -
  have o: "\<not> ''10:10'' \<le> (''10:00'' :: string)" "''10:00'' \<le> (''10:10'' :: string)" by (simp_all add: less_eq_char_def)
  have m: "missing_columns (plain_row t v) = []" for t v
    by (simp add: plain_row_def missing_columns_def SIGNAL_COLUMNS_def)
  have s: "\<not> wr_start (plain_row ''10:10'' 1) \<le> wr_start (plain_row ''10:00'' 2)"
    using o(1) by (simp add: plain_row_def)
  have t: "trailing 3 [x] = [x]" "trailing 3 [x, y] = [x, y]" for x y :: win_row by (simp_all add: trailing_def)
  have sorts: "sort_key wr_start [plain_row ''10:10'' 1, plain_row ''10:00'' 2] = [plain_row ''10:00'' 2, plain_row ''10:10'' 1]"
    using o by (simp add: sort_key_def s)
  show ?thesis
    by (simp add: featurizer_push_def push_row_def m t build_features_def sorts s Let_def upt_conv_Cons)
qed

end
