(* ===== verification/DetRunner.thy ===== *)
theory DetRunner imports DetFeatures IncDelivery begin

text \<open>
  The anomaly detector: the timeline of a detection (\<open>timing.py\<close>), the outbound event (\<open>events.py\<close>), the
  inference statistics and the health view (\<open>state.py\<close>), the source of windows (\<open>metrics_source.py\<close>), the
  scoring of a window (\<open>ml/inference/detector_service.py\<close>) and the scrape-score-publish loop (\<open>runner.py\<close>).
  The trained model is a parameter: a score, or the message of what it raises. One tick carries what the
  code reads outside: the clocks, the answer to the scrape, the identifier drawn, the result of the send.
\<close>

section \<open>Timeline\<close>

record timeline =
  tl_scrape :: rat
  tl_close :: rat
  tl_inf_start :: rat
  tl_inf_end :: rat
  tl_service :: string
  tl_is_anomaly :: bool
  tl_publish :: "rat option"

definition calculate_latencies :: "timeline \<Rightarrow> (string, rat) dict" where
  "calculate_latencies tm =
     [(''window_age_at_scrape'', tl_scrape tm - tl_close tm), (''inference_duration'', tl_inf_end tm - tl_inf_start tm)] @
     (case tl_publish tm of
        Some t \<Rightarrow> if tl_is_anomaly tm
          then [(''scrape_to_publish'', t - tl_scrape tm), (''window_to_publish'', t - tl_close tm),
                (''total_detection_latency'', t - tl_close tm)]
          else []
      | None \<Rightarrow> [])"

section \<open>Windows\<close>

record signal_window =
  sw_start :: datetime
  sw_end :: datetime
  sw_dt :: rat
  sw_signals :: "(string, rat) dict"
  sw_scraped :: datetime

definition timestamp :: "datetime \<Rightarrow> rat" where
  "timestamp t = of_int t / 1000000"

record tick_input =
  ti_mono :: rat
  ti_wall :: datetime
  ti_http :: "string + string"
  ti_scraped :: datetime
  ti_inf_start :: rat
  ti_inf_end :: rat
  ti_latency :: rat
  ti_now :: datetime
  ti_send_time :: rat
  ti_event_id :: string
  ti_trace :: "string option"
  ti_ready :: bool
  ti_send :: send_result

record detector_config =
  dc_url :: string
  dc_service :: string
  dc_environment :: string
  dc_topic :: string
  dc_only_anomalies :: bool

record prom_library =
  pl_families :: "string \<Rightarrow> string + metric_sample list"
  pl_float :: "string \<Rightarrow> string + bucket"

type_synonym metrics_source = "(metric_snapshot \<times> rat \<times> datetime) option"

definition scrape_target :: "prom_library \<Rightarrow> detector_config \<Rightarrow> tick_input \<Rightarrow> string + metric_snapshot" where
  "scrape_target pl dc ti =
     (case ti_http ti of
        Inl m \<Rightarrow> Inl (''GET '' @ dc_url dc @ '' failed: '' @ m)
      | Inr text \<Rightarrow>
          (case parse_metrics (pl_families pl) (pl_float pl) text of
             Inl m \<Rightarrow> Inl (''could not parse metrics from '' @ dc_url dc @ '': '' @ m)
           | Inr sn \<Rightarrow> Inr sn))"

definition next_window ::
  "prom_library \<Rightarrow> detector_config \<Rightarrow> tick_input \<Rightarrow> metrics_source \<Rightarrow> (string + signal_window option) \<times> metrics_source" where
  "next_window pl dc ti src =
     (case scrape_target pl dc ti of
        Inl m \<Rightarrow> (Inl m, src)
      | Inr sn \<Rightarrow>
          (Inr (case src of
             None \<Rightarrow> None
           | Some (prev, prev_at, wall) \<Rightarrow>
               (case window_signals prev sn (ti_mono ti - prev_at) of
                  None \<Rightarrow> None
                | Some sg \<Rightarrow> Some \<lparr>sw_start = wall, sw_end = ti_wall ti, sw_dt = ti_mono ti - prev_at, sw_signals = sg,
                    sw_scraped = ti_scraped ti\<rparr>)),
           Some (sn, ti_mono ti, ti_wall ti)))"

section \<open>Scoring\<close>

record det_model =
  md_score :: "(string, rat) dict \<Rightarrow> string + rat"
  md_threshold :: rat
  md_type :: string
  md_version :: string
  md_features :: "string list"
  md_rolling :: rolling
  md_window :: nat

record anomaly_result =
  an_start :: string
  an_end :: string
  an_score :: rat
  an_threshold :: rat
  an_is_anomaly :: bool
  an_type :: string
  an_version :: string
  an_features :: "(string, rat) dict"

definition make_result :: "det_model \<Rightarrow> win_row \<Rightarrow> (string, rat) dict \<Rightarrow> rat \<Rightarrow> bool \<Rightarrow> anomaly_result" where
  "make_result md r fs score flag =
     \<lparr>an_start = wr_start r, an_end = wr_end r, an_score = round_to 6 score, an_threshold = round_to 6 (md_threshold md),
      an_is_anomaly = flag, an_type = md_type md, an_version = md_version md,
      an_features = map (\<lambda>c. (c, round_to 6 (dict_get fs c))) (md_features md)\<rparr>"

text \<open>The frame has the rows of the buffer in the order of their start; the row scored is its last.\<close>

definition row_of :: "signal_window \<Rightarrow> win_row" where
  "row_of w = \<lparr>wr_start = isoformat (sw_start w), wr_end = isoformat (sw_end w), wr_signals = sw_signals w\<rparr>"

definition score_window ::
  "det_model \<Rightarrow> signal_window \<Rightarrow> win_row list \<Rightarrow> (string + anomaly_result) \<times> win_row list" where
  "score_window md w buffer =
     (case featurizer_push (md_rolling md) (md_window md) (row_of w) buffer of
        (Inl m, b) \<Rightarrow> (Inl m, b)
      | (Inr fs, b) \<Rightarrow>
          (case md_score md fs of
             Inl m \<Rightarrow> (Inl m, b)
           | Inr score \<Rightarrow> (Inr (make_result md (last (sort_key wr_start b)) fs score (md_threshold md < score)), b)))"

section \<open>The event\<close>

definition anomaly_payload_of :: "detector_config \<Rightarrow> signal_window \<Rightarrow> anomaly_result \<Rightarrow> timeline option \<Rightarrow> anomaly_detected" where
  "anomaly_payload_of dc w r tm =
     (let ms = (\<lambda>k. case tm of None \<Rightarrow> None | Some t \<Rightarrow>
            (case map_of (calculate_latencies t) k of None \<Rightarrow> None | Some v \<Rightarrow> Some (round_to 3 (v * 1000))))
      in \<lparr>ap_detector = an_type r, ap_detector_version = an_version r, ap_service = dc_service dc,
          ap_environment = dc_environment dc, ap_window_start = isoformat (sw_start w), ap_window_end = isoformat (sw_end w),
          ap_score = an_score r, ap_threshold = an_threshold r, ap_is_anomaly = an_is_anomaly r,
          ap_signals = map (\<lambda>(k, v). (k, round_to 6 v)) (sw_signals w), ap_abnormal = abnormal_signals (sw_signals w),
          ap_detection_latency = ms ''total_detection_latency'', ap_scrape_latency = ms ''window_age_at_scrape'',
          ap_inference_latency = ms ''inference_duration''\<rparr>)"

definition anomaly_event ::
  "(anomaly_detected \<Rightarrow> 'p) \<Rightarrow> detector_config \<Rightarrow> signal_window \<Rightarrow> anomaly_result \<Rightarrow> timeline option \<Rightarrow> string \<Rightarrow> string option \<Rightarrow>
   'p envelope" where
  "anomaly_event dump dc w r tm i tr =
     \<lparr>ee_id = i, ee_type = ANOMALY_DETECTED, ee_version = ANOMALY_DETECTED_VERSION, ee_occurred = sw_end w,
      ee_source = ''anomaly-detector'', ee_trace = tr, ee_payload = dump (anomaly_payload_of dc w r tm)\<rparr>"

section \<open>Statistics\<close>

record detector_state =
  ds_startup :: datetime
  ds_count :: nat
  ds_anomalies :: nat
  ds_last :: rat
  ds_avg :: rat
  ds_min :: rat
  ds_max :: rat
  ds_last_time :: "datetime option"

definition initial_detector_state :: "datetime \<Rightarrow> detector_state" where
  "initial_detector_state t =
     \<lparr>ds_startup = t, ds_count = 0, ds_anomalies = 0, ds_last = 0, ds_avg = 0, ds_min = 0, ds_max = 0, ds_last_time = None\<rparr>"

definition EMA_ALPHA :: rat where
  "EMA_ALPHA = 1 / 5"

definition record_inference :: "rat \<Rightarrow> bool \<Rightarrow> datetime \<Rightarrow> detector_state \<Rightarrow> detector_state" where
  "record_inference latency flag now ds =
     (let ms = latency * 1000; first = (ds_count ds + 1 = 1) in
      ds\<lparr>ds_count := ds_count ds + 1, ds_anomalies := (if flag then ds_anomalies ds + 1 else ds_anomalies ds), ds_last := ms,
         ds_avg := (if first then ms else EMA_ALPHA * ms + (1 - EMA_ALPHA) * ds_avg ds),
         ds_min := (if first then ms else min (ds_min ds) ms),
         ds_max := (if first then ms else max (ds_max ds) ms),
         ds_last_time := Some now\<rparr>)"

definition uptime_seconds :: "datetime \<Rightarrow> detector_state \<Rightarrow> rat" where
  "uptime_seconds now ds = total_seconds (now - ds_startup ds)"

definition seconds_since_last_inference :: "datetime \<Rightarrow> detector_state \<Rightarrow> rat option" where
  "seconds_since_last_inference now ds =
     (case ds_last_time ds of None \<Rightarrow> None | Some t \<Rightarrow> Some (total_seconds (now - t)))"

record state_summary =
  sy_total :: nat
  sy_anomalies :: nat
  sy_rate :: rat
  sy_avg :: rat
  sy_last :: rat
  sy_min :: rat
  sy_max :: rat
  sy_last_time :: "string option"

definition get_summary :: "detector_state \<Rightarrow> state_summary" where
  "get_summary ds =
     \<lparr>sy_total = ds_count ds, sy_anomalies = ds_anomalies ds,
      sy_rate = (if ds_count ds = 0 then 0 else round_to 2 (100 * of_nat (ds_anomalies ds) / of_nat (ds_count ds))),
      sy_avg = round_to 3 (ds_avg ds), sy_last = round_to 3 (ds_last ds), sy_min = round_to 3 (ds_min ds),
      sy_max = round_to 3 (ds_max ds), sy_last_time = map_option isoformat (ds_last_time ds)\<rparr>"

definition reset :: "detector_state \<Rightarrow> detector_state" where
  "reset ds = initial_detector_state (ds_startup ds)"

definition assess_health :: "state_summary \<Rightarrow> rat \<Rightarrow> rat option \<Rightarrow> rat \<Rightarrow> rat \<Rightarrow> rat \<Rightarrow> bool \<times> string list" where
  "assess_health sy up idle max_idle max_rate max_avg =
     (let reasons =
        (if sy_total sy = 0 then
           (if max_idle < up then [''no inference '' @ fixed_str 0 up @ ''s after startup''] else [])
         else case idle of
             None \<Rightarrow> []
           | Some i \<Rightarrow> if max_idle < i then [''last inference '' @ fixed_str 0 i @ ''s ago''] else []) @
        (if 0 < sy_total sy \<and> max_rate < sy_rate sy
         then [''anomaly rate '' @ float_str (sy_rate sy) @ ''% > '' @ float_str max_rate @ ''%''] else []) @
        (if max_avg < sy_avg sy
         then [''avg latency '' @ float_str (sy_avg sy) @ ''ms > '' @ float_str max_avg @ ''ms''] else [])
      in (reasons = [], reasons))"

section \<open>The loop\<close>

record runner =
  rn_source :: metrics_source
  rn_buffer :: "win_row list"
  rn_state :: detector_state
  rn_scored :: nat
  rn_published :: nat
  rn_failures :: nat
  rn_topic :: "message list"

definition fresh_runner :: "datetime \<Rightarrow> runner" where
  "fresh_runner t = \<lparr>rn_source = None, rn_buffer = [], rn_state = initial_detector_state t, rn_scored = 0, rn_published = 0,
     rn_failures = 0, rn_topic = []\<rparr>"

datatype tick_outcome =
    TICK_SCRAPE_FAILED string
  | TICK_RAISED string
  | TICK_NO_WINDOW
  | TICK_SCORED signal_window anomaly_result "bool option"

text \<open>\<open>_publish\<close>: whatever the producer raises is counted and swallowed.\<close>

definition publish_event ::
  "('j, 'p) envelope_codec \<Rightarrow> detector_config \<Rightarrow> bool \<Rightarrow> send_result \<Rightarrow> 'p envelope \<Rightarrow> runner \<Rightarrow> bool \<times> runner" where
  "publish_event ec dc ready sr e rn =
     (case producer_publish ec ready sr (dc_topic dc) e (dc_service dc) [] (rn_topic rn) of
        (Inl x, topic) \<Rightarrow> (False, rn\<lparr>rn_topic := topic, rn_failures := rn_failures rn + 1\<rparr>)
      | (Inr u, topic) \<Rightarrow> (True, rn\<lparr>rn_topic := topic, rn_published := rn_published rn + 1\<rparr>))"

definition timeline_of :: "detector_config \<Rightarrow> signal_window \<Rightarrow> anomaly_result \<Rightarrow> tick_input \<Rightarrow> timeline" where
  "timeline_of dc w r ti =
     \<lparr>tl_scrape = timestamp (sw_scraped w), tl_close = timestamp (sw_end w), tl_inf_start = ti_inf_start ti,
      tl_inf_end = ti_inf_end ti, tl_service = dc_service dc, tl_is_anomaly = an_is_anomaly r,
      tl_publish = (if an_is_anomaly r then Some (ti_send_time ti) else None)\<rparr>"

text \<open>The flag of a scored window says whether the event was sent; \<open>None\<close> is a window that is not to be sent.\<close>

definition tick ::
  "prom_library \<Rightarrow> ('j, 'p) envelope_codec \<Rightarrow> (anomaly_detected \<Rightarrow> 'p) \<Rightarrow> det_model \<Rightarrow> detector_config \<Rightarrow> tick_input \<Rightarrow> runner \<Rightarrow>
   tick_outcome \<times> runner" where
  "tick pl ec dump md dc ti rn =
     (case next_window pl dc ti (rn_source rn) of
        (Inl m, src) \<Rightarrow> (TICK_SCRAPE_FAILED m, rn\<lparr>rn_source := src\<rparr>)
      | (Inr None, src) \<Rightarrow> (TICK_NO_WINDOW, rn\<lparr>rn_source := src\<rparr>)
      | (Inr (Some w), src) \<Rightarrow>
          (case score_window md w (rn_buffer rn) of
             (Inl m, b) \<Rightarrow> (TICK_RAISED m, rn\<lparr>rn_source := src, rn_buffer := b\<rparr>)
           | (Inr r, b) \<Rightarrow>
               let rn1 = rn\<lparr>rn_source := src, rn_buffer := b, rn_scored := rn_scored rn + 1,
                            rn_state := record_inference (ti_latency ti) (an_is_anomaly r) (ti_now ti) (rn_state rn)\<rparr>
               in if an_is_anomaly r \<or> \<not> dc_only_anomalies dc then
                    (case publish_event ec dc (ti_ready ti) (ti_send ti)
                        (anomaly_event dump dc w r (Some (timeline_of dc w r ti)) (ti_event_id ti) (ti_trace ti)) rn1 of
                       (ok, rn2) \<Rightarrow> (TICK_SCORED w r (Some ok), rn2))
                  else (TICK_SCORED w r None, rn1)))"

fun run_ticks ::
  "prom_library \<Rightarrow> ('j, 'p) envelope_codec \<Rightarrow> (anomaly_detected \<Rightarrow> 'p) \<Rightarrow> det_model \<Rightarrow> detector_config \<Rightarrow> tick_input list \<Rightarrow> runner \<Rightarrow>
   tick_outcome list \<times> runner" where
  "run_ticks pl ec dump md dc [] rn = ([], rn)"
| "run_ticks pl ec dump md dc (ti # tis) rn =
     (case tick pl ec dump md dc ti rn of (x, rn1) \<Rightarrow>
        case run_ticks pl ec dump md dc tis rn1 of (xs, rn2) \<Rightarrow> (x # xs, rn2))"

end
