(* ===== verification/DetProps.thy ===== *)
theory DetProps imports DetRunner begin

text \<open>
  The properties of the anomaly detector: its windows lie between scrapes, its counters account for every window, its
  statistics are those of the inferences, and what it publishes is what the incident correlator reads.
\<close>

section \<open>Windows lie between scrapes\<close>

definition scraped :: "prom_library \<Rightarrow> detector_config \<Rightarrow> tick_input \<Rightarrow> bool" where
  "scraped pl dc ti \<longleftrightarrow> \<not> isl (scrape_target pl dc ti)"

definition scored :: "tick_outcome list \<Rightarrow> (signal_window \<times> anomaly_result \<times> bool option) list" where
  "scored xs = List.map_filter (\<lambda>x. case x of TICK_SCORED w r p \<Rightarrow> Some (w, r, p) | _ \<Rightarrow> None) xs"

lemma scored_simps [simp]:
  "scored [] = []" "scored (TICK_SCORED w r p # xs) = (w, r, p) # scored xs" "scored (TICK_NO_WINDOW # xs) = scored xs"
  "scored (TICK_SCRAPE_FAILED m # xs) = scored xs" "scored (TICK_RAISED m # xs) = scored xs"
  by (simp_all add: scored_def List.map_filter_def)

definition span :: "signal_window \<times> anomaly_result \<times> bool option \<Rightarrow> datetime \<times> datetime" where
  "span x = (sw_start (fst x), sw_end (fst x))"

text \<open>What one tick does, whatever the model says.\<close>

lemma tick_cases:
  obtains (failed) m where "scrape_target pl dc ti = Inl m" "tick pl ec dump md dc ti rn = (TICK_SCRAPE_FAILED m, rn)"
  | (no_window) sn where "scrape_target pl dc ti = Inr sn" "tick pl ec dump md dc ti rn = (TICK_NO_WINDOW, rn\<lparr>rn_source := Some (sn, ti_mono ti, ti_wall ti)\<rparr>)"
  | (raised) sn m b prev at0 wall where "scrape_target pl dc ti = Inr sn" "rn_source rn = Some (prev, at0, wall)"
      "tick pl ec dump md dc ti rn = (TICK_RAISED m, rn\<lparr>rn_source := Some (sn, ti_mono ti, ti_wall ti), rn_buffer := b\<rparr>)"
  | (scored) sn w r b prev at0 wall rn1 p rn2 where "scrape_target pl dc ti = Inr sn" "rn_source rn = Some (prev, at0, wall)"
      "sw_start w = wall" "sw_end w = ti_wall ti" "score_window md w (rn_buffer rn) = (Inr r, b)"
      "rn1 = rn\<lparr>rn_source := Some (sn, ti_mono ti, ti_wall ti), rn_buffer := b, rn_scored := rn_scored rn + 1,
         rn_state := record_inference (ti_latency ti) (an_is_anomaly r) (ti_now ti) (rn_state rn)\<rparr>"
      "tick pl ec dump md dc ti rn = (TICK_SCORED w r p, rn2)"
      "case p of None \<Rightarrow> rn2 = rn1 \<and> \<not> an_is_anomaly r \<and> dc_only_anomalies dc
       | Some ok \<Rightarrow> (an_is_anomaly r \<or> \<not> dc_only_anomalies dc) \<and> publish_event ec dc (ti_ready ti) (ti_send ti)
           (anomaly_event dump dc w r (Some (timeline_of dc w r ti)) (ti_event_id ti) (ti_trace ti)) rn1 = (ok, rn2)"
proof (cases "scrape_target pl dc ti")
  case (Inl m)
  then show thesis by (intro failed) (simp_all add: tick_def next_window_def)
next
  case (Inr sn)
  show thesis
  proof (cases "rn_source rn")
    case None
    then show thesis using Inr by (intro no_window [of sn]) (simp_all add: tick_def next_window_def)
  next
    case (Some src)
    obtain prev at0 wall where src: "src = (prev, at0, wall)" by (cases src)
    show thesis
    proof (cases "window_signals prev sn (ti_mono ti - at0)")
      case None
      then show thesis using Inr Some src by (intro no_window [of sn]) (simp_all add: tick_def next_window_def)
    next
      case (Some sg)
      let ?w = "\<lparr>sw_start = wall, sw_end = ti_wall ti, sw_dt = ti_mono ti - at0, sw_signals = sg, sw_scraped = ti_scraped ti\<rparr>"
      note n = Inr \<open>rn_source rn = Some src\<close> src Some
      obtain x b where sc: "score_window md ?w (rn_buffer rn) = (x, b)" by fastforce
      show thesis
      proof (cases x)
        case (Inl m)
        show thesis
          by (rule raised [of sn prev at0 wall m b]) (use n sc Inl in \<open>simp_all add: tick_def next_window_def\<close>)
      next
        case (Inr r)
        let ?rn = "rn\<lparr>rn_source := Some (sn, ti_mono ti, ti_wall ti), rn_buffer := b, rn_scored := rn_scored rn + 1,
           rn_state := record_inference (ti_latency ti) (an_is_anomaly r) (ti_now ti) (rn_state rn)\<rparr>"
        obtain ok rn2 where pe: "publish_event ec dc (ti_ready ti) (ti_send ti)
           (anomaly_event dump dc ?w r (Some (timeline_of dc ?w r ti)) (ti_event_id ti) (ti_trace ti)) ?rn = (ok, rn2)" by fastforce
        show thesis
        proof (cases "an_is_anomaly r \<or> \<not> dc_only_anomalies dc")
          case True
          show thesis
            by (rule scored [of sn prev at0 wall ?w r b ?rn "Some ok" rn2])
              (use n sc Inr True pe in \<open>simp_all add: tick_def next_window_def Let_def\<close>)
        next
          case False
          show thesis
            by (rule scored [of sn prev at0 wall ?w r b ?rn None ?rn])
              (use n sc Inr False in \<open>simp_all add: tick_def next_window_def Let_def\<close>)
        qed
      qed
    qed
  qed
qed

lemma publish_event_facts:
  assumes "publish_event ec dc ready sr e rn = (ok, rn')"
  shows "rn_source rn' = rn_source rn \<and> rn_state rn' = rn_state rn \<and> rn_scored rn' = rn_scored rn \<and>
    rn_published rn' = rn_published rn + (if ok then 1 else 0) \<and> rn_failures rn' = rn_failures rn + (if ok then 0 else 1) \<and>
    length (rn_topic rn') = length (rn_topic rn) + (if ok then 1 else 0)"
  using assms by (auto simp: publish_event_def producer_publish_def split: send_result.splits if_splits)

lemma tick_source:
  "rn_source (snd (tick pl ec dump md dc ti rn)) =
     (case scrape_target pl dc ti of Inl m \<Rightarrow> rn_source rn | Inr sn \<Rightarrow> Some (sn, ti_mono ti, ti_wall ti))"
proof (cases rule: tick_cases [of pl dc ti ec dump md rn])
  case (scored sn w r b prev at0 wall rn1 p rn2)
  have "rn_source rn2 = rn_source rn1"
    using scored(8) publish_event_facts by (cases p) fastforce+
  moreover have "rn_source rn1 = Some (sn, ti_mono ti, ti_wall ti)" by (simp add: scored(6))
  ultimately show ?thesis by (simp add: scored(1,7))
qed simp_all

text \<open>A successful scrape: the counters read, and the two clocks.\<close>

definition reading :: "prom_library \<Rightarrow> detector_config \<Rightarrow> tick_input \<Rightarrow> metric_snapshot \<times> rat \<times> datetime" where
  "reading pl dc ti = (projr (scrape_target pl dc ti), ti_mono ti, ti_wall ti)"

text \<open>What may come of two successive readings: nothing when the counters say so, else a window from the one to the other, scored or refused by the model.\<close>

definition window_outcome ::
  "metric_snapshot \<times> rat \<times> datetime \<Rightarrow> metric_snapshot \<times> rat \<times> datetime \<Rightarrow> tick_outcome \<Rightarrow> bool" where
  "window_outcome a b x \<longleftrightarrow> (case (a, b) of ((s, m, t), (s', m', t')) \<Rightarrow>
     (case window_signals s s' (m' - m) of
        None \<Rightarrow> x = TICK_NO_WINDOW
      | Some sg \<Rightarrow>
          (case x of
             TICK_SCORED w r p \<Rightarrow> sw_start w = t \<and> sw_end w = t' \<and> sw_dt w = m' - m \<and> sw_signals w = sg
           | TICK_RAISED e \<Rightarrow> True
           | _ \<Rightarrow> False)))"

definition answered :: "prom_library \<Rightarrow> detector_config \<Rightarrow> tick_input list \<Rightarrow> tick_outcome list \<Rightarrow> (tick_input \<times> tick_outcome) list" where
  "answered pl dc tis xs = filter (\<lambda>x. scraped pl dc (fst x)) (zip tis xs)"

lemma tick_window:
  assumes "scrape_target pl dc ti = Inr sn"
  shows "rn_source rn = None \<Longrightarrow> fst (tick pl ec dump md dc ti rn) = TICK_NO_WINDOW"
    and "rn_source rn = Some a \<Longrightarrow> window_outcome a (reading pl dc ti) (fst (tick pl ec dump md dc ti rn))"
proof -
  show "rn_source rn = None \<Longrightarrow> fst (tick pl ec dump md dc ti rn) = TICK_NO_WINDOW"
    using assms by (simp add: tick_def next_window_def)
  assume a: "rn_source rn = Some a"
  obtain s m t where "a = (s, m, t)" by (cases a)
  then show "window_outcome a (reading pl dc ti) (fst (tick pl ec dump md dc ti rn))"
    using assms a
    by (simp add: tick_def next_window_def window_outcome_def reading_def Let_def split: option.split sum.split prod.split)
qed

lemma answered_Cons:
  "answered pl dc (ti # tis) (fst (run_ticks pl ec dump md dc (ti # tis) rn)) =
     (if scraped pl dc ti then [(ti, fst (tick pl ec dump md dc ti rn))] else []) @
     answered pl dc tis (fst (run_ticks pl ec dump md dc tis (snd (tick pl ec dump md dc ti rn))))"
  by (simp add: answered_def split: prod.split)

lemma later_windows:
  assumes "rn_source rn = Some a"
  shows "let ys = answered pl dc tis (fst (run_ticks pl ec dump md dc tis rn)); rs = map (reading pl dc \<circ> fst) ys in
    list_all2 (\<lambda>(a, b). window_outcome a b) (zip (a # rs) rs) (map snd ys)"
  using assms
proof (induction tis arbitrary: rn a)
  case (Cons ti tis)
  let ?t = "tick pl ec dump md dc ti rn"
  note src = tick_source [where pl = pl and ec = ec and dump = dump and md = md and dc = dc and ti = ti and rn = rn]
  show ?case
  proof (cases "scrape_target pl dc ti")
    case (Inl m)
    then have "rn_source (snd ?t) = Some a" using src Cons.prems by simp
    from Cons.IH [OF this] show ?thesis unfolding answered_Cons using Inl by (simp add: scraped_def)
  next
    case (Inr sn)
    then have "rn_source (snd ?t) = Some (reading pl dc ti)" using src by (simp add: reading_def)
    from Cons.IH [OF this] tick_window(2) [OF Inr Cons.prems]
    show ?thesis unfolding answered_Cons Let_def using Inr by (simp add: scraped_def)
  qed
qed (simp add: answered_def)

lemma run_windows:
  assumes "rn_source rn = None"
  shows "let ys = answered pl dc tis (fst (run_ticks pl ec dump md dc tis rn)); rs = map (reading pl dc \<circ> fst) ys in
    (ys \<noteq> [] \<longrightarrow> snd (hd ys) = TICK_NO_WINDOW) \<and> list_all2 (\<lambda>(a, b). window_outcome a b) (zip rs (tl rs)) (tl (map snd ys))"
  using assms
proof (induction tis arbitrary: rn)
  case (Cons ti tis)
  let ?t = "tick pl ec dump md dc ti rn"
  note src = tick_source [where pl = pl and ec = ec and dump = dump and md = md and dc = dc and ti = ti and rn = rn]
  show ?case
  proof (cases "scrape_target pl dc ti")
    case (Inl m)
    then have "rn_source (snd ?t) = None" using src Cons.prems by simp
    from Cons.IH [OF this] show ?thesis unfolding answered_Cons using Inl by (simp add: scraped_def)
  next
    case (Inr sn)
    then have "rn_source (snd ?t) = Some (reading pl dc ti)" using src by (simp add: reading_def)
    from later_windows [OF this, where pl = pl and dc = dc and tis = tis and ec = ec and dump = dump and md = md] tick_window(1) [OF Inr Cons.prems]
    show ?thesis unfolding answered_Cons Let_def using Inr by (simp add: scraped_def)
  qed
qed (simp add: answered_def)

lemma run_subseq:
  "let walls = map ti_wall (filter (scraped pl dc) tis)
   in subseq (map span (scored (fst (run_ticks pl ec dump md dc tis (fresh_runner t))))) (zip walls (tl walls))"
proof -
  have gen: "subseq (map span (scored (fst (run_ticks pl ec dump md dc tis rn))))
      (let walls = map ti_wall (filter (scraped pl dc) tis)
       in case rn_source rn of None \<Rightarrow> zip walls (tl walls) | Some (sn, at0, wall) \<Rightarrow> zip (wall # walls) walls)" for rn
  proof (induction tis arbitrary: rn)
    case (Cons ti tis)
    let ?rest = "run_ticks pl ec dump md dc tis (snd (tick pl ec dump md dc ti rn))"
    have run: "fst (run_ticks pl ec dump md dc (ti # tis) rn) = fst (tick pl ec dump md dc ti rn) # fst ?rest"
      by (simp split: prod.split)
    note IH = Cons.IH [of "snd (tick pl ec dump md dc ti rn)", unfolded tick_source]
    show ?case
    proof (cases rule: tick_cases [of pl dc ti ec dump md rn])
      case (failed m)
      then show ?thesis using IH unfolding run by (simp add: scraped_def)
    next
      case (no_window sn)
      then show ?thesis using IH unfolding run
        by (cases "filter (scraped pl dc) tis") (auto simp: scraped_def Let_def split: option.split)
    next
      case (raised sn m b prev at0 wall)
      then show ?thesis using IH unfolding run by (auto simp: scraped_def Let_def)
    next
      case (scored sn w r b prev at0 wall rn1 p rn2)
      have "fst (tick pl ec dump md dc ti rn) = TICK_SCORED w r p" by (simp add: scored(7))
      then show ?thesis using IH scored(1-4) unfolding run by (simp add: scraped_def Let_def span_def)
    qed
  qed simp
  show ?thesis using gen [of "fresh_runner t"] by (simp add: fresh_runner_def Let_def)
qed

lemma failing_ticks:
  "list_all2 (\<lambda>ti x. case scrape_target pl dc ti of Inl m \<Rightarrow> x = TICK_SCRAPE_FAILED m | Inr sn \<Rightarrow> True) tis
     (fst (run_ticks pl ec dump md dc tis rn))"
proof (induction tis arbitrary: rn)
  case (Cons ti tis)
  have "case scrape_target pl dc ti of Inl m \<Rightarrow> fst (tick pl ec dump md dc ti rn) = TICK_SCRAPE_FAILED m | Inr sn \<Rightarrow> True"
    by (simp add: tick_def next_window_def split: sum.split)
  then show ?case using Cons.IH by (simp split: prod.split) (metis fst_conv)
qed simp

lemma subseq_subset: "subseq xs ys \<Longrightarrow> set xs \<subseteq> set ys"
  by (induction rule: list_emb.induct) auto

lemma sorted_wrt_subseq: "subseq xs ys \<Longrightarrow> sorted_wrt P ys \<Longrightarrow> sorted_wrt P xs"
proof (induction rule: list_emb.induct)
  case (list_emb_Cons2 x y xs ys)
  then show ?case using subseq_subset [OF list_emb_Cons2.hyps(2)] by auto
qed auto

lemma abutting:
  assumes "sorted_wrt (<) (ts :: datetime list)"
  shows "sorted_wrt (\<lambda>a b. snd a \<le> fst b) (zip ts (tl ts))" "\<forall>a \<in> set (zip ts (tl ts)). fst a < snd a"
proof -
  have lt: "ts ! i < ts ! j" if "i < j" "j < length ts" for i j using assms that by (simp add: sorted_wrt_iff_nth_less)
  have le: "ts ! Suc i \<le> ts ! j" if "i < j" "j < length ts" for i j
    using lt [of "Suc i" j] that by (cases "Suc i = j") (simp_all add: order_less_imp_le)
  show "sorted_wrt (\<lambda>a b. snd a \<le> fst b) (zip ts (tl ts))"
    unfolding sorted_wrt_iff_nth_less using le by (simp add: nth_tl)
  show "\<forall>a \<in> set (zip ts (tl ts)). fst a < snd a" using lt by (auto simp: set_zip nth_tl)
qed

text \<open>
  Claim C36. The windows of a run, exactly, with failing scrapes, counter resets and model errors in between. A
  failing scrape leaves no trace but its message, and the first successful one no window. Every later
  successful scrape is compared with the successful one before it: if their counters and the monotonic clock
  give no signals, there is no window; otherwise there is one, of those signals, that begins at the wall time
  of the one and ends at that of the other, and it is scored or refused by the model. So every interval
  between successive successful scrapes is used at most once, in order. As long as the wall clock goes
  forward from each successful scrape to the next, every window has a positive length and ends no later than
  any later one begins; when the wall clock steps back, windows may overlap.
\<close>

theorem windows_between_scrapes:
  "let xs = fst (run_ticks pl ec dump md dc tis (fresh_runner t)); ys = answered pl dc tis xs;
       rs = map (reading pl dc \<circ> fst) ys; walls = map ti_wall (filter (scraped pl dc) tis); spans = map span (scored xs) in
   list_all2 (\<lambda>ti x. case scrape_target pl dc ti of Inl m \<Rightarrow> x = TICK_SCRAPE_FAILED m | Inr sn \<Rightarrow> True) tis xs \<and>
   (ys \<noteq> [] \<longrightarrow> snd (hd ys) = TICK_NO_WINDOW) \<and>
   list_all2 (\<lambda>(a, b). window_outcome a b) (zip rs (tl rs)) (tl (map snd ys)) \<and>
   subseq spans (zip walls (tl walls)) \<and>
   (sorted_wrt (<) walls \<longrightarrow> sorted_wrt (\<lambda>a b. snd a \<le> fst b) spans \<and> (\<forall>a \<in> set spans. fst a < snd a))"
proof -
  let ?xs = "fst (run_ticks pl ec dump md dc tis (fresh_runner t))" and ?walls = "map ti_wall (filter (scraped pl dc) tis)"
  let ?ys = "answered pl dc tis ?xs"
  let ?rs = "map (reading pl dc \<circ> fst) ?ys" and ?spans = "map span (scored ?xs)"
  have fresh: "rn_source (fresh_runner t) = None" by (simp add: fresh_runner_def)
  note first = run_windows [where pl = pl and dc = dc and tis = tis and ec = ec and dump = dump and md = md, OF fresh]
  have sub: "subseq ?spans (zip ?walls (tl ?walls))" using run_subseq by (simp add: Let_def)
  have disjoint: "sorted_wrt (\<lambda>a b. snd a \<le> fst b) ?spans \<and> (\<forall>a \<in> set ?spans. fst a < snd a)" if "sorted_wrt (<) ?walls"
    using sorted_wrt_subseq [OF sub abutting(1) [OF that]] abutting(2) [OF that] subseq_subset [OF sub] by blast
  show ?thesis using first failing_ticks sub disjoint unfolding Let_def by blast
qed

section \<open>Every window is accounted for\<close>

definition flagged :: "signal_window \<times> anomaly_result \<times> bool option \<Rightarrow> bool" where
  "flagged x = an_is_anomaly (fst (snd x))"

definition sending :: "signal_window \<times> anomaly_result \<times> bool option \<Rightarrow> bool option" where
  "sending x = snd (snd x)"

definition accounts :: "detector_config \<Rightarrow> runner \<Rightarrow> (signal_window \<times> anomaly_result \<times> bool option) list \<Rightarrow> runner \<Rightarrow> bool" where
  "accounts dc rn sc rn' \<longleftrightarrow>
     rn_scored rn' = rn_scored rn + length sc \<and>
     ds_count (rn_state rn') = ds_count (rn_state rn) + length sc \<and>
     ds_anomalies (rn_state rn') = ds_anomalies (rn_state rn) + length (filter flagged sc) \<and>
     rn_published rn' = rn_published rn + length (filter (\<lambda>x. sending x = Some True) sc) \<and>
     rn_failures rn' = rn_failures rn + length (filter (\<lambda>x. sending x = Some False) sc) \<and>
     length (rn_topic rn') = length (rn_topic rn) + length (filter (\<lambda>x. sending x = Some True) sc) \<and>
     list_all (\<lambda>x. sending x = None \<longleftrightarrow> \<not> flagged x \<and> dc_only_anomalies dc) sc"

lemma accounts_trans: "accounts dc a xs b \<Longrightarrow> accounts dc b ys c \<Longrightarrow> accounts dc a (xs @ ys) c"
  by (simp add: accounts_def)

lemma tick_accounts:
  "accounts dc rn (scored [fst (tick pl ec dump md dc ti rn)]) (snd (tick pl ec dump md dc ti rn))"
proof (cases rule: tick_cases [of pl dc ti ec dump md rn])
  case (scored sn w r b prev at0 wall rn1 p rn2)
  have 1: "rn_scored rn1 = rn_scored rn + 1" "ds_count (rn_state rn1) = ds_count (rn_state rn) + 1"
    "ds_anomalies (rn_state rn1) = ds_anomalies (rn_state rn) + (if an_is_anomaly r then 1 else 0)"
    "rn_published rn1 = rn_published rn" "rn_failures rn1 = rn_failures rn" "rn_topic rn1 = rn_topic rn"
    by (simp_all add: scored(6) record_inference_def Let_def)
  show ?thesis
  proof (cases p)
    case None
    then have "rn2 = rn1" "\<not> an_is_anomaly r" "dc_only_anomalies dc" using scored(8) by simp_all
    then show ?thesis by (simp add: scored(7) accounts_def None 1 flagged_def sending_def)
  next
    case (Some ok)
    then have c: "an_is_anomaly r \<or> \<not> dc_only_anomalies dc" and pe: "publish_event ec dc (ti_ready ti) (ti_send ti)
        (anomaly_event dump dc w r (Some (timeline_of dc w r ti)) (ti_event_id ti) (ti_trace ti)) rn1 = (ok, rn2)"
      using scored(8) by simp_all
    show ?thesis using publish_event_facts [OF pe] c
      by (cases ok) (simp_all add: scored(7) accounts_def Some 1 flagged_def sending_def)
  qed
qed (simp_all add: accounts_def)

text \<open>
  Claim C37. Every scored window is accounted for: after any run the counters of the loop and of the health
  view equal the number of scored windows, the anomaly counter the number of flagged ones; a window is kept
  back exactly when it is not flagged and only anomalies are to be sent; and each other window either is a
  message of the topic, counted as published, or is counted as a publish failure.
\<close>

theorem runner_accounts:
  "let (xs, rn) = run_ticks pl ec dump md dc tis (fresh_runner t); sc = scored xs
   in rn_scored rn = length sc \<and> ds_count (rn_state rn) = length sc \<and> ds_anomalies (rn_state rn) = length (filter flagged sc) \<and>
      list_all (\<lambda>x. sending x = None \<longleftrightarrow> \<not> flagged x \<and> dc_only_anomalies dc) sc \<and>
      rn_published rn = length (filter (\<lambda>x. sending x = Some True) sc) \<and> length (rn_topic rn) = rn_published rn \<and>
      rn_failures rn = length (filter (\<lambda>x. sending x = Some False) sc)"
proof -
  have gen: "accounts dc rn (scored (fst (run_ticks pl ec dump md dc tis rn))) (snd (run_ticks pl ec dump md dc tis rn))" for rn
  proof (induction tis arbitrary: rn)
    case (Cons ti tis)
    obtain x rn1 where t: "tick pl ec dump md dc ti rn = (x, rn1)" by fastforce
    obtain xs rn2 where r: "run_ticks pl ec dump md dc tis rn1 = (xs, rn2)" by fastforce
    have "scored (x # xs) = scored [x] @ scored xs" by (cases x) simp_all
    moreover have "accounts dc rn (scored [x]) rn1" using tick_accounts [of dc rn pl ec dump md ti] by (simp add: t)
    moreover have "accounts dc rn1 (scored xs) rn2" using Cons.IH [of rn1] by (simp add: r)
    ultimately show ?case using accounts_trans by (simp add: t r)
  qed (simp add: accounts_def)
  obtain xs rn where r: "run_ticks pl ec dump md dc tis (fresh_runner t) = (xs, rn)" by fastforce
  have f: "rn_scored (fresh_runner t) = 0" "ds_count (rn_state (fresh_runner t)) = 0" "ds_anomalies (rn_state (fresh_runner t)) = 0"
    "rn_published (fresh_runner t) = 0" "rn_failures (fresh_runner t) = 0" "rn_topic (fresh_runner t) = []"
    by (simp_all add: fresh_runner_def initial_detector_state_def)
  have "accounts dc (fresh_runner t) (scored xs) rn" using gen [of "fresh_runner t"] by (simp only: r fst_conv snd_conv)
  then show ?thesis by (simp add: r accounts_def f Let_def)
qed

section \<open>Statistics\<close>

definition observe :: "(rat \<times> bool \<times> datetime) list \<Rightarrow> detector_state \<Rightarrow> detector_state" where
  "observe xs ds = fold (\<lambda>(l, f, t). record_inference l f t) xs ds"

lemma observe_snoc: "observe (xs @ [x]) ds = record_inference (fst x) (fst (snd x)) (snd (snd x)) (observe xs ds)"
  by (simp add: observe_def split: prod.split)

lemma ema_between:
  fixes a b m lo hi :: rat
  assumes "lo \<le> a" "a \<le> hi"
  shows "min lo m \<le> EMA_ALPHA * m + (1 - EMA_ALPHA) * a" and "EMA_ALPHA * m + (1 - EMA_ALPHA) * a \<le> max hi m"
  using assms by (auto simp: EMA_ALPHA_def min_def max_def)

text \<open>
  The statistics of the health view are those of the inferences: after a non-empty sequence of them
  the counts, the last, least and greatest latency (in milliseconds) and the time of the last one are exact,
  and the moving average lies between the least and the greatest latency.
\<close>

theorem statistics_exact:
  "let zs = x # xs; ms = map (\<lambda>z. fst z * 1000) zs; ds = observe zs (initial_detector_state t)
   in ds_count ds = length zs \<and> ds_anomalies ds = length (filter (\<lambda>z. fst (snd z)) zs) \<and> ds_last ds = last ms \<and>
      ds_min ds = Min (set ms) \<and> ds_max ds = Max (set ms) \<and> ds_min ds \<le> ds_avg ds \<and> ds_avg ds \<le> ds_max ds \<and>
      ds_last_time ds = Some (snd (snd (last zs)))"
proof (induction xs rule: rev_induct)
  case Nil
  show ?case by (simp add: observe_def record_inference_def initial_detector_state_def Let_def split: prod.split)
next
  case (snoc y ys)
  define ds where "ds = observe (x # ys) (initial_detector_state t)"
  define ms where "ms = map (\<lambda>z. fst z * 1000) (x # ys)"
  have IH: "ds_count ds = Suc (length ys)" "ds_anomalies ds = length (filter (\<lambda>z. fst (snd z)) (x # ys))"
    "ds_min ds = Min (set ms)" "ds_max ds = Max (set ms)" "ds_min ds \<le> ds_avg ds" "ds_avg ds \<le> ds_max ds"
    using snoc.IH by (simp_all add: ds_def ms_def Let_def)
  have ne: "set ms \<noteq> {}" by (simp add: ms_def)
  have m: "Min (insert (fst y * 1000) (set ms)) = min (fst y * 1000) (Min (set ms))"
    "Max (insert (fst y * 1000) (set ms)) = max (fst y * 1000) (Max (set ms))"
    using ne by simp_all
  have d: "observe (x # ys @ [y]) (initial_detector_state t) = record_inference (fst y) (fst (snd y)) (snd (snd y)) ds"
    using observe_snoc [of "x # ys" y] by (simp add: ds_def)
  have s: "set (map (\<lambda>z. fst z * 1000) (x # ys @ [y])) = insert (fst y * 1000) (set ms)" by (auto simp: ms_def)
  show ?case
    unfolding Let_def d s m
    using IH ema_between [OF IH(5,6), of "fst y * 1000"]
    by (simp add: record_inference_def Let_def min.commute max.commute)
qed

section \<open>From the detector to the correlator\<close>

lemma score_window_result:
  assumes "score_window md w b = (Inr r, b')"
  shows "an_type r = md_type md \<and> an_version r = md_version md \<and> an_threshold r = round_to 6 (md_threshold md) \<and>
    (\<exists>fs v. md_score md fs = Inr v \<and> an_score r = round_to 6 v \<and> (an_is_anomaly r \<longleftrightarrow> md_threshold md < v))"
  using assms by (auto simp: score_window_def make_result_def split: prod.splits sum.splits) blast

text \<open>
  Claim C35. The two services agree on the event: what the detector writes to the topic for a window it has
  flagged is read by the incident correlator as the signal of that window, with the identifier, the service,
  the very instants of the window, and the score, threshold and signals up to six decimals; an unflagged
  window, sent only when the configuration asks for it, is refused by the correlator as no anomaly. The
  hypotheses are what the libraries document: JSON and Pydantic read back what they dumped, and
  \<open>fromisoformat\<close> reads what \<open>isoformat\<close> wrote.
\<close>

theorem anomaly_reaches_correlator:
  assumes "tick pl ec dump md dc ti rn = (TICK_SCORED w r (Some True), rn')"
    and "reads_back ec (anomaly_event dump dc w r (Some (timeline_of dc w r ti)) (ti_event_id ti) (ti_trace ti))"
    and "\<forall>p. ac_payload ac (dump p) = Inr p"
    and "ac_iso ac (isoformat (sw_start w)) = Inr (sw_start w, Some 0)"
    and "ac_iso ac (isoformat (sw_end w)) = Inr (sw_end w, Some 0)"
  shows "\<exists>ms e. rn_topic rn' = rn_topic rn @ [ms] \<and> ms_topic ms = dc_topic dc \<and> parse_envelope ec (Some (ms_value ms)) = Inr e \<and>
    (dc_only_anomalies dc \<longrightarrow> an_is_anomaly r) \<and>
    anomaly_signal_from_envelope ac e =
      (if an_is_anomaly r then
         Inr \<lparr>sg_event_id = ti_event_id ti, sg_detector = md_type md, sg_detector_version = md_version md,
              sg_service = dc_service dc, sg_environment = dc_environment dc, sg_window_start = sw_start w,
              sg_window_end = sw_end w, sg_score = an_score r, sg_threshold = round_to 6 (md_threshold md),
              sg_signals = map (\<lambda>(k, v). (k, round_to 6 v)) (sw_signals w), sg_abnormal = abnormal_signals (sw_signals w),
              sg_trace_id = ti_trace ti, sg_occurred_at = sw_end w\<rparr>
       else Inl ''event is not flagged as an anomaly (is_anomaly=false)'')"
proof -
  let ?e = "anomaly_event dump dc w r (Some (timeline_of dc w r ti)) (ti_event_id ti) (ti_trace ti)"
  obtain rn1 b where pe: "publish_event ec dc (ti_ready ti) (ti_send ti) ?e rn1 = (True, rn')" and t1: "rn_topic rn1 = rn_topic rn"
    and sc: "score_window md w (rn_buffer rn) = (Inr r, b)" and only: "an_is_anomaly r \<or> \<not> dc_only_anomalies dc"
  proof (cases rule: tick_cases [of pl dc ti ec dump md rn])
    case (scored sn w1 r1 b prev at0 wall rn1 p rn2)
    have eqs: "w1 = w" "r1 = r" "p = Some True" "rn2 = rn'" using assms(1) scored(7) by simp_all
    have "rn_topic rn1 = rn_topic rn" by (simp add: scored(6))
    then show thesis using that [of rn1 b] scored(5,8) unfolding eqs by simp
  qed (use assms(1) in simp_all)
  obtain u where pp: "producer_publish ec (ti_ready ti) (ti_send ti) (dc_topic dc) ?e (dc_service dc) [] (rn_topic rn) = (Inr u, rn_topic rn')"
    using pe t1 by (auto simp: publish_event_def split: prod.splits sum.splits)
  obtain ms where ms: "rn_topic rn' = rn_topic rn @ [ms]" "parse_envelope ec (Some (ms_value ms)) = Inr ?e"
    using published_reads_back [OF pp assms(2)] by blast
  have "ms_topic ms = dc_topic dc" using pp ms(1) by (auto simp: producer_publish_def split: if_splits send_result.splits)
  moreover have "anomaly_signal_from_envelope ac ?e =
      (if an_is_anomaly r then
         Inr \<lparr>sg_event_id = ti_event_id ti, sg_detector = md_type md, sg_detector_version = md_version md,
              sg_service = dc_service dc, sg_environment = dc_environment dc, sg_window_start = sw_start w,
              sg_window_end = sw_end w, sg_score = an_score r, sg_threshold = round_to 6 (md_threshold md),
              sg_signals = map (\<lambda>(k, v). (k, round_to 6 v)) (sw_signals w), sg_abnormal = abnormal_signals (sw_signals w),
              sg_trace_id = ti_trace ti, sg_occurred_at = sw_end w\<rparr>
       else Inl ''event is not flagged as an anomaly (is_anomaly=false)'')"
    using assms(3-5) score_window_result [OF sc]
    by (simp add: anomaly_signal_from_envelope_def anomaly_event_def anomaly_payload_of_def parse_ts_def Let_def)
  ultimately show ?thesis using ms only by blast
qed

section \<open>A sample tick\<close>

definition quiet_library :: prom_library where
  "quiet_library = \<lparr>pl_families = (\<lambda>t. Inr []), pl_float = (\<lambda>t. Inr LeInf)\<rparr>"

definition sample_model :: det_model where
  "sample_model = \<lparr>md_score = (\<lambda>fs. Inr (3 / 4)), md_threshold = 1 / 2, md_type = ''isolation_forest'', md_version = ''1'',
     md_features = SIGNAL_COLUMNS, md_rolling = \<lparr>ro_mean = hd, ro_std = hd\<rparr>, md_window = 3\<rparr>"

definition sample_detector :: detector_config where
  "sample_detector = \<lparr>dc_url = ''http://orders/metrics'', dc_service = ''orders-service'', dc_environment = ''production'',
     dc_topic = ''anomaly.events'', dc_only_anomalies = True\<rparr>"

definition sample_tick :: tick_input where
  "sample_tick = \<lparr>ti_mono = 10, ti_wall = 10000000, ti_http = Inr [], ti_scraped = 10000000, ti_inf_start = 10, ti_inf_end = 10,
     ti_latency = 1 / 100, ti_now = 10000000, ti_send_time = 11, ti_event_id = ''e1'', ti_trace = None, ti_ready = True, ti_send = SENT\<rparr>"

definition sample_runner :: runner where
  "sample_runner = (fresh_runner 0)\<lparr>rn_source := Some (empty_snapshot, 0, 0)\<rparr>"

lemma quiet_window: "\<exists>sg. window_signals empty_snapshot empty_snapshot 10 = Some sg \<and> map fst sg = SIGNAL_COLUMNS"
proof -
  have "window_signals empty_snapshot empty_snapshot 10 = Some (zip SIGNAL_COLUMNS (window_row empty_snapshot empty_snapshot 10))"
    by (simp add: window_signals_row)
  moreover have "length SIGNAL_COLUMNS = length (window_row empty_snapshot empty_snapshot 10)"
    by (simp add: SIGNAL_COLUMNS_def window_row_def Let_def)
  ultimately show ?thesis by simp
qed

lemma full_row: "map fst sg = SIGNAL_COLUMNS \<Longrightarrow> missing_columns \<lparr>wr_start = t, wr_end = u, wr_signals = sg\<rparr> = []"
  by (simp add: missing_columns_def filter_empty_conv flip: set_map)

lemma sample_scores:
  "\<exists>sg r rn'. tick quiet_library ec id sample_model sample_detector sample_tick sample_runner =
     (TICK_SCORED \<lparr>sw_start = 0, sw_end = 10000000, sw_dt = 10, sw_signals = sg, sw_scraped = 10000000\<rparr> r (Some True), rn')"
proof -
  obtain sg where sg: "window_signals empty_snapshot empty_snapshot 10 = Some sg" "map fst sg = SIGNAL_COLUMNS"
    using quiet_window by blast
  define w where "w = \<lparr>sw_start = 0, sw_end = 10000000, sw_dt = 10, sw_signals = sg, sw_scraped = 10000000 :: datetime\<rparr>"
  have n: "next_window quiet_library sample_detector sample_tick (rn_source sample_runner) =
      (Inr (Some w), Some (empty_snapshot, 10, 10000000))"
    by (simp add: next_window_def scrape_target_def sample_tick_def quiet_library_def parse_metrics_def sample_runner_def sg w_def)
  obtain r where sc: "score_window sample_model w (rn_buffer sample_runner) = (Inr r, [row_of w])" and flag: "an_is_anomaly r"
    using full_row [OF sg(2)]
    by (simp add: score_window_def featurizer_push_def push_row_def trailing_def sample_model_def sample_runner_def fresh_runner_def
        w_def row_of_def Let_def make_result_def)
  have send: "ti_ready sample_tick" "ti_send sample_tick = SENT" by (simp_all add: sample_tick_def)
  have "\<exists>rn'. tick quiet_library ec id sample_model sample_detector sample_tick sample_runner = (TICK_SCORED w r (Some True), rn')"
    using flag send by (simp add: tick_def n sc Let_def publish_event_def producer_publish_def)
  then show ?thesis unfolding w_def by blast
qed

definition first_tick :: tick_input where
  "first_tick = sample_tick\<lparr>ti_mono := 0, ti_wall := 0\<rparr>"

lemma first_tick_reads: "tick quiet_library ec id sample_model sample_detector first_tick (fresh_runner 0) = (TICK_NO_WINDOW, sample_runner)"
  by (simp add: tick_def next_window_def scrape_target_def first_tick_def sample_tick_def quiet_library_def parse_metrics_def
      fresh_runner_def sample_runner_def)

definition mute_codec :: "(unit, anomaly_detected) envelope_codec" where
  "mute_codec = \<lparr>ec_loads = (\<lambda>x. Inr ()), ec_validate = (\<lambda>u. Inl []), ec_dump = (\<lambda>e. ''{}''), ec_utf8 = (\<lambda>s. s)\<rparr>"

theorem windows_between_scrapes_witness:
  "\<exists>w r. fst (run_ticks quiet_library mute_codec id sample_model sample_detector [first_tick, sample_tick] (fresh_runner 0)) =
       [TICK_NO_WINDOW, TICK_SCORED w r (Some True)] \<and>
     window_outcome (empty_snapshot, 0, 0) (empty_snapshot, 10, 10000000) (TICK_SCORED w r (Some True)) \<and> sw_start w < sw_end w"
proof -
  let ?tis = "[first_tick, sample_tick]"
  obtain w r rn' where t: "tick quiet_library mute_codec id sample_model sample_detector sample_tick sample_runner =
     (TICK_SCORED w r (Some True), rn')"
    using sample_scores by blast
  have run: "fst (run_ticks quiet_library mute_codec id sample_model sample_detector ?tis (fresh_runner 0)) =
      [TICK_NO_WINDOW, TICK_SCORED w r (Some True)]"
    by (simp add: first_tick_reads t)
  have ok: "scrape_target quiet_library sample_detector first_tick = Inr empty_snapshot"
    "scrape_target quiet_library sample_detector sample_tick = Inr empty_snapshot"
    by (simp_all add: scrape_target_def first_tick_def sample_tick_def quiet_library_def parse_metrics_def)
  then have sc: "scraped quiet_library sample_detector first_tick" "scraped quiet_library sample_detector sample_tick"
    by (simp_all add: scraped_def)
  have wall: "ti_wall first_tick = 0" "ti_wall sample_tick = 10000000" "ti_mono first_tick = 0" "ti_mono sample_tick = 10"
    by (simp_all add: first_tick_def sample_tick_def)
  note all = windows_between_scrapes [where pl = quiet_library and ec = mute_codec and dump = id and md = sample_model and dc = sample_detector and
      tis = ?tis and t = 0, unfolded run Let_def]
  have "window_outcome (empty_snapshot, 0, 0) (empty_snapshot, 10, 10000000) (TICK_SCORED w r (Some True))"
    using all by (simp add: answered_def sc reading_def ok wall)
  moreover have "sw_start w < sw_end w" using all by (simp add: sc wall span_def)
  ultimately show ?thesis using run by blast
qed

definition sample_codec_ec :: "signal_window \<Rightarrow> (unit, anomaly_detected) envelope_codec" where
  "sample_codec_ec w = \<lparr>ec_loads = (\<lambda>x. Inr ()), ec_validate = (\<lambda>u. Inr (anomaly_event id sample_detector w
       (make_result sample_model (row_of w)
         (last (build_features (md_rolling sample_model) 3 [row_of w])) (3 / 4) True)
       (Some (timeline_of sample_detector w
         (make_result sample_model (row_of w)
           (last (build_features (md_rolling sample_model) 3 [row_of w])) (3 / 4) True)
         sample_tick)) ''e1'' None)),
     ec_dump = (\<lambda>e. ''{}''), ec_utf8 = (\<lambda>s. s)\<rparr>"

definition sample_reader :: "anomaly_detected anomaly_codec" where
  "sample_reader = \<lparr>ac_payload = Inr, ac_iso = (\<lambda>v. Inr (if v = isoformat 0 then 0 else 10000000, Some 0))\<rparr>"

theorem anomaly_reaches_correlator_witness:
  "\<exists>w r rn' ms e. tick quiet_library (sample_codec_ec w) id sample_model sample_detector sample_tick sample_runner =
       (TICK_SCORED w r (Some True), rn') \<and>
     rn_topic rn' = [ms] \<and> parse_envelope (sample_codec_ec w) (Some (ms_value ms)) = Inr e \<and>
     map_sum id sg_event_id (anomaly_signal_from_envelope sample_reader e) = Inr ''e1''"
proof -
  obtain sg where sg: "window_signals empty_snapshot empty_snapshot 10 = Some sg" "map fst sg = SIGNAL_COLUMNS"
    using quiet_window by blast
  define w where "w = \<lparr>sw_start = 0, sw_end = 10000000, sw_dt = 10, sw_signals = sg, sw_scraped = 10000000\<rparr>"
  define r where "r = make_result sample_model (row_of w)
     (last (build_features (md_rolling sample_model) 3 [row_of w])) (3 / 4) True"
  have n: "next_window quiet_library sample_detector sample_tick (rn_source sample_runner) =
      (Inr (Some w), Some (empty_snapshot, 10, 10000000))"
    by (simp add: next_window_def scrape_target_def sample_tick_def quiet_library_def parse_metrics_def sample_runner_def sg w_def)
  have sc: "score_window sample_model w (rn_buffer sample_runner) =
      (Inr r, [row_of w])"
    using full_row [OF sg(2)]
    by (simp add: score_window_def featurizer_push_def push_row_def trailing_def sample_model_def sample_runner_def fresh_runner_def
        r_def w_def row_of_def Let_def)
  have flag: "an_is_anomaly r" by (simp add: r_def make_result_def)
  have send: "ti_ready sample_tick" "ti_send sample_tick = SENT" by (simp_all add: sample_tick_def)
  obtain rn' where t: "tick quiet_library (sample_codec_ec w) id sample_model sample_detector sample_tick sample_runner =
      (TICK_SCORED w r (Some True), rn')"
    using flag send by (simp add: tick_def n sc Let_def publish_event_def producer_publish_def)
  have iso: "isoformat 0 \<noteq> isoformat 10000000" by code_simp
  have rb: "reads_back (sample_codec_ec w) (anomaly_event id sample_detector w r (Some (timeline_of sample_detector w r sample_tick))
      (ti_event_id sample_tick) (ti_trace sample_tick))"
    by (simp add: reads_back_def sample_codec_ec_def r_def sample_tick_def)
  have "\<forall>p. ac_payload sample_reader (id p) = Inr p" "ac_iso sample_reader (isoformat (sw_start w)) = Inr (sw_start w, Some 0)"
    "ac_iso sample_reader (isoformat (sw_end w)) = Inr (sw_end w, Some 0)"
    using iso by (simp_all add: sample_reader_def w_def)
  from anomaly_reaches_correlator [OF t rb this] obtain ms e where
    "rn_topic rn' = rn_topic sample_runner @ [ms]" "parse_envelope (sample_codec_ec w) (Some (ms_value ms)) = Inr e"
    "map_sum id sg_event_id (anomaly_signal_from_envelope sample_reader e) = Inr ''e1''"
    using flag by (auto simp: sample_tick_def)
  moreover have "rn_topic sample_runner = []" by (simp add: sample_runner_def fresh_runner_def)
  ultimately have "rn_topic rn' = [ms]" "parse_envelope (sample_codec_ec w) (Some (ms_value ms)) = Inr e"
    "map_sum id sg_event_id (anomaly_signal_from_envelope sample_reader e) = Inr ''e1''" by simp_all
  with t show ?thesis by blast
qed

end
