(* ===== verification/RemSql.thy ===== *)
theory RemSql imports RemRepository begin

text \<open>
  The PostgreSQL repository of the remediation controller: the five tables with the constraints they declare
  (\<open>db/models.py\<close>) and \<open>SqlRemediationRepository\<close> (\<open>db/repository.py\<close>). A table is the list of its rows in the
  order of insertion. An operation is one transaction, followed by the read of the record where the code
  reads it back: an exception in the transaction leaves the database as it was, one in the read does not.
  What \<open>model_dump\<close> and \<open>model_validate\<close> make of a policy decision and of a recovery check is a parameter.
  A JSON column keeps the order of its keys, and the lengths of the string columns are not checked, as in
  SQLite. The \<open>now\<close> of each transaction is the argument \<open>t\<close>; \<open>_utc\<close> is the identity on aware times.
\<close>

section \<open>Columns of enumerations\<close>

datatype sql_error = SQL_DOMAIN rem_error | SQL_INTEGRITY | SQL_VALUE_ERROR | SQL_ASSERTION

definition enum_of :: "('a \<Rightarrow> string) \<Rightarrow> 'a list \<Rightarrow> string \<Rightarrow> sql_error + 'a" where
  "enum_of str vals s = (case find (\<lambda>x. str x = s) vals of None \<Rightarrow> Inl SQL_VALUE_ERROR | Some x \<Rightarrow> Inr x)"

definition enum_opt :: "('a \<Rightarrow> string) \<Rightarrow> 'a list \<Rightarrow> string option \<Rightarrow> sql_error + 'a option" where
  "enum_opt str vals s =
     (case s of None \<Rightarrow> Inr None | Some t \<Rightarrow> if t = [] then Inr None else map_sum id Some (enum_of str vals t))"

definition listed :: "('a \<Rightarrow> string) \<Rightarrow> 'a list \<Rightarrow> string \<Rightarrow> bool" where
  "listed str vals s \<longleftrightarrow> s \<in> set (map str vals)"

lemma find_unique: "x \<in> set xs \<Longrightarrow> (\<And>z. P z \<longleftrightarrow> z = x) \<Longrightarrow> find P xs = Some x"
  by (induction xs) auto

text \<open>A text column of an enumeration: every member has a non-empty text of its own.\<close>

locale enum_column =
  fixes str :: "'a \<Rightarrow> string" and vals :: "'a list"
  assumes complete: "x \<in> set vals" and separate: "distinct ([] # map str vals)"
begin

lemma str_eq: "str x = str y \<longleftrightarrow> x = y"
  using separate complete [of x] complete [of y] by (auto simp: distinct_map dest: inj_onD)

lemma read_back: "enum_of str vals (str x) = Inr x"
  using find_unique [of x vals "\<lambda>z. str z = str x"] complete [of x] by (simp add: enum_of_def str_eq)

lemma read_opt: "enum_opt str vals (map_option str x) = Inr x"
proof (cases x)
  case (Some y)
  have "str y \<noteq> []" using separate complete [of y] by (metis distinct.simps(2) image_eqI set_map)
  then show ?thesis by (simp add: enum_opt_def Some read_back)
qed (simp add: enum_opt_def)

lemma is_listed: "listed str vals (str x)"
  using complete by (simp add: listed_def)

end

definition STATUS_VALUES :: "rem_status list" where
  "STATUS_VALUES = [PROPOSED, POLICY_EVALUATION, PENDING_APPROVAL, APPROVED, EXECUTING, EXECUTED, VERIFYING, BLOCKED,
     REJECTED, EXPIRED, EXECUTION_FAILED, RECOVERED, RECOVERY_FAILED]"

definition ACTION_VALUES :: "action_type list" where
  "ACTION_VALUES = [RESTART_SERVICE, SCALE_SERVICE, ROLL_BACK_DEPLOYMENT, DISABLE_FEATURE_FLAG]"

definition RISK_VALUES :: "risk_level list" where "RISK_VALUES = [RISK_LOW, RISK_MEDIUM, RISK_HIGH]"

definition TRIGGER_VALUES :: "trigger list" where "TRIGGER_VALUES = [RCA_RECOMMENDATION, MANUAL]"

definition ENV_VALUES :: "string list" where "ENV_VALUES = [''development'', ''staging'', ''production'']"

definition DECISION_VALUES :: "approval_decision list" where "DECISION_VALUES = [APPROVE, REJECT]"

definition ROLE_VALUES :: "approver_role list" where "ROLE_VALUES = [OPERATOR, INCIDENT_RESPONDER, ADMINISTRATOR]"

definition OUTCOME_VALUES :: "policy_outcome list" where "OUTCOME_VALUES = [ALLOW, DENY]"

definition EXECUTOR_VALUES :: "executor_type list" where "EXECUTOR_VALUES = [LOCAL_SIMULATION]"

definition EXEC_STATUS_VALUES :: "execution_status list" where "EXEC_STATUS_VALUES = [ES_STARTED, ES_SUCCEEDED, ES_FAILED]"

definition AUDIT_EVENT_VALUES :: "event_type list" where
  "AUDIT_EVENT_VALUES = [AE_PROPOSAL_CREATED, AE_POLICY_EVALUATED, AE_REMEDIATION_BLOCKED, AE_APPROVED, AE_REJECTED,
     AE_EXECUTION_REQUESTED, AE_EXECUTION_STARTED, AE_EXECUTION_SUCCEEDED, AE_EXECUTION_FAILED,
     AE_VERIFICATION_STARTED, AE_VERIFICATION_SUCCEEDED, AE_VERIFICATION_FAILED]"

definition ACTOR_TYPE_VALUES :: "actor_type list" where "ACTOR_TYPE_VALUES = [SYSTEM, HUMAN]"

definition EXEC_MODE_VALUES :: "execution_mode list" where "EXEC_MODE_VALUES = [REAL]"

definition VERIFICATION_STATUS_VALUES :: "verification_status list" where
  "VERIFICATION_STATUS_VALUES = [VS_STARTED, VS_RECOVERED, VS_RECOVERY_FAILED]"

definition VERIFIER_TYPE_VALUES :: "string list" where "VERIFIER_TYPE_VALUES = [''DETERMINISTIC_LOCAL'']"

definition CODE_VALUES :: "reason_code list" where
  "CODE_VALUES = [POLICY_OK, APPROVAL_REQUIRED, ACTION_NOT_ALLOWED, TARGET_NOT_ALLOWED, ENVIRONMENT_NOT_ALLOWED,
     SEVERITY_NOT_ALLOWED, PARAMETER_INVALID, RISK_EXCEEDED, PROPOSAL_EXPIRED, INVALID_STATE, COOLDOWN_ACTIVE, DUPLICATE_ACTIVE]"

fun event_type_str :: "event_type \<Rightarrow> string" where
  "event_type_str AE_PROPOSAL_CREATED = ''PROPOSAL_CREATED''"
| "event_type_str AE_POLICY_EVALUATED = ''POLICY_EVALUATED''"
| "event_type_str AE_REMEDIATION_BLOCKED = ''REMEDIATION_BLOCKED''"
| "event_type_str AE_APPROVED = ''APPROVED''"
| "event_type_str AE_REJECTED = ''REJECTED''"
| "event_type_str AE_EXECUTION_REQUESTED = ''EXECUTION_REQUESTED''"
| "event_type_str AE_EXECUTION_STARTED = ''EXECUTION_STARTED''"
| "event_type_str AE_EXECUTION_SUCCEEDED = ''EXECUTION_SUCCEEDED''"
| "event_type_str AE_EXECUTION_FAILED = ''EXECUTION_FAILED''"
| "event_type_str AE_VERIFICATION_STARTED = ''VERIFICATION_STARTED''"
| "event_type_str AE_VERIFICATION_SUCCEEDED = ''VERIFICATION_SUCCEEDED''"
| "event_type_str AE_VERIFICATION_FAILED = ''VERIFICATION_FAILED''"

fun execution_mode_str :: "execution_mode \<Rightarrow> string" where
  "execution_mode_str REAL = ''REAL''"

interpretation statuses: enum_column status_str STATUS_VALUES
proof
  show "x \<in> set STATUS_VALUES" for x by (cases x) (simp_all add: STATUS_VALUES_def)
qed (simp add: STATUS_VALUES_def)

interpretation actions: enum_column action_str ACTION_VALUES
proof
  show "x \<in> set ACTION_VALUES" for x by (cases x) (simp_all add: ACTION_VALUES_def)
qed (simp add: ACTION_VALUES_def)

interpretation risks: enum_column risk_str RISK_VALUES
proof
  show "x \<in> set RISK_VALUES" for x by (cases x) (simp_all add: RISK_VALUES_def)
qed (simp add: RISK_VALUES_def)

interpretation triggers: enum_column trigger_str TRIGGER_VALUES
proof
  show "x \<in> set TRIGGER_VALUES" for x by (cases x) (simp_all add: TRIGGER_VALUES_def)
qed (simp add: TRIGGER_VALUES_def)

interpretation decisions: enum_column decision_str DECISION_VALUES
proof
  show "x \<in> set DECISION_VALUES" for x by (cases x) (simp_all add: DECISION_VALUES_def)
qed (simp add: DECISION_VALUES_def)

interpretation roles: enum_column role_str ROLE_VALUES
proof
  show "x \<in> set ROLE_VALUES" for x by (cases x) (simp_all add: ROLE_VALUES_def)
qed (simp add: ROLE_VALUES_def)

interpretation outcomes: enum_column outcome_str OUTCOME_VALUES
proof
  show "x \<in> set OUTCOME_VALUES" for x by (cases x) (simp_all add: OUTCOME_VALUES_def)
qed (simp add: OUTCOME_VALUES_def)

interpretation executors: enum_column executor_str EXECUTOR_VALUES
proof
  show "x \<in> set EXECUTOR_VALUES" for x by (cases x) (simp_all add: EXECUTOR_VALUES_def)
qed (simp add: EXECUTOR_VALUES_def)

interpretation exec_statuses: enum_column execution_status_str EXEC_STATUS_VALUES
proof
  show "x \<in> set EXEC_STATUS_VALUES" for x by (cases x) (simp_all add: EXEC_STATUS_VALUES_def)
qed (simp add: EXEC_STATUS_VALUES_def)

interpretation event_types: enum_column event_type_str AUDIT_EVENT_VALUES
proof
  show "x \<in> set AUDIT_EVENT_VALUES" for x by (cases x) (simp_all add: AUDIT_EVENT_VALUES_def)
qed (simp add: AUDIT_EVENT_VALUES_def)

interpretation actors: enum_column actor_str ACTOR_TYPE_VALUES
proof
  show "x \<in> set ACTOR_TYPE_VALUES" for x by (cases x) (simp_all add: ACTOR_TYPE_VALUES_def)
qed (simp add: ACTOR_TYPE_VALUES_def)

interpretation exec_modes: enum_column execution_mode_str EXEC_MODE_VALUES
proof
  show "x \<in> set EXEC_MODE_VALUES" for x by (cases x) (simp_all add: EXEC_MODE_VALUES_def)
qed (simp add: EXEC_MODE_VALUES_def)

interpretation verification_statuses: enum_column verification_status_str VERIFICATION_STATUS_VALUES
proof
  show "x \<in> set VERIFICATION_STATUS_VALUES" for x by (cases x) (simp_all add: VERIFICATION_STATUS_VALUES_def)
qed (simp add: VERIFICATION_STATUS_VALUES_def)

interpretation codes: enum_column code_str CODE_VALUES
proof
  show "x \<in> set CODE_VALUES" for x by (cases x) (simp_all add: CODE_VALUES_def)
qed (simp add: CODE_VALUES_def)

section \<open>The tables\<close>

record 'd remediation_row =
  rw_id :: string
  rw_incident :: string
  rw_investigation :: "string option"
  rw_trigger :: string
  rw_proposed_by :: string
  rw_action :: string
  rw_service :: string
  rw_environment :: string
  rw_parameters :: "(string, pyobj) dict"
  rw_risk :: string
  rw_source :: string
  rw_reason :: string
  rw_effect :: string
  rw_evidence :: "string list"
  rw_status :: string
  rw_policy_outcome :: string
  rw_policy_version :: string
  rw_reason_codes :: "string list"
  rw_policy_decision :: 'd
  rw_evaluated_at :: datetime
  rw_created_at :: datetime
  rw_expires_at :: datetime
  rw_updated_at :: datetime
  rw_decided_at :: "datetime option"

record approval_row =
  aw_id :: string
  aw_remediation :: string
  aw_decision :: string
  aw_identity :: string
  aw_role :: string
  aw_reason :: string
  aw_decided_at :: datetime
  aw_created_at :: datetime

record execution_row =
  xw_id :: string
  xw_remediation :: string
  xw_action :: string
  xw_service :: string
  xw_environment :: string
  xw_executor :: string
  xw_status :: string
  xw_dry_run :: bool
  xw_effect :: string
  xw_metadata :: "(string, pyobj) dict"
  xw_error :: "string option"
  xw_started_at :: datetime
  xw_completed_at :: "datetime option"

record audit_row =
  ew_seq :: nat
  ew_id :: string
  ew_remediation :: string
  ew_incident :: string
  ew_investigation :: "string option"
  ew_type :: string
  ew_actor_type :: string
  ew_actor_id :: string
  ew_actor_role :: "string option"
  ew_previous :: "string option"
  ew_new :: "string option"
  ew_action :: "string option"
  ew_service :: "string option"
  ew_environment :: "string option"
  ew_policy_outcome :: "string option"
  ew_policy_version :: "string option"
  ew_reason_codes :: "string list"
  ew_execution_id :: "string option"
  ew_execution_mode :: "string option"
  ew_execution_result :: "string option"
  ew_verification_id :: "string option"
  ew_reason :: string
  ew_correlation :: "string option"
  ew_metadata :: "(string, pyobj) dict"
  ew_occurred_at :: datetime
  ew_recorded_at :: datetime

record 'c verification_row =
  vw_id :: string
  vw_remediation :: string
  vw_execution :: string
  vw_status :: string
  vw_verifier_type :: string
  vw_verifier_version :: string
  vw_attempts :: nat
  vw_checks :: "'c list"
  vw_failure_reason :: "string option"
  vw_timeout :: int
  vw_poll :: rat
  vw_metadata :: "(string, pyobj) dict"
  vw_started_at :: datetime
  vw_completed_at :: "datetime option"

record ('d, 'c) rem_db =
  db_remediations :: "'d remediation_row list"
  db_approvals :: "approval_row list"
  db_executions :: "execution_row list"
  db_verifications :: "'c verification_row list"
  db_audit :: "audit_row list"
  db_next_seq :: nat

definition empty_db :: "('d, 'c) rem_db" where
  "empty_db = \<lparr>db_remediations = [], db_approvals = [], db_executions = [], db_verifications = [], db_audit = [], db_next_seq = 1\<rparr>"

text \<open>The \<open>CHECK\<close> constraints; \<open>trim\<close> of SQL removes spaces. Statuses written by an update are listed ones.\<close>

definition sql_blank :: "string \<Rightarrow> bool" where
  "sql_blank s \<longleftrightarrow> list_all (\<lambda>c. c = CHR '' '') s"

definition remediation_checks :: "'d remediation_row \<Rightarrow> bool" where
  "remediation_checks w \<longleftrightarrow>
     listed status_str STATUS_VALUES (rw_status w) \<and> listed action_str ACTION_VALUES (rw_action w) \<and>
     listed risk_str RISK_VALUES (rw_risk w) \<and> listed trigger_str TRIGGER_VALUES (rw_trigger w) \<and>
     rw_environment w \<in> set ENV_VALUES \<and> listed outcome_str OUTCOME_VALUES (rw_policy_outcome w)"

definition approval_checks :: "approval_row \<Rightarrow> bool" where
  "approval_checks w \<longleftrightarrow>
     listed decision_str DECISION_VALUES (aw_decision w) \<and> listed role_str ROLE_VALUES (aw_role w) \<and> \<not> sql_blank (aw_identity w)"

definition execution_checks :: "execution_row \<Rightarrow> bool" where
  "execution_checks w \<longleftrightarrow>
     listed executor_str EXECUTOR_VALUES (xw_executor w) \<and> listed execution_status_str EXEC_STATUS_VALUES (xw_status w) \<and>
     listed action_str ACTION_VALUES (xw_action w) \<and> \<not> xw_dry_run w"

definition audit_checks :: "audit_row \<Rightarrow> bool" where
  "audit_checks w \<longleftrightarrow>
     listed event_type_str AUDIT_EVENT_VALUES (ew_type w) \<and> listed actor_str ACTOR_TYPE_VALUES (ew_actor_type w) \<and>
     (case ew_execution_mode w of None \<Rightarrow> True | Some m \<Rightarrow> listed execution_mode_str EXEC_MODE_VALUES m) \<and>
     \<not> sql_blank (ew_actor_id w)"

definition verification_checks :: "'c verification_row \<Rightarrow> bool" where
  "verification_checks w \<longleftrightarrow>
     listed verification_status_str VERIFICATION_STATUS_VALUES (vw_status w) \<and> vw_verifier_type w \<in> set VERIFIER_TYPE_VALUES"

section \<open>Inserts\<close>

text \<open>Primary key, \<open>UNIQUE(remediation_id)\<close>, foreign key and checks of one table.\<close>

definition parent_exists :: "string \<Rightarrow> ('d, 'c) rem_db \<Rightarrow> bool" where
  "parent_exists i db \<longleftrightarrow> i \<in> rw_id ` set (db_remediations db)"

definition insert_remediation :: "'d remediation_row \<Rightarrow> ('d, 'c) rem_db \<Rightarrow> sql_error + ('d, 'c) rem_db" where
  "insert_remediation w db =
     (if parent_exists (rw_id w) db \<or> \<not> remediation_checks w then Inl SQL_INTEGRITY
      else Inr (db\<lparr>db_remediations := db_remediations db @ [w]\<rparr>))"

definition insert_approval :: "approval_row \<Rightarrow> ('d, 'c) rem_db \<Rightarrow> sql_error + ('d, 'c) rem_db" where
  "insert_approval w db =
     (if aw_id w \<in> aw_id ` set (db_approvals db) \<or> aw_remediation w \<in> aw_remediation ` set (db_approvals db) \<or>
         \<not> parent_exists (aw_remediation w) db \<or> \<not> approval_checks w then Inl SQL_INTEGRITY
      else Inr (db\<lparr>db_approvals := db_approvals db @ [w]\<rparr>))"

definition insert_execution :: "execution_row \<Rightarrow> ('d, 'c) rem_db \<Rightarrow> sql_error + ('d, 'c) rem_db" where
  "insert_execution w db =
     (if xw_id w \<in> xw_id ` set (db_executions db) \<or> xw_remediation w \<in> xw_remediation ` set (db_executions db) \<or>
         \<not> parent_exists (xw_remediation w) db \<or> \<not> execution_checks w then Inl SQL_INTEGRITY
      else Inr (db\<lparr>db_executions := db_executions db @ [w]\<rparr>))"

definition insert_verification :: "'c verification_row \<Rightarrow> ('d, 'c) rem_db \<Rightarrow> sql_error + ('d, 'c) rem_db" where
  "insert_verification w db =
     (if vw_id w \<in> vw_id ` set (db_verifications db) \<or> vw_remediation w \<in> vw_remediation ` set (db_verifications db) \<or>
         \<not> parent_exists (vw_remediation w) db \<or> \<not> verification_checks w then Inl SQL_INTEGRITY
      else Inr (db\<lparr>db_verifications := db_verifications db @ [w]\<rparr>))"

definition audit_to_row :: "nat \<Rightarrow> datetime \<Rightarrow> audit_event \<Rightarrow> audit_row" where
  "audit_to_row sq t e =
     \<lparr>ew_seq = sq, ew_id = ae_id e, ew_remediation = ae_remediation e, ew_incident = ae_incident e,
      ew_investigation = ae_investigation e, ew_type = event_type_str (ae_type e), ew_actor_type = actor_str (ae_actor_type e),
      ew_actor_id = ae_actor_id e, ew_actor_role = map_option role_str (ae_actor_role e),
      ew_previous = map_option status_str (ae_previous e), ew_new = map_option status_str (ae_new e),
      ew_action = map_option action_str (ae_action e), ew_service = ae_service e, ew_environment = ae_environment e,
      ew_policy_outcome = map_option outcome_str (ae_policy_outcome e), ew_policy_version = ae_policy_version e,
      ew_reason_codes = map code_str (ae_reason_codes e), ew_execution_id = ae_execution_id e,
      ew_execution_mode = map_option execution_mode_str (ae_execution_mode e),
      ew_execution_result = map_option execution_status_str (ae_execution_result e),
      ew_verification_id = ae_verification_id e, ew_reason = ae_reason e, ew_correlation = ae_correlation e,
      ew_metadata = ae_metadata e, ew_occurred_at = ae_occurred_at e, ew_recorded_at = t\<rparr>"

text \<open>The database draws \<open>seq\<close> from a sequence.\<close>

fun insert_audits :: "datetime \<Rightarrow> audit_event list \<Rightarrow> ('d, 'c) rem_db \<Rightarrow> sql_error + ('d, 'c) rem_db" where
  "insert_audits t [] db = Inr db"
| "insert_audits t (e # es) db =
     (let w = audit_to_row (db_next_seq db) t e in
      if ew_id w \<in> ew_id ` set (db_audit db) \<or> \<not> parent_exists (ew_remediation w) db \<or> \<not> audit_checks w then Inl SQL_INTEGRITY
      else insert_audits t es (db\<lparr>db_audit := db_audit db @ [w], db_next_seq := db_next_seq db + 1\<rparr>))"

section \<open>Rows and records\<close>

record ('d, 'c) sql_codec =
  sc_dump_decision :: "policy_decision \<Rightarrow> 'd"
  sc_read_decision :: "'d \<Rightarrow> rem_error + policy_decision"
  sc_dump_check :: "recovery_check \<Rightarrow> 'c"
  sc_read_check :: "'c \<Rightarrow> (rem_error + recovery_check) option"

definition domain_result :: "rem_error + 'a \<Rightarrow> sql_error + 'a" where
  "domain_result m = map_sum SQL_DOMAIN id m"

fun read_each :: "('x \<Rightarrow> 'e + 'y) \<Rightarrow> 'x list \<Rightarrow> 'e + 'y list" where
  "read_each f [] = Inr []"
| "read_each f (x # xs) = and_then (f x) (\<lambda>y. and_then (read_each f xs) (\<lambda>ys. Inr (y # ys)))"

definition scalars :: "(string, pyobj) dict \<Rightarrow> (string, pyobj) dict" where
  "scalars md = filter (\<lambda>(k, v). is_scalar v) md"

definition record_to_row :: "('d, 'c) sql_codec \<Rightarrow> datetime \<Rightarrow> rem_record \<Rightarrow> 'd remediation_row" where
  "record_to_row c t r =
     (let p = rr_proposal r; d = rr_decision r in
      \<lparr>rw_id = pr_id p, rw_incident = pr_incident p, rw_investigation = pr_investigation p, rw_trigger = trigger_str (pr_trigger p),
       rw_proposed_by = pr_proposed_by p, rw_action = action_str (pr_action p), rw_service = tg_service (pr_target p),
       rw_environment = tg_environment (pr_target p), rw_parameters = pr_parameters p, rw_risk = risk_str (pr_risk p),
       rw_source = pr_source p, rw_reason = pr_reason p, rw_effect = pr_effect p, rw_evidence = pr_evidence p,
       rw_status = status_str (pr_status p), rw_policy_outcome = outcome_str (pd_outcome d), rw_policy_version = pd_version d,
       rw_reason_codes = map code_str (pd_reason_codes d), rw_policy_decision = sc_dump_decision c d,
       rw_evaluated_at = pd_evaluated_at d, rw_created_at = pr_created p, rw_expires_at = pr_expires p, rw_updated_at = t,
       rw_decided_at = map_option ap_decided_at (rr_approval r)\<rparr>)"

definition approval_to_row :: "datetime \<Rightarrow> string \<Rightarrow> approval \<Rightarrow> approval_row" where
  "approval_to_row t rid a =
     \<lparr>aw_id = ap_id a, aw_remediation = rid, aw_decision = decision_str (ap_decision a), aw_identity = ap_identity a,
      aw_role = role_str (ap_role a), aw_reason = ap_reason a, aw_decided_at = ap_decided_at a, aw_created_at = t\<rparr>"

definition execution_to_row :: "execution_result \<Rightarrow> execution_row" where
  "execution_to_row x =
     \<lparr>xw_id = xr_id x, xw_remediation = xr_remediation_id x, xw_action = action_str (xr_action x), xw_service = xr_service x,
      xw_environment = xr_environment x, xw_executor = executor_str (xr_executor x), xw_status = execution_status_str (xr_status x),
      xw_dry_run = xr_dry_run x, xw_effect = xr_effect x, xw_metadata = xr_metadata x, xw_error = xr_error x,
      xw_started_at = xr_started_at x, xw_completed_at = xr_completed_at x\<rparr>"

definition verification_to_row :: "('d, 'c) sql_codec \<Rightarrow> verification_result \<Rightarrow> 'c verification_row" where
  "verification_to_row c v =
     \<lparr>vw_id = vr_id v, vw_remediation = vr_remediation_id v, vw_execution = vr_execution_id v,
      vw_status = verification_status_str (vr_status v), vw_verifier_type = vr_verifier_type v,
      vw_verifier_version = vr_verifier_version v, vw_attempts = vr_attempts v, vw_checks = map (sc_dump_check c) (vr_checks v),
      vw_failure_reason = vr_failure_reason v, vw_timeout = vr_timeout v, vw_poll = vr_poll v, vw_metadata = vr_metadata v,
      vw_started_at = vr_started_at v, vw_completed_at = vr_completed_at v\<rparr>"

definition row_to_proposal :: "'d remediation_row \<Rightarrow> sql_error + proposal" where
  "row_to_proposal w =
     and_then (enum_of trigger_str TRIGGER_VALUES (rw_trigger w)) (\<lambda>tr.
     and_then (enum_of action_str ACTION_VALUES (rw_action w)) (\<lambda>ac.
     and_then (domain_result (mk_service_target (rw_service w) (rw_environment w))) (\<lambda>tg.
     and_then (enum_of risk_str RISK_VALUES (rw_risk w)) (\<lambda>rk.
     and_then (enum_of status_str STATUS_VALUES (rw_status w)) (\<lambda>s.
       domain_result (mk_proposal
         \<lparr>pr_id = rw_id w, pr_incident = rw_incident w, pr_investigation = rw_investigation w, pr_trigger = tr,
          pr_proposed_by = rw_proposed_by w, pr_action = ac, pr_target = tg, pr_parameters = rw_parameters w, pr_risk = rk,
          pr_requires_approval = True, pr_source = rw_source w, pr_reason = rw_reason w, pr_effect = rw_effect w,
          pr_evidence = rw_evidence w, pr_status = s, pr_created = rw_created_at w, pr_expires = rw_expires_at w\<rparr>))))))"

definition row_to_approval :: "approval_row \<Rightarrow> sql_error + approval" where
  "row_to_approval w =
     and_then (enum_of decision_str DECISION_VALUES (aw_decision w)) (\<lambda>d.
     and_then (enum_of role_str ROLE_VALUES (aw_role w)) (\<lambda>ro.
       domain_result (mk_approval (aw_id w) (aw_remediation w) d (aw_identity w) ro (aw_reason w) (aw_decided_at w))))"

definition execution_fields_ok :: "execution_result \<Rightarrow> bool" where
  "execution_fields_ok x \<longleftrightarrow>
     execution_id_ok (xr_id x) \<and> length (xr_effect x) \<le> 2000 \<and> (\<forall>v \<in> snd ` set (xr_metadata x). is_scalar v) \<and>
     at_most 2000 (xr_error x)"

definition mk_execution_result :: "execution_result \<Rightarrow> rem_error + execution_result" where
  "mk_execution_result x = (if execution_fields_ok x then Inr x else Inl ValidationError)"

definition row_to_execution :: "execution_row \<Rightarrow> sql_error + execution_result" where
  "row_to_execution w =
     and_then (enum_of action_str ACTION_VALUES (xw_action w)) (\<lambda>ac.
     and_then (enum_of executor_str EXECUTOR_VALUES (xw_executor w)) (\<lambda>ex.
     and_then (enum_of execution_status_str EXEC_STATUS_VALUES (xw_status w)) (\<lambda>s.
       domain_result (mk_execution_result
         \<lparr>xr_id = xw_id w, xr_remediation_id = xw_remediation w, xr_action = ac, xr_service = xw_service w,
          xr_environment = xw_environment w, xr_executor = ex, xr_status = s, xr_dry_run = xw_dry_run w,
          xr_started_at = xw_started_at w, xr_completed_at = xw_completed_at w, xr_effect = xw_effect w,
          xr_metadata = scalars (xw_metadata w), xr_error = xw_error w\<rparr>))))"

definition verification_fields_ok :: "verification_result \<Rightarrow> bool" where
  "verification_fields_ok v \<longleftrightarrow>
     verification_id_ok (vr_id v) \<and> length (vr_verifier_type v) \<le> 32 \<and> length (vr_verifier_version v) \<le> 16 \<and>
     at_most 1000 (vr_failure_reason v) \<and> 1 \<le> vr_timeout v \<and> vr_timeout v \<le> 3600 \<and> 0 < vr_poll v \<and> vr_poll v \<le> 600 \<and>
     (\<forall>x \<in> snd ` set (vr_metadata v). is_scalar x)"

definition mk_verification_result :: "verification_result \<Rightarrow> rem_error + verification_result" where
  "mk_verification_result v = (if verification_fields_ok v then Inr v else Inl ValidationError)"

definition row_to_verification :: "('d, 'c) sql_codec \<Rightarrow> 'c verification_row \<Rightarrow> sql_error + verification_result" where
  "row_to_verification c w =
     and_then (domain_result (read_each id (List.map_filter (sc_read_check c) (vw_checks w)))) (\<lambda>cs.
     and_then (enum_of verification_status_str VERIFICATION_STATUS_VALUES (vw_status w)) (\<lambda>s.
       domain_result (mk_verification_result
         \<lparr>vr_id = vw_id w, vr_remediation_id = vw_remediation w, vr_execution_id = vw_execution w, vr_status = s,
          vr_verifier_type = vw_verifier_type w, vr_verifier_version = vw_verifier_version w, vr_attempts = vw_attempts w,
          vr_checks = cs, vr_failure_reason = vw_failure_reason w, vr_timeout = vw_timeout w, vr_poll = vw_poll w,
          vr_metadata = scalars (vw_metadata w), vr_started_at = vw_started_at w, vr_completed_at = vw_completed_at w\<rparr>)))"

definition read_opt :: "('w \<Rightarrow> sql_error + 'a) \<Rightarrow> 'w option \<Rightarrow> sql_error + 'a option" where
  "read_opt f w = (case w of None \<Rightarrow> Inr None | Some x \<Rightarrow> map_sum id Some (f x))"

definition row_to_record :: "('d, 'c) sql_codec \<Rightarrow> ('d, 'c) rem_db \<Rightarrow> 'd remediation_row \<Rightarrow> sql_error + rem_record" where
  "row_to_record c db w =
     and_then (row_to_proposal w) (\<lambda>p.
     and_then (domain_result (sc_read_decision c (rw_policy_decision w))) (\<lambda>d.
     and_then (read_opt row_to_approval (find (\<lambda>a. aw_remediation a = rw_id w) (db_approvals db))) (\<lambda>ap.
     and_then (read_opt row_to_execution (find (\<lambda>x. xw_remediation x = rw_id w) (db_executions db))) (\<lambda>ex.
     and_then (read_opt (row_to_verification c) (find (\<lambda>v. vw_remediation v = rw_id w) (db_verifications db))) (\<lambda>ve.
       Inr \<lparr>rr_proposal = p, rr_decision = d, rr_approval = ap, rr_execution = ex, rr_verification = ve\<rparr>)))))"

definition row_to_audit :: "audit_row \<Rightarrow> sql_error + audit_event" where
  "row_to_audit w =
     and_then (enum_of event_type_str AUDIT_EVENT_VALUES (ew_type w)) (\<lambda>ty.
     and_then (enum_of actor_str ACTOR_TYPE_VALUES (ew_actor_type w)) (\<lambda>ac.
     and_then (enum_opt role_str ROLE_VALUES (ew_actor_role w)) (\<lambda>ro.
     and_then (enum_opt status_str STATUS_VALUES (ew_previous w)) (\<lambda>pv.
     and_then (enum_opt status_str STATUS_VALUES (ew_new w)) (\<lambda>nw.
     and_then (enum_opt action_str ACTION_VALUES (ew_action w)) (\<lambda>an.
     and_then (enum_opt outcome_str OUTCOME_VALUES (ew_policy_outcome w)) (\<lambda>oc.
     and_then (read_each (enum_of code_str CODE_VALUES) (ew_reason_codes w)) (\<lambda>cs.
     and_then (enum_opt execution_mode_str EXEC_MODE_VALUES (ew_execution_mode w)) (\<lambda>em.
     and_then (enum_opt execution_status_str EXEC_STATUS_VALUES (ew_execution_result w)) (\<lambda>er.
       domain_result (mk_event
         \<lparr>ae_id = ew_id w, ae_remediation = ew_remediation w, ae_incident = ew_incident w, ae_investigation = ew_investigation w,
          ae_type = ty, ae_actor_type = ac, ae_actor_id = ew_actor_id w, ae_actor_role = ro, ae_previous = pv, ae_new = nw,
          ae_action = an, ae_service = ew_service w, ae_environment = ew_environment w, ae_policy_outcome = oc,
          ae_policy_version = ew_policy_version w, ae_reason_codes = cs, ae_execution_id = ew_execution_id w,
          ae_execution_mode = em, ae_execution_result = er, ae_verification_id = ew_verification_id w,
          ae_reason = ew_reason w, ae_correlation = ew_correlation w, ae_metadata = scalars (ew_metadata w),
          ae_occurred_at = ew_occurred_at w\<rparr>)))))))))))"

section \<open>Operations\<close>

definition find_row :: "string \<Rightarrow> ('d, 'c) rem_db \<Rightarrow> 'd remediation_row option" where
  "find_row i db = find (\<lambda>w. rw_id w = i) (db_remediations db)"

definition update_row :: "string \<Rightarrow> ('d remediation_row \<Rightarrow> 'd remediation_row) \<Rightarrow> ('d, 'c) rem_db \<Rightarrow> ('d, 'c) rem_db" where
  "update_row i f db = db\<lparr>db_remediations := map (\<lambda>w. if rw_id w = i then f w else w) (db_remediations db)\<rparr>"

definition set_row_status :: "rem_status \<Rightarrow> datetime \<Rightarrow> 'd remediation_row \<Rightarrow> 'd remediation_row" where
  "set_row_status s t w = w\<lparr>rw_status := status_str s, rw_updated_at := t\<rparr>"

definition sql_get :: "('d, 'c) sql_codec \<Rightarrow> string \<Rightarrow> ('d, 'c) rem_db \<Rightarrow> sql_error + rem_record option" where
  "sql_get c i db = read_opt (row_to_record c db) (find_row i db)"

definition reread :: "('d, 'c) sql_codec \<Rightarrow> string \<Rightarrow> ('d, 'c) rem_db \<Rightarrow> sql_error + rem_record" where
  "reread c i db = and_then (sql_get c i db) (\<lambda>got. case got of None \<Rightarrow> Inl SQL_ASSERTION | Some r \<Rightarrow> Inr r)"

text \<open>The transaction commits or is rolled back; the record is read in a transaction of its own.\<close>

definition commit_then_read ::
  "('d, 'c) sql_codec \<Rightarrow> string \<Rightarrow> sql_error + ('d, 'c) rem_db \<Rightarrow> ('d, 'c) rem_db \<Rightarrow> (sql_error + rem_record) \<times> ('d, 'c) rem_db" where
  "commit_then_read c i body db = (case body of Inl e \<Rightarrow> (Inl e, db) | Inr db' \<Rightarrow> (reread c i db', db'))"

text \<open>\<open>except IntegrityError\<close> around the flush.\<close>

definition on_integrity :: "rem_error \<Rightarrow> sql_error + 'a \<Rightarrow> sql_error + 'a" where
  "on_integrity e m = (case m of Inl x \<Rightarrow> Inl (if x = SQL_INTEGRITY then SQL_DOMAIN e else x) | Inr y \<Rightarrow> Inr y)"

definition sql_create ::
  "('d, 'c) sql_codec \<Rightarrow> datetime \<Rightarrow> rem_record \<Rightarrow> audit_event list \<Rightarrow> ('d, 'c) rem_db \<Rightarrow> (sql_error + rem_record) \<times> ('d, 'c) rem_db" where
  "sql_create c t r evs db =
     (case and_then (insert_remediation (record_to_row c t r) db) (insert_audits t evs) of
        Inl e \<Rightarrow> (Inl e, db)
      | Inr db' \<Rightarrow> (Inr r, db'))"

definition sql_record_decision ::
  "('d, 'c) sql_codec \<Rightarrow> datetime \<Rightarrow> string \<Rightarrow> proposal \<Rightarrow> approval \<Rightarrow> audit_event list \<Rightarrow> ('d, 'c) rem_db \<Rightarrow>
   (sql_error + rem_record) \<times> ('d, 'c) rem_db" where
  "sql_record_decision c t rid p a evs db =
     commit_then_read c rid
       (case find_row rid db of
          None \<Rightarrow> Inl (SQL_DOMAIN RemediationNotFoundError)
        | Some w \<Rightarrow>
            if rid \<in> aw_remediation ` set (db_approvals db) then Inl (SQL_DOMAIN RemediationAlreadyDecidedError)
            else on_integrity RemediationAlreadyDecidedError
              (and_then
                (insert_approval (approval_to_row t rid a)
                  (update_row rid (\<lambda>w. (set_row_status (pr_status p) t w)\<lparr>rw_decided_at := Some (ap_decided_at a)\<rparr>) db))
                (insert_audits t evs))) db"

definition sql_begin_execution ::
  "('d, 'c) sql_codec \<Rightarrow> datetime \<Rightarrow> string \<Rightarrow> execution_result \<Rightarrow> audit_event list \<Rightarrow> ('d, 'c) rem_db \<Rightarrow>
   (sql_error + rem_record) \<times> ('d, 'c) rem_db" where
  "sql_begin_execution c t rid pending evs db =
     commit_then_read c rid
       (case find_row rid db of
          None \<Rightarrow> Inl (SQL_DOMAIN RemediationNotFoundError)
        | Some w \<Rightarrow>
            if rw_status w \<noteq> status_str APPROVED then Inl (SQL_DOMAIN RemediationExecutionConflictError)
            else and_then (domain_result (validate_transition APPROVED EXECUTING)) (\<lambda>_.
              on_integrity RemediationExecutionConflictError
                (and_then (insert_execution (execution_to_row pending) (update_row rid (set_row_status EXECUTING t) db))
                  (insert_audits t evs)))) db"

definition sql_finish_execution ::
  "('d, 'c) sql_codec \<Rightarrow> datetime \<Rightarrow> string \<Rightarrow> string \<Rightarrow> execution_result \<Rightarrow> rem_status \<Rightarrow> audit_event list \<Rightarrow> ('d, 'c) rem_db \<Rightarrow>
   (sql_error + rem_record) \<times> ('d, 'c) rem_db" where
  "sql_finish_execution c t rid xid result final evs db =
     commit_then_read c rid
       (case find_row rid db of
          None \<Rightarrow> Inl (SQL_DOMAIN RemediationNotFoundError)
        | Some w \<Rightarrow>
            if rw_status w \<noteq> status_str EXECUTING then Inl (SQL_DOMAIN RemediationExecutionConflictError)
            else and_then (domain_result (validate_transition EXECUTING final)) (\<lambda>_.
              if xid \<notin> xw_id ` set (db_executions db) then Inl (SQL_DOMAIN RemediationExecutionConflictError)
              else insert_audits t evs ((update_row rid (set_row_status final t) db)
                \<lparr>db_executions := map (\<lambda>x. if xw_id x = xid
                   then x\<lparr>xw_status := execution_status_str (xr_status result), xw_effect := xr_effect result,
                          xw_metadata := xr_metadata result, xw_error := xr_error result,
                          xw_completed_at := xr_completed_at result\<rparr>
                   else x) (db_executions db)\<rparr>))) db"

definition sql_begin_verification ::
  "('d, 'c) sql_codec \<Rightarrow> datetime \<Rightarrow> string \<Rightarrow> verification_result \<Rightarrow> audit_event list \<Rightarrow> ('d, 'c) rem_db \<Rightarrow>
   (sql_error + rem_record) \<times> ('d, 'c) rem_db" where
  "sql_begin_verification c t rid pending evs db =
     commit_then_read c rid
       (case find_row rid db of
          None \<Rightarrow> Inl (SQL_DOMAIN RemediationNotFoundError)
        | Some w \<Rightarrow>
            if rw_status w \<noteq> status_str EXECUTED then Inl (SQL_DOMAIN RecoveryVerificationConflictError)
            else and_then (domain_result (validate_transition EXECUTED VERIFYING)) (\<lambda>_.
              on_integrity RecoveryVerificationConflictError
                (and_then (insert_verification (verification_to_row c pending) (update_row rid (set_row_status VERIFYING t) db))
                  (insert_audits t evs)))) db"

definition sql_finish_verification ::
  "('d, 'c) sql_codec \<Rightarrow> datetime \<Rightarrow> string \<Rightarrow> string \<Rightarrow> verification_result \<Rightarrow> rem_status \<Rightarrow> audit_event list \<Rightarrow> ('d, 'c) rem_db \<Rightarrow>
   (sql_error + rem_record) \<times> ('d, 'c) rem_db" where
  "sql_finish_verification c t rid vid result final evs db =
     commit_then_read c rid
       (case find_row rid db of
          None \<Rightarrow> Inl (SQL_DOMAIN RemediationNotFoundError)
        | Some w \<Rightarrow>
            if rw_status w \<noteq> status_str VERIFYING then Inl (SQL_DOMAIN RecoveryVerificationConflictError)
            else and_then (domain_result (validate_transition VERIFYING final)) (\<lambda>_.
              if vid \<notin> vw_id ` set (db_verifications db) then Inl (SQL_DOMAIN RecoveryVerificationConflictError)
              else insert_audits t evs ((update_row rid (set_row_status final t) db)
                \<lparr>db_verifications := map (\<lambda>v. if vw_id v = vid
                   then v\<lparr>vw_status := verification_status_str (vr_status result), vw_attempts := vr_attempts result,
                          vw_checks := map (sc_dump_check c) (vr_checks result), vw_failure_reason := vr_failure_reason result,
                          vw_metadata := vr_metadata result, vw_completed_at := vr_completed_at result\<rparr>
                   else v) (db_verifications db)\<rparr>))) db"

text \<open>\<open>ORDER BY created_at DESC\<close> leaves the order of equal times open: \<open>ties\<close> is the order the database happens to have.\<close>

definition row_accepted :: "rem_filter \<Rightarrow> 'd remediation_row \<Rightarrow> bool" where
  "row_accepted f w \<longleftrightarrow>
     matches (rf_incident f) (rw_incident w) \<and> matches (map_option status_str (rf_status f)) (rw_status w) \<and>
     matches (map_option action_str (rf_action f)) (rw_action w) \<and>
     (case rf_since f of None \<Rightarrow> True | Some t \<Rightarrow> t \<le> rw_created_at w)"

definition sql_list ::
  "('d, 'c) sql_codec \<Rightarrow> ('d remediation_row list \<Rightarrow> 'd remediation_row list) \<Rightarrow> rem_filter \<Rightarrow> ('d, 'c) rem_db \<Rightarrow>
   sql_error + rem_record list" where
  "sql_list c ties f db =
     read_each (row_to_record c db)
       (take (rf_limit f) (drop (rf_offset f)
         (sort_key (\<lambda>w. - rw_created_at w) (ties (filter (row_accepted f) (db_remediations db))))))"

definition sql_list_audit_events :: "string \<Rightarrow> nat \<Rightarrow> nat \<Rightarrow> ('d, 'c) rem_db \<Rightarrow> sql_error + audit_event list" where
  "sql_list_audit_events rid how_many off db =
     read_each row_to_audit
       (take how_many (drop off (sort_key ew_seq (filter (\<lambda>w. ew_remediation w = rid) (db_audit db)))))"

definition ACTIVE_SQL :: "string list" where
  "ACTIVE_SQL = [''PROPOSED'', ''POLICY_EVALUATION'', ''PENDING_APPROVAL'', ''APPROVED'', ''EXECUTING'', ''EXECUTED'', ''VERIFYING'']"

definition COOLDOWN_ANCHOR_SQL :: "string list" where
  "COOLDOWN_ANCHOR_SQL = [''APPROVED'', ''EXECUTING'', ''EXECUTED'', ''EXECUTION_FAILED'']"

definition row_key :: "string \<Rightarrow> action_type \<Rightarrow> service_target \<Rightarrow> 'd remediation_row \<Rightarrow> bool" where
  "row_key inc a tg w \<longleftrightarrow>
     rw_incident w = inc \<and> rw_action w = action_str a \<and> rw_service w = tg_service tg \<and> rw_environment w = tg_environment tg"

text \<open>\<open>count\<close> and \<open>max\<close>: the maximum of no value is NULL, and NULL is not a value.\<close>

definition sql_max :: "datetime option list \<Rightarrow> datetime option" where
  "sql_max xs = (let ds = List.map_filter id xs in if ds = [] then None else Some (foldr max ds (hd ds)))"

definition sql_history_snapshot :: "string \<Rightarrow> action_type \<Rightarrow> service_target \<Rightarrow> ('d, 'c) rem_db \<Rightarrow> history_port" where
  "sql_history_snapshot inc a tg db =
     (let rows = filter (row_key inc a tg) (db_remediations db);
          active = length (filter (\<lambda>w. rw_status w \<in> set ACTIVE_SQL) rows);
          last_done = sql_max (map rw_decided_at (filter (\<lambda>w. rw_status w \<in> set COOLDOWN_ANCHOR_SQL) rows))
      in \<lparr>active_remediation_exists = (\<lambda>_ _ _. active \<noteq> 0), last_completed_at = (\<lambda>_ _ _. last_done)\<rparr>)"

end
