(* ===== verification/RemSqlProps.thy ===== *)
theory RemSqlProps imports RemSql RemService begin

text \<open>
  The SQL repository implements the repository: rows read back as the records they were written from, and
  every operation on the tables answers as the operation of the in-memory repository does and leaves tables
  that represent the same store. A table represents a partial map from remediation ids when its rows have
  distinct ids and each shows the value of its id (\<open>table_shows\<close>).
\<close>

section \<open>Rows read back\<close>

definition codec_ok :: "('d, 'c) sql_codec \<Rightarrow> bool" where
  "codec_ok c \<longleftrightarrow>
     (\<forall>d. sc_read_decision c (sc_dump_decision c d) = Inr d) \<and> (\<forall>k. sc_read_check c (sc_dump_check c k) = Some (Inr k))"

text \<open>What the constructors of the models check; it holds of every instance.\<close>

definition approval_valid :: "string \<Rightarrow> approval \<Rightarrow> bool" where
  "approval_valid i a \<longleftrightarrow>
     ap_remediation_id a = i \<and>
     mk_approval (ap_id a) i (ap_decision a) (ap_identity a) (ap_role a) (ap_reason a) (ap_decided_at a) = Inr a"

definition proposal_valid :: "proposal \<Rightarrow> bool" where
  "proposal_valid p \<longleftrightarrow>
     mk_proposal p = Inr p \<and> mk_service_target (tg_service (pr_target p)) (tg_environment (pr_target p)) = Inr (pr_target p)"

lemma domain_result_simps [simp]: "domain_result (Inr x) = Inr x" "domain_result (Inl e) = Inl (SQL_DOMAIN e)"
  by (simp_all add: domain_result_def)

lemma scalars_id: "\<forall>v \<in> snd ` set md. is_scalar v \<Longrightarrow> scalars md = md"
  by (auto simp: scalars_def filter_id_conv)

lemma read_each_map: "(\<And>x. x \<in> set xs \<Longrightarrow> f (g x) = Inr x) \<Longrightarrow> read_each f (map g xs) = Inr xs"
  by (induction xs) auto

lemma proposal_reads_back:
  assumes "proposal_valid (rr_proposal r)"
  shows "row_to_proposal (record_to_row c t r) = Inr (rr_proposal r)"
proof -
  have "pr_requires_approval (rr_proposal r)"
    using assms by (auto simp: proposal_valid_def mk_proposal_def proposal_fields_ok_def split: if_splits)
  then show ?thesis
    using assms
    by (cases "rr_proposal r") (simp add: row_to_proposal_def record_to_row_def Let_def triggers.read_back actions.read_back risks.read_back
        statuses.read_back proposal_valid_def)
qed

lemma approval_reads_back: "approval_valid i a \<Longrightarrow> row_to_approval (approval_to_row t i a) = Inr a"
  by (simp add: row_to_approval_def approval_to_row_def approval_valid_def decisions.read_back roles.read_back)

lemma execution_reads_back: "execution_fields_ok x \<Longrightarrow> row_to_execution (execution_to_row x) = Inr x"
  by (simp add: row_to_execution_def execution_to_row_def actions.read_back executors.read_back exec_statuses.read_back
      mk_execution_result_def scalars_id execution_fields_ok_def)

lemma verification_reads_back:
  assumes "codec_ok c" and "verification_fields_ok v"
  shows "row_to_verification c (verification_to_row c v) = Inr v"
proof -
  have "List.map_filter (sc_read_check c) (map (sc_dump_check c) ks) = map Inr ks" for ks
    using assms(1) by (induction ks) (simp_all add: codec_ok_def List.map_filter_def)
  moreover have "read_each id (map Inr ks) = (Inr ks :: rem_error + recovery_check list)" for ks by (rule read_each_map) simp
  ultimately show ?thesis
    using assms(2)
    by (simp add: row_to_verification_def verification_to_row_def verification_statuses.read_back mk_verification_result_def
        scalars_id verification_fields_ok_def)
qed

lemma audit_reads_back:
  assumes "event_fields_ok e" shows "row_to_audit (audit_to_row n t e) = Inr e"
proof -
  have "read_each (enum_of code_str CODE_VALUES) (map code_str (ae_reason_codes e)) = Inr (ae_reason_codes e)"
    by (rule read_each_map) (rule codes.read_back)
  then show ?thesis
    using assms
    by (simp add: row_to_audit_def audit_to_row_def event_types.read_back actors.read_back roles.read_opt statuses.read_opt
        actions.read_opt outcomes.read_opt exec_modes.read_opt exec_statuses.read_opt scalars_id event_fields_ok_def mk_event_def)
qed

section \<open>Tables as maps\<close>

definition table_shows :: "('w \<Rightarrow> string) \<Rightarrow> ('w \<Rightarrow> 'a \<Rightarrow> bool) \<Rightarrow> 'w list \<Rightarrow> (string \<Rightarrow> 'a option) \<Rightarrow> bool" where
  "table_shows k R ws m \<longleftrightarrow>
     distinct (map k ws) \<and> (\<forall>w \<in> set ws. \<exists>a. m (k w) = Some a \<and> R w a) \<and> (\<forall>i. m i \<noteq> None \<longrightarrow> i \<in> k ` set ws)"


lemma table_ids: "table_shows k R ws m \<Longrightarrow> i \<in> k ` set ws \<longleftrightarrow> m i \<noteq> None"
  by (auto simp: table_shows_def)

lemma table_find:
  assumes "table_shows k R ws m"
  shows "case m i of None \<Rightarrow> find (\<lambda>w. k w = i) ws = None
    | Some a \<Rightarrow> \<exists>w. find (\<lambda>w. k w = i) ws = Some w \<and> w \<in> set ws \<and> k w = i \<and> R w a"
proof (cases "m i")
  case None
  then have "i \<notin> k ` set ws" using table_ids [OF assms] by blast
  then show ?thesis using None by (auto simp: find_None_iff)
next
  case (Some a)
  then obtain w where w: "find (\<lambda>w. k w = i) ws = Some w"
    using table_ids [OF assms, of i] by (cases "find (\<lambda>w. k w = i) ws") (auto simp: find_None_iff)
  then have "w \<in> set ws" "k w = i" by (auto simp: find_Some_iff)
  then show ?thesis using Some assms w by (auto simp: table_shows_def)
qed



lemma table_same: "table_shows k R ws m \<Longrightarrow> m i = a \<Longrightarrow> table_shows k R ws (m(i := a))"
  by (simp add: fun_upd_idem)

section \<open>The trail\<close>

definition trail_shows :: "audit_row list \<Rightarrow> nat \<Rightarrow> audit_event list \<Rightarrow> bool" where
  "trail_shows ws n es \<longleftrightarrow>
     list_all2 (\<lambda>w e. (\<exists>k t. w = audit_to_row k t e) \<and> event_fields_ok e) ws es \<and>
     sorted_wrt (<) (map ew_seq ws) \<and> (\<forall>w \<in> set ws. ew_seq w < n)"





section \<open>Tables that represent a store\<close>

definition field :: "(rem_record \<Rightarrow> 'a option) \<Rightarrow> rem_store \<Rightarrow> string \<Rightarrow> 'a option" where
  "field f st i = Option.bind (map_of (st_records st) i) f"

definition record_shown :: "('d, 'c) sql_codec \<Rightarrow> 'd remediation_row \<Rightarrow> rem_record \<Rightarrow> bool" where
  "record_shown c w r \<longleftrightarrow>
     (\<exists>t. w = record_to_row c t r) \<and> proposal_valid (rr_proposal r) \<and>
     (\<forall>a. rr_approval r = Some a \<longrightarrow> approval_valid (rr_id r) a) \<and>
     (\<forall>x. rr_execution r = Some x \<longrightarrow> execution_fields_ok x \<and> xr_remediation_id x = rr_id r) \<and>
     (\<forall>v. rr_verification r = Some v \<longrightarrow> verification_fields_ok v \<and> vr_remediation_id v = rr_id r)"

definition represents :: "('d, 'c) sql_codec \<Rightarrow> ('d, 'c) rem_db \<Rightarrow> rem_store \<Rightarrow> bool" where
  "represents c db st \<longleftrightarrow>
     map rw_id (db_remediations db) = map fst (st_records st) \<and> st_order st = map fst (st_records st) \<and>
     table_shows rw_id (record_shown c) (db_remediations db) (map_of (st_records st)) \<and>
     table_shows aw_remediation (\<lambda>w a. \<exists>t. w = approval_to_row t (ap_remediation_id a) a) (db_approvals db) (field rr_approval st) \<and>
     table_shows xw_remediation (\<lambda>w x. w = execution_to_row x) (db_executions db) (field rr_execution st) \<and>
     table_shows vw_remediation (\<lambda>w v. w = verification_to_row c v) (db_verifications db) (field rr_verification st) \<and>
     distinct (map xw_id (db_executions db)) \<and> distinct (map vw_id (db_verifications db)) \<and>
     map_of (st_executions st) = field rr_execution st \<and> map_of (st_verifications st) = field rr_verification st \<and>
     trail_shows (db_audit db) (db_next_seq db) (st_audit st)"

lemma record_to_row_sel [simp]:
  "rw_id (record_to_row c t r) = rr_id r" "rw_status (record_to_row c t r) = status_str (rr_status r)"
  by (simp_all add: record_to_row_def rr_id_def rr_status_def Let_def)


lemma shown_columns:
  assumes "record_shown c w r"
  shows "rw_id w = rr_id r" and "rw_status w = status_str (rr_status r)" and "rw_incident w = rr_incident r"
    and "rw_action w = action_str (pr_action (rr_proposal r))" and "rw_service w = tg_service (pr_target (rr_proposal r))"
    and "rw_environment w = tg_environment (pr_target (rr_proposal r))" and "rw_created_at w = pr_created (rr_proposal r)"
    and "rw_decided_at w = map_option ap_decided_at (rr_approval r)"
proof -
  obtain t where "w = record_to_row c t r" using assms by (auto simp: record_shown_def)
  then show "rw_id w = rr_id r" "rw_status w = status_str (rr_status r)" "rw_incident w = rr_incident r"
    "rw_action w = action_str (pr_action (rr_proposal r))" "rw_service w = tg_service (pr_target (rr_proposal r))"
    "rw_environment w = tg_environment (pr_target (rr_proposal r))" "rw_created_at w = pr_created (rr_proposal r)"
    "rw_decided_at w = map_option ap_decided_at (rr_approval r)"
    by (simp_all add: record_to_row_def rr_incident_def rr_id_def rr_status_def Let_def)
qed

text \<open>A stored record reads back.\<close>

lemma child_reads_back:
  assumes "table_shows k R ws m" and "\<And>w a. m i = Some a \<Longrightarrow> R w a \<Longrightarrow> k w = i \<Longrightarrow> f w = Inr a"
  shows "read_opt f (find (\<lambda>w. k w = i) ws) = Inr (m i)"
  using table_find [OF assms(1), of i] assms(2) by (auto simp: read_opt_def split: option.splits)

lemma row_reads_back:
  assumes c: "codec_ok c" and w: "record_shown c w r"
    and a: "table_shows aw_remediation (\<lambda>w a. \<exists>t. w = approval_to_row t (ap_remediation_id a) a) (db_approvals db) ma" "ma (rr_id r) = rr_approval r"
    and x: "table_shows xw_remediation (\<lambda>w x. w = execution_to_row x) (db_executions db) mx" "mx (rr_id r) = rr_execution r"
    and v: "table_shows vw_remediation (\<lambda>w v. w = verification_to_row c v) (db_verifications db) mv" "mv (rr_id r) = rr_verification r"
  shows "row_to_record c db w = Inr r"
proof -
  obtain t where t: "w = record_to_row c t r" using w by (auto simp: record_shown_def)
  have i: "rw_id w = rr_id r" by (simp add: t)
  have p: "row_to_proposal w = Inr (rr_proposal r)" unfolding t by (rule proposal_reads_back) (use w in \<open>simp add: record_shown_def\<close>)
  have d: "sc_read_decision c (rw_policy_decision w) = Inr (rr_decision r)"
    using c by (simp add: t record_to_row_def Let_def codec_ok_def)
  have "read_opt row_to_approval (find (\<lambda>z. aw_remediation z = rr_id r) (db_approvals db)) = Inr (rr_approval r)"
    unfolding a(2) [symmetric]
    by (rule child_reads_back [OF a(1)]) (use w a(2) in \<open>auto simp: record_shown_def approval_reads_back approval_valid_def\<close>)
  moreover have "read_opt row_to_execution (find (\<lambda>z. xw_remediation z = rr_id r) (db_executions db)) = Inr (rr_execution r)"
    unfolding x(2) [symmetric]
    by (rule child_reads_back [OF x(1)]) (use w x(2) in \<open>auto simp: record_shown_def execution_reads_back\<close>)
  moreover have "read_opt (row_to_verification c) (find (\<lambda>z. vw_remediation z = rr_id r) (db_verifications db)) = Inr (rr_verification r)"
    unfolding v(2) [symmetric]
    by (rule child_reads_back [OF v(1)]) (use w v(2) in \<open>auto simp: record_shown_def verification_reads_back [OF c]\<close>)
  ultimately show ?thesis by (simp add: row_to_record_def i p d)
qed





section \<open>Writes\<close>




lemma proposal_valid_status [simp]: "proposal_valid (p\<lparr>pr_status := s\<rparr>) = proposal_valid p"
  by (auto simp: proposal_valid_def mk_proposal_def proposal_fields_ok_def check_proposal_def and_then_def split: sum.splits)










lemma set_row_status_id [simp]: "rw_id (set_row_status s t w) = rw_id w"
  by (simp add: set_row_status_def)

section \<open>The operations agree\<close>




lemma execution_row_sel [simp]: "xw_id (execution_to_row x) = xr_id x" "xw_remediation (execution_to_row x) = xr_remediation_id x"
  by (simp_all add: execution_to_row_def)

lemma verification_row_sel [simp]:
  "vw_id (verification_to_row c v) = vr_id v" "vw_remediation (verification_to_row c v) = vr_remediation_id v"
  by (simp_all add: verification_to_row_def)

lemma approval_row_sel [simp]: "aw_id (approval_to_row t i a) = ap_id a" "aw_remediation (approval_to_row t i a) = i"
  by (simp_all add: approval_to_row_def)









definition execution_update :: "execution_result \<Rightarrow> execution_result \<Rightarrow> execution_result" where
  "execution_update result x =
     x\<lparr>xr_status := xr_status result, xr_completed_at := xr_completed_at result, xr_effect := xr_effect result,
       xr_metadata := xr_metadata result, xr_error := xr_error result\<rparr>"



definition verification_update :: "verification_result \<Rightarrow> verification_result \<Rightarrow> verification_result" where
  "verification_update result x =
     x\<lparr>vr_status := vr_status result, vr_attempts := vr_attempts result, vr_checks := vr_checks result,
       vr_failure_reason := vr_failure_reason result, vr_metadata := vr_metadata result, vr_completed_at := vr_completed_at result\<rparr>"











section \<open>The reads agree\<close>

definition shown_record :: "rem_store \<Rightarrow> 'd remediation_row \<Rightarrow> rem_record" where
  "shown_record st w = the (map_of (st_records st) (rw_id w))"

lemma shown_rows:
  assumes "represents c db st" "w \<in> set (db_remediations db)"
  shows "map_of (st_records st) (rw_id w) = Some (shown_record st w)" and "record_shown c w (shown_record st w)"
  using assms by (fastforce simp: represents_def table_shows_def shown_record_def)+

lemma all_rows:
  assumes "represents c db st"
  shows "map (shown_record st) (db_remediations db) = map (\<lambda>i. the (map_of (st_records st) i)) (st_order st)"
    and "map (shown_record st) (db_remediations db) = map snd (st_records st)"
proof -
  have k: "map rw_id (db_remediations db) = map fst (st_records st)" "st_order st = map fst (st_records st)"
    "distinct (map fst (st_records st))"
    using assms by (auto simp: represents_def table_shows_def)
  have "map (shown_record st) (db_remediations db) = map (\<lambda>i. the (map_of (st_records st) i)) (map rw_id (db_remediations db))"
    by (simp add: shown_record_def comp_def)
  then show one: "map (shown_record st) (db_remediations db) = map (\<lambda>i. the (map_of (st_records st) i)) (st_order st)"
    by (simp only: k)
  have "the (map_of (st_records st) (fst z)) = snd z" if "z \<in> set (st_records st)" for z
    using map_of_is_SomeI [OF k(3), of "fst z" "snd z"] that by simp
  then have "map (\<lambda>z. the (map_of (st_records st) (fst z))) (st_records st) = map snd (st_records st)" by (intro map_cong refl)
  then show "map (shown_record st) (db_remediations db) = map snd (st_records st)" by (simp only: one k(2) map_map comp_def)
qed

lemma shown_reads:
  assumes "codec_ok c" "represents c db st" "w \<in> set (db_remediations db)"
  shows "row_to_record c db w = Inr (shown_record st w)"
proof -
  note s = shown_rows [OF assms(2,3)]
  have "rw_id w = rr_id (shown_record st w)" using s(2) unfolding record_shown_def by (metis record_to_row_sel(1))
  then show ?thesis
    using assms(2) s(1)
    by (intro row_reads_back [OF assms(1) s(2), of _ "field rr_approval st" "field rr_execution st" "field rr_verification st"])
      (simp_all add: represents_def field_def)
qed

lemma read_each_all: "(\<And>x. x \<in> set xs \<Longrightarrow> f x = Inr (g x)) \<Longrightarrow> read_each f xs = Inr (map g xs)"
  by (induction xs) auto




text \<open>Rows of the same creation time come in an order of the database's choice.\<close>

lemma list_is_page:
  assumes c: "codec_ok c" and rep: "represents c db st" and ties: "\<And>ws. mset (ties ws) = mset ws"
  shows "\<exists>rs. mset rs = mset (filter (filter_accepts f) (map snd (st_records st))) \<and>
    sorted_wrt (\<lambda>a b. pr_created (rr_proposal b) \<le> pr_created (rr_proposal a)) rs \<and>
    sql_list c ties f db = Inr (take (rf_limit f) (drop (rf_offset f) rs))"
proof -
  let ?acc = "filter (row_accepted f) (db_remediations db)" and ?k = "\<lambda>w. - rw_created_at w"
  let ?ws = "sort_key ?k (ties ?acc)"
  have ms: "mset ?ws = mset ?acc" by (simp add: ties)
  then have in_db: "w \<in> set (db_remediations db)" if "w \<in> set ?ws" for w using that mset_eq_setD [OF ms] by simp
  have acc: "row_accepted f w \<longleftrightarrow> filter_accepts f (shown_record st w)" "rw_created_at w = pr_created (rr_proposal (shown_record st w))"
    if "w \<in> set (db_remediations db)" for w
    using shown_columns [OF shown_rows(2) [OF rep that]]
    by (auto simp: row_accepted_def filter_accepts_def matches_def statuses.str_eq actions.str_eq split: option.splits)
  have "filter (filter_accepts f) (map snd (st_records st)) = map (shown_record st) ?acc"
    using acc(1) by (simp add: all_rows(2) [OF rep, symmetric] filter_map comp_def cong: filter_cong)
  then have one: "mset (map (shown_record st) ?ws) = mset (filter (filter_accepts f) (map snd (st_records st)))"
    by (simp add: ties)
  have "sorted (map ?k ?ws)" by simp
  then have "sorted_wrt (\<lambda>v w. rw_created_at w \<le> rw_created_at v) ?ws" by (simp add: sorted_wrt_map)
  then have two: "sorted_wrt (\<lambda>a b. pr_created (rr_proposal b) \<le> pr_created (rr_proposal a)) (map (shown_record st) ?ws)"
    unfolding sorted_wrt_map by (rule sorted_wrt_mono_rel [rotated]) (simp add: acc(2) [OF in_db, symmetric])
  have three: "sql_list c ties f db = Inr (take (rf_limit f) (drop (rf_offset f) (map (shown_record st) ?ws)))"
  proof -
    have "row_to_record c db w = Inr (shown_record st w)" if "w \<in> set (take (rf_limit f) (drop (rf_offset f) ?ws))" for w
      by (rule shown_reads [OF c rep in_db]) (rule in_set_dropD [OF in_set_takeD [OF that]])
    from read_each_all [OF this] show ?thesis by (simp only: sql_list_def take_map drop_map)
  qed
  show ?thesis using one two three by blast
qed






section \<open>What the service asks for\<close>

text \<open>The service changes a stored result in the columns that the finishing update writes, and nowhere else.\<close>

lemma decide_changes_status:
  "decide_prepare q (Some r) = Inr (p, a, evs) \<Longrightarrow>
   p = (rr_proposal r)\<lparr>pr_status := pr_status p\<rparr> \<and> approval_valid (dq_id q) a"
  by (auto simp: decide_prepare_def approval_valid_def dest!: mk_approval_Inr) (auto simp: mk_approval_def split: if_splits)

lemma executor_one: "(x :: executor_type) = y"
  by (cases x; cases y) simp

lemma execution_result_columns:
  assumes "executor_contract (sv_executor sv)"
    and "rr_proposal begun = p\<lparr>pr_status := EXECUTING\<rparr>" "pr_id p = xq_id q"
    and "fst (execute_run sv q (pending_execution q p) begun sim) = Inr (result, final, evs)"
  shows "result = execution_update result (pending_execution q p)"
proof -
  let ?run = "fst (sv_executor sv (rr_proposal begun) (xr_id (pending_execution q p)) False (xq_now q) sim)"
  consider (returned) "?run = Inr result" | (failed) m where "result = failed_execution (pending_execution q p) m (xq_failed_at q)"
    using assms(4) by (auto simp: execute_run_def split: prod.splits sum.splits executor_exn.splits)
  then show ?thesis
  proof cases
    case returned
    from executor_contract.describes [OF assms(1) this] show ?thesis
      using assms(2,3) by (intro execution_result.equality) (simp_all add: execution_update_def pending_execution_def executor_one)
  qed (simp add: failed_execution_def execution_update_def)
qed

lemma verify_type: "ro_verifier_type (fst (verify probe t c started st)) = VERIFIER_TYPE_LOCAL \<and>
    ro_verifier_version (fst (verify probe t c started st)) = VERIFIER_VERSION"
proof -
  have "ro_verifier_type (fst (verify_loop probe t c started n k now st)) = VERIFIER_TYPE_LOCAL \<and>
      ro_verifier_version (fst (verify_loop probe t c started n k now st)) = VERIFIER_VERSION" for n k now st
    by (induction n arbitrary: k now st) (subst verify_loop_step, simp add: recovered_outcome_def failed_outcome_def Let_def)+
  then show ?thesis by (simp add: verify_def)
qed

lemma verification_result_columns:
  assumes "fst (verify_run sv q (pending_verification sv q xid) begun sim) = Inr (result, final, evs)"
  shows "result = verification_update result (pending_verification sv q xid)"
proof -
  obtain o1 s where o: "verify simulated_probe (pr_target (rr_proposal begun)) (sv_verify sv) (vq_now q) sim = (o1, s)" by fastforce
  have "ro_verifier_type o1 = VERIFIER_TYPE_LOCAL \<and> ro_verifier_version o1 = VERIFIER_VERSION"
    using verify_type [of simulated_probe "pr_target (rr_proposal begun)" "sv_verify sv" "vq_now q" sim] by (simp add: o)
  then show ?thesis
    using assms by (auto simp: verify_run_def o Let_def verification_update_def pending_verification_def)
qed

section \<open>Properties\<close>

text \<open>A database that holds the rows of one record.\<close>

definition tables_of :: "('d, 'c) sql_codec \<Rightarrow> datetime \<Rightarrow> rem_record \<Rightarrow> ('d, 'c) rem_db" where
  "tables_of c t r = \<lparr>db_remediations = [record_to_row c t r],
     db_approvals = (case rr_approval r of None \<Rightarrow> [] | Some a \<Rightarrow> [approval_to_row t (rr_id r) a]),
     db_executions = (case rr_execution r of None \<Rightarrow> [] | Some x \<Rightarrow> [execution_to_row x]),
     db_verifications = (case rr_verification r of None \<Rightarrow> [] | Some v \<Rightarrow> [verification_to_row c v]),
     db_audit = [], db_next_seq = 1\<rparr>"

definition valid_record :: "rem_record \<Rightarrow> bool" where
  "valid_record r \<longleftrightarrow>
     proposal_valid (rr_proposal r) \<and> pred_option (approval_valid (rr_id r)) (rr_approval r) \<and>
     pred_option (\<lambda>x. execution_fields_ok x \<and> xr_remediation_id x = rr_id r) (rr_execution r) \<and>
     pred_option (\<lambda>v. verification_fields_ok v \<and> vr_remediation_id v = rr_id r) (rr_verification r)"

text \<open>
  Claim C17. Nothing is lost in the tables: a valid record written to its rows, with its approval, execution
  and verification rows, reads back as the very same record, and an audit event reads back as itself.
\<close>

theorem rows_roundtrip:
  assumes "codec_ok c" and "valid_record r" and "event_fields_ok e"
  shows "row_to_record c (tables_of c t r) (record_to_row c t r) = Inr r \<and> row_to_audit (audit_to_row n t e) = Inr e"
proof
  show "row_to_audit (audit_to_row n t e) = Inr e" by (rule audit_reads_back [OF assms(3)])
  have shown: "record_shown c (record_to_row c t r) r"
    using assms(2) by (auto simp: record_shown_def valid_record_def option.pred_set)
  have a: "table_shows aw_remediation (\<lambda>w a. \<exists>t. w = approval_to_row t (ap_remediation_id a) a) (db_approvals (tables_of c t r))
      (\<lambda>i. if i = rr_id r then rr_approval r else None)"
    using assms(2) by (auto simp: table_shows_def tables_of_def valid_record_def approval_valid_def split: option.splits)
  have x: "table_shows xw_remediation (\<lambda>w x. w = execution_to_row x) (db_executions (tables_of c t r))
      (\<lambda>i. if i = rr_id r then rr_execution r else None)"
    using assms(2) by (auto simp: table_shows_def tables_of_def valid_record_def split: option.splits)
  have v: "table_shows vw_remediation (\<lambda>w v. w = verification_to_row c v) (db_verifications (tables_of c t r))
      (\<lambda>i. if i = rr_id r then rr_verification r else None)"
    using assms(2) by (auto simp: table_shows_def tables_of_def valid_record_def split: option.splits)
  show "row_to_record c (tables_of c t r) (record_to_row c t r) = Inr r"
    by (rule row_reads_back [OF assms(1) shown a _ x _ v]) simp_all
qed












section \<open>A sample run\<close>

definition plain_codec :: "(policy_decision, recovery_check) sql_codec" where
  "plain_codec = \<lparr>sc_dump_decision = id, sc_read_decision = Inr, sc_dump_check = id, sc_read_check = (\<lambda>k. Some (Inr k))\<rparr>"

definition stored_scale :: rem_record where
  "stored_scale = \<lparr>rr_proposal = sample_scale\<lparr>pr_status := PENDING_APPROVAL\<rparr>,
     rr_decision = \<lparr>pd_outcome = ALLOW, pd_reason_codes = [POLICY_OK, APPROVAL_REQUIRED], pd_violations = [],
       pd_version = POLICY_VERSION, pd_evaluated_rules = [], pd_evaluated_at = 0\<rparr>,
     rr_approval = None, rr_execution = None, rr_verification = None\<rparr>"

definition created_scale :: audit_event where
  "created_scale = base_event sample_token sample_scale AE_PROPOSAL_CREATED 0 None"

lemma plain_codec_ok: "codec_ok plain_codec"
  by (simp add: codec_ok_def plain_codec_def)

lemma sample_scale_valid: "proposal_valid sample_scale"
  unfolding proposal_valid_def by code_simp

lemma created_scale_ok: "event_fields_ok created_scale \<and> \<not> sql_blank (ae_actor_id created_scale)"
  by code_simp

lemma stored_scale_valid: "valid_record stored_scale"
  using sample_scale_valid by (simp add: valid_record_def stored_scale_def)

theorem rows_roundtrip_witness:
  "row_to_record plain_codec (tables_of plain_codec 5 stored_scale) (record_to_row plain_codec 5 stored_scale) = Inr stored_scale \<and>
   row_to_audit (audit_to_row 1 5 created_scale) = Inr created_scale"
  by (rule rows_roundtrip [OF plain_codec_ok stored_scale_valid]) (simp add: created_scale_ok)




end
