(* ===== verification/Spec2Isabelle.thy ===== *)
theory Spec2Isabelle imports RemWitness DeliveryWitness DetProps RemSqlProps begin

text \<open>
  A verification development for SentinelOps AI, a pipeline of Python services.

  \<^bold>\<open>The program.\<close> The anomaly detector scrapes the metrics of a service, turns two scrapes into the signals of
  one window, scores them with a trained model and publishes an \<open>anomaly.detected\<close> event. The incident
  correlator consumes these events, groups them into incidents with a severity, a lifecycle and links along
  the service graph, and publishes \<open>incident.opened\<close>. The RCA agent consumes that, runs an investigation
  graph around a language model that may only call read-only evidence tools, and stores a report whose
  findings cite the evidence. The remediation controller maps a recommendation of a report to an action of a
  closed catalogue, decides on it with a policy engine, waits for a human approval, executes the action in a
  simulator, verifies the recovery and keeps an append-only audit trail. Every consumer runs the same
  consume loop of the shared library, with manual commits, bounded retries and dead letters.

  \<^bold>\<open>Conventions.\<close> A dataclass or Pydantic model is a \<open>record\<close>, an enumeration a \<open>datatype\<close> whose text is a
  \<open>*_str\<close> function, a dict an association list in insertion order, a set that is only searched a list or a
  set, a datetime an \<open>int\<close> of microseconds, a Python \<open>int\<close> an \<open>int\<close> or \<open>nat\<close>. Datetimes are aware and in UTC:
  the \<open>TypeError\<close> of a comparison with a naive one and other offsets in \<open>isoformat\<close> are outside the model. A
  float is an exact \<open>rat\<close>, without rounding, overflow and NaN (the special values are added where the code
  tells them apart). What a function raises is the left part of a sum;
  mutable state is passed explicitly. A handler that awaits its repository is the sequence of its
  transactions, so that other handlers can run between them; the interleavings are inductive step relations.
  Clocks, random identifiers, replies of HTTP services, JSON and Pydantic codecs, the broker, the language
  model and the trained detector are arguments; what is assumed of them is a named hypothesis of the
  theorem that needs it. Metrics, tracing and logging have no effect on the results and are left out.

  \<^bold>\<open>Shared layer.\<close>
  \<^item> \<open>Prelude\<close>: dicts, results, the locale of a lifecycle that only moves forward, which the remediation and
    the incident lifecycle interpret. \<open>PyText\<close>: the parts of
    \<open>str\<close>, \<open>re\<close>, rounding and number formatting that the services use.
  \<^item> \<open>KafkaConsumer\<close> (\<open>libs/sentinelops_common/kafka.py\<close>): the consume loop of one partition (\<open>session\<close>), with
    crashes between any two effects and restarts. A call of a handler can be cut in the middle: \<open>cuts\<close> lists
    the worlds a handler of several transactions can leave behind. \<open>record_fate\<close> says exactly how each record
    ends; the locales \<open>idempotent_handler\<close> and \<open>traced_handler\<close> state what a handler, cut or not, must provide
    so that redelivery is harmless.
  \<^item> \<open>Envelope\<close> (\<open>libs/sentinelops_common/events.py\<close>): the event envelope and the JSON producer.

  \<^bold>\<open>Anomaly detector\<close> (\<open>services/anomaly-detector\<close>, \<open>ml/data\<close>, \<open>ml/features\<close>, \<open>ml/inference\<close>).
  \<^item> \<open>DetSignals\<close>: one scrape (\<open>parse_metrics\<close>), the quantile estimate of a histogram, the signals of a window
    and their abnormal bands. Lemmas: bounds and order of the quantiles, range of every signal.
  \<^item> \<open>DetFeatures\<close>: the features of training and the bounded buffer of the stream; the two agree.
  \<^item> \<open>DetRunner\<close>, \<open>DetProps\<close>: window source, scoring, event, health statistics and the loop. Which window
    each scrape yields is exact, the counters account for every window, and the correlator reads what the
    detector writes.

  \<^bold>\<open>Incident correlator\<close> (\<open>services/incident-correlator\<close>).
  \<^item> \<open>IncDomain\<close>, \<open>Severity\<close>, \<open>Topology\<close>: signals, evidence, incidents, lifecycle table, severity rules,
    correlation decision, dependency graph. The severity engine equals a declarative specification.
  \<^item> \<open>IncRepository\<close>, \<open>Processor\<close>, \<open>IncCommit\<close>: the store, the unit of work that stages writes, one attempt,
    the retry loop and closed forms of what each outcome writes.
  \<^item> \<open>IncApi\<close>: the transition endpoint as two transactions and the step relation of processor and API.
  \<^item> \<open>IncSafety\<close>, \<open>IncProps\<close>, \<open>IncWitness\<close>: the store invariant over every interleaving (incidents are the
    summary of their evidence, links follow the graph, redelivery is a no-op); with guarded transitions at
    most one incident per key is active. \<open>IncWitness.stale_transition_reopens\<close> is the run that shows why the
    guard is needed.
  \<^item> \<open>IncDelivery\<close>: the handler inside the consume loop, from the topic to the store.

  \<^bold>\<open>RCA agent\<close> (\<open>services/rca-agent\<close>).
  \<^item> \<open>RcaPrometheus\<close>: the metrics parser over characters, and what it reads from a line of the format. \<open>RcaDomain\<close>: statuses, limits, evidence, reports
    and their validation. \<open>RcaAct\<close>: state-passing actions that may raise, with weakest preconditions.
  \<^item> \<open>RcaTools\<close>, \<open>RcaToolLaws\<close>: the ten tools and the contract they share. \<open>RcaSynthesis\<close>: the assembly of a
    report from what the model proposes.
  \<^item> \<open>RcaEngine\<close>, \<open>RcaRun\<close>: the seven nodes, the routes and the run of the graph. The recursion limit is the
    fuel of \<open>run_graph\<close>; \<open>graph_ends_within_bound\<close> proves that the graph ends by itself within the
    tool-call limit plus ten nodes, below the limit the code passes.
  \<^item> \<open>RcaService\<close>, \<open>RcaProps\<close>, \<open>RcaWitness\<close>, \<open>RcaDelivery\<close>: the repository of investigations, \<open>begin\<close> and
    \<open>run_to_completion\<close>, and their interleavings, up to the consume loop. A run is two transactions:
    \<open>RcaDelivery\<close> cuts it between them and lets each of them fail, and proves what is then left behind, a
    PENDING investigation that no redelivery finishes; without cuts and failures every one is finished.

  \<^bold>\<open>Remediation controller\<close> (\<open>services/remediation-controller\<close>).
  \<^item> \<open>RemDomain\<close>, \<open>Catalogue\<close>, \<open>Proposal\<close>, \<open>Policy\<close>: vocabulary, the closed action catalogue with parameter
    validation, the mapping of an RCA recommendation, the nine policy rules. Mapping and engine equal
    declarative specifications.
  \<^item> \<open>Executor\<close>, \<open>Recovery\<close>, \<open>Redaction\<close>, \<open>AuditTrail\<close>: the simulation, the bounded verifier, the redaction
    of audit data, the builders of audit events.
  \<^item> \<open>RemRepository\<close> (locale \<open>guarded_update\<close>, interpreted by each row-locked operation), \<open>RemService\<close>: the
    in-memory repository and every handler, whole and as its commits.
  \<^item> \<open>RemSql\<close>, \<open>RemSqlProps\<close> (\<open>db/models.py\<close>, \<open>db/repository.py\<close>): the five tables with their constraints and
    every operation as a transaction. Rows read back as their records, and the database refines the
    in-memory repository, so what is proved of the one holds of the other. Every text column of an
    enumeration is an interpretation of the locale \<open>enum_column\<close>.
  \<^item> \<open>RemSafety\<close>, \<open>RemProps\<close>, \<open>RemWitness\<close>: the invariant of the store over every interleaving: nothing is
    executed without an authorised approval, nothing is executed or verified twice, the audit trail replays
    to the status of the row.

  \<^bold>\<open>Fuel and bounds.\<close> Loops over data are structural. The verifier runs \<open>max_attempts\<close> polls, which the
  configuration derives from timeout and interval; the consume loop makes \<open>max_retries\<close> attempts; the retry
  loop of the processor has the attempts of its configuration. Runs of the system are lists or inductive
  relations of any length.

  \<^bold>\<open>Not modelled.\<close> HTTP routes other than the incident transitions, the SQL repositories of the correlator
  and of the RCA agent, settings and
  process wiring, authentication, logging and telemetry, the orders demo service and the gateway, training
  and evaluation of models (numeric code over libraries that are not under \<open>src/\<close>), the scripts.
\<close>

end
